(* ===== verification/Js_Prelude.thy ===== *)
theory Js_Prelude
  imports Complex_Main "HOL-Library.Multiset" "HOL-Library.Sublist" "HOL-Library.AList"
begin

text \<open>
  Shared vocabulary of the development: the JavaScript values and the built-in
  operations on strings, numbers and arrays that the front end under
  frontend/src uses (String, Number, trim, split, join, padStart, stable
  Array.prototype.sort, insertion-ordered Map), the result type for code that
  may throw, and the generic lemmas the component theories share.

  Strings are HOL strings (one character per code unit for the ASCII range the
  code inspects). Numbers are exact rationals with NaN and the infinities, so
  rounding of doubles is not modelled.
\<close>

named_theorems js_eval \<open>defining equations used to evaluate models on concrete inputs\<close>
named_theorems result_simps \<open>characterisations of the result monad\<close>

section \<open>Results\<close>

type_synonym ('e, 'a) result = "'e + 'a"

fun bind_r :: "('e, 'a) result \<Rightarrow> ('a \<Rightarrow> ('e, 'b) result) \<Rightarrow> ('e, 'b) result" where
  "bind_r (Inl e) f = Inl e"
| "bind_r (Inr a) f = f a"

fun map_r :: "('a \<Rightarrow> 'b) \<Rightarrow> ('e, 'a) result \<Rightarrow> ('e, 'b) result" where
  "map_r f (Inl e) = Inl e"
| "map_r f (Inr a) = Inr (f a)"

definition or_else :: "'a option \<Rightarrow> 'a \<Rightarrow> 'a" where
  "or_else x d = (case x of None \<Rightarrow> d | Some y \<Rightarrow> y)"

lemma bind_r_eq_Inr [result_simps]:
  "bind_r m f = Inr b \<longleftrightarrow> (\<exists>a. m = Inr a \<and> f a = Inr b)"
  by (cases m) auto

lemma bind_r_eq_Inl [result_simps]:
  "bind_r m f = Inl e \<longleftrightarrow> m = Inl e \<or> (\<exists>a. m = Inr a \<and> f a = Inl e)"
  by (cases m) auto

lemma map_r_eq_Inr [result_simps]: "map_r f m = Inr b \<longleftrightarrow> (\<exists>a. m = Inr a \<and> b = f a)"
  by (cases m) auto

lemma map_r_eq_Inl [result_simps]: "map_r f m = Inl e \<longleftrightarrow> m = Inl e"
  by (cases m) auto

lemma or_else_simps [simp]: "or_else None d = d" "or_else (Some x) d = x"
  by (simp_all add: or_else_def)

section \<open>JavaScript values\<close>

datatype jnum = Fin rat | NaN | Inf bool

datatype js =
    JUndef
  | JNull
  | JBool bool
  | JNum jnum
  | JStr string
  | JArr "js list"
  | JObj "(string \<times> js) list"

definition is_finite :: "jnum \<Rightarrow> bool" where
  "is_finite n = (case n of Fin _ \<Rightarrow> True | _ \<Rightarrow> False)"

lemma is_finite_simps [simp]: "is_finite (Fin r)" "\<not> is_finite NaN" "\<not> is_finite (Inf b)"
  by (simp_all add: is_finite_def)

abbreviation JInt :: "int \<Rightarrow> js" where
  "JInt i \<equiv> JNum (Fin (of_int i))"

fun truthy :: "js \<Rightarrow> bool" where
  "truthy JUndef = False"
| "truthy JNull = False"
| "truthy (JBool b) = b"
| "truthy (JNum n) = (n \<noteq> Fin 0 \<and> n \<noteq> NaN)"
| "truthy (JStr s) = (s \<noteq> [])"
| "truthy (JArr _) = True"
| "truthy (JObj _) = True"

fun is_nullish :: "js \<Rightarrow> bool" where
  "is_nullish JUndef = True"
| "is_nullish JNull = True"
| "is_nullish _ = False"

text \<open>Property read of a plain object; an absent key reads as undefined.\<close>

fun js_get :: "string \<Rightarrow> js \<Rightarrow> js" where
  "js_get k (JObj fs) = or_else (map_of fs k) JUndef"
| "js_get _ _ = JUndef"

section \<open>Strings\<close>

definition digit_chars :: string where
  "digit_chars = ''0123456789''"

definition is_digit :: "char \<Rightarrow> bool" where
  "is_digit c \<longleftrightarrow> c \<in> set digit_chars"

definition js_ws :: "char \<Rightarrow> bool" where
  "js_ws c \<longleftrightarrow> c \<in> {CHR 0x20, CHR 0x09, CHR 0x0A, CHR 0x0B, CHR 0x0C, CHR 0x0D}"

definition trim :: "string \<Rightarrow> string" where
  "trim s = rev (dropWhile js_ws (rev (dropWhile js_ws s)))"

definition starts_with :: "string \<Rightarrow> string \<Rightarrow> bool" where
  "starts_with s p \<longleftrightarrow> take (length p) s = p"

fun contains_str :: "string \<Rightarrow> string \<Rightarrow> bool" where
  "contains_str [] p = (p = [])"
| "contains_str (c # cs) p = (starts_with (c # cs) p \<or> contains_str cs p)"

text \<open>\<^verbatim>\<open>s.slice(-n)\<close> for a positive n, and \<^verbatim>\<open>s.split(c)\<close> at a one-character separator.\<close>

definition slice_last :: "nat \<Rightarrow> string \<Rightarrow> string" where
  "slice_last n s = drop (length s - n) s"

fun split_on :: "char \<Rightarrow> string \<Rightarrow> string list" where
  "split_on d [] = [[]]"
| "split_on d (c # cs) =
     (if c = d then [] # split_on d cs
      else (case split_on d cs of [] \<Rightarrow> [[c]] | w # ws \<Rightarrow> (c # w) # ws))"

fun join_with :: "string \<Rightarrow> string list \<Rightarrow> string" where
  "join_with d [] = []"
| "join_with d [w] = w"
| "join_with d (w # v # ws) = w @ d @ join_with d (v # ws)"

definition pad_start :: "nat \<Rightarrow> char \<Rightarrow> string \<Rightarrow> string" where
  "pad_start n c s = replicate (n - length s) c @ s"

definition lower_chars :: string where
  "lower_chars = ''abcdefghijklmnopqrstuvwxyz''"

definition upper_chars :: string where
  "upper_chars = ''ABCDEFGHIJKLMNOPQRSTUVWXYZ''"

definition to_lower :: "string \<Rightarrow> string" where
  "to_lower s = List.map (\<lambda>c. or_else (map_of (zip upper_chars lower_chars) c) c) s"

definition to_upper :: "string \<Rightarrow> string" where
  "to_upper s = List.map (\<lambda>c. or_else (map_of (zip lower_chars upper_chars) c) c) s"

lemmas js_string_defs [js_eval] =
  digit_chars_def is_digit_def js_ws_def trim_def starts_with_def slice_last_def pad_start_def
  lower_chars_def upper_chars_def to_lower_def to_upper_def

lemma starts_with_append [simp]: "starts_with (p @ s) p"
  by (simp add: starts_with_def)

lemma starts_with_iff: "starts_with s p \<longleftrightarrow> (\<exists>t. s = p @ t)"
  unfolding starts_with_def by (metis append_eq_conv_conj append_take_drop_id)

lemma slice_last_length: "length (slice_last n s) = min n (length s)"
  by (simp add: slice_last_def)

lemma split_on_not_Nil [simp]: "split_on d s \<noteq> []"
  by (induction s) (auto split: list.splits)

lemma split_on_no_sep: "d \<notin> set w \<Longrightarrow> split_on d w = [w]"
  by (induction w) auto

lemma split_on_append:
  "d \<notin> set w \<Longrightarrow> split_on d (w @ d # s) = w # split_on d s"
  by (induction w) (auto split: list.splits)

lemma split_on_elem_no_sep: "w \<in> set (split_on d s) \<Longrightarrow> d \<notin> set w"
proof (induction s arbitrary: w)
  case (Cons c cs)
  then show ?case
    by (cases "split_on d cs") (fastforce split: if_splits)+
qed simp

lemma split_join:
  assumes "ws \<noteq> []" "\<forall>w \<in> set ws. d \<notin> set w"
  shows "split_on d (join_with [d] ws) = ws"
  using assms
proof (induction ws rule: induct_list012)
  case (3 w v ws)
  then show ?case by (simp add: split_on_append)
qed (auto simp: split_on_no_sep)

lemma join_split: "join_with [d] (split_on d s) = s"
proof (induction s)
  case (Cons c cs)
  show ?case
  proof (cases "split_on d cs")
    case (Cons w ws)
    with Cons.IH show ?thesis by (cases ws) auto
  qed simp
qed simp

lemma dropWhile_none: "(\<forall>c \<in> set s. \<not> P c) \<Longrightarrow> dropWhile P s = s"
  by (cases s) auto

lemma trim_Nil [simp]: "trim [] = []"
  by (simp add: trim_def)

lemma trim_no_ws: "(\<forall>c \<in> set s. \<not> js_ws c) \<Longrightarrow> trim s = s"
  by (simp add: trim_def dropWhile_none)

lemma trim_set: "set (trim s) \<subseteq> set s"
  unfolding trim_def by (metis (no_types, opaque_lifting) set_dropWhileD set_rev subsetI)

lemma dropWhile_snoc_hd:
  "xs \<noteq> [] \<Longrightarrow> \<not> P (hd xs) \<Longrightarrow> dropWhile P xs = xs"
  by (cases xs) auto

lemma trim_edges:
  assumes "trim s \<noteq> []"
  shows "\<not> js_ws (hd (trim s)) \<and> \<not> js_ws (last (trim s))"
proof -
  let ?a = "dropWhile js_ws s"
  have l: "\<not> js_ws (last (trim s))"
    using assms hd_dropWhile[of js_ws "rev ?a"] by (simp add: trim_def last_rev)
  obtain z where z: "?a = trim s @ z"
    unfolding trim_def by (metis rev_append rev_rev_ident takeWhile_dropWhile_id)
  then have "?a \<noteq> []" "hd ?a = hd (trim s)" using assms by auto
  then show ?thesis using l hd_dropWhile[of js_ws s] by simp
qed

lemma trim_idem [simp]: "trim (trim s) = trim s"
proof (cases "trim s = []")
  case False
  with trim_edges[OF False]
  have "dropWhile js_ws (trim s) = trim s"
    "dropWhile js_ws (rev (trim s)) = rev (trim s)"
    by (simp_all add: dropWhile_snoc_hd hd_rev)
  then show ?thesis by (simp add: trim_def[of "trim s"])
qed simp

lemma pad_start_length: "length (pad_start n c s) = max n (length s)"
  by (simp add: pad_start_def)

section \<open>Numbers and their text\<close>

definition digit_of :: "nat \<Rightarrow> char" where
  "digit_of n = digit_chars ! (n mod 10)"

fun show_nat :: "nat \<Rightarrow> string" where
  "show_nat n = (if n < 10 then [digit_of n] else show_nat (n div 10) @ [digit_of n])"

declare show_nat.simps [simp del]

definition show_int :: "int \<Rightarrow> string" where
  "show_int i = (if i < 0 then CHR ''-'' # show_nat (nat (- i)) else show_nat (nat i))"

definition digit_val :: "char \<Rightarrow> nat" where
  "digit_val c = length (takeWhile (\<lambda>d. d \<noteq> c) digit_chars)"

definition nat_of_digits :: "string \<Rightarrow> nat" where
  "nat_of_digits s = foldl (\<lambda>a c. 10 * a + digit_val c) 0 s"

definition all_digits :: "string \<Rightarrow> bool" where
  "all_digits s \<longleftrightarrow> s \<noteq> [] \<and> list_all is_digit s"

text \<open>The unsigned decimal literals Number accepts, digits with an optional fraction.\<close>

definition unsigned_literal :: "string \<Rightarrow> jnum" where
  "unsigned_literal s =
     (case split_on (CHR ''.'') s of
        [w] \<Rightarrow> if all_digits w then Fin (of_nat (nat_of_digits w)) else NaN
      | [w, f] \<Rightarrow>
          if list_all is_digit w \<and> list_all is_digit f \<and> (w \<noteq> [] \<or> f \<noteq> [])
          then Fin (of_nat (nat_of_digits w) + of_nat (nat_of_digits f) / 10 ^ length f)
          else NaN
      | _ \<Rightarrow> NaN)"

fun neg_num :: "jnum \<Rightarrow> jnum" where
  "neg_num (Fin r) = Fin (- r)"
| "neg_num NaN = NaN"
| "neg_num (Inf b) = Inf (\<not> b)"

definition signed_literal :: "string \<Rightarrow> jnum" where
  "signed_literal s =
     (case s of
        [] \<Rightarrow> NaN
      | c # cs \<Rightarrow>
          if c = CHR ''-'' then (if cs = ''Infinity'' then Inf False else neg_num (unsigned_literal cs))
          else if c = CHR ''+'' then (if cs = ''Infinity'' then Inf True else unsigned_literal cs)
          else if s = ''Infinity'' then Inf True
          else unsigned_literal s)"

text \<open>
  \<^verbatim>\<open>Number(s)\<close> on the decimal grammar without exponents or radix
  prefixes: the texts the program feeds to it are trimmed form inputs and the
  stored expiry, which it wrote with String. The empty text is 0.
\<close>

definition to_number :: "string \<Rightarrow> jnum" where
  "to_number s = (let t = trim s in if t = [] then Fin 0 else signed_literal t)"

lemmas js_number_defs [js_eval] =
  digit_of_def show_int_def digit_val_def nat_of_digits_def all_digits_def unsigned_literal_def
  signed_literal_def to_number_def

lemma all_less_10: "(n::nat) < 10 \<Longrightarrow> n \<in> {0,1,2,3,4,5,6,7,8,9}"
  by auto

lemma digit_of_is_digit [simp]: "is_digit (digit_of n)"
proof -
  have "n mod 10 < length digit_chars" by (simp add: digit_chars_def)
  then show ?thesis by (simp add: is_digit_def digit_of_def)
qed

lemma digit_val_of [simp]: "n < 10 \<Longrightarrow> digit_val (digit_of n) = n"
  using all_less_10[of n] by (auto simp: digit_val_def digit_of_def digit_chars_def)

lemma digit_val_mod [simp]: "digit_val (digit_of n) = n mod 10"
  using digit_val_of[of "n mod 10"] by (simp add: digit_of_def)

lemma show_nat_not_Nil [simp]: "show_nat n \<noteq> []"
  by (subst show_nat.simps) simp

lemma show_nat_digits: "list_all is_digit (show_nat n)"
  by (induction n rule: show_nat.induct) (subst show_nat.simps, simp)

lemma all_digits_show_nat [simp]: "all_digits (show_nat n)"
  by (simp add: all_digits_def show_nat_digits)

lemma nat_of_digits_snoc: "nat_of_digits (s @ [c]) = 10 * nat_of_digits s + digit_val c"
  by (simp add: nat_of_digits_def)

lemma nat_of_digits_show [simp]: "nat_of_digits (show_nat n) = n"
proof (induction n rule: show_nat.induct)
  case (1 n)
  show ?case
  proof (cases "n < 10")
    case True
    then show ?thesis by (subst show_nat.simps) (simp add: nat_of_digits_def)
  next
    case False
    with 1 show ?thesis by (subst show_nat.simps) (simp add: nat_of_digits_snoc)
  qed
qed

lemma show_nat_inj [simp]: "show_nat m = show_nat n \<longleftrightarrow> m = n"
  by (metis nat_of_digits_show)

lemma is_digit_not_special:
  assumes "is_digit c"
  shows "\<not> js_ws c" "c \<noteq> CHR ''-''" "c \<noteq> CHR ''+''" "c \<noteq> CHR ''.''" "c \<noteq> CHR ''I''" "c \<noteq> CHR '',''"
  using assms by (auto simp: is_digit_def digit_chars_def js_ws_def)

lemma show_nat_set: "c \<in> set (show_nat n) \<Longrightarrow> is_digit c"
  using show_nat_digits[of n] by (simp add: list_all_iff)

lemma show_nat_hd: "is_digit (hd (show_nat n))"
  using show_nat_set[of "hd (show_nat n)" n] by simp

lemma show_int_set: "c \<in> set (show_int i) \<Longrightarrow> is_digit c \<or> c = CHR ''-''"
  by (auto simp: show_int_def dest: show_nat_set split: if_splits)

lemma show_int_no_ws: "\<forall>c \<in> set (show_int i). \<not> js_ws c"
  using show_int_set is_digit_not_special(1) by (fastforce simp: js_ws_def)

lemma show_int_not_Nil [simp]: "show_int i \<noteq> []"
  by (simp add: show_int_def)

lemma unsigned_literal_show [simp]: "unsigned_literal (show_nat n) = Fin (of_nat n)"
proof -
  have "CHR ''.'' \<notin> set (show_nat n)"
    using show_nat_set is_digit_not_special by blast
  then show ?thesis by (simp add: unsigned_literal_def split_on_no_sep)
qed

lemma signed_literal_show_nat: "signed_literal (show_nat n) = Fin (of_nat n)"
proof (cases "show_nat n")
  case (Cons c cs)
  then have d: "is_digit c" using show_nat_set[of c n] by simp
  have "show_nat n \<noteq> ''Infinity''"
  proof
    assume "show_nat n = ''Infinity''"
    then have "c = CHR ''I''" using Cons by simp
    with d show False using is_digit_not_special by blast
  qed
  then show ?thesis
    using Cons is_digit_not_special[OF d] unsigned_literal_show[of n] by (simp add: signed_literal_def)
qed simp

lemma number_show_int [simp]: "to_number (show_int i) = Fin (of_int i)"
proof -
  have t: "trim (show_int i) = show_int i" using show_int_no_ws by (rule trim_no_ws)
  show ?thesis
  proof (cases "i < 0")
    case True
    have "show_nat (nat (- i)) \<noteq> ''Infinity''"
      using show_nat_hd[of "nat (- i)"] by (auto simp: is_digit_def digit_chars_def)
    moreover have "neg_num (Fin (of_nat (nat (- i)))) = Fin (of_int i)" using True by simp
    ultimately show ?thesis
      using True unfolding to_number_def t by (simp add: signed_literal_def show_int_def)
  next
    case False
    then show ?thesis unfolding to_number_def t
      by (simp add: show_int_def signed_literal_show_nat)
  qed
qed

lemma show_int_inj [simp]: "show_int i = show_int j \<longleftrightarrow> i = j"
  by (metis number_show_int jnum.inject of_int_eq_iff)

lemma sum_list_bounded:
  fixes f :: "'a \<Rightarrow> nat"
  assumes "\<And>x. f x \<le> k"
  shows "sum_list (map f xs) \<le> k * length xs"
proof (induction xs)
  case (Cons x xs)
  then show ?case using assms[of x] by simp
qed simp

lemma all2_left: "list_all2 P xs ys \<Longrightarrow> x \<in> set xs \<Longrightarrow> \<exists>y \<in> set ys. P x y"
  by (induction rule: list_all2_induct) auto

lemma all2_right: "list_all2 P xs ys \<Longrightarrow> y \<in> set ys \<Longrightarrow> \<exists>x \<in> set xs. P x y"
  by (induction rule: list_all2_induct) auto

end
