(* ===== verification/Js_Array.thy ===== *)
theory Js_Array
  imports Js_Prelude
begin

text \<open>
  Array operations whose contract several components rely on. The interface
  comparator states what Array.prototype.sort asks of its callback; the
  lemmas inside it give what a stable sort then promises. The comparators of
  the components (numeric keys, lexicographic chains, reversals) interpret it
  in their own theories. Also here: the element move used by the drag lists.
\<close>

fun sort_insert :: "('a \<Rightarrow> 'a \<Rightarrow> int) \<Rightarrow> 'a \<Rightarrow> 'a list \<Rightarrow> 'a list" where
  "sort_insert cmp x [] = [x]"
| "sort_insert cmp x (y # ys) = (if cmp x y \<le> 0 then x # y # ys else y # sort_insert cmp x ys)"

definition js_sort :: "('a \<Rightarrow> 'a \<Rightarrow> int) \<Rightarrow> 'a list \<Rightarrow> 'a list" where
  "js_sort cmp xs = foldr (sort_insert cmp) xs []"

lemma js_sort_simps [simp]:
  "js_sort cmp [] = []"
  "js_sort cmp (x # xs) = sort_insert cmp x (js_sort cmp xs)"
  by (simp_all add: js_sort_def)

lemma mset_sort_insert [simp]: "mset (sort_insert cmp x ys) = add_mset x (mset ys)"
  by (induction ys) auto

lemma set_sort_insert [simp]: "set (sort_insert cmp x ys) = insert x (set ys)"
  by (induction ys) auto

lemma mset_js_sort [simp]: "mset (js_sort cmp xs) = mset xs"
  by (induction xs) auto

lemma set_js_sort [simp]: "set (js_sort cmp xs) = set xs"
  by (metis mset_js_sort set_mset_mset)

lemma length_js_sort [simp]: "length (js_sort cmp xs) = length xs"
  by (metis mset_js_sort size_mset)

locale comparator =
  fixes cmp :: "'a \<Rightarrow> 'a \<Rightarrow> int"
  assumes anti: "sgn (cmp x y) = - sgn (cmp y x)"
    and trans: "cmp x y \<le> 0 \<Longrightarrow> cmp y z \<le> 0 \<Longrightarrow> cmp x z \<le> 0"
begin

lemma total: "cmp x y \<le> 0 \<or> cmp y x \<le> 0"
  using anti[of x y] by (auto simp: sgn_if split: if_splits)

lemma refl_zero: "cmp x x = 0"
  using anti[of x x] by (simp add: sgn_if split: if_splits)

lemma zero_sym: "cmp x y = 0 \<longleftrightarrow> cmp y x = 0"
  using anti[of x y] by (auto simp: sgn_if split: if_splits)

lemma zero_iff: "cmp x y = 0 \<longleftrightarrow> cmp x y \<le> 0 \<and> cmp y x \<le> 0"
  using anti[of x y] by (auto simp: sgn_if split: if_splits)

lemma zero_trans: "cmp x y = 0 \<Longrightarrow> cmp y z = 0 \<Longrightarrow> cmp x z = 0"
  unfolding zero_iff using trans by blast

lemma sorted_sort_insert:
  "sorted_wrt (\<lambda>x y. cmp x y \<le> 0) ys \<Longrightarrow> sorted_wrt (\<lambda>x y. cmp x y \<le> 0) (sort_insert cmp x ys)"
proof (induction ys)
  case (Cons y ys)
  then show ?case using total[of x y] trans[of x y] by auto
qed simp

lemma sorted_js_sort: "sorted_wrt (\<lambda>x y. cmp x y \<le> 0) (js_sort cmp xs)"
  by (induction xs) (auto simp: sorted_sort_insert)

lemma filter_sort_insert:
  "filter (\<lambda>y. cmp z y = 0) (sort_insert cmp x ys) =
     (if cmp z x = 0 then x # filter (\<lambda>y. cmp z y = 0) ys else filter (\<lambda>y. cmp z y = 0) ys)"
proof (induction ys)
  case (Cons y ys)
  have "cmp x y \<le> 0" if "cmp z x = 0" "cmp z y = 0"
    using zero_trans[of x z y] zero_sym[of x z] that by simp
  with Cons show ?case by auto
qed simp

text \<open>Elements the comparator does not separate keep their order.\<close>

lemma js_sort_stable: "filter (\<lambda>y. cmp z y = 0) (js_sort cmp xs) = filter (\<lambda>y. cmp z y = 0) xs"
  by (induction xs) (auto simp: filter_sort_insert)

end

text \<open>The comparators the code builds: a key difference, its reversal, and a chain joined by \<^verbatim>\<open>||\<close>.\<close>

definition by_key :: "('a \<Rightarrow> int) \<Rightarrow> 'a \<Rightarrow> 'a \<Rightarrow> int" where
  "by_key f a b = f a - f b"

definition by_key_desc :: "('a \<Rightarrow> int) \<Rightarrow> 'a \<Rightarrow> 'a \<Rightarrow> int" where
  "by_key_desc f a b = f b - f a"

definition cmp_then :: "('a \<Rightarrow> 'a \<Rightarrow> int) \<Rightarrow> ('a \<Rightarrow> 'a \<Rightarrow> int) \<Rightarrow> 'a \<Rightarrow> 'a \<Rightarrow> int" where
  "cmp_then c1 c2 a b = (if c1 a b \<noteq> 0 then c1 a b else c2 a b)"

lemma comparator_by_key: "comparator (by_key f)"
  by unfold_locales (auto simp: by_key_def sgn_if)

lemma comparator_by_key_desc: "comparator (by_key_desc f)"
  by unfold_locales (auto simp: by_key_desc_def sgn_if)

lemma comparator_then:
  assumes "comparator c1" "comparator c2"
  shows "comparator (cmp_then c1 c2)"
proof -
  note z = comparator.zero_sym[OF assms(1)] comparator.zero_trans[OF assms(1)]
    comparator.zero_iff[OF assms(1)] comparator.trans[OF assms(1)]
  show ?thesis
  proof
    fix x y show "sgn (cmp_then c1 c2 x y) = - sgn (cmp_then c1 c2 y x)"
      using comparator.anti[OF assms(1), of x y] comparator.anti[OF assms(2), of x y] z(1)[of x y]
      by (auto simp: cmp_then_def)
  next
    fix x y w
    assume a: "cmp_then c1 c2 x y \<le> 0" "cmp_then c1 c2 y w \<le> 0"
    have b: "c1 x y \<le> 0" "c1 y w \<le> 0" using a by (auto simp: cmp_then_def split: if_splits)
    have c: "c1 x w \<le> 0" using b z(4) by blast
    show "cmp_then c1 c2 x w \<le> 0"
    proof (cases "c1 x w = 0")
      case True
      then have "c1 w x \<le> 0" using z(3) by blast
      with b have "c1 y x \<le> 0" "c1 w y \<le> 0" using z(4) by blast+
      with b have "c1 x y = 0" "c1 y w = 0" using z(3) by auto
      with a True show ?thesis
        using comparator.trans[OF assms(2), of x y w] by (simp add: cmp_then_def)
    qed (simp add: cmp_then_def c)
  qed
qed

interpretation key_asc: comparator "by_key f" for f
  by (rule comparator_by_key)

interpretation key_desc: comparator "by_key_desc f" for f
  by (rule comparator_by_key_desc)

text \<open>The elements of an array; the code only asks them of values a schema has accepted as arrays.\<close>

fun js_list :: "js \<Rightarrow> js list" where
  "js_list (JArr xs) = xs"
| "js_list _ = []"

text \<open>The difference of two numbers that a schema has accepted.\<close>

definition js_rat :: "js \<Rightarrow> rat" where
  "js_rat v = (case v of JNum (Fin r) \<Rightarrow> r | _ \<Rightarrow> 0)"

definition by_num :: "('a \<Rightarrow> js) \<Rightarrow> 'a \<Rightarrow> 'a \<Rightarrow> int" where
  "by_num f a b =
     (if js_rat (f a) < js_rat (f b) then -1 else if js_rat (f a) = js_rat (f b) then 0 else 1)"

lemma js_rat_simps [simp]: "js_rat (JNum (Fin r)) = r"
  by (simp add: js_rat_def)

lemma comparator_by_num: "comparator (by_num f)"
  by unfold_locales (auto simp: by_num_def sgn_if split: if_splits)

lemma by_num_le: "by_num f a b \<le> 0 \<longleftrightarrow> js_rat (f a) \<le> js_rat (f b)"
  by (auto simp: by_num_def)

lemma cmp_then_le: "cmp_then c1 c2 a b \<le> 0 \<Longrightarrow> c1 a b \<le> 0"
  by (auto simp: cmp_then_def split: if_splits)

section \<open>Positions\<close>

text \<open>\<^verbatim>\<open>xs.splice(i, 1)\<close> then \<^verbatim>\<open>xs.splice(j, 0, x)\<close>, the move of a drag list.\<close>

definition remove_at :: "nat \<Rightarrow> 'a list \<Rightarrow> 'a list" where
  "remove_at i xs = take i xs @ drop (Suc i) xs"

definition insert_at :: "nat \<Rightarrow> 'a \<Rightarrow> 'a list \<Rightarrow> 'a list" where
  "insert_at j x xs = take j xs @ x # drop j xs"

definition move_item :: "nat \<Rightarrow> nat \<Rightarrow> 'a list \<Rightarrow> 'a list" where
  "move_item i j xs = insert_at j (xs ! i) (remove_at i xs)"

lemma mset_remove_at: "i < length xs \<Longrightarrow> add_mset (xs ! i) (mset (remove_at i xs)) = mset xs"
  unfolding remove_at_def
  by (metis id_take_nth_drop mset.simps(2) mset_append union_mset_add_mset_right)

lemma mset_insert_at [simp]: "mset (insert_at j x xs) = add_mset x (mset xs)"
  unfolding insert_at_def
  by (metis append_take_drop_id mset.simps(2) mset_append union_mset_add_mset_right)

lemma mset_move_item: "i < length xs \<Longrightarrow> mset (move_item i j xs) = mset xs"
  by (simp add: move_item_def mset_remove_at)

lemma length_remove_at: "i < length xs \<Longrightarrow> length (remove_at i xs) = length xs - 1"
  by (simp add: remove_at_def)

lemma set_remove_at: "set (remove_at i xs) \<subseteq> set xs"
  by (auto simp: remove_at_def dest: in_set_takeD in_set_dropD)

section \<open>Keys of an insertion-ordered Map\<close>

lemma distinct_keys_update:
  "distinct (map fst m) \<Longrightarrow> distinct (map fst (AList.update k v m))"
  by (simp add: distinct_update)

lemma sum_list_filter_split:
  "sum_list (map f (filter P xs)) + sum_list (map f (filter (\<lambda>x. \<not> P x) xs))
   = sum_list (map f xs)" for f :: "'a \<Rightarrow> nat"
  by (induction xs) auto

end
