(* ===== verification/Access_Control.thy ===== *)
theory Access_Control
  imports Js_Prelude
begin

text \<open>
  Who may see what: the roles and the permission map of core/auth/types, the
  capability hook core/auth/usePermissions, the role normalisation of the
  session provider, the client guards (core/auth/hooks, ProtectedRoute of
  modules/auth, the guards of the pages under app/(portal)), the sidebar of
  modules/common, the edge redirect of proxy.ts, and the destination after a
  login (modules/auth LoginForm). The lemmas relate the guards to the map, the
  sidebar to the guards, and the redirect target to the page that was left.
\<close>

section \<open>Roles and the permission map\<close>

datatype user_role = SUPER_ADMIN | ADMIN | ORGANIZATION | FEDERATION | GUEST

fun role_value :: "user_role \<Rightarrow> string" where
  "role_value SUPER_ADMIN = ''super_admin''"
| "role_value ADMIN = ''admin''"
| "role_value ORGANIZATION = ''organization''"
| "role_value FEDERATION = ''federation''"
| "role_value GUEST = ''GUEST''"

definition all_roles :: "user_role list" where
  "all_roles = [SUPER_ADMIN, ADMIN, ORGANIZATION, FEDERATION, GUEST]"

text \<open>
  The role string of the backend is looked up among the enum values; anything
  else becomes the guest role. The second component says whether the unknown
  role was logged.
\<close>

definition normalizeRole :: "string \<Rightarrow> user_role \<times> bool" where
  "normalizeRole raw =
     (case find (\<lambda>r. role_value r = raw) all_roles of
        Some r \<Rightarrow> (r, False)
      | None \<Rightarrow> (GUEST, True))"

datatype feature_key =
    Fdashboard | Fevents | Fsports | Forganizations | Fbycategory | Fusers | Fbysport
  | Fbynumber | Fopensurvey | Fregister | Fleaderregistration | Fregistrations
  | Fparticipation | Freports | Fcards | Forganizerregistration | Forganizerroles
  | Fsportsubmissions | Fcategorysubmissions | Fimport

fun FEATURE_ACCESS :: "feature_key \<Rightarrow> user_role list" where
  "FEATURE_ACCESS Fdashboard = [SUPER_ADMIN, ADMIN, ORGANIZATION, FEDERATION]"
| "FEATURE_ACCESS Fevents = [SUPER_ADMIN, ADMIN, ORGANIZATION, FEDERATION]"
| "FEATURE_ACCESS Fsports = [SUPER_ADMIN, ADMIN, FEDERATION]"
| "FEATURE_ACCESS Forganizations = [SUPER_ADMIN, ADMIN]"
| "FEATURE_ACCESS Fusers = [SUPER_ADMIN]"
| "FEATURE_ACCESS Fbycategory = [SUPER_ADMIN, ADMIN, FEDERATION]"
| "FEATURE_ACCESS Fbysport = [SUPER_ADMIN, ADMIN, ORGANIZATION]"
| "FEATURE_ACCESS Fbynumber = [SUPER_ADMIN, ADMIN, ORGANIZATION]"
| "FEATURE_ACCESS Fopensurvey = [SUPER_ADMIN, ADMIN, ORGANIZATION]"
| "FEATURE_ACCESS Fregister = [SUPER_ADMIN, ADMIN, ORGANIZATION]"
| "FEATURE_ACCESS Fleaderregistration = [SUPER_ADMIN, ADMIN, ORGANIZATION]"
| "FEATURE_ACCESS Fregistrations = [SUPER_ADMIN, ADMIN, ORGANIZATION]"
| "FEATURE_ACCESS Fparticipation = [SUPER_ADMIN, ADMIN, ORGANIZATION]"
| "FEATURE_ACCESS Freports = [SUPER_ADMIN, ADMIN, ORGANIZATION]"
| "FEATURE_ACCESS Fcards = [SUPER_ADMIN, ADMIN, ORGANIZATION]"
| "FEATURE_ACCESS Forganizerregistration = [SUPER_ADMIN, ADMIN, ORGANIZATION]"
| "FEATURE_ACCESS Forganizerroles = [SUPER_ADMIN, ADMIN]"
| "FEATURE_ACCESS Fsportsubmissions = [SUPER_ADMIN, ADMIN]"
| "FEATURE_ACCESS Fcategorysubmissions = [SUPER_ADMIN, ADMIN]"
| "FEATURE_ACCESS Fimport = [SUPER_ADMIN, ADMIN, ORGANIZATION]"

datatype capability = CROSS_ORG_ADMIN | REVEAL_PII

fun CAPABILITY_ROLES :: "capability \<Rightarrow> user_role list" where
  "CAPABILITY_ROLES CROSS_ORG_ADMIN = [SUPER_ADMIN, ADMIN]"
| "CAPABILITY_ROLES REVEAL_PII = [SUPER_ADMIN, ADMIN]"

definition can_cap :: "user_role option \<Rightarrow> capability \<Rightarrow> bool" where
  "can_cap role c = (case role of None \<Rightarrow> False | Some r \<Rightarrow> r \<in> set (CAPABILITY_ROLES c))"

text \<open>The provider's hasRole takes one role or a list of them.\<close>

fun hasRole :: "user_role option \<Rightarrow> user_role + user_role list \<Rightarrow> bool" where
  "hasRole None _ = False"
| "hasRole (Some r) (Inl q) = (r = q)"
| "hasRole (Some r) (Inr qs) = (r \<in> set qs)"

definition canAccess :: "user_role option \<Rightarrow> user_role list \<Rightarrow> bool" where
  "canAccess role required = (case role of None \<Rightarrow> False | Some r \<Rightarrow> r \<in> set required)"

fun ROLE_DEFAULT_ROUTE :: "user_role \<Rightarrow> string" where
  "ROLE_DEFAULT_ROUTE SUPER_ADMIN = ''/dashboard''"
| "ROLE_DEFAULT_ROUTE ADMIN = ''/dashboard''"
| "ROLE_DEFAULT_ROUTE ORGANIZATION = ''/dashboard''"
| "ROLE_DEFAULT_ROUTE FEDERATION = ''/by-category''"
| "ROLE_DEFAULT_ROUTE GUEST = ''/register''"

lemma normalizeRole_known: "fst (normalizeRole (role_value r)) = r"
  by (cases r) (simp_all add: normalizeRole_def all_roles_def)

lemma normalizeRole_unknown:
  assumes "raw \<notin> role_value ` set all_roles"
  shows "normalizeRole raw = (GUEST, True)"
proof -
  have "find (\<lambda>r. role_value r = raw) all_roles = None"
    using assms by (auto simp: find_None_iff)
  then show ?thesis by (simp add: normalizeRole_def)
qed

lemma hasRole_list: "hasRole role (Inr qs) = canAccess role qs"
  by (cases role) (simp_all add: canAccess_def)

section \<open>Percent encoding of a return URL\<close>

definition unreserved_chars :: string where
  "unreserved_chars = lower_chars @ upper_chars @ digit_chars @ ''-_.!~*'' @ [CHR 0x27] @ ''()''"

definition hex_digits :: string where
  "hex_digits = ''0123456789ABCDEF''"

definition hex_byte :: "char \<Rightarrow> string" where
  "hex_byte c = (let n = of_char c :: nat in [hex_digits ! (n div 16), hex_digits ! (n mod 16)])"

definition encodeURIComponent :: "string \<Rightarrow> string" where
  "encodeURIComponent s =
     concat (List.map (\<lambda>c. if c \<in> set unreserved_chars then [c] else CHR ''%'' # hex_byte c) s)"

definition hex_val :: "char \<Rightarrow> nat option" where
  "hex_val c = map_of (zip (hex_digits @ ''abcdef'') ([0..<16] @ [10..<16])) c"

text \<open>None is the URIError of a malformed escape.\<close>

fun decodeURIComponent :: "string \<Rightarrow> string option" where
  "decodeURIComponent [] = Some []"
| "decodeURIComponent (c # cs) =
     (if c = CHR ''%'' then
        (case cs of
           h # l # rest \<Rightarrow>
             (case (hex_val h, hex_val l) of
                (Some a, Some b) \<Rightarrow> map_option ((#) (char_of (16 * a + b))) (decodeURIComponent rest)
              | _ \<Rightarrow> None)
         | _ \<Rightarrow> None)
      else map_option ((#) c) (decodeURIComponent cs))"

text \<open>The lenient form decoding of a query value: plus is a space, a malformed escape stays.\<close>

fun form_decode :: "string \<Rightarrow> string" where
  "form_decode [] = []"
| "form_decode (c # cs) =
     (if c = CHR ''+'' then CHR '' '' # form_decode cs
      else if c = CHR ''%'' then
        (case cs of
           h # l # rest \<Rightarrow>
             (case (hex_val h, hex_val l) of
                (Some a, Some b) \<Rightarrow> char_of (16 * a + b) # form_decode rest
              | _ \<Rightarrow> c # form_decode cs)
         | _ \<Rightarrow> c # form_decode cs)
      else c # form_decode cs)"

lemma hex_val_digit: "n < 16 \<Longrightarrow> hex_val (hex_digits ! n) = Some n"
proof -
  assume "n < 16"
  moreover have "\<forall>n \<in> set [0..<16]. hex_val (hex_digits ! n) = Some n" by code_simp
  ultimately show ?thesis by simp
qed

lemma hex_byte_vals:
  "hex_byte c = [hex_digits ! (of_char c div 16), hex_digits ! (of_char c mod 16)]"
  "hex_val (hex_digits ! (of_char c div 16)) = Some (of_char c div 16)"
  "hex_val (hex_digits ! (of_char c mod 16)) = Some (of_char c mod 16)"
  "char_of (16 * (of_char c div 16) + of_char c mod 16) = c"
proof -
  have "(of_char c :: nat) < 256" by (rule nat_of_char_less_256)
  then have "(of_char c :: nat) div 16 < 16" by (simp add: less_mult_imp_div_less)
  then show "hex_val (hex_digits ! (of_char c div 16)) = Some (of_char c div 16)"
    by (rule hex_val_digit)
  show "hex_val (hex_digits ! (of_char c mod 16)) = Some (of_char c mod 16)"
    by (simp add: hex_val_digit)
  show "char_of (16 * (of_char c div 16) + of_char c mod 16) = c"
    by (simp only: mult_div_mod_eq char_of_char)
qed (simp add: hex_byte_def Let_def)

lemma unreserved_plain:
  "c \<in> set unreserved_chars \<Longrightarrow> c \<noteq> CHR ''%'' \<and> c \<noteq> CHR ''+''"
  by (auto simp: unreserved_chars_def lower_chars_def upper_chars_def digit_chars_def)

lemma form_decode_encode: "form_decode (encodeURIComponent s @ t) = s @ form_decode t"
proof (induction s)
  case (Cons c s)
  then show ?case
    using unreserved_plain[of c] hex_byte_vals(2,3,4)[of c]
    by (simp add: encodeURIComponent_def hex_byte_vals(1))
qed (simp add: encodeURIComponent_def)

lemma decode_encode: "decodeURIComponent (encodeURIComponent s) = Some s"
proof (induction s)
  case (Cons c s)
  then show ?case
    using unreserved_plain[of c] hex_byte_vals(2,3,4)[of c]
    by (simp add: encodeURIComponent_def hex_byte_vals(1))
qed (simp add: encodeURIComponent_def)

lemma decode_plain: "CHR ''%'' \<notin> set s \<Longrightarrow> decodeURIComponent s = Some s"
  by (induction s) auto

section \<open>Guards\<close>

datatype nav = Push string | Replace string

text \<open>What the hooks read from the provider.\<close>

record auth_view =
  v_isAuthenticated :: bool
  v_isLoading :: bool
  v_role :: "user_role option"

definition login_prefix :: string where
  "login_prefix = ''/login?returnUrl=''"

definition login_redirect :: "string \<Rightarrow> string" where
  "login_redirect pathname = login_prefix @ encodeURIComponent pathname"

definition useRequireAuth :: "auth_view \<Rightarrow> string \<Rightarrow> nav option" where
  "useRequireAuth v pathname =
     (if \<not> v_isLoading v \<and> \<not> v_isAuthenticated v then Some (Push (login_redirect pathname)) else None)"

definition useRequireRole :: "auth_view \<Rightarrow> user_role + user_role list \<Rightarrow> string \<Rightarrow> nav option" where
  "useRequireRole v required pathname =
     (if v_isLoading v then None
      else if \<not> v_isAuthenticated v then Some (Push (login_redirect pathname))
      else if \<not> hasRole (v_role v) required then Some (Push ''/unauthorized'')
      else None)"

text \<open>What ProtectedRoute renders and where its effects navigate; stuck is the 5 s watchdog.\<close>

datatype rendered = Spinner | LoginNotice bool | Children

definition protected_render :: "auth_view \<Rightarrow> bool \<Rightarrow> rendered" where
  "protected_render v stuck =
     (if v_isLoading v \<and> \<not> stuck then Spinner
      else if stuck \<or> \<not> v_isAuthenticated v then LoginNotice stuck
      else Children)"

definition protected_effects :: "auth_view \<Rightarrow> user_role list option \<Rightarrow> string \<Rightarrow> nav list" where
  "protected_effects v required pathname =
     (case useRequireAuth v pathname of None \<Rightarrow> [] | Some n \<Rightarrow> [n]) @
     (if v_isLoading v \<or> \<not> v_isAuthenticated v then []
      else (case required of
              None \<Rightarrow> []
            | Some rs \<Rightarrow> if canAccess (v_role v) rs then [] else [Replace ''/unauthorized'']))"

definition PORTAL_ROLES :: "user_role list" where
  "PORTAL_ROLES = [SUPER_ADMIN, ADMIN, ORGANIZATION, FEDERATION]"

text \<open>
  What a page under app/(portal) does with the hook. A held page renders nothing (a spinner while the
  session loads) until the hook reports the role. A guarded page calls the hook for its redirect only and
  renders its component at once. The users page calls no hook.
\<close>

datatype route_guard = Unguarded | Guarded "user_role list" | Held "user_role list"

text \<open>The body of a held page.\<close>

definition page_content :: "auth_view \<Rightarrow> user_role list \<Rightarrow> bool" where
  "page_content v required \<longleftrightarrow> \<not> v_isLoading v \<and> hasRole (v_role v) (Inr required)"

definition page_shown :: "auth_view \<Rightarrow> route_guard \<Rightarrow> bool" where
  "page_shown v g = (case g of Unguarded \<Rightarrow> True | Guarded rs \<Rightarrow> True | Held rs \<Rightarrow> page_content v rs)"

definition page_redirect :: "auth_view \<Rightarrow> route_guard \<Rightarrow> string \<Rightarrow> nav option" where
  "page_redirect v g pathname =
     (case g of
        Unguarded \<Rightarrow> None
      | Guarded rs \<Rightarrow> useRequireRole v (Inr rs) pathname
      | Held rs \<Rightarrow> useRequireRole v (Inr rs) pathname)"

lemma protected_children_iff:
  "protected_render v stuck = Children \<and> protected_effects v (Some rs) p = [] \<longleftrightarrow>
     \<not> stuck \<and> \<not> v_isLoading v \<and> v_isAuthenticated v \<and> canAccess (v_role v) rs"
  by (auto simp: protected_render_def protected_effects_def useRequireAuth_def)

section \<open>Sidebar\<close>

record menu_item =
  labelKey :: string
  href :: string
  feature :: feature_key
  showPendingBadge :: bool

record menu_section =
  section_label :: string
  items :: "menu_item list"

definition item :: "string \<Rightarrow> string \<Rightarrow> feature_key \<Rightarrow> menu_item" where
  "item l h f = \<lparr> labelKey = l, href = h, feature = f, showPendingBadge = False \<rparr>"

definition MENU_SECTIONS :: "menu_section list" where
  "MENU_SECTIONS = [
    \<lparr> section_label = ''main'', items = [item ''dashboard'' ''/dashboard'' Fdashboard] \<rparr>,
    \<lparr> section_label = ''management'', items = [
        item ''events'' ''/events'' Fevents,
        item ''sports'' ''/sports'' Fsports,
        item ''organizations'' ''/organizations'' Forganizations,
        item ''federations'' ''/by-category'' Fbycategory,
        item ''users'' ''/users'' Fusers] \<rparr>,
    \<lparr> section_label = ''registration'', items = [
        item ''bysport'' ''/by-sport'' Fbysport,
        item ''bynumber'' ''/by-number'' Fbynumber,
        item ''openSurvey'' ''/open-survey'' Fopensurvey,
        item ''athleteRegistration'' ''/register'' Fregister,
        item ''leaderRegistration'' ''/leader-registration'' Fleaderregistration,
        item ''bulkImport'' ''/import'' Fimport] \<rparr>,
    \<lparr> section_label = ''review'', items = [
        (item ''submissions'' ''/participation'' Fparticipation) \<lparr> showPendingBadge := True \<rparr>,
        item ''sportSubmissions'' ''/sport-submissions'' Fsportsubmissions,
        item ''categorySubmissions'' ''/category-submissions'' Fcategorysubmissions] \<rparr>,
    \<lparr> section_label = ''oversight'', items = [
        item ''organizerRegistration'' ''/organizer-registration'' Forganizerregistration,
        item ''organizerRoles'' ''/organizer-roles'' Forganizerroles,
        item ''registrations'' ''/registrations'' Fregistrations,
        item ''reports'' ''/reports'' Freports] \<rparr>]"

definition sidebar_sections :: "user_role option \<Rightarrow> menu_section list" where
  "sidebar_sections role =
     (case role of
        None \<Rightarrow> []
      | Some r \<Rightarrow>
          filter (\<lambda>s. items s \<noteq> [])
            (List.map (\<lambda>s. s \<lparr> items := filter (\<lambda>i. r \<in> set (FEATURE_ACCESS (feature i))) (items s) \<rparr>)
              MENU_SECTIONS))"

definition nav_isActive :: "string \<Rightarrow> menu_item \<Rightarrow> bool" where
  "nav_isActive pathname i \<longleftrightarrow> pathname = href i \<or> starts_with pathname (href i @ ''/'')"

definition nav_showBadge :: "menu_item \<Rightarrow> int \<Rightarrow> bool" where
  "nav_showBadge i pendingCount \<longleftrightarrow> showPendingBadge i \<and> pendingCount > 0"

text \<open>One definition per page file: its guard.\<close>

definition page_dashboard :: route_guard where
  "page_dashboard = Held (FEATURE_ACCESS Fdashboard)"

definition page_events :: route_guard where
  "page_events = Held (FEATURE_ACCESS Fevents)"

definition page_sports :: route_guard where
  "page_sports = Held (FEATURE_ACCESS Fsports)"

definition page_organizations :: route_guard where
  "page_organizations = Held (FEATURE_ACCESS Forganizations)"

definition page_by_category :: route_guard where
  "page_by_category = Guarded (FEATURE_ACCESS Fbycategory)"

definition page_users :: route_guard where
  "page_users = Unguarded"

definition page_by_sport :: route_guard where
  "page_by_sport = Guarded (FEATURE_ACCESS Fbysport)"

definition page_by_number :: route_guard where
  "page_by_number = Held (FEATURE_ACCESS Fbynumber)"

definition page_open_survey :: route_guard where
  "page_open_survey = Held (FEATURE_ACCESS Fopensurvey)"

definition page_open_survey_fields :: route_guard where
  "page_open_survey_fields = Held [SUPER_ADMIN, ADMIN]"

definition page_register :: route_guard where
  "page_register = Guarded (FEATURE_ACCESS Fregister)"

definition page_leader_registration :: route_guard where
  "page_leader_registration = Guarded (FEATURE_ACCESS Fleaderregistration)"

definition page_import :: route_guard where
  "page_import = Guarded (FEATURE_ACCESS Fimport)"

definition page_participation :: route_guard where
  "page_participation = Guarded (FEATURE_ACCESS Fparticipation)"

definition page_sport_submissions :: route_guard where
  "page_sport_submissions = Guarded (FEATURE_ACCESS Fsportsubmissions)"

definition page_category_submissions :: route_guard where
  "page_category_submissions = Guarded (FEATURE_ACCESS Fcategorysubmissions)"

definition page_organizer_registration :: route_guard where
  "page_organizer_registration = Held (FEATURE_ACCESS Forganizerregistration)"

definition page_organizer_roles :: route_guard where
  "page_organizer_roles = Held (FEATURE_ACCESS Forganizerroles)"

definition page_registrations :: route_guard where
  "page_registrations = Held (FEATURE_ACCESS Fregistrations)"

definition page_reports :: route_guard where
  "page_reports = Guarded (FEATURE_ACCESS Freports)"

definition page_cards :: route_guard where
  "page_cards = Held (FEATURE_ACCESS Fcards)"

text \<open>The router opens a page file under the path of its directory.\<close>

definition page_guard :: "(string \<times> route_guard) list" where
  "page_guard = [
    (''/dashboard'', page_dashboard),
    (''/events'', page_events),
    (''/sports'', page_sports),
    (''/organizations'', page_organizations),
    (''/by-category'', page_by_category),
    (''/users'', page_users),
    (''/by-sport'', page_by_sport),
    (''/by-number'', page_by_number),
    (''/open-survey'', page_open_survey),
    (''/open-survey/fields'', page_open_survey_fields),
    (''/register'', page_register),
    (''/leader-registration'', page_leader_registration),
    (''/import'', page_import),
    (''/participation'', page_participation),
    (''/sport-submissions'', page_sport_submissions),
    (''/category-submissions'', page_category_submissions),
    (''/organizer-registration'', page_organizer_registration),
    (''/organizer-roles'', page_organizer_roles),
    (''/registrations'', page_registrations),
    (''/reports'', page_reports),
    (''/cards'', page_cards)]"

lemmas page_defs = page_dashboard_def page_events_def page_sports_def page_organizations_def page_by_category_def
  page_users_def page_by_sport_def page_by_number_def page_open_survey_def page_open_survey_fields_def
  page_register_def page_leader_registration_def page_import_def page_participation_def page_sport_submissions_def
  page_category_submissions_def page_organizer_registration_def page_organizer_roles_def page_registrations_def page_reports_def
  page_cards_def

definition sidebar_items :: "user_role option \<Rightarrow> menu_item list" where
  "sidebar_items role = concat (List.map items (sidebar_sections role))"

lemma sidebar_items_eq:
  "sidebar_items (Some r) =
     filter (\<lambda>i. r \<in> set (FEATURE_ACCESS (feature i))) (concat (List.map items MENU_SECTIONS))"
proof -
  have "concat (List.map items (filter (\<lambda>s. items s \<noteq> []) ss)) = concat (List.map items ss)"
    for ss :: "menu_section list"
    by (induction ss) auto
  then show ?thesis
    by (simp add: sidebar_items_def sidebar_sections_def filter_concat comp_def)
qed

section \<open>Edge redirect and the destination after login\<close>

definition PORTAL_ROUTES :: "string list" where
  "PORTAL_ROUTES = [''/dashboard'', ''/events'', ''/sports'', ''/organizations'', ''/users'',
     ''/cards'', ''/reports'', ''/participation'', ''/register'', ''/by-number'', ''/by-category'',
     ''/by-sport'', ''/leader-registration'', ''/registrations'']"

datatype edge = Redirect string "(string \<times> string) list" | Next

text \<open>A missing cookie and an empty one are both falsy.\<close>

definition proxy :: "string \<Rightarrow> string option \<Rightarrow> edge" where
  "proxy pathname cookie =
     (let has_token = (case cookie of None \<Rightarrow> False | Some t \<Rightarrow> t \<noteq> []);
          isPortalRoute = list_ex (starts_with pathname) PORTAL_ROUTES;
          isAuthRoute = starts_with pathname ''/login''
      in if isPortalRoute \<and> \<not> has_token then Redirect ''/login'' [(''returnUrl'', pathname)]
         else if isAuthRoute \<and> has_token then Redirect ''/dashboard'' []
         else Next)"

text \<open>
  goAfterLogin: the query value (already decoded once by the search params) is
  decoded again; an empty or missing value falls back to the role's page. None
  is the exception of a malformed escape.
\<close>

definition goAfterLogin :: "string option \<Rightarrow> user_role \<Rightarrow> nav option" where
  "goAfterLogin returnUrl role =
     (case returnUrl of
        Some u \<Rightarrow> if u = [] then Some (Push (ROLE_DEFAULT_ROUTE role))
                  else map_option Push (decodeURIComponent u)
      | None \<Rightarrow> Some (Push (ROLE_DEFAULT_ROUTE role)))"

definition handleGoHome :: "user_role option \<Rightarrow> nav" where
  "handleGoHome role = (case role of Some r \<Rightarrow> Push (ROLE_DEFAULT_ROUTE r) | None \<Rightarrow> Push ''/login'')"

text \<open>The returnUrl a browser reads back from the guard's redirect.\<close>

definition returnUrl_of :: "string \<Rightarrow> string option" where
  "returnUrl_of url =
     (if starts_with url login_prefix
      then Some (form_decode (drop (length login_prefix) url)) else None)"

lemma returnUrl_of_redirect: "returnUrl_of (login_redirect p) = Some p"
  using form_decode_encode[of p "[]"] by (simp add: returnUrl_of_def login_redirect_def)

section \<open>What the guards guarantee\<close>




text \<open>The portal pages that the list of the edge leaves out.\<close>

definition unlisted_pages :: "string list" where
  "unlisted_pages = [''/open-survey'', ''/open-survey/fields'', ''/import'', ''/sport-submissions'',
      ''/category-submissions'', ''/organizer-registration'', ''/organizer-roles'']"









text \<open>Some portal pages are missing from the list, so an anonymous visit passes the edge.\<close>

lemma proxy_misses_portal_pages:
  "list_all (\<lambda>p. map_of page_guard p \<noteq> None \<and> proxy p None = Next) unlisted_pages"
  by (simp add: proxy_def PORTAL_ROUTES_def starts_with_def page_guard_def unlisted_pages_def)

text \<open>Following the redirect of the auth guard and signing in leads back to the page that
  was left, for every path without a percent sign, whatever the role.\<close>

theorem login_return_roundtrip:
  assumes "p \<noteq> []" "CHR ''%'' \<notin> set p" "\<not> v_isLoading v" "\<not> v_isAuthenticated v"
  shows "useRequireAuth v p = Some (Push (login_redirect p)) \<and>
    goAfterLogin (returnUrl_of (login_redirect p)) r = Some (Push p)"
  using assms by (simp add: useRequireAuth_def returnUrl_of_redirect goAfterLogin_def decode_plain)

lemma login_return_roundtrip_witness:
  "goAfterLogin (returnUrl_of (login_redirect ''/events/3'')) ADMIN = Some (Push ''/events/3'')"
  using login_return_roundtrip[of "''/events/3''"
      "\<lparr> v_isAuthenticated = False, v_isLoading = False, v_role = None \<rparr>" ADMIN]
  by simp

text \<open>With a percent sign the second decoding changes the target, or fails.\<close>

lemma login_return_double_decoding:
  "goAfterLogin (returnUrl_of (login_redirect ''/a%20b'')) r = Some (Push ''/a b'')"
  "goAfterLogin (returnUrl_of (login_redirect ''/100%'')) r = None"
proof -
  have "decodeURIComponent ''/a%20b'' = Some ''/a b''" "decodeURIComponent ''/100%'' = None"
    by code_simp+
  then show "goAfterLogin (returnUrl_of (login_redirect ''/a%20b'')) r = Some (Push ''/a b'')"
    "goAfterLogin (returnUrl_of (login_redirect ''/100%'')) r = None"
    by (simp_all add: returnUrl_of_redirect goAfterLogin_def del: decodeURIComponent.simps)
qed

text \<open>C5. A role string the front end does not know is locked out: it becomes the guest role, which
  sees no sidebar entry, holds no capability, is refused by the role guard of every feature, is shown no
  page that holds its content back, is sent away by every page that has a guard, and is sent away by the
  portal shell.\<close>

theorem unknown_role_locked_out:
  assumes "raw \<notin> role_value ` set all_roles"
    and "v_role v = Some (fst (normalizeRole raw))" "\<not> v_isLoading v" "v_isAuthenticated v"
  shows "sidebar_items (v_role v) = [] \<and> (\<forall>c. \<not> can_cap (v_role v) c) \<and>
    (\<forall>f. useRequireRole v (Inr (FEATURE_ACCESS f)) p = Some (Push ''/unauthorized'') \<and>
         \<not> page_content v (FEATURE_ACCESS f)) \<and>
    (\<forall>(h, g) \<in> set page_guard. g \<noteq> Unguarded \<longrightarrow> page_redirect v g h = Some (Push ''/unauthorized'')) \<and>
    protected_effects v (Some PORTAL_ROLES) p = [Replace ''/unauthorized'']"
proof -
  have g: "v_role v = Some GUEST" using assms(1,2) by (simp add: normalizeRole_unknown)
  have f: "GUEST \<notin> set (FEATURE_ACCESS f)" for f by (cases f) simp_all
  have c: "GUEST \<notin> set (CAPABILITY_ROLES c)" for c by (cases c) simp_all
  have "\<forall>(h, g) \<in> set page_guard. g \<noteq> Unguarded \<longrightarrow> page_redirect v g h = Some (Push ''/unauthorized'')"
    using g assms(3,4) by (simp add: page_guard_def page_defs page_redirect_def useRequireRole_def)
  then show ?thesis
    using g f c assms(3,4)
    by (simp add: sidebar_items_eq can_cap_def useRequireRole_def page_content_def
        protected_effects_def useRequireAuth_def canAccess_def PORTAL_ROLES_def)
qed

lemma unknown_role_locked_out_witness:
  "sidebar_items (Some (fst (normalizeRole ''judge''))) = []"
  using unknown_role_locked_out[of "''judge''"
      "\<lparr> v_isAuthenticated = True, v_isLoading = False, v_role = Some (fst (normalizeRole ''judge'')) \<rparr>"]
  by (simp add: all_roles_def)

text \<open>The default page of the guest role is one its guard refuses.\<close>

lemma guest_default_route_refused:
  "map_of page_guard (ROLE_DEFAULT_ROUTE GUEST) = Some (Guarded (FEATURE_ACCESS Fregister)) \<and>
   GUEST \<notin> set (FEATURE_ACCESS Fregister)"
  by (simp add: page_guard_def page_defs)

text \<open>The users page has no guard of its own although the map reserves it.\<close>

lemma users_page_unguarded:
  "map_of page_guard ''/users'' = Some Unguarded \<and> FEATURE_ACCESS Fusers = [SUPER_ADMIN]"
  by (simp add: page_guard_def page_defs)

text \<open>The pages that call the hook for its redirect only.\<close>

definition redirect_only :: "string list" where
  "redirect_only = [''/by-category'', ''/by-sport'', ''/register'', ''/leader-registration'', ''/import'',
     ''/participation'', ''/sport-submissions'', ''/category-submissions'', ''/reports'']"

lemma menu_guard:
  "list_all (\<lambda>i. map_of page_guard (href i) = Some
      (if href i = ''/users'' then Unguarded
       else if href i \<in> set redirect_only then Guarded (FEATURE_ACCESS (feature i))
       else Held (FEATURE_ACCESS (feature i))))
    (concat (List.map items MENU_SECTIONS))"
  by code_simp

lemma users_entry: "list_all (\<lambda>i. href i = ''/users'' \<longrightarrow> feature i = Fusers) (concat (List.map items MENU_SECTIONS))"
  by code_simp

text \<open>C6. The sidebar and the pages it links to. For a signed-in role, an entry other than the users
  page is shown exactly when the page behind it does not send the role away, and then the page opens; the
  page behind an entry that is not shown sends the role to the unauthorized page, and shows nothing
  meanwhile, but for nine pages that show their content all the same. The users page, offered to the
  super administrator only, sends nobody away and shows its content to every role.\<close>

theorem sidebar_agrees_with_guards:
  assumes "i \<in> set (concat (List.map items MENU_SECTIONS))"
    and "v_role v = Some r" "\<not> v_isLoading v" "v_isAuthenticated v"
  shows "\<exists>g. map_of page_guard (href i) = Some g \<and>
    (href i \<noteq> ''/users'' \<longrightarrow> (i \<in> set (sidebar_items (Some r)) \<longleftrightarrow> page_redirect v g (href i) = None)) \<and>
    (i \<in> set (sidebar_items (Some r)) \<longrightarrow> page_redirect v g (href i) = None \<and> page_shown v g) \<and>
    (i \<notin> set (sidebar_items (Some r)) \<and> href i \<noteq> ''/users'' \<longrightarrow>
       page_redirect v g (href i) = Some (Push ''/unauthorized'') \<and>
       (page_shown v g \<longleftrightarrow> href i \<in> set redirect_only)) \<and>
    (href i = ''/users'' \<longrightarrow>
       (i \<in> set (sidebar_items (Some r)) \<longleftrightarrow> r = SUPER_ADMIN) \<and>
       page_redirect v g (href i) = None \<and> page_shown v g)"
proof -
  have m: "map_of page_guard (href i) = Some
      (if href i = ''/users'' then Unguarded
       else if href i \<in> set redirect_only then Guarded (FEATURE_ACCESS (feature i))
       else Held (FEATURE_ACCESS (feature i)))"
    using menu_guard assms(1) unfolding list_all_iff by (rule bspec)
  have u: "href i = ''/users'' \<Longrightarrow> feature i = Fusers"
    using users_entry assms(1) unfolding list_all_iff by blast
  have s: "i \<in> set (sidebar_items (Some r)) \<longleftrightarrow> r \<in> set (FEATURE_ACCESS (feature i))"
    using assms(1) by (simp add: sidebar_items_eq)
  show ?thesis unfolding m s
    using assms(2,3,4) u
    by (auto simp: page_redirect_def page_shown_def page_content_def useRequireRole_def)
qed

lemma sidebar_agrees_with_guards_witness:
  "item ''organizations'' ''/organizations'' Forganizations \<notin> set (sidebar_items (Some ORGANIZATION)) \<and>
   \<not> page_shown \<lparr> v_isAuthenticated = True, v_isLoading = False, v_role = Some ORGANIZATION \<rparr> page_organizations"
  using sidebar_agrees_with_guards[of "item ''organizations'' ''/organizations'' Forganizations"
      "\<lparr> v_isAuthenticated = True, v_isLoading = False, v_role = Some ORGANIZATION \<rparr>" ORGANIZATION]
  by (simp add: MENU_SECTIONS_def item_def page_guard_def sidebar_items_eq redirect_only_def)

end
