(* ===== verification/Web_Storage.thy ===== *)
theory Web_Storage
  imports Js_Prelude
begin

text \<open>
  The browser's localStorage as the program meets it: it may be missing (server
  side rendering, blocked access), and its reads and writes may throw. The
  exception is the left value of a result, so the try/catch blocks of the code
  are case distinctions. The interface storage_slot is what the code
  that keeps one text under one key relies on.
\<close>

record storage =
  st_available :: bool
  st_reads :: bool
  st_writes :: bool
  st_entries :: "string \<Rightarrow> string option"

text \<open>Some store, or None: no window, or the access itself throws.\<close>

definition local_storage :: "storage \<Rightarrow> storage option" where
  "local_storage s = (if st_available s then Some s else None)"

definition st_get :: "string \<Rightarrow> storage \<Rightarrow> (unit, string option) result" where
  "st_get k s = (if st_reads s then Inr (st_entries s k) else Inl ())"

definition st_set :: "string \<Rightarrow> string \<Rightarrow> storage \<Rightarrow> (unit, storage) result" where
  "st_set k v s = (if st_writes s then Inr (s \<lparr> st_entries := (st_entries s)(k := Some v) \<rparr>) else Inl ())"

definition st_remove :: "string \<Rightarrow> storage \<Rightarrow> (unit, storage) result" where
  "st_remove k s = (if st_writes s then Inr (s \<lparr> st_entries := (st_entries s)(k := None) \<rparr>) else Inl ())"

text \<open>A try block whose catch ignores the failure and keeps the store.\<close>

definition ignoring :: "(storage \<Rightarrow> (unit, storage) result) \<Rightarrow> storage \<Rightarrow> storage" where
  "ignoring f s = (case f s of Inl _ \<Rightarrow> s | Inr s' \<Rightarrow> s')"

definition st_usable :: "storage \<Rightarrow> bool" where
  "st_usable s \<longleftrightarrow> st_available s \<and> st_reads s \<and> st_writes s"

definition st_same_device :: "storage \<Rightarrow> storage \<Rightarrow> bool" where
  "st_same_device s t \<longleftrightarrow>
     st_available t = st_available s \<and> st_reads t = st_reads s \<and> st_writes t = st_writes s"

lemmas storage_defs = local_storage_def st_get_def st_set_def st_remove_def ignoring_def

definition empty_storage :: storage where
  "empty_storage = \<lparr> st_available = True, st_reads = True, st_writes = True, st_entries = (\<lambda>_. None) \<rparr>"

locale storage_slot =
  fixes rd :: "storage \<Rightarrow> 'v option"
    and wr :: "'v \<Rightarrow> storage \<Rightarrow> storage"
    and clr :: "storage \<Rightarrow> storage"
    and key :: string
    and ok :: "'v \<Rightarrow> bool"
  assumes rd_wr: "st_usable s \<Longrightarrow> ok v \<Longrightarrow> rd (wr v s) = Some v"
    and rd_clr: "st_writes s \<Longrightarrow> rd (clr s) = None"
    and wr_frame: "k \<noteq> key \<Longrightarrow> st_entries (wr v s) k = st_entries s k"
    and clr_frame: "k \<noteq> key \<Longrightarrow> st_entries (clr s) k = st_entries s k"
    and wr_device: "st_same_device s (wr v s)"
    and clr_device: "st_same_device s (clr s)"
    and rd_local: "st_same_device s t \<Longrightarrow> st_entries s key = st_entries t key \<Longrightarrow> rd s = rd t"
begin

lemma usable_wr: "st_usable (wr v s) \<longleftrightarrow> st_usable s"
  using wr_device[of s v] by (auto simp: st_same_device_def st_usable_def)

lemma wr_wr: "st_usable s \<Longrightarrow> ok w \<Longrightarrow> rd (wr w (wr v s)) = Some w"
  by (simp add: rd_wr usable_wr)

lemma clr_wr: "st_writes s \<Longrightarrow> rd (clr (wr v s)) = None"
  using wr_device[of s v] by (simp add: rd_clr st_same_device_def)

text \<open>Two slots with different keys do not disturb each other.\<close>

lemma other_key_kept:
  assumes "st_same_device s t" "\<And>k. k \<noteq> key' \<Longrightarrow> st_entries t k = st_entries s k" "key' \<noteq> key"
  shows "rd t = rd s"
  using rd_local[of s t] assms by metis

end

end
