(* ===== verification/Token_Expiry.thy ===== *)
theory Token_Expiry
  imports Web_Storage
begin

text \<open>
  The access-token expiry hint of core/auth/tokenExpiry.ts: the expiry the
  backend reports is kept as decimal text under one localStorage key and read
  back before a request to decide on a proactive refresh. A millisecond clock
  reading is a parameter of the check. Expiries are exact rationals; their text
  is the decimal form String gives to integers below 10 to the 21.
\<close>

definition STORAGE_KEY :: string where
  "STORAGE_KEY = ''auth.access_token_exp''"

definition EXPIRY_BUFFER_SECONDS :: rat where
  "EXPIRY_BUFFER_SECONDS = 60"

definition safeLocalStorage :: "storage \<Rightarrow> storage option" where
  "safeLocalStorage s = local_storage s"

definition recordAccessTokenExpiry :: "js \<Rightarrow> storage \<Rightarrow> storage" where
  "recordAccessTokenExpiry expiresAt s =
     (case safeLocalStorage s of
        None \<Rightarrow> s
      | Some store \<Rightarrow>
          (case expiresAt of
             JNum (Fin e) \<Rightarrow> ignoring (st_set STORAGE_KEY (show_int \<lfloor>e\<rfloor>)) store
           | _ \<Rightarrow> ignoring (st_remove STORAGE_KEY) store))"

definition clearAccessTokenExpiry :: "storage \<Rightarrow> storage" where
  "clearAccessTokenExpiry s =
     (case safeLocalStorage s of None \<Rightarrow> s | Some store \<Rightarrow> ignoring (st_remove STORAGE_KEY) store)"

definition isAccessTokenExpired :: "rat \<Rightarrow> storage \<Rightarrow> bool" where
  "isAccessTokenExpired now_ms s =
     (case safeLocalStorage s of
        None \<Rightarrow> False
      | Some store \<Rightarrow>
          (case st_get STORAGE_KEY store of
             Inl _ \<Rightarrow> False
           | Inr None \<Rightarrow> False
           | Inr (Some raw) \<Rightarrow>
               (case to_number raw of
                  Fin e \<Rightarrow> now_ms / 1000 \<ge> e - EXPIRY_BUFFER_SECONDS
                | _ \<Rightarrow> False)))"

lemmas token_defs = safeLocalStorage_def recordAccessTokenExpiry_def clearAccessTokenExpiry_def
  isAccessTokenExpired_def EXPIRY_BUFFER_SECONDS_def

text \<open>The stored hint, read as the code reads it.\<close>

definition token_hint :: "storage \<Rightarrow> int option" where
  "token_hint s =
     (if st_available s \<and> st_reads s then
        (case st_entries s STORAGE_KEY of
           None \<Rightarrow> None
         | Some raw \<Rightarrow> (case to_number raw of Fin e \<Rightarrow> Some \<lfloor>e\<rfloor> | _ \<Rightarrow> None))
      else None)"

definition put_hint :: "int \<Rightarrow> storage \<Rightarrow> storage" where
  "put_hint e = recordAccessTokenExpiry (JInt e)"

interpretation hint: storage_slot token_hint put_hint clearAccessTokenExpiry STORAGE_KEY "\<lambda>_. True"
  by unfold_locales
    (auto simp: token_hint_def put_hint_def token_defs storage_defs st_usable_def st_same_device_def)

lemma record_device: "st_same_device s (recordAccessTokenExpiry v s)"
  by (auto simp: token_defs storage_defs st_same_device_def split: js.splits jnum.splits)

lemma expired_no_hint: "st_entries s STORAGE_KEY = None \<Longrightarrow> \<not> isAccessTokenExpired now s"
  by (simp add: token_defs storage_defs)

lemma cleared_never_expired: "st_writes s \<Longrightarrow> \<not> isAccessTokenExpired now (clearAccessTokenExpiry s)"
  by (simp add: token_defs storage_defs)

text \<open>What the check answers after recording a reported expiry, on every branch: with usable
  storage it fires exactly when the clock is at most 60 seconds before the whole second of the
  expiry, never after an absent or invalid one, and never when storage is unavailable; a failed
  write leaves the previous answer.\<close>

theorem token_expiry_roundtrip:
  "isAccessTokenExpired now (recordAccessTokenExpiry v s) =
     (if \<not> st_available s \<or> \<not> st_reads s then False
      else if \<not> st_writes s then isAccessTokenExpired now s
      else (case v of
              JNum (Fin e) \<Rightarrow> now / 1000 \<ge> of_int \<lfloor>e\<rfloor> - 60
            | _ \<Rightarrow> False))"
  by (auto simp: token_defs storage_defs split: js.splits jnum.splits)

lemma token_expiry_roundtrip_witness:
  "isAccessTokenExpired 940000 (recordAccessTokenExpiry (JNum (Fin (1000 + 1/2))) empty_storage) \<and>
   \<not> isAccessTokenExpired 939999 (recordAccessTokenExpiry (JNum (Fin (1000 + 1/2))) empty_storage)"
proof -
  have f: "\<lfloor>2001 / 2 :: rat\<rfloor> = 1000" by (rule floor_unique) simp_all
  show ?thesis
    using token_expiry_roundtrip[of 940000 "JNum (Fin (1000 + 1/2))" empty_storage]
      token_expiry_roundtrip[of 939999 "JNum (Fin (1000 + 1/2))" empty_storage]
    by (simp add: empty_storage_def f)
qed

text \<open>The hint can only fire where the token itself is within its buffer of the reported expiry:
  rounding down moves the bound by less than one second.\<close>

lemma expired_near_reported_expiry:
  assumes "isAccessTokenExpired now (recordAccessTokenExpiry (JNum (Fin e)) s)" "st_writes s"
  shows "now / 1000 > e - 61"
proof -
  have "now / 1000 \<ge> of_int \<lfloor>e\<rfloor> - 60"
    using assms by (simp add: token_defs storage_defs split: if_splits)
  then show ?thesis using floor_correct[of e] by linarith
qed

end
