(* ===== verification/Request_Headers.thy ===== *)
theory Request_Headers
  imports Js_Prelude
begin

text \<open>
  The headers every API request carries: core/api/headers.ts and constants.ts,
  and the W3C trace context of core/lib/logger. Randomness, the clock and
  document.cookie are inputs: the environment record holds the cookie text (None
  outside a browser), the UUID of the crypto API (None when it is absent or
  throws), the fallback id, and the random bytes of the two trace ids. Header
  names are kept in lower case, since axios compares them without case.
\<close>

definition CORRELATION_ID_HEADER :: string where "CORRELATION_ID_HEADER = ''X-Correlation-ID''"
definition TRACEPARENT_HEADER :: string where "TRACEPARENT_HEADER = ''traceparent''"
definition CSRF_COOKIE_NAME :: string where "CSRF_COOKIE_NAME = ''csrf_token''"
definition CSRF_HEADER_NAME :: string where "CSRF_HEADER_NAME = ''X-CSRF-Token''"
definition MUTATING_METHODS :: "string list" where
  "MUTATING_METHODS = [''POST'', ''PUT'', ''PATCH'', ''DELETE'']"

lemmas header_names = CORRELATION_ID_HEADER_def TRACEPARENT_HEADER_def CSRF_COOKIE_NAME_def
  CSRF_HEADER_NAME_def

text \<open>The cookie pattern: the name after the start or after a semicolon and a space, up to the next semicolon.\<close>

definition cookie_at :: "string \<Rightarrow> string \<Rightarrow> string option" where
  "cookie_at name s =
     (if starts_with s (name @ ''='')
      then Some (takeWhile (\<lambda>c. c \<noteq> CHR '';'') (drop (length name + 1) s)) else None)"

fun cookie_scan :: "string \<Rightarrow> string \<Rightarrow> string option" where
  "cookie_scan name [] = None"
| "cookie_scan name (c # cs) =
     (case (if starts_with (c # cs) ''; '' then cookie_at name (drop 2 (c # cs)) else None) of
        Some v \<Rightarrow> Some v
      | None \<Rightarrow> cookie_scan name cs)"

definition readCookie :: "(string \<Rightarrow> string option) \<Rightarrow> string \<Rightarrow> string option \<Rightarrow> (unit, string option) result" where
  "readCookie decode name document =
     (case document of
        None \<Rightarrow> Inr None
      | Some s \<Rightarrow>
          (case (case cookie_at name s of Some v \<Rightarrow> Some v | None \<Rightarrow> cookie_scan name s) of
             None \<Rightarrow> Inr None
           | Some raw \<Rightarrow> (case decode raw of None \<Rightarrow> Inl () | Some v \<Rightarrow> Inr (Some v))))"

text \<open>Two lower-case hex digits per byte.\<close>

definition lower_hex :: string where
  "lower_hex = ''0123456789abcdef''"

fun show_hex :: "nat \<Rightarrow> string" where
  "show_hex n = (if n < 16 then [lower_hex ! n] else show_hex (n div 16) @ [lower_hex ! (n mod 16)])"

declare show_hex.simps [simp del]

definition randomHex :: "nat list \<Rightarrow> string" where
  "randomHex buf = concat (List.map (\<lambda>b. pad_start 2 (CHR ''0'') (show_hex b)) buf)"

record trace_context =
  traceId :: string
  spanId :: string
  traceparent :: string

definition createTraceContext :: "nat list \<Rightarrow> nat list \<Rightarrow> trace_context" where
  "createTraceContext b16 b8 =
     (let t = randomHex b16; s = randomHex b8
      in \<lparr> traceId = t, spanId = s, traceparent = ''00-'' @ t @ ''-'' @ s @ ''-01'' \<rparr>)"

type_synonym headers = "(string \<times> string) list"

definition hdr_set :: "string \<Rightarrow> string \<Rightarrow> headers \<Rightarrow> headers" where
  "hdr_set k v hs = AList.update (to_lower k) v hs"

definition hdr_get :: "headers \<Rightarrow> string \<Rightarrow> string option" where
  "hdr_get hs k = map_of hs (to_lower k)"

record req_config =
  cfg_url :: string
  cfg_method :: "string option"
  cfg_headers :: headers

record header_env =
  env_uuid :: "string option"
  env_fallback :: string
  env_trace :: "nat list"
  env_span :: "nat list"
  env_cookies :: "string option"
  env_decode :: "string \<Rightarrow> string option"

definition correlationId :: "header_env \<Rightarrow> string" where
  "correlationId env = or_else (env_uuid env) (''cid-'' @ env_fallback env)"

definition request_method :: "req_config \<Rightarrow> string" where
  "request_method c = to_upper (or_else (cfg_method c) ''get'')"

text \<open>The new configuration and the trace made current; the left value is the exception of a malformed cookie.\<close>

definition attachCrossCuttingHeaders ::
  "header_env \<Rightarrow> req_config \<Rightarrow> (unit, req_config \<times> trace_context) result" where
  "attachCrossCuttingHeaders env c =
     (let h1 = hdr_set CORRELATION_ID_HEADER (correlationId env) (cfg_headers c);
          trace = createTraceContext (env_trace env) (env_span env);
          h2 = hdr_set TRACEPARENT_HEADER (traceparent trace) h1
      in if request_method c \<in> set MUTATING_METHODS
         then bind_r (readCookie (env_decode env) CSRF_COOKIE_NAME (env_cookies env))
                (\<lambda>token. Inr (c \<lparr> cfg_headers :=
                    (case token of
                       Some t \<Rightarrow> if t \<noteq> [] then hdr_set CSRF_HEADER_NAME t h2 else h2
                     | None \<Rightarrow> h2) \<rparr>, trace))
         else Inr (c \<lparr> cfg_headers := h2 \<rparr>, trace))"

text \<open>The console logger's stamp: the current trace id joins the meta data under its key.\<close>

definition withTrace :: "trace_context option \<Rightarrow> (string \<times> js) list \<Rightarrow> (string \<times> js) list" where
  "withTrace cur meta =
     (case cur of
        Some t \<Rightarrow> if traceId t \<noteq> [] then AList.update ''traceId'' (JStr (traceId t)) meta else meta
      | None \<Rightarrow> meta)"

definition logger_emit :: "bool \<Rightarrow> string \<Rightarrow> string \<Rightarrow> trace_context option \<Rightarrow> (string \<times> js) list
    \<Rightarrow> (string \<times> (string \<times> js) list) list" where
  "logger_emit isDev level event cur meta =
     (if isDev then [(''['' @ level @ ''] '' @ event, withTrace cur meta)] else [])"

lemma hdr_get_set: "hdr_get (hdr_set k v hs) k' = (if to_lower k' = to_lower k then Some v else hdr_get hs k')"
  by (simp add: hdr_get_def hdr_set_def update_conv')

lemma header_names_distinct [simp]:
  "to_lower CORRELATION_ID_HEADER = ''x-correlation-id''"
  "to_lower TRACEPARENT_HEADER = ''traceparent''"
  "to_lower CSRF_HEADER_NAME = ''x-csrf-token''"
  by (simp_all add: header_names to_lower_def lower_chars_def upper_chars_def)

lemma show_hex_byte: "b < 256 \<Longrightarrow> length (show_hex b) \<le> 2 \<and> set (show_hex b) \<subseteq> set lower_hex"
proof -
  assume b: "b < 256"
  have i: "lower_hex ! k \<in> set lower_hex" if "k < 16" for k
    using that nth_mem[of k lower_hex] by (simp add: lower_hex_def del: nth_mem)
  show ?thesis
  proof (cases "b < 16")
    case True
    then show ?thesis using i by (subst (1 2) show_hex.simps) simp
  next
    case False
    moreover from b have d: "b div 16 < 16" by simp
    ultimately have "show_hex b = [lower_hex ! (b div 16), lower_hex ! (b mod 16)]"
      by (subst show_hex.simps, subst show_hex.simps) simp
    then show ?thesis using i[OF d] i[of "b mod 16"] by simp
  qed
qed

lemma show_hex_not_Nil: "show_hex b \<noteq> []"
  by (subst show_hex.simps) simp

lemma randomHex_shape:
  "\<forall>b \<in> set buf. b < 256 \<Longrightarrow>
     length (randomHex buf) = 2 * length buf \<and> set (randomHex buf) \<subseteq> set lower_hex"
proof (induction buf)
  case (Cons b buf)
  then have s: "length (show_hex b) \<le> 2" "set (show_hex b) \<subseteq> set lower_hex"
    using show_hex_byte[of b] by auto
  have "length (pad_start 2 (CHR ''0'') (show_hex b)) = 2"
    using s(1) by (simp add: pad_start_length)
  moreover have "set (pad_start 2 (CHR ''0'') (show_hex b)) \<subseteq> set lower_hex"
    using s(2) by (auto simp: pad_start_def lower_hex_def)
  ultimately show ?case using Cons by (simp add: randomHex_def)
qed (simp add: randomHex_def)

text \<open>The traceparent has the W3C shape: version 00, 32 lower-case hex digits, 16 lower-case hex
  digits, flags 01, 55 characters in all, for any 16 and 8 random bytes.\<close>

theorem traceparent_shape:
  assumes "length b16 = 16" "length b8 = 8" "\<forall>b \<in> set (b16 @ b8). b < 256"
  shows "\<exists>t s. traceparent (createTraceContext b16 b8) = ''00-'' @ t @ ''-'' @ s @ ''-01'' \<and>
    length t = 32 \<and> length s = 16 \<and> set (t @ s) \<subseteq> set lower_hex \<and>
    length (traceparent (createTraceContext b16 b8)) = 55"
proof -
  have "length (randomHex b16) = 32 \<and> set (randomHex b16) \<subseteq> set lower_hex"
    "length (randomHex b8) = 16 \<and> set (randomHex b8) \<subseteq> set lower_hex"
    using assms randomHex_shape[of b16] randomHex_shape[of b8] by auto
  then show ?thesis by (auto simp: createTraceContext_def Let_def)
qed

lemma traceparent_shape_witness:
  "length (traceparent (createTraceContext (replicate 16 7) (replicate 8 255))) = 55"
  using traceparent_shape[of "replicate 16 7" "replicate 8 255"] by auto

definition base_headers :: "header_env \<Rightarrow> req_config \<Rightarrow> headers" where
  "base_headers env c =
     hdr_set TRACEPARENT_HEADER (traceparent (createTraceContext (env_trace env) (env_span env)))
       (hdr_set CORRELATION_ID_HEADER (correlationId env) (cfg_headers c))"

lemma base_headers_get:
  "hdr_get (base_headers env c) k =
     (if to_lower k = ''traceparent'' then Some (traceparent (createTraceContext (env_trace env) (env_span env)))
      else if to_lower k = ''x-correlation-id'' then Some (correlationId env)
      else hdr_get (cfg_headers c) k)"
  by (simp add: base_headers_def hdr_get_set)

lemma attach_headers_cases:
  assumes "attachCrossCuttingHeaders env c = Inr (c', trace)"
  shows "c' = c \<lparr> cfg_headers :=
      (if request_method c \<in> set MUTATING_METHODS
       then (case readCookie (env_decode env) CSRF_COOKIE_NAME (env_cookies env) of
               Inr (Some t) \<Rightarrow> if t \<noteq> [] then hdr_set CSRF_HEADER_NAME t (base_headers env c)
                               else base_headers env c
             | _ \<Rightarrow> base_headers env c)
       else base_headers env c) \<rparr> \<and>
    trace = createTraceContext (env_trace env) (env_span env)"
proof (cases "readCookie (env_decode env) CSRF_COOKIE_NAME (env_cookies env)")
  case (Inl u)
  with assms show ?thesis
    by (auto simp: attachCrossCuttingHeaders_def Let_def base_headers_def split: if_splits)
next
  case (Inr t)
  with assms show ?thesis
    by (cases t) (auto simp: attachCrossCuttingHeaders_def Let_def base_headers_def split: if_splits)
qed

text \<open>What the interceptor attaches: the correlation id and the trace always, and the CSRF token
  exactly on a mutating method when the cookie is present and not empty; any other header,
  including a CSRF header set before, is left as it was.\<close>

theorem attach_headers_spec:
  assumes "attachCrossCuttingHeaders env c = Inr (c', trace)"
  shows "hdr_get (cfg_headers c') CORRELATION_ID_HEADER = Some (correlationId env) \<and>
    hdr_get (cfg_headers c') TRACEPARENT_HEADER = Some (traceparent trace) \<and>
    hdr_get (cfg_headers c') CSRF_HEADER_NAME =
      (case readCookie (env_decode env) CSRF_COOKIE_NAME (env_cookies env) of
         Inr (Some t) \<Rightarrow>
           if request_method c \<in> set MUTATING_METHODS \<and> t \<noteq> [] then Some t
           else hdr_get (cfg_headers c) CSRF_HEADER_NAME
       | _ \<Rightarrow> hdr_get (cfg_headers c) CSRF_HEADER_NAME) \<and>
    (\<forall>k. to_lower k \<notin> {''x-correlation-id'', ''traceparent'', ''x-csrf-token''} \<longrightarrow>
       hdr_get (cfg_headers c') k = hdr_get (cfg_headers c) k) \<and>
    cfg_url c' = cfg_url c \<and> cfg_method c' = cfg_method c"
proof -
  let ?h2 = "base_headers env c"
  have e: "cfg_headers c' = (if request_method c \<in> set MUTATING_METHODS
        then (case readCookie (env_decode env) CSRF_COOKIE_NAME (env_cookies env) of
                Inr (Some t) \<Rightarrow> if t \<noteq> [] then hdr_set CSRF_HEADER_NAME t ?h2 else ?h2
              | _ \<Rightarrow> ?h2) else ?h2)"
    "trace = createTraceContext (env_trace env) (env_span env)"
    "cfg_url c' = cfg_url c" "cfg_method c' = cfg_method c"
    using attach_headers_cases[OF assms] by auto
  show ?thesis
    using e(3,4) unfolding e(1,2) by (auto simp: base_headers_get hdr_get_set split: sum.split option.split)
qed

lemma attach_headers_spec_witness:
  "\<exists>c' tr. attachCrossCuttingHeaders
      \<lparr> env_uuid = Some ''u-1'', env_fallback = [], env_trace = [1], env_span = [2],
        env_cookies = Some ''a=b; csrf_token=tok'', env_decode = Some \<rparr>
      \<lparr> cfg_url = ''/api'', cfg_method = Some ''post'', cfg_headers = [] \<rparr> = Inr (c', tr) \<and>
    hdr_get (cfg_headers c') CSRF_HEADER_NAME = Some ''tok''"
proof -
  let ?env = "\<lparr> env_uuid = Some ''u-1'', env_fallback = [], env_trace = [1], env_span = [2],
        env_cookies = Some ''a=b; csrf_token=tok'', env_decode = Some \<rparr>"
  let ?c = "\<lparr> cfg_url = ''/api'', cfg_method = Some ''post'', cfg_headers = [] \<rparr>"
  have m: "request_method ?c \<in> set MUTATING_METHODS"
    by (simp add: request_method_def MUTATING_METHODS_def to_upper_def lower_chars_def upper_chars_def)
  have r: "readCookie (env_decode ?env) CSRF_COOKIE_NAME (env_cookies ?env) = Inr (Some ''tok'')"
    by (simp add: readCookie_def cookie_at_def starts_with_def CSRF_COOKIE_NAME_def)
  obtain c' tr where a: "attachCrossCuttingHeaders ?env ?c = Inr (c', tr)"
    using m r by (simp add: attachCrossCuttingHeaders_def Let_def)
  show ?thesis using attach_headers_spec[OF a] a m r by auto
qed

text \<open>In production the logger writes nothing.\<close>

lemma logger_silent_in_production: "logger_emit False level event cur meta = []"
  by (simp add: logger_emit_def)

end
