(* ===== verification/Api_Client.thy ===== *)
theory Api_Client
  imports Token_Expiry Request_Headers
begin

text \<open>
  The authenticated API client of core/api/client.ts: the request interceptor
  that refreshes proactively, the response interceptor that refreshes once on a
  401 and retries, and the one refresh promise they share. The client is a state
  machine over the requests issued so far and the refresh calls made so far;
  every await of the code is a separate step, so all interleavings of concurrent
  requests and of the callbacks of the shared promise are covered. The server's
  answers and the clock are labels of the steps. The second part is one request
  run to its end without concurrency, which the session provider uses, and the
  error shape of unauthenticatedApiClient.ts.
\<close>

definition isAuthEndpoint :: "string option \<Rightarrow> bool" where
  "isAuthEndpoint url =
     (case url of
        None \<Rightarrow> False
      | Some u \<Rightarrow> u \<noteq> [] \<and>
          list_ex (contains_str u)
            [''/api/auth/login'', ''/api/auth/refresh'', ''/api/auth/logout'',
             ''/api/v1/auth/login'', ''/api/v1/auth/refresh'', ''/api/v1/auth/logout''])"

datatype phase =
    Intercepting
  | AwaitPro nat
  | OnWire
  | AwaitRe nat "int option"
  | Resolved js
  | Rejected "int option"

text \<open>rq_sends counts how often the request went out; the code does not read it.\<close>

record req =
  rq_url :: "string option"
  rq_retry :: bool
  rq_phase :: phase
  rq_sends :: nat

text \<open>A refresh call: unanswered, its then-callback has run, or its finally-callback has run.\<close>

datatype refresh_call = InFlight | Handled bool | Settled bool

record client =
  cl_reqs :: "req list"
  cl_calls :: "refresh_call list"
  cl_promise :: "nat option"
  cl_store :: storage
  cl_expired_events :: "nat list"

definition client_init :: "storage \<Rightarrow> client" where
  "client_init st = \<lparr> cl_reqs = [], cl_calls = [], cl_promise = None, cl_store = st, cl_expired_events = [] \<rparr>"

text \<open>performRefresh: join the pending promise, or start a call and keep its promise.\<close>

definition performRefresh :: "client \<Rightarrow> client \<times> nat" where
  "performRefresh c =
     (case cl_promise c of
        Some g \<Rightarrow> (c, g)
      | None \<Rightarrow>
          (c \<lparr> cl_calls := cl_calls c @ [InFlight], cl_promise := Some (length (cl_calls c)) \<rparr>,
           length (cl_calls c)))"

definition refresh_then :: "nat \<Rightarrow> js option \<Rightarrow> client \<Rightarrow> client" where
  "refresh_then g reply c =
     c \<lparr> cl_calls := (cl_calls c)[g := Handled (reply \<noteq> None)],
         cl_store := (case reply of
             Some body \<Rightarrow> recordAccessTokenExpiry (js_get ''access_token_expires_at'' body) (cl_store c)
           | None \<Rightarrow> cl_store c) \<rparr>"

definition refresh_finally :: "nat \<Rightarrow> bool \<Rightarrow> client \<Rightarrow> client" where
  "refresh_finally g ok c = c \<lparr> cl_calls := (cl_calls c)[g := Settled ok], cl_promise := None \<rparr>"

definition put_req :: "nat \<Rightarrow> req \<Rightarrow> client \<Rightarrow> client" where
  "put_req i r c = c \<lparr> cl_reqs := (cl_reqs c)[i := r] \<rparr>"

definition send_req :: "req \<Rightarrow> req" where
  "send_req r = r \<lparr> rq_phase := OnWire, rq_sends := Suc (rq_sends r) \<rparr>"

definition on_request :: "rat \<Rightarrow> nat \<Rightarrow> client \<Rightarrow> client" where
  "on_request now i c =
     (let r = cl_reqs c ! i
      in if \<not> isAuthEndpoint (rq_url r) \<and> isAccessTokenExpired now (cl_store c)
         then (case performRefresh c of (c', g) \<Rightarrow> put_req i (r \<lparr> rq_phase := AwaitPro g \<rparr>) c')
         else put_req i (send_req r) c)"

definition on_response_error :: "int option \<Rightarrow> nat \<Rightarrow> client \<Rightarrow> client" where
  "on_response_error status i c =
     (let r = cl_reqs c ! i
      in if status \<noteq> Some 401 \<or> rq_retry r \<or> isAuthEndpoint (rq_url r)
         then put_req i (r \<lparr> rq_phase := Rejected status \<rparr>) c
         else (case performRefresh c of
                 (c', g) \<Rightarrow> put_req i (r \<lparr> rq_retry := True, rq_phase := AwaitRe g status \<rparr>) c'))"

text \<open>After the awaited refresh: retry through the interceptors, or end the session.\<close>

definition on_refreshed :: "nat \<Rightarrow> int option \<Rightarrow> bool \<Rightarrow> client \<Rightarrow> client" where
  "on_refreshed i status ok c =
     (let r = cl_reqs c ! i
      in if ok then put_req i (r \<lparr> rq_phase := Intercepting \<rparr>) c
         else (put_req i (r \<lparr> rq_phase := Rejected status \<rparr>) c)
                \<lparr> cl_store := clearAccessTokenExpiry (cl_store c),
                  cl_expired_events := cl_expired_events c @ [i] \<rparr>)"

text \<open>The headers of a request are attached first; reading a malformed CSRF cookie throws, and the request
  is rejected without having been sent (InterceptThrows).\<close>

datatype event =
    Issue "string option"
  | Intercept nat rat
  | InterceptThrows nat
  | ResumePro nat
  | Reply nat js
  | ReplyError nat "int option"
  | ResumeRe nat
  | RefreshReply nat "js option"
  | RefreshFinally nat

definition in_phase :: "client \<Rightarrow> nat \<Rightarrow> phase \<Rightarrow> bool" where
  "in_phase c i p \<longleftrightarrow> i < length (cl_reqs c) \<and> rq_phase (cl_reqs c ! i) = p"

definition call_is :: "client \<Rightarrow> nat \<Rightarrow> refresh_call \<Rightarrow> bool" where
  "call_is c g s \<longleftrightarrow> g < length (cl_calls c) \<and> cl_calls c ! g = s"

inductive client_step :: "client \<Rightarrow> event \<Rightarrow> client \<Rightarrow> bool" where
  issue: "client_step c (Issue u)
     (c \<lparr> cl_reqs := cl_reqs c @ [\<lparr> rq_url = u, rq_retry = False, rq_phase = Intercepting, rq_sends = 0 \<rparr>] \<rparr>)"
| intercept: "in_phase c i Intercepting \<Longrightarrow> client_step c (Intercept i now) (on_request now i c)"
| intercept_throws: "in_phase c i Intercepting \<Longrightarrow>
     client_step c (InterceptThrows i) (put_req i ((cl_reqs c ! i) \<lparr> rq_phase := Rejected None \<rparr>) c)"
| resume_pro: "in_phase c i (AwaitPro g) \<Longrightarrow> call_is c g (Settled ok) \<Longrightarrow>
     client_step c (ResumePro i) (put_req i (send_req (cl_reqs c ! i)) c)"
| reply: "in_phase c i OnWire \<Longrightarrow>
     client_step c (Reply i body) (put_req i ((cl_reqs c ! i) \<lparr> rq_phase := Resolved body \<rparr>) c)"
| reply_error: "in_phase c i OnWire \<Longrightarrow>
     client_step c (ReplyError i status) (on_response_error status i c)"
| resume_re: "in_phase c i (AwaitRe g status) \<Longrightarrow> call_is c g (Settled ok) \<Longrightarrow>
     client_step c (ResumeRe i) (on_refreshed i status ok c)"
| refresh_reply: "call_is c g InFlight \<Longrightarrow>
     client_step c (RefreshReply g body) (refresh_then g body c)"
| refresh_done: "call_is c g (Handled ok) \<Longrightarrow>
     client_step c (RefreshFinally g) (refresh_finally g ok c)"

inductive reachable :: "client \<Rightarrow> bool" where
  init: "reachable (client_init st)"
| step: "reachable c \<Longrightarrow> client_step c e c' \<Longrightarrow> reachable c'"

inductive_cases issueE: "client_step c (Issue u) c'"
inductive_cases client_stepE: "client_step c e c'"

lemmas client_handlers = on_request_def on_response_error_def on_refreshed_def performRefresh_def
  refresh_then_def refresh_finally_def put_req_def send_req_def in_phase_def call_is_def Let_def

section \<open>Invariant\<close>

definition settled_phase :: "phase \<Rightarrow> bool" where
  "settled_phase p = (case p of Resolved _ \<Rightarrow> True | Rejected _ \<Rightarrow> True | _ \<Rightarrow> False)"

text \<open>What holds of one request: what it waits for exists, and its sends fit its retry flag.\<close>

definition req_ok :: "nat \<Rightarrow> req \<Rightarrow> bool" where
  "req_ok n r \<longleftrightarrow>
     (case rq_phase r of
        Intercepting \<Rightarrow> rq_sends r = (if rq_retry r then 1 else 0)
      | AwaitPro g \<Rightarrow> g < n \<and> \<not> isAuthEndpoint (rq_url r) \<and> rq_sends r = (if rq_retry r then 1 else 0)
      | OnWire \<Rightarrow> rq_sends r = (if rq_retry r then 2 else 1)
      | AwaitRe g s \<Rightarrow> g < n \<and> rq_retry r \<and> s = Some 401 \<and> rq_sends r = 1
      | Resolved _ \<Rightarrow> rq_sends r \<le> (if rq_retry r then 2 else 1)
      | Rejected _ \<Rightarrow> rq_sends r \<le> (if rq_retry r then 2 else 1)) \<and>
     (isAuthEndpoint (rq_url r) \<longrightarrow> \<not> rq_retry r)"

definition calls_ok :: "client \<Rightarrow> bool" where
  "calls_ok c \<longleftrightarrow>
     (\<forall>g < length (cl_calls c). (\<forall>ok. cl_calls c ! g \<noteq> Settled ok) \<longleftrightarrow> cl_promise c = Some g) \<and>
     (\<forall>g. cl_promise c = Some g \<longrightarrow> g < length (cl_calls c))"

definition events_ok :: "client \<Rightarrow> bool" where
  "events_ok c \<longleftrightarrow>
     distinct (cl_expired_events c) \<and>
     (\<forall>i \<in> set (cl_expired_events c).
        i < length (cl_reqs c) \<and> rq_phase (cl_reqs c ! i) = Rejected (Some 401) \<and>
        rq_retry (cl_reqs c ! i) \<and> rq_sends (cl_reqs c ! i) = 1 \<and> (\<exists>g. call_is c g (Settled False)))"

definition client_inv :: "client \<Rightarrow> bool" where
  "client_inv c \<longleftrightarrow>
     (\<forall>r \<in> set (cl_reqs c). req_ok (length (cl_calls c)) r) \<and> calls_ok c \<and> events_ok c"

lemma client_inv_init: "client_inv (client_init st)"
  by (simp add: client_inv_def client_init_def calls_ok_def events_ok_def)

lemma req_ok_mono: "req_ok n r \<Longrightarrow> n \<le> m \<Longrightarrow> req_ok m r"
  by (auto simp: req_ok_def split: phase.splits)

text \<open>Replacing an unsettled request by an admissible one keeps the invariant.\<close>

lemma put_req_inv:
  assumes inv: "client_inv c" and r: "req_ok (length (cl_calls c)) r"
    and i: "i < length (cl_reqs c)" "\<not> settled_phase (rq_phase (cl_reqs c ! i))"
  shows "client_inv (put_req i r c)"
proof -
  have "\<forall>q \<in> set ((cl_reqs c)[i := r]). req_ok (length (cl_calls c)) q"
    using inv r by (auto simp: client_inv_def dest: set_update_subset_insert[THEN subsetD])
  moreover from inv i have "i \<notin> set (cl_expired_events c)"
    by (auto simp: client_inv_def events_ok_def settled_phase_def)
  then have "(cl_reqs c)[i := r] ! j = cl_reqs c ! j" if "j \<in> set (cl_expired_events c)" for j
    using that by (metis nth_list_update_neq)
  ultimately show ?thesis
    using inv by (auto simp: client_inv_def put_req_def calls_ok_def events_ok_def call_is_def)
qed

lemma performRefresh_inv:
  assumes inv: "client_inv c" and p: "performRefresh c = (c', g)"
  shows "client_inv c' \<and> g < length (cl_calls c') \<and> cl_reqs c' = cl_reqs c \<and>
    cl_store c' = cl_store c \<and> cl_expired_events c' = cl_expired_events c \<and>
    length (cl_calls c) \<le> length (cl_calls c')"
proof (cases "cl_promise c")
  case (Some h)
  then show ?thesis using inv p by (auto simp: performRefresh_def client_inv_def calls_ok_def)
next
  case None
  have "req_ok (Suc (length (cl_calls c))) r" if "r \<in> set (cl_reqs c)" for r
    using inv that req_ok_mono[of _ r] by (auto simp: client_inv_def)
  moreover have "calls_ok (c \<lparr> cl_calls := cl_calls c @ [InFlight], cl_promise := Some (length (cl_calls c)) \<rparr>)"
    using inv None by (auto simp: client_inv_def calls_ok_def nth_append)
  moreover have "events_ok (c \<lparr> cl_calls := cl_calls c @ [InFlight], cl_promise := Some (length (cl_calls c)) \<rparr>)"
    using inv by (fastforce simp: client_inv_def events_ok_def call_is_def nth_append)
  ultimately show ?thesis using p None by (auto simp: performRefresh_def client_inv_def)
qed

lemma req_ok_at: "client_inv c \<Longrightarrow> i < length (cl_reqs c) \<Longrightarrow> req_ok (length (cl_calls c)) (cl_reqs c ! i)"
  by (simp add: client_inv_def)

lemma on_request_inv:
  assumes "client_inv c" "in_phase c i Intercepting"
  shows "client_inv (on_request now i c)"
proof -
  have i: "i < length (cl_reqs c)" "rq_phase (cl_reqs c ! i) = Intercepting"
    using assms(2) by (auto simp: in_phase_def)
  have r: "req_ok (length (cl_calls c)) (cl_reqs c ! i)" using req_ok_at[OF assms(1) i(1)] .
  show ?thesis
  proof (cases "\<not> isAuthEndpoint (rq_url (cl_reqs c ! i)) \<and> isAccessTokenExpired now (cl_store c)")
    case True
    obtain c' g where p: "performRefresh c = (c', g)" by force
    note q = performRefresh_inv[OF assms(1) p]
    have "req_ok (length (cl_calls c')) ((cl_reqs c ! i) \<lparr> rq_phase := AwaitPro g \<rparr>)"
      using r q True i by (auto simp: req_ok_def)
    then show ?thesis using True p q i put_req_inv[of c'] by (simp add: on_request_def settled_phase_def)
  next
    case False
    have "req_ok (length (cl_calls c)) (send_req (cl_reqs c ! i))"
      using r i by (auto simp: req_ok_def send_req_def)
    then show ?thesis
      using False assms(1) i put_req_inv[of c] by (auto simp: on_request_def settled_phase_def Let_def)
  qed
qed

lemma on_response_error_inv:
  assumes "client_inv c" "in_phase c i OnWire"
  shows "client_inv (on_response_error status i c)"
proof -
  let ?r = "cl_reqs c ! i"
  have i: "i < length (cl_reqs c)" "rq_phase ?r = OnWire"
    using assms(2) by (auto simp: in_phase_def)
  have r: "req_ok (length (cl_calls c)) ?r" using req_ok_at[OF assms(1) i(1)] .
  show ?thesis
  proof (cases "status \<noteq> Some 401 \<or> rq_retry ?r \<or> isAuthEndpoint (rq_url ?r)")
    case True
    have "req_ok (length (cl_calls c)) (?r \<lparr> rq_phase := Rejected status \<rparr>)"
      using r i by (auto simp: req_ok_def)
    then show ?thesis
      using True assms(1) i put_req_inv[of c] by (simp add: on_response_error_def settled_phase_def)
  next
    case False
    obtain c' g where p: "performRefresh c = (c', g)" by force
    note q = performRefresh_inv[OF assms(1) p]
    have "req_ok (length (cl_calls c')) (?r \<lparr> rq_retry := True, rq_phase := AwaitRe g status \<rparr>)"
      using r q False i by (auto simp: req_ok_def)
    then show ?thesis
      using False p q i put_req_inv[of c'] by (simp add: on_response_error_def settled_phase_def)
  qed
qed

lemma on_refreshed_inv:
  assumes "client_inv c" "in_phase c i (AwaitRe g status)" "call_is c g (Settled ok)"
  shows "client_inv (on_refreshed i status ok c)"
proof -
  let ?r = "cl_reqs c ! i"
  have i: "i < length (cl_reqs c)" "rq_phase ?r = AwaitRe g status"
    using assms(2) by (auto simp: in_phase_def)
  have r: "req_ok (length (cl_calls c)) ?r" using req_ok_at[OF assms(1) i(1)] .
  have ok: "req_ok (length (cl_calls c)) (?r \<lparr> rq_phase := Intercepting \<rparr>)"
    "req_ok (length (cl_calls c)) (?r \<lparr> rq_phase := Rejected status \<rparr>)"
    using r i by (auto simp: req_ok_def)
  note put = put_req_inv[OF assms(1) ok(1) i(1)] put_req_inv[OF assms(1) ok(2) i(1)]
  have new: "i \<notin> set (cl_expired_events c)"
    using assms(1) i by (auto simp: client_inv_def events_ok_def)
  show ?thesis
  proof (cases ok)
    case True
    then show ?thesis using put(1) i by (simp add: on_refreshed_def settled_phase_def Let_def)
  next
    case False
    then show ?thesis
      using put(2) i r new assms(3)
      by (auto simp: on_refreshed_def settled_phase_def Let_def client_inv_def calls_ok_def events_ok_def
          call_is_def put_req_def req_ok_def)
  qed
qed

lemma call_update_inv:
  assumes inv: "client_inv c" and g: "g < length (cl_calls c)" "\<forall>ok. cl_calls c ! g \<noteq> Settled ok"
  shows "client_inv (refresh_then g reply c)" "client_inv (refresh_finally g ok c)"
proof -
  have p: "cl_promise c = Some g" using inv g by (auto simp: client_inv_def calls_ok_def)
  have ev: "events_ok (c \<lparr> cl_calls := (cl_calls c)[g := s], cl_store := st \<rparr>)"
    "events_ok (c \<lparr> cl_calls := (cl_calls c)[g := s], cl_promise := None \<rparr>)" for s st
  proof -
    have k: "(\<exists>h. h < length (cl_calls c) \<and> (cl_calls c)[g := s] ! h = Settled False)"
      if "call_is c h' (Settled False)" for h'
      using that g(2) unfolding call_is_def by (metis nth_list_update_neq)
    then show "events_ok (c \<lparr> cl_calls := (cl_calls c)[g := s], cl_store := st \<rparr>)"
      "events_ok (c \<lparr> cl_calls := (cl_calls c)[g := s], cl_promise := None \<rparr>)"
      using inv by (auto simp: client_inv_def events_ok_def call_is_def)
  qed
  show "client_inv (refresh_then g reply c)" "client_inv (refresh_finally g ok c)"
    using inv ev p g
    by (auto simp: client_inv_def calls_ok_def refresh_then_def refresh_finally_def nth_list_update)
qed

lemma client_inv_step:
  assumes "client_inv c" "client_step c e c'"
  shows "client_inv c'"
  using assms(2,1)
proof cases
  case (issue u)
  then show ?thesis
    using assms(1) by (fastforce simp: client_inv_def req_ok_def calls_ok_def events_ok_def call_is_def nth_append)
next
  case (intercept_throws i)
  have "req_ok (length (cl_calls c)) (cl_reqs c ! i)"
    using intercept_throws assms(1) req_ok_at by (auto simp: in_phase_def)
  then have "req_ok (length (cl_calls c)) ((cl_reqs c ! i) \<lparr> rq_phase := Rejected None \<rparr>)"
    using intercept_throws by (auto simp: req_ok_def in_phase_def)
  then show ?thesis
    using intercept_throws assms(1) by (auto simp: in_phase_def settled_phase_def intro: put_req_inv)
next
  case (resume_pro i g ok)
  have "req_ok (length (cl_calls c)) (cl_reqs c ! i)"
    using resume_pro assms(1) req_ok_at by (auto simp: in_phase_def)
  then have "req_ok (length (cl_calls c)) (send_req (cl_reqs c ! i))"
    using resume_pro by (auto simp: req_ok_def send_req_def in_phase_def)
  then show ?thesis
    using resume_pro assms(1) by (auto simp: in_phase_def settled_phase_def intro: put_req_inv)
next
  case (reply i body)
  have "req_ok (length (cl_calls c)) (cl_reqs c ! i)"
    using reply assms(1) req_ok_at by (auto simp: in_phase_def)
  then have "req_ok (length (cl_calls c)) ((cl_reqs c ! i) \<lparr> rq_phase := Resolved body \<rparr>)"
    using reply by (auto simp: req_ok_def in_phase_def)
  then show ?thesis
    using reply assms(1) by (auto simp: in_phase_def settled_phase_def intro: put_req_inv)
next
  case (refresh_reply g body)
  then show ?thesis using assms(1) call_update_inv(1) by (auto simp: call_is_def)
next
  case (refresh_done g ok)
  then show ?thesis using assms(1) call_update_inv(2) by (auto simp: call_is_def)
qed (auto intro: on_request_inv on_response_error_inv on_refreshed_inv)

lemma reachable_inv: "reachable c \<Longrightarrow> client_inv c"
  by (induction rule: reachable.induct) (auto intro: client_inv_init client_inv_step)

section \<open>Concurrent requests\<close>

text \<open>Runs as lists of events, to exhibit reachable clients.\<close>

fun client_exec :: "event \<Rightarrow> client \<Rightarrow> client option" where
  "client_exec (Issue u) c =
     Some (c \<lparr> cl_reqs := cl_reqs c @ [\<lparr> rq_url = u, rq_retry = False, rq_phase = Intercepting, rq_sends = 0 \<rparr>] \<rparr>)"
| "client_exec (Intercept i now) c =
     (if in_phase c i Intercepting then Some (on_request now i c) else None)"
| "client_exec (InterceptThrows i) c =
     (if in_phase c i Intercepting then Some (put_req i ((cl_reqs c ! i) \<lparr> rq_phase := Rejected None \<rparr>) c) else None)"
| "client_exec (ResumePro i) c =
     (if i < length (cl_reqs c) then
        (case rq_phase (cl_reqs c ! i) of
           AwaitPro g \<Rightarrow>
             if call_is c g (Settled True) \<or> call_is c g (Settled False)
             then Some (put_req i (send_req (cl_reqs c ! i)) c) else None
         | _ \<Rightarrow> None)
      else None)"
| "client_exec (Reply i body) c =
     (if in_phase c i OnWire then Some (put_req i ((cl_reqs c ! i) \<lparr> rq_phase := Resolved body \<rparr>) c) else None)"
| "client_exec (ReplyError i status) c =
     (if in_phase c i OnWire then Some (on_response_error status i c) else None)"
| "client_exec (ResumeRe i) c =
     (if i < length (cl_reqs c) then
        (case rq_phase (cl_reqs c ! i) of
           AwaitRe g status \<Rightarrow>
             if call_is c g (Settled True) then Some (on_refreshed i status True c)
             else if call_is c g (Settled False) then Some (on_refreshed i status False c) else None
         | _ \<Rightarrow> None)
      else None)"
| "client_exec (RefreshReply g body) c =
     (if call_is c g InFlight then Some (refresh_then g body c) else None)"
| "client_exec (RefreshFinally g) c =
     (if call_is c g (Handled True) then Some (refresh_finally g True c)
      else if call_is c g (Handled False) then Some (refresh_finally g False c) else None)"

fun client_run :: "event list \<Rightarrow> client \<Rightarrow> client option" where
  "client_run [] c = Some c"
| "client_run (e # es) c = (case client_exec e c of None \<Rightarrow> None | Some c' \<Rightarrow> client_run es c')"

lemma client_exec_step: "client_exec e c = Some c' \<longleftrightarrow> client_step c e c'"
proof
  assume "client_exec e c = Some c'"
  then show "client_step c e c'"
    by (cases e) (auto simp: in_phase_def intro: client_step.intros[unfolded in_phase_def]
        split: if_splits phase.splits)
next
  assume "client_step c e c'"
  then show "client_exec e c = Some c'"
    by cases (auto simp: in_phase_def call_is_def)
qed

lemma client_run_reachable: "client_run es c = Some c' \<Longrightarrow> reachable c \<Longrightarrow> reachable c'"
  by (induction es arbitrary: c) (auto simp: client_exec_step split: option.splits intro: reachable.step)

text \<open>C1. Single flight: in every reachable state of the client, under every interleaving of
  concurrent requests, at most one refresh call is unanswered, and it is the one the shared promise
  stands for; every request goes out at most twice, an auth endpoint at most once and never through
  a refresh.\<close>

theorem client_single_flight:
  assumes "reachable c"
  shows "(\<forall>g h. call_is c g InFlight \<and> call_is c h InFlight \<longrightarrow> g = h) \<and>
    (\<forall>g. call_is c g InFlight \<longrightarrow> cl_promise c = Some g) \<and>
    (\<forall>r \<in> set (cl_reqs c). rq_sends r \<le> 2 \<and>
       (isAuthEndpoint (rq_url r) \<longrightarrow> rq_sends r \<le> 1 \<and> (\<forall>g s. rq_phase r \<noteq> AwaitPro g \<and> rq_phase r \<noteq> AwaitRe g s)))"
proof -
  have inv: "client_inv c" using reachable_inv[OF assms] .
  have p: "cl_promise c = Some g" if "call_is c g InFlight" for g
    using inv that by (auto simp: client_inv_def calls_ok_def call_is_def)
  have "rq_sends r \<le> 2 \<and>
       (isAuthEndpoint (rq_url r) \<longrightarrow> rq_sends r \<le> 1 \<and> (\<forall>g s. rq_phase r \<noteq> AwaitPro g \<and> rq_phase r \<noteq> AwaitRe g s))"
    if "r \<in> set (cl_reqs c)" for r
  proof -
    have "req_ok (length (cl_calls c)) r" using inv that by (auto simp: client_inv_def)
    then show ?thesis by (auto simp: req_ok_def split: phase.splits if_splits)
  qed
  moreover have "g = h" if "call_is c g InFlight" "call_is c h InFlight" for g h
    using p[OF that(1)] p[OF that(2)] by simp
  ultimately show ?thesis using p by blast
qed

text \<open>Two concurrent requests both answered 401: the second joins the refresh of the first.\<close>

definition two_requests :: "event list" where
  "two_requests = [Issue (Some ''/api/v1/events''), Issue (Some ''/api/v1/sports''),
     Intercept 0 0, Intercept 1 0, ReplyError 0 (Some 401), ReplyError 1 (Some 401)]"

definition two_waiting :: client where
  "two_waiting = \<lparr>
     cl_reqs = [\<lparr> rq_url = Some ''/api/v1/events'', rq_retry = True, rq_phase = AwaitRe 0 (Some 401), rq_sends = 1 \<rparr>,
                \<lparr> rq_url = Some ''/api/v1/sports'', rq_retry = True, rq_phase = AwaitRe 0 (Some 401), rq_sends = 1 \<rparr>],
     cl_calls = [InFlight], cl_promise = Some 0, cl_store = empty_storage, cl_expired_events = [] \<rparr>"

lemma two_requests_run: "client_run two_requests (client_init empty_storage) = Some two_waiting"
proof -
  have u: "\<not> isAuthEndpoint (Some ''/api/v1/events'')" "\<not> isAuthEndpoint (Some ''/api/v1/sports'')"
    by code_simp+
  have s: "\<not> isAccessTokenExpired 0 empty_storage" by (simp add: expired_no_hint empty_storage_def)
  show ?thesis
    using u s by (simp add: two_requests_def two_waiting_def client_init_def client_handlers)
qed

lemma two_waiting_reachable: "reachable two_waiting"
  using client_run_reachable[OF two_requests_run] reachable.init by blast

lemma client_single_flight_witness: "cl_promise two_waiting = Some 0 \<and> call_is two_waiting 0 InFlight"
  using client_single_flight[OF two_waiting_reachable] by (simp add: call_is_def two_waiting_def)

section \<open>What a run has done so far\<close>

lemma client_run_append:
  "client_run (es @ fs) c = (case client_run es c of None \<Rightarrow> None | Some d \<Rightarrow> client_run fs d)"
  by (induction es arbitrary: c) (auto split: option.splits)

lemma client_run_snoc:
  "client_run (es @ [e]) c = Some d \<longleftrightarrow> (\<exists>c'. client_run es c = Some c' \<and> client_exec e c' = Some d)"
  by (auto simp: client_run_append split: option.splits)

text \<open>A refresh call has the outcome of its one answer in the run.\<close>

definition calls_answered :: "event list \<Rightarrow> client \<Rightarrow> bool" where
  "calls_answered es c \<longleftrightarrow> (\<forall>g b. (call_is c g (Handled b) \<or> call_is c g (Settled b)) \<longleftrightarrow>
     (\<exists>body. RefreshReply g body \<in> set es \<and> b = (body \<noteq> None)))"

text \<open>A request waiting after a 401 waits for a call that was not finished when the 401 came.\<close>

definition awaited :: "event list \<Rightarrow> client \<Rightarrow> bool" where
  "awaited es c \<longleftrightarrow> (\<forall>i g s. in_phase c i (AwaitRe g s) \<longrightarrow>
     (\<exists>as ms. es = as @ ReplyError i s # ms \<and> (\<forall>ok. call_is c g (Settled ok) \<longrightarrow> RefreshFinally g \<in> set ms)))"

definition more_calls :: "client \<Rightarrow> client \<Rightarrow> bool" where
  "more_calls c d \<longleftrightarrow> cl_calls d = cl_calls c \<or> cl_calls d = cl_calls c @ [InFlight]"

lemma more_calls_is:
  assumes "more_calls c d"
  shows "call_is d h (Handled b) = call_is c h (Handled b)" "call_is d h (Settled b) = call_is c h (Settled b)"
  using assms by (auto simp: more_calls_def call_is_def nth_append split: if_splits)

lemma more_calls_handlers:
  "more_calls c (put_req i r c)" "more_calls c (on_request t i c)" "more_calls c (on_response_error s i c)"
  "more_calls c (on_refreshed i s ok c)"
  by (auto simp: more_calls_def put_req_def on_request_def on_response_error_def on_refreshed_def
      performRefresh_def Let_def split: option.splits)

lemma exec_more_calls:
  assumes "client_exec e c = Some d" "\<forall>g body. e \<noteq> RefreshReply g body" "\<forall>g. e \<noteq> RefreshFinally g"
  shows "more_calls c d"
proof (cases e)
  case (Issue u)
  then show ?thesis using assms by (auto simp: more_calls_def)
qed (use assms more_calls_handlers in \<open>auto split: if_splits phase.splits\<close>)

lemmas exec_call_is = more_calls_is[OF exec_more_calls]

lemma put_req_call_is [simp]: "call_is (put_req i r c) h k = call_is c h k"
  by (simp add: put_req_def call_is_def)

lemma answered_step:
  assumes "calls_answered es c" "client_exec e c = Some d"
  shows "calls_answered (es @ [e]) d"
proof (cases e)
  case (RefreshReply g body)
  then have d: "d = refresh_then g body c" "call_is c g InFlight" using assms(2) by (auto split: if_splits)
  have "(call_is d h (Handled b) \<or> call_is d h (Settled b)) =
      ((call_is c h (Handled b) \<or> call_is c h (Settled b)) \<or> h = g \<and> b = (body \<noteq> None))" for h b
    using d by (cases "h = g") (auto simp: refresh_then_def call_is_def)
  then show ?thesis using assms(1)[unfolded calls_answered_def] unfolding calls_answered_def RefreshReply by simp blast
next
  case (RefreshFinally g)
  then obtain ok where d: "d = refresh_finally g ok c" "call_is c g (Handled ok)" using assms(2) by (auto split: if_splits)
  have "(call_is d h (Handled b) \<or> call_is d h (Settled b)) = (call_is c h (Handled b) \<or> call_is c h (Settled b))" for h b
    using d by (auto simp: refresh_finally_def call_is_def nth_list_update)
  then show ?thesis using assms(1) RefreshFinally by (simp add: calls_answered_def)
qed (use assms exec_call_is[OF assms(2)] in \<open>simp_all add: calls_answered_def\<close>)

lemma put_req_in_phase:
  "in_phase (put_req i r c) j ph \<longleftrightarrow> j < length (cl_reqs c) \<and> (if i = j then rq_phase r = ph else in_phase c j ph)"
  by (auto simp: in_phase_def put_req_def nth_list_update)

lemma performRefresh_open:
  assumes "client_inv c" "performRefresh c = (c', g)"
  shows "\<not> call_is c' g (Settled ok)"
  using assms by (auto simp: client_inv_def calls_ok_def performRefresh_def call_is_def split: option.splits)

text \<open>Which steps start a wait after a 401, and that a wait keeps its call.\<close>

lemma exec_waits:
  assumes "client_inv c" "client_exec e c = Some d" "in_phase d i (AwaitRe g s)"
  shows "in_phase c i (AwaitRe g s) \<or> e = ReplyError i s \<and> (\<forall>ok. \<not> call_is d g (Settled ok))"
proof -
  obtain c' h where p: "performRefresh c = (c', h)" by force
  have r: "cl_reqs c' = cl_reqs c" using performRefresh_inv[OF assms(1) p] by simp
  have o: "\<not> call_is c' h (Settled ok)" for ok using performRefresh_open[OF assms(1) p] .
  have n: "in_phase (c\<lparr>cl_reqs := cl_reqs c @ [x]\<rparr>) j ph \<longleftrightarrow> in_phase c j ph \<or> j = length (cl_reqs c) \<and> rq_phase x = ph"
    for x j ph by (auto simp: in_phase_def nth_append)
  have e: "in_phase c' j ph = in_phase c j ph" for j ph using r by (simp add: in_phase_def)
  show ?thesis
  proof (cases e)
    case (Intercept j now)
    then show ?thesis using assms(2,3) p e
      by (auto simp: on_request_def Let_def put_req_in_phase send_req_def split: if_splits)
  next
    case (ReplyError j st)
    then show ?thesis using assms(2,3) p e o
      by (auto simp: on_response_error_def Let_def put_req_in_phase split: if_splits)
  next
    case (ResumeRe j)
    have "in_phase (c\<lparr>cl_reqs := x, cl_store := y, cl_expired_events := z\<rparr>) k ph = in_phase (c\<lparr>cl_reqs := x\<rparr>) k ph"
      for x y z k ph by (simp add: in_phase_def)
    then show ?thesis using ResumeRe assms(2,3)
      by (auto simp: on_refreshed_def Let_def in_phase_def put_req_def nth_list_update split: if_splits phase.splits)
  next
    case (RefreshReply h x)
    then show ?thesis using assms(2,3) by (auto simp: refresh_then_def in_phase_def split: if_splits)
  next
    case (RefreshFinally h)
    then show ?thesis using assms(2,3) by (auto simp: refresh_finally_def in_phase_def split: if_splits)
  qed (use assms(2,3) n in \<open>auto simp: put_req_in_phase send_req_def split: if_splits phase.splits\<close>)
qed

lemma exec_finishes:
  assumes "client_exec e c = Some d" "call_is d g (Settled ok)"
  shows "call_is c g (Settled ok) \<or> e = RefreshFinally g"
proof (cases e)
  case (RefreshReply h body)
  then show ?thesis using assms
    by (auto simp: refresh_then_def call_is_def nth_list_update split: if_splits)
next
  case (RefreshFinally h)
  then show ?thesis using assms
    by (auto simp: refresh_finally_def call_is_def nth_list_update split: if_splits)
qed (use exec_call_is[OF assms(1)] assms(2) in auto)

lemma awaited_step:
  assumes inv: "client_inv c" and a: "awaited es c" and e: "client_exec e c = Some d"
  shows "awaited (es @ [e]) d"
  unfolding awaited_def
proof (intro allI impI)
  fix i g s assume w: "in_phase d i (AwaitRe g s)"
  from exec_waits[OF inv e w]
  show "\<exists>as ms. es @ [e] = as @ ReplyError i s # ms \<and> (\<forall>ok. call_is d g (Settled ok) \<longrightarrow> RefreshFinally g \<in> set ms)"
  proof
    assume "in_phase c i (AwaitRe g s)"
    then obtain as ms where "es = as @ ReplyError i s # ms" "\<forall>ok. call_is c g (Settled ok) \<longrightarrow> RefreshFinally g \<in> set ms"
      using a unfolding awaited_def by blast
    then show ?thesis using exec_finishes[OF e, of g] by (intro exI[of _ as] exI[of _ "ms @ [e]"]) auto
  next
    assume "e = ReplyError i s \<and> (\<forall>ok. \<not> call_is d g (Settled ok))"
    then show ?thesis by (intro exI[of _ es] exI[of _ "[]"]) simp
  qed
qed

lemma run_facts:
  "client_run es (client_init st) = Some c \<Longrightarrow> reachable c \<and> calls_answered es c \<and> awaited es c"
proof (induction es arbitrary: c rule: rev_induct)
  case Nil
  then show ?case
    by (auto simp: calls_answered_def awaited_def client_init_def call_is_def in_phase_def intro: reachable.init[of st, unfolded client_init_def])
next
  case (snoc e es)
  then obtain c' where c: "client_run es (client_init st) = Some c'" "client_exec e c' = Some c"
    by (auto simp: client_run_snoc)
  then show ?case
    using snoc.IH[OF c(1)] answered_step awaited_step reachable_inv reachable.step client_exec_step by metis
qed

text \<open>The session-expired event of a run: a request that was answered 401 resumes after the refresh it joined failed.\<close>

definition expires :: "storage \<Rightarrow> event list \<Rightarrow> nat \<Rightarrow> bool" where
  "expires st es i \<longleftrightarrow>
     (\<exists>as ms bs g c. es = as @ ReplyError i (Some 401) # ms @ ResumeRe i # bs \<and>
        client_run (as @ ReplyError i (Some 401) # ms) (client_init st) = Some c \<and>
        in_phase c i (AwaitRe g (Some 401)) \<and>
        RefreshReply g None \<in> set (as @ ms) \<and> RefreshFinally g \<in> set ms)"

lemma exec_events:
  assumes "client_exec e c = Some d"
  shows "cl_expired_events d = cl_expired_events c \<or>
    (\<exists>i g s. e = ResumeRe i \<and> in_phase c i (AwaitRe g s) \<and> call_is c g (Settled False) \<and>
       cl_expired_events d = cl_expired_events c @ [i])"
proof -
  have p: "cl_expired_events (fst (performRefresh c)) = cl_expired_events c"
    by (simp add: performRefresh_def split: option.splits)
  show ?thesis
  proof (cases e)
    case (Intercept i now)
    then show ?thesis using assms p by (auto simp: on_request_def Let_def put_req_def split: if_splits prod.splits)
  next
    case (ReplyError i s)
    then show ?thesis using assms p by (auto simp: on_response_error_def Let_def put_req_def split: if_splits prod.splits)
  next
    case (ResumeRe i)
    then show ?thesis using assms
      by (auto simp: on_refreshed_def Let_def put_req_def in_phase_def split: if_splits phase.splits)
  qed (use assms in \<open>auto simp: put_req_def refresh_then_def refresh_finally_def split: if_splits phase.splits\<close>)
qed

lemma expires_snoc: "expires st es i \<Longrightarrow> expires st (es @ [e]) i"
  unfolding expires_def by (elim exE conjE, intro exI conjI) auto

lemma awaits_401: "reachable c \<Longrightarrow> in_phase c i (AwaitRe g s) \<Longrightarrow> s = Some 401"
  using req_ok_at[OF reachable_inv, of c i] by (auto simp: in_phase_def req_ok_def)

lemma resume_expires:
  assumes "client_run es (client_init st) = Some c" "in_phase c i (AwaitRe g s)" "call_is c g (Settled False)"
  shows "expires st (es @ [ResumeRe i]) i"
proof -
  have f: "reachable c" "calls_answered es c" "awaited es c" using run_facts[OF assms(1)] by simp_all
  have s: "s = Some 401" using awaits_401[OF f(1) assms(2)] .
  obtain as ms where "es = as @ ReplyError i s # ms" "RefreshFinally g \<in> set ms"
    using f(3) assms(2,3) unfolding awaited_def by blast
  moreover have "\<exists>body. RefreshReply g body \<in> set es \<and> False = (body \<noteq> None)"
    using f(2) assms(3) unfolding calls_answered_def by blast
  then have "RefreshReply g None \<in> set es" by auto
  ultimately show ?thesis unfolding expires_def using assms(1,2) s
    by (intro exI[of _ as] exI[of _ ms] exI[of _ "[]"] exI[of _ g] exI[of _ c]) auto
qed

lemma expired_iff: "client_run es (client_init st) = Some c \<Longrightarrow> i \<in> set (cl_expired_events c) \<longleftrightarrow> expires st es i"
proof (induction es arbitrary: c rule: rev_induct)
  case Nil
  then show ?case by (auto simp: expires_def client_init_def)
next
  case (snoc e es)
  then obtain c' where c: "client_run es (client_init st) = Some c'" "client_exec e c' = Some c"
    by (auto simp: client_run_snoc)
  note f = run_facts[OF c(1)]
  note IH = snoc.IH[OF c(1)]
  show ?case
  proof
    assume i: "i \<in> set (cl_expired_events c)"
    then show "expires st (es @ [e]) i"
      using exec_events[OF c(2)] IH expires_snoc resume_expires[OF c(1)] by fastforce
  next
    assume "expires st (es @ [e]) i"
    then obtain as ms bs g d where x: "es @ [e] = as @ ReplyError i (Some 401) # ms @ ResumeRe i # bs"
      "client_run (as @ ReplyError i (Some 401) # ms) (client_init st) = Some d"
      "in_phase d i (AwaitRe g (Some 401))" "RefreshReply g None \<in> set (as @ ms)" "RefreshFinally g \<in> set ms"
      unfolding expires_def by blast
    show "i \<in> set (cl_expired_events c)"
    proof (cases bs rule: rev_cases)
      case Nil
      then have e: "es = as @ ReplyError i (Some 401) # ms" "e = ResumeRe i"
        using x(1) by (simp_all add: snoc_eq_iff_butlast butlast_append)
      then have d: "d = c'" using x(2) c(1) by simp
      have "call_is c' g (Settled ok) \<Longrightarrow> ok = False" for ok
        using f x(4) e(1) unfolding calls_answered_def by (metis (no_types) Un_iff call_is_def list.set_intros(2) refresh_call.inject(2) refresh_call.distinct(5) set_append)
      then show ?thesis using x(3) c(2) d e(2)
        by (auto simp: in_phase_def on_refreshed_def Let_def split: if_splits)
    next
      case (snoc bs' b)
      then have "es = as @ ReplyError i (Some 401) # ms @ ResumeRe i # bs'"
        using x(1) by (simp add: snoc_eq_iff_butlast butlast_append)
      then have "expires st es i" unfolding expires_def using x by blast
      then show ?thesis using IH exec_events[OF c(2)] by auto
    qed
  qed
qed

section \<open>The session-expired event\<close>

text \<open>C2. The session-expired event is fired exactly when it should be: a run fires it for a request
  if and only if the request was answered 401, the very refresh call it then waited for, unfinished at
  that moment, was refused, and the request resumed. No request fires it twice, and one that does
  is rejected with its 401, was sent once and is not retried, and goes to no auth endpoint.\<close>

theorem session_expired_sound:
  assumes "client_run es (client_init st) = Some c"
  shows "(i \<in> set (cl_expired_events c) \<longleftrightarrow>
       (\<exists>as ms bs g c1. es = as @ ReplyError i (Some 401) # ms @ ResumeRe i # bs \<and>
          client_run (as @ ReplyError i (Some 401) # ms) (client_init st) = Some c1 \<and>
          in_phase c1 i (AwaitRe g (Some 401)) \<and>
          RefreshReply g None \<in> set (as @ ms) \<and> RefreshFinally g \<in> set ms)) \<and>
    distinct (cl_expired_events c) \<and>
    (i \<in> set (cl_expired_events c) \<longrightarrow>
       in_phase c i (Rejected (Some 401)) \<and> rq_sends (cl_reqs c ! i) = 1 \<and> \<not> isAuthEndpoint (rq_url (cl_reqs c ! i)))"
proof -
  have inv: "client_inv c" using run_facts[OF assms] reachable_inv by blast
  have "\<not> isAuthEndpoint (rq_url (cl_reqs c ! i))" if "i \<in> set (cl_expired_events c)"
    using inv that req_ok_at[OF inv, of i] by (auto simp: client_inv_def events_ok_def req_ok_def)
  then show ?thesis
    using inv expired_iff[OF assms] by (auto simp: client_inv_def events_ok_def expires_def in_phase_def)
qed


definition two_rejected :: client where
  "two_rejected = two_waiting \<lparr>
     cl_reqs := [\<lparr> rq_url = Some ''/api/v1/events'', rq_retry = True, rq_phase = Rejected (Some 401), rq_sends = 1 \<rparr>,
                \<lparr> rq_url = Some ''/api/v1/sports'', rq_retry = True, rq_phase = Rejected (Some 401), rq_sends = 1 \<rparr>],
     cl_calls := [Settled False], cl_promise := None,
     cl_store := clearAccessTokenExpiry (clearAccessTokenExpiry empty_storage), cl_expired_events := [0, 1] \<rparr>"

lemma two_rejected_run:
  "client_run [RefreshReply 0 None, RefreshFinally 0, ResumeRe 0, ResumeRe 1] two_waiting = Some two_rejected"
  by (simp add: two_rejected_def two_waiting_def client_handlers)

lemma session_expired_sound_witness:
  "cl_expired_events two_rejected = [0, 1] \<and>
   (\<exists>as ms bs. two_requests @ [RefreshReply 0 None, RefreshFinally 0, ResumeRe 0, ResumeRe 1] =
      as @ ReplyError 1 (Some 401) # ms @ ResumeRe 1 # bs \<and> RefreshFinally 0 \<in> set ms)"
proof -
  let ?es = "two_requests @ [RefreshReply 0 None, RefreshFinally 0, ResumeRe 0, ResumeRe 1]"
  have r: "client_run ?es (client_init empty_storage) = Some two_rejected"
    by (simp only: client_run_append two_requests_run two_rejected_run option.case)
  have e: "cl_expired_events two_rejected = [0, 1]" by (simp add: two_rejected_def)
  then obtain as ms bs g where w: "?es = as @ ReplyError 1 (Some 401) # ms @ ResumeRe 1 # bs" "RefreshFinally g \<in> set ms"
    using session_expired_sound[OF r, of 1] by auto
  then have "RefreshFinally g \<in> set ?es" by (metis Un_iff list.set_intros(2) set_append)
  then have "g = 0" by (simp add: two_requests_def)
  then show ?thesis using e w by blast
qed

section \<open>Every request settles\<close>

text \<open>
  A bound on the steps still possible without issuing a new request. A refresh call that has not
  been answered has two steps left; a request that may start one carries them in its own weight.
\<close>

fun req_weight :: "bool \<Rightarrow> phase \<Rightarrow> nat" where
  "req_weight retry Intercepting = (if retry then 5 else 14)"
| "req_weight retry (AwaitPro g) = (if retry then 2 else 11)"
| "req_weight retry OnWire = (if retry then 1 else 10)"
| "req_weight retry (AwaitRe g s) = 6"
| "req_weight retry (Resolved b) = 0"
| "req_weight retry (Rejected s) = 0"

fun call_weight :: "refresh_call \<Rightarrow> nat" where
  "call_weight InFlight = 2"
| "call_weight (Handled ok) = 1"
| "call_weight (Settled ok) = 0"

definition work_left :: "client \<Rightarrow> nat" where
  "work_left c = (\<Sum>r \<leftarrow> cl_reqs c. req_weight (rq_retry r) (rq_phase r)) + (\<Sum>k \<leftarrow> cl_calls c. call_weight k)"

lemma sum_list_update_less:
  fixes f :: "'a \<Rightarrow> nat"
  assumes "i < length xs" "f x + d < f (xs ! i)"
  shows "sum_list (map f (xs[i := x])) + d < sum_list (map f xs)"
  using assms
proof (induction xs arbitrary: i)
  case (Cons a xs)
  then show ?case by (cases i) fastforce+
qed simp

lemma work_left_put_req:
  assumes "i < length (cl_reqs c)" "cl_reqs c' = cl_reqs c"
    "(\<Sum>k \<leftarrow> cl_calls c'. call_weight k) \<le> (\<Sum>k \<leftarrow> cl_calls c. call_weight k) + 2"
    "req_weight (rq_retry r) (rq_phase r) + 2 < req_weight (rq_retry (cl_reqs c ! i)) (rq_phase (cl_reqs c ! i))"
  shows "work_left (put_req i r c') < work_left c"
  using assms(2,3) sum_list_update_less[OF assms(1), of "\<lambda>r. req_weight (rq_retry r) (rq_phase r)" r 2] assms(4)
  by (simp add: work_left_def put_req_def)

lemma work_left_put_req_same:
  assumes "i < length (cl_reqs c)"
    "req_weight (rq_retry r) (rq_phase r) < req_weight (rq_retry (cl_reqs c ! i)) (rq_phase (cl_reqs c ! i))"
  shows "work_left (put_req i r c) < work_left c"
  using sum_list_update_less[OF assms(1), of "\<lambda>r. req_weight (rq_retry r) (rq_phase r)" r 0] assms(2)
  by (simp add: work_left_def put_req_def)

lemma performRefresh_calls:
  "performRefresh c = (c', g) \<Longrightarrow> cl_reqs c' = cl_reqs c \<and>
     (\<Sum>k \<leftarrow> cl_calls c'. call_weight k) \<le> (\<Sum>k \<leftarrow> cl_calls c. call_weight k) + 2"
  by (auto simp: performRefresh_def split: option.splits)

lemma work_left_calls:
  assumes "g < length (cl_calls c)" "call_weight k < call_weight (cl_calls c ! g)"
  shows "(\<Sum>k \<leftarrow> (cl_calls c)[g := k]. call_weight k) < (\<Sum>k \<leftarrow> cl_calls c. call_weight k)"
  using sum_list_update_less[OF assms(1), of call_weight k 0] assms(2) by simp

lemma step_work_left:
  assumes "reachable c" "client_step c e c'" "\<forall>u. e \<noteq> Issue u"
  shows "work_left c' < work_left c"
  using assms(2,3)
proof cases
  case (intercept i now)
  obtain d g where p: "performRefresh c = (d, g)" by force
  show ?thesis
    using intercept p performRefresh_calls[OF p]
    by (auto simp: on_request_def in_phase_def Let_def send_req_def
        intro!: work_left_put_req work_left_put_req_same)
next
  case (intercept_throws i)
  then show ?thesis by (auto simp: in_phase_def intro!: work_left_put_req_same)
next
  case (resume_pro i g ok)
  then show ?thesis by (auto simp: in_phase_def send_req_def intro!: work_left_put_req_same)
next
  case (reply i body)
  then show ?thesis by (auto simp: in_phase_def intro!: work_left_put_req_same)
next
  case (reply_error i status)
  obtain d g where p: "performRefresh c = (d, g)" by force
  show ?thesis
    using reply_error p performRefresh_calls[OF p]
    by (auto simp: on_response_error_def in_phase_def Let_def
        intro!: work_left_put_req work_left_put_req_same)
next
  case (resume_re i g status ok)
  have w: "req_weight (rq_retry (cl_reqs c ! i)) (rq_phase (cl_reqs c ! i)) = 6" "i < length (cl_reqs c)"
    "rq_retry (cl_reqs c ! i)"
    using resume_re req_ok_at[OF reachable_inv[OF assms(1)], of i] by (auto simp: in_phase_def req_ok_def)
  have "work_left (put_req i r c) < work_left c" if "req_weight (rq_retry r) (rq_phase r) < 6" for r
    using that w by (intro work_left_put_req_same) auto
  from this[of "(cl_reqs c ! i) \<lparr> rq_phase := Intercepting \<rparr>"]
    this[of "(cl_reqs c ! i) \<lparr> rq_phase := Rejected status \<rparr>"]
  show ?thesis
    using resume_re w by (auto simp: on_refreshed_def Let_def work_left_def put_req_def)
next
  case (refresh_reply g body)
  then show ?thesis
    using work_left_calls[of g c "Handled (body \<noteq> None)"] by (simp add: refresh_then_def work_left_def call_is_def)
next
  case (refresh_done g ok)
  then show ?thesis
    using work_left_calls[of g c "Settled ok"] by (simp add: refresh_finally_def work_left_def call_is_def)
qed simp

lemma unsettled_enabled:
  assumes inv: "client_inv c" and i: "i < length (cl_reqs c)" "\<not> settled_phase (rq_phase (cl_reqs c ! i))"
  shows "\<exists>e c'. client_step c e c' \<and> (\<forall>u. e \<noteq> Issue u)"
proof -
  have call: "\<exists>e c'. client_step c e c' \<and> (\<forall>u. e \<noteq> Issue u)"
    if "g < length (cl_calls c)" "\<forall>ok. cl_calls c ! g \<noteq> Settled ok" for g
  proof (cases "cl_calls c ! g")
    case InFlight
    then show ?thesis using that client_step.refresh_reply[of c g] unfolding call_is_def by blast
  next
    case (Handled ok)
    then show ?thesis using that client_step.refresh_done[of c g ok] unfolding call_is_def by blast
  qed (use that in auto)
  have r: "req_ok (length (cl_calls c)) (cl_reqs c ! i)" using req_ok_at[OF inv i(1)] .
  show ?thesis
  proof (cases "rq_phase (cl_reqs c ! i)")
    case Intercepting
    then show ?thesis using client_step.intercept[of c i] i by (auto simp: in_phase_def)
  next
    case OnWire
    then show ?thesis using client_step.reply[of c i] i by (auto simp: in_phase_def)
  next
    case (AwaitPro g)
    then have "g < length (cl_calls c)" using r by (simp add: req_ok_def)
    then show ?thesis
      using call[of g] client_step.resume_pro[of c i g] AwaitPro i by (auto simp: in_phase_def call_is_def)
  next
    case (AwaitRe g s)
    then have "g < length (cl_calls c)" using r by (simp add: req_ok_def)
    then show ?thesis
      using call[of g] client_step.resume_re[of c i g s] AwaitRe i by (auto simp: in_phase_def call_is_def)
  qed (use i in \<open>auto simp: settled_phase_def\<close>)
qed

text \<open>C3. No request hangs in the client: from every reachable state each further step that issues
  no new request uses up some of the work left, which is at most 14 per request and 2 per refresh
  call, and while a request is unsettled such a step is possible (an answer of the server, or a
  callback that is due).\<close>

theorem client_settles:
  assumes "reachable c"
  shows "(\<forall>e c'. client_step c e c' \<and> (\<forall>u. e \<noteq> Issue u) \<longrightarrow> work_left c' < work_left c) \<and>
    work_left c \<le> 14 * length (cl_reqs c) + 2 * length (cl_calls c) \<and>
    ((\<exists>r \<in> set (cl_reqs c). \<not> settled_phase (rq_phase r)) \<longrightarrow>
       (\<exists>e c'. client_step c e c' \<and> (\<forall>u. e \<noteq> Issue u)))"
proof (intro conjI impI)
  have "req_weight b p \<le> 14" for b p by (cases p) auto
  then have a: "(\<Sum>r \<leftarrow> rs. req_weight (rq_retry r) (rq_phase r)) \<le> 14 * length rs" for rs
    by (intro sum_list_bounded)
  have "call_weight k \<le> 2" for k by (cases k) auto
  then have b: "(\<Sum>k \<leftarrow> ks. call_weight k) \<le> 2 * length ks" for ks
    by (intro sum_list_bounded)
  show "work_left c \<le> 14 * length (cl_reqs c) + 2 * length (cl_calls c)"
    unfolding work_left_def using a b by (rule add_mono)
qed (use assms step_work_left unsettled_enabled[OF reachable_inv[OF assms]] in
      \<open>auto simp: in_set_conv_nth\<close>)

lemma client_settles_witness:
  "work_left two_waiting \<le> 30 \<and> (\<exists>e c'. client_step two_waiting e c')"
proof -
  have "\<exists>r \<in> set (cl_reqs two_waiting). \<not> settled_phase (rq_phase r)"
    by (simp add: two_waiting_def settled_phase_def)
  then show ?thesis
    using client_settles[OF two_waiting_reachable] by (auto simp: two_waiting_def)
qed

section \<open>One request run alone\<close>

text \<open>
  The same code for one request with nothing else in flight: srv gives the server's answer to
  the first and the second send, rf its answer to each refresh call (None when it fails). The
  result is the settled value, the store, and whether the session-expired event fired.
\<close>

type_synonym reply = "(int option, js) result"

definition needs_refresh :: "rat \<Rightarrow> string option \<Rightarrow> storage \<Rightarrow> bool" where
  "needs_refresh now url st \<longleftrightarrow> \<not> isAuthEndpoint url \<and> isAccessTokenExpired now st"

definition refreshed_store :: "js option \<Rightarrow> storage \<Rightarrow> storage" where
  "refreshed_store reply st =
     (case reply of
        Some body \<Rightarrow> recordAccessTokenExpiry (js_get ''access_token_expires_at'' body) st
      | None \<Rightarrow> st)"

definition proactive :: "rat \<Rightarrow> (nat \<Rightarrow> js option) \<Rightarrow> string option \<Rightarrow> storage \<times> nat \<Rightarrow> storage \<times> nat" where
  "proactive now rf url sn =
     (if needs_refresh now url (fst sn) then (refreshed_store (rf (snd sn)) (fst sn), Suc (snd sn)) else sn)"

definition api_call ::
  "rat \<Rightarrow> (nat \<Rightarrow> reply) \<Rightarrow> (nat \<Rightarrow> js option) \<Rightarrow> string option \<Rightarrow> storage \<Rightarrow> reply \<times> storage \<times> bool" where
  "api_call now srv rf url st =
     (let sn = proactive now rf url (st, 0)
      in case srv 0 of
           Inr body \<Rightarrow> (Inr body, fst sn, False)
         | Inl s \<Rightarrow>
             if s \<noteq> Some 401 \<or> isAuthEndpoint url then (Inl s, fst sn, False)
             else (case rf (snd sn) of
                     None \<Rightarrow> (Inl s, clearAccessTokenExpiry (fst sn), True)
                   | Some body \<Rightarrow>
                       (srv 1, fst (proactive now rf url (refreshed_store (Some body) (fst sn), Suc (snd sn))),
                        False)))"

definition phase_of :: "reply \<Rightarrow> phase" where
  "phase_of a = (case a of Inr body \<Rightarrow> Resolved body | Inl s \<Rightarrow> Rejected s)"

definition reply_event :: "reply \<Rightarrow> event" where
  "reply_event a = (case a of Inr body \<Rightarrow> Reply 0 body | Inl s \<Rightarrow> ReplyError 0 s)"

definition proactive_events :: "rat \<Rightarrow> (nat \<Rightarrow> js option) \<Rightarrow> string option \<Rightarrow> storage \<Rightarrow> nat \<Rightarrow> event list" where
  "proactive_events now rf url st n =
     Intercept 0 now #
     (if needs_refresh now url st then [RefreshReply n (rf n), RefreshFinally n, ResumePro 0] else [])"

definition solo :: "req \<Rightarrow> refresh_call list \<Rightarrow> storage \<Rightarrow> nat list \<Rightarrow> client" where
  "solo r ks st ev = \<lparr> cl_reqs = [r], cl_calls = ks, cl_promise = None, cl_store = st, cl_expired_events = ev \<rparr>"

lemma solo_sel [simp]:
  "cl_reqs (solo r ks st ev) = [r]" "cl_calls (solo r ks st ev) = ks"
  "cl_store (solo r ks st ev) = st" "cl_expired_events (solo r ks st ev) = ev"
  by (simp_all add: solo_def)

text \<open>
  The environment of the sequential reading, for the interleaved machine: the clock shows now, the
  headers attach, the n-th send is answered by srv and the g-th refresh call by rf, and no other request
  is issued.
\<close>

fun from_env :: "rat \<Rightarrow> (nat \<Rightarrow> reply) \<Rightarrow> (nat \<Rightarrow> js option) \<Rightarrow> client \<Rightarrow> event \<Rightarrow> bool" where
  "from_env now srv rf c (Issue u) = False"
| "from_env now srv rf c (Intercept i t) = (t = now)"
| "from_env now srv rf c (InterceptThrows i) = False"
| "from_env now srv rf c (ResumePro i) = True"
| "from_env now srv rf c (Reply i body) = (srv (rq_sends (cl_reqs c ! i) - 1) = Inr body)"
| "from_env now srv rf c (ReplyError i status) = (srv (rq_sends (cl_reqs c ! i) - 1) = Inl status)"
| "from_env now srv rf c (ResumeRe i) = True"
| "from_env now srv rf c (RefreshReply g body) = (body = rf g)"
| "from_env now srv rf c (RefreshFinally g) = True"

fun env_run :: "rat \<Rightarrow> (nat \<Rightarrow> reply) \<Rightarrow> (nat \<Rightarrow> js option) \<Rightarrow> event list \<Rightarrow> client \<Rightarrow> client option" where
  "env_run now srv rf [] c = Some c"
| "env_run now srv rf (e # es) c =
     (if from_env now srv rf c e
      then (case client_exec e c of None \<Rightarrow> None | Some d \<Rightarrow> env_run now srv rf es d) else None)"

lemma env_run_append:
  "env_run now srv rf (es @ fs) c = (case env_run now srv rf es c of None \<Rightarrow> None | Some d \<Rightarrow> env_run now srv rf fs d)"
  by (induction es arbitrary: c) (auto split: option.splits)

subsection \<open>One request alone leaves no choice\<close>

definition waits_for :: "client \<Rightarrow> nat \<Rightarrow> bool" where
  "waits_for c g \<longleftrightarrow> rq_phase (cl_reqs c ! 0) = AwaitPro g \<or> (\<exists>s. rq_phase (cl_reqs c ! 0) = AwaitRe g s)"

definition open_call :: "client \<Rightarrow> nat \<Rightarrow> bool" where
  "open_call c g \<longleftrightarrow> call_is c g InFlight \<or> (\<exists>ok. call_is c g (Handled ok))"

definition alone :: "client \<Rightarrow> bool" where
  "alone c \<longleftrightarrow> client_inv c \<and> length (cl_reqs c) = 1 \<and>
     (\<forall>g. open_call c g \<longrightarrow> waits_for c g)"

definition finished :: "client \<Rightarrow> bool" where
  "finished c \<longleftrightarrow> settled_phase (rq_phase (cl_reqs c ! 0))"

definition wait_event :: "(nat \<Rightarrow> js option) \<Rightarrow> client \<Rightarrow> nat \<Rightarrow> event \<Rightarrow> event" where
  "wait_event rf c g e =
     (case cl_calls c ! g of InFlight \<Rightarrow> RefreshReply g (rf g) | Handled ok \<Rightarrow> RefreshFinally g | Settled ok \<Rightarrow> e)"

definition next_event :: "rat \<Rightarrow> (nat \<Rightarrow> reply) \<Rightarrow> (nat \<Rightarrow> js option) \<Rightarrow> client \<Rightarrow> event option" where
  "next_event now srv rf c =
     (case rq_phase (cl_reqs c ! 0) of
        Intercepting \<Rightarrow> Some (Intercept 0 now)
      | AwaitPro g \<Rightarrow> Some (wait_event rf c g (ResumePro 0))
      | OnWire \<Rightarrow> Some (case srv (rq_sends (cl_reqs c ! 0) - 1) of Inr b \<Rightarrow> Reply 0 b | Inl s \<Rightarrow> ReplyError 0 s)
      | AwaitRe g s \<Rightarrow> Some (wait_event rf c g (ResumeRe 0))
      | _ \<Rightarrow> None)"

lemma alone_next:
  assumes "alone c" "from_env now srv rf c e" "client_exec e c = Some d"
  shows "next_event now srv rf c = Some e"
proof -
  have l: "j < length (cl_reqs c) \<longleftrightarrow> j = 0" for j using assms(1) by (auto simp: alone_def)
  show ?thesis
  proof (cases e)
    case (ResumePro i)
    then have "i < length (cl_reqs c)" using assms(3) by (simp split: if_splits)
    then have i: "i = 0" by (simp add: l)
    then obtain g ok where "rq_phase (cl_reqs c ! 0) = AwaitPro g" "call_is c g (Settled ok)"
      using assms(3) ResumePro by (auto split: if_splits phase.splits)
    then show ?thesis using ResumePro i by (simp add: next_event_def wait_event_def call_is_def)
  next
    case (ResumeRe i)
    then have "i < length (cl_reqs c)" using assms(3) by (simp split: if_splits)
    then have i: "i = 0" by (simp add: l)
    then obtain g s ok where "rq_phase (cl_reqs c ! 0) = AwaitRe g s" "call_is c g (Settled ok)"
      using assms(3) ResumeRe by (auto split: if_splits phase.splits)
    then show ?thesis using ResumeRe i by (simp add: next_event_def wait_event_def call_is_def)
  next
    case (RefreshReply g body)
    then have "call_is c g InFlight" "body = rf g" using assms(2,3) by (auto split: if_splits)
    moreover from this have "waits_for c g" using assms(1) by (auto simp: alone_def open_call_def)
    ultimately show ?thesis using RefreshReply
      by (auto simp: next_event_def wait_event_def waits_for_def call_is_def)
  next
    case (RefreshFinally g)
    then obtain ok where "call_is c g (Handled ok)" using assms(3) by (auto split: if_splits)
    moreover from this have "waits_for c g" using assms(1) by (auto simp: alone_def open_call_def)
    ultimately show ?thesis using RefreshFinally
      by (auto simp: next_event_def wait_event_def waits_for_def call_is_def)
  qed (use assms(2,3) l in \<open>auto simp: next_event_def in_phase_def split: if_splits\<close>)
qed

lemma waits_for_put_req:
  "length (cl_reqs c) = 1 \<Longrightarrow> waits_for (put_req 0 r c) g \<longleftrightarrow> rq_phase r = AwaitPro g \<or> (\<exists>s. rq_phase r = AwaitRe g s)"
  by (simp add: waits_for_def put_req_def)

text \<open>Outside a wait no call is open, so the next refresh is a new call, and it is the one waited for.\<close>

lemma alone_refresh:
  assumes "alone c" "\<forall>g. \<not> waits_for c g" "performRefresh c = (d, h)" "open_call d g"
  shows "g = h"
proof -
  have n: "\<not> open_call c g" for g using assms(1,2) by (auto simp: alone_def)
  show ?thesis
    using assms(3,4) n[of g] by (auto simp: open_call_def performRefresh_def call_is_def nth_append split: option.splits if_splits)
qed

lemma length_put_req: "length (cl_reqs (put_req i r c)) = length (cl_reqs c)"
  by (simp add: put_req_def)

lemma alone_other:
  "waits_for (c\<lparr>cl_store := st, cl_expired_events := ev\<rparr>) g = waits_for c g"
  "open_call (c\<lparr>cl_store := st, cl_expired_events := ev\<rparr>) g = open_call c g"
  "open_call (put_req i r c) g = open_call c g"
  "waits_for (refresh_then h b c) g = waits_for c g"
  "waits_for (refresh_finally h ok c) g = waits_for c g"
  "cl_reqs (refresh_then h b c) = cl_reqs c" "cl_reqs (refresh_finally h ok c) = cl_reqs c"
  by (simp_all add: waits_for_def open_call_def call_is_def put_req_def refresh_then_def refresh_finally_def)

lemma open_after_answer: "call_is c h InFlight \<Longrightarrow> open_call (refresh_then h b c) g \<Longrightarrow> open_call c g"
  by (cases "h = g") (auto simp: open_call_def refresh_then_def call_is_def)

lemma open_after_finally: "open_call (refresh_finally h ok c) g \<Longrightarrow> open_call c g"
  by (cases "h = g") (auto simp: open_call_def refresh_finally_def call_is_def)

lemma closed_settled: "call_is c g (Settled ok) \<Longrightarrow> \<not> open_call c g"
  by (simp add: open_call_def call_is_def)

lemmas alone_simps = next_event_def length_put_req waits_for_put_req alone_other Let_def

text \<open>While a request waits, the step is one of the call or its own resumption.\<close>

lemma wait_step:
  assumes "client_exec e c = Some d" "e = wait_event rf c g x"
  obtains "call_is c g InFlight" "d = refresh_then g (rf g) c" | ok where "d = refresh_finally g ok c" | "e = x"
  using assms by (auto simp: wait_event_def call_is_def split: refresh_call.splits if_splits)

lemma alone_step:
  assumes a: "alone c" and e: "from_env now srv rf c e" "client_exec e c = Some d"
  shows "alone d"
proof -
  have inv: "client_inv d" using a e(2) client_inv_step client_exec_step unfolding alone_def by blast
  have n: "next_event now srv rf c = Some e" using alone_next[OF a e] .
  have l: "length (cl_reqs c) = 1" using a by (simp add: alone_def)
  have o: "open_call c g \<Longrightarrow> waits_for c g" for g using a by (simp add: alone_def)
  obtain c' h where p: "performRefresh c = (c', h)" by force
  have r: "length (cl_reqs c') = 1" using performRefresh_inv[OF _ p] a by (auto simp: alone_def)
  note open_c' = alone_refresh[OF a _ p]
  have "length (cl_reqs d) = 1 \<and> (\<forall>g. open_call d g \<longrightarrow> waits_for d g)"
  proof (cases "rq_phase (cl_reqs c ! 0)")
    case Intercepting
    then have w: "\<forall>g. \<not> waits_for c g" by (simp add: waits_for_def)
    then have "\<not> open_call c g" for g using o by blast
    then show ?thesis using n e(2) Intercepting p r l open_c'[OF w]
      by (auto simp: alone_simps on_request_def split: if_splits)
  next
    case OnWire
    then have w: "\<forall>g. \<not> waits_for c g" by (simp add: waits_for_def)
    then have "\<not> open_call c g" for g using o by blast
    then show ?thesis using n e(2) OnWire p r l open_c'[OF w]
      by (auto simp: alone_simps on_response_error_def split: if_splits sum.splits)
  next
    case (AwaitPro g)
    then have w: "waits_for c x \<longleftrightarrow> x = g" for x by (auto simp: waits_for_def)
    have "e = wait_event rf c g (ResumePro 0)" using n AwaitPro by (simp add: next_event_def)
    from wait_step[OF e(2) this] show ?thesis
    proof cases
      case 3
      then show ?thesis using e(2) AwaitPro l o w closed_settled[of c g]
        by (auto simp: alone_simps send_req_def split: if_splits)
    qed (use l o open_after_answer open_after_finally in \<open>auto simp: alone_other\<close>)
  next
    case (AwaitRe g s)
    then have w: "waits_for c x \<longleftrightarrow> x = g" for x by (auto simp: waits_for_def)
    have "e = wait_event rf c g (ResumeRe 0)" using n AwaitRe by (simp add: next_event_def)
    from wait_step[OF e(2) this] show ?thesis
    proof cases
      case 3
      then show ?thesis using e(2) AwaitRe l o w closed_settled[of c g]
        by (auto simp: alone_simps on_refreshed_def split: if_splits)
    qed (use l o open_after_answer open_after_finally in \<open>auto simp: alone_other\<close>)
  qed (use n in \<open>simp_all add: next_event_def\<close>)
  then show ?thesis using inv by (simp add: alone_def)
qed

lemma finished_iff_next: "finished c \<longleftrightarrow> next_event now srv rf c = None"
  by (simp add: finished_def settled_phase_def next_event_def split: phase.splits)

lemma alone_outcome_unique:
  "alone c \<Longrightarrow> env_run now srv rf es c = Some d \<Longrightarrow> finished d \<Longrightarrow>
   env_run now srv rf fs c = Some d' \<Longrightarrow> finished d' \<Longrightarrow> d = d'"
proof (induction es arbitrary: c fs)
  case Nil
  show ?case
  proof (cases fs)
    case (Cons f fs')
    then have "next_event now srv rf c = Some f"
      using Nil.prems alone_next[OF Nil.prems(1), of now srv rf f] by (auto split: if_splits option.splits)
    then show ?thesis using Nil.prems finished_iff_next[of c now srv rf] by simp
  qed (use Nil in simp)
next
  case (Cons e es)
  obtain c1 where e: "from_env now srv rf c e" "client_exec e c = Some c1" "env_run now srv rf es c1 = Some d"
    using Cons.prems(2) by (auto split: if_splits option.splits)
  note n = alone_next[OF Cons.prems(1) e(1,2)]
  show ?case
  proof (cases fs)
    case Nil
    then show ?thesis using n Cons.prems finished_iff_next[of c now srv rf] by simp
  next
    case (Cons f fs')
    obtain c2 where f: "from_env now srv rf c f" "client_exec f c = Some c2" "env_run now srv rf fs' c2 = Some d'"
      using Cons.prems(4) Cons by (auto split: if_splits option.splits)
    have "f = e" using alone_next[OF Cons.prems(1) f(1,2)] n by simp
    then show ?thesis
      using Cons.IH[OF alone_step[OF Cons.prems(1) e(1,2)] e(3) Cons.prems(3)] f e Cons.prems(5) by simp
  qed
qed

subsection \<open>A run that settles\<close>

lemma run_proactive:
  assumes "rq_phase r = Intercepting" "proactive now rf (rq_url r) (st, length ks) = (st', n')"
  shows "\<exists>ks'. env_run now srv rf (proactive_events now rf (rq_url r) st (length ks)) (solo r ks st ev) =
     Some (solo (send_req r) ks' st' ev) \<and> length ks' = n'"
  using assms
  by (auto simp: proactive_def proactive_events_def needs_refresh_def solo_def client_handlers
      refreshed_store_def split: if_splits option.splits)

lemma run_final_reply:
  assumes "rq_phase r = OnWire" "rq_retry r \<or> isAuthEndpoint (rq_url r) \<or> a \<noteq> Inl (Some 401)" "a = srv (rq_sends r - 1)"
  shows "env_run now srv rf [reply_event a] (solo r ks st ev) = Some (solo (r \<lparr> rq_phase := phase_of a \<rparr>) ks st ev)"
  using assms
  by (auto simp: reply_event_def phase_of_def solo_def client_handlers on_response_error_def split: sum.splits)

lemma run_refresh_reply:
  assumes "rq_phase r = OnWire" "\<not> rq_retry r" "\<not> isAuthEndpoint (rq_url r)" "srv (rq_sends r - 1) = Inl (Some 401)"
  shows "env_run now srv rf [ReplyError 0 (Some 401), RefreshReply (length ks) (rf (length ks)),
           RefreshFinally (length ks), ResumeRe 0] (solo r ks st ev) =
    (case rf (length ks) of
       Some body \<Rightarrow> Some (solo (r \<lparr> rq_retry := True, rq_phase := Intercepting \<rparr>) (ks @ [Settled True])
                          (refreshed_store (Some body) st) ev)
     | None \<Rightarrow> Some (solo (r \<lparr> rq_retry := True, rq_phase := Rejected (Some 401) \<rparr>) (ks @ [Settled False])
                     (clearAccessTokenExpiry st) (ev @ [0])))"
  using assms
  by (auto simp: solo_def client_handlers on_response_error_def on_refreshed_def refreshed_store_def
      split: option.splits)

definition fresh_req :: "string option \<Rightarrow> req" where
  "fresh_req url = \<lparr> rq_url = url, rq_retry = False, rq_phase = Intercepting, rq_sends = 0 \<rparr>"

text \<open>What a run of the machine has to show to agree with a sequential outcome.\<close>

definition agrees :: "client \<Rightarrow> reply \<times> storage \<times> bool \<Rightarrow> bool" where
  "agrees c o1 \<longleftrightarrow> rq_phase (cl_reqs c ! 0) = phase_of (fst o1) \<and> cl_store c = fst (snd o1) \<and>
     cl_expired_events c = (if snd (snd o1) then [0] else [])"

definition some_run :: "rat \<Rightarrow> (nat \<Rightarrow> reply) \<Rightarrow> (nat \<Rightarrow> js option) \<Rightarrow> string option \<Rightarrow> storage \<Rightarrow> bool" where
  "some_run now srv rf url st \<longleftrightarrow>
     (\<exists>es c. env_run now srv rf es (solo (fresh_req url) [] st []) = Some c \<and> agrees c (api_call now srv rf url st))"

lemma run_first_send:
  assumes "proactive now rf url (st, 0) = (st1, n1)"
  shows "\<exists>ks1. env_run now srv rf (proactive_events now rf url st 0) (solo (fresh_req url) [] st []) =
      Some (solo (send_req (fresh_req url)) ks1 st1 []) \<and> length ks1 = n1"
  using run_proactive[of "fresh_req url" now rf st "[]" st1 n1 srv "[]"] assms by (auto simp: fresh_req_def)

lemma run_direct:
  assumes "isAuthEndpoint url \<or> srv 0 \<noteq> Inl (Some 401)" "proactive now rf url (st, 0) = (st1, n1)"
  shows "some_run now srv rf url st"
proof -
  obtain ks1 where k: "env_run now srv rf (proactive_events now rf url st 0) (solo (fresh_req url) [] st []) =
      Some (solo (send_req (fresh_req url)) ks1 st1 [])"
    using run_first_send[OF assms(2)] by blast
  have f: "env_run now srv rf [reply_event (srv 0)] (solo (send_req (fresh_req url)) ks1 st1 []) =
      Some (solo ((send_req (fresh_req url)) \<lparr> rq_phase := phase_of (srv 0) \<rparr>) ks1 st1 [])"
    by (rule run_final_reply) (use assms(1) in \<open>auto simp: send_req_def fresh_req_def\<close>)
  have "api_call now srv rf url st = (srv 0, st1, False)"
    using assms by (cases "srv 0") (auto simp: api_call_def Let_def)
  then show ?thesis unfolding some_run_def
    by (intro exI[of _ "proactive_events now rf url st 0 @ [reply_event (srv 0)]"])
      (simp only: env_run_append k f option.case, simp add: agrees_def)
qed

lemma run_refused:
  assumes "\<not> isAuthEndpoint url" "srv 0 = Inl (Some 401)" "rf n1 = None"
    and p: "proactive now rf url (st, 0) = (st1, n1)"
  shows "some_run now srv rf url st"
proof -
  let ?r = "send_req (fresh_req url)"
  let ?F = "[ReplyError 0 (Some 401), RefreshReply n1 (rf n1), RefreshFinally n1, ResumeRe 0]"
  obtain ks1 where k: "env_run now srv rf (proactive_events now rf url st 0) (solo (fresh_req url) [] st []) =
      Some (solo ?r ks1 st1 [])" "length ks1 = n1"
    using run_first_send[OF p] by blast
  have f: "env_run now srv rf ?F (solo ?r ks1 st1 []) =
      Some (solo (?r \<lparr> rq_retry := True, rq_phase := Rejected (Some 401) \<rparr>) (ks1 @ [Settled False])
        (clearAccessTokenExpiry st1) [0])"
    using run_refresh_reply[of ?r srv now rf ks1 st1 "[]", unfolded k(2)] assms by (simp add: send_req_def fresh_req_def)
  have "api_call now srv rf url st = (Inl (Some 401), clearAccessTokenExpiry st1, True)"
    using assms by (simp add: api_call_def Let_def)
  then show ?thesis unfolding some_run_def
    by (intro exI[of _ "proactive_events now rf url st 0 @ ?F"])
      (simp only: env_run_append k f option.case, simp add: agrees_def phase_of_def)
qed

lemma run_retried:
  assumes "\<not> isAuthEndpoint url" "srv 0 = Inl (Some 401)" "rf n1 = Some body"
    and p: "proactive now rf url (st, 0) = (st1, n1)"
  shows "some_run now srv rf url st"
proof -
  let ?r = "send_req (fresh_req url)"
  let ?F = "[ReplyError 0 (Some 401), RefreshReply n1 (rf n1), RefreshFinally n1, ResumeRe 0]"
  let ?q = "?r \<lparr> rq_retry := True, rq_phase := Intercepting \<rparr>"
  let ?st2 = "refreshed_store (Some body) st1"
  obtain ks1 where k: "env_run now srv rf (proactive_events now rf url st 0) (solo (fresh_req url) [] st []) =
      Some (solo ?r ks1 st1 [])" "length ks1 = n1"
    using run_first_send[OF p] by blast
  have f: "env_run now srv rf ?F (solo ?r ks1 st1 []) = Some (solo ?q (ks1 @ [Settled True]) ?st2 [])"
    using run_refresh_reply[of ?r srv now rf ks1 st1 "[]", unfolded k(2)] assms by (simp add: send_req_def fresh_req_def)
  obtain st3 n3 where p3: "proactive now rf url (?st2, Suc n1) = (st3, n3)" by force
  obtain ks3 where k3: "env_run now srv rf (proactive_events now rf url ?st2 (Suc n1)) (solo ?q (ks1 @ [Settled True]) ?st2 []) =
      Some (solo (send_req ?q) ks3 st3 [])"
    using run_proactive[of ?q now rf ?st2 "ks1 @ [Settled True]" st3 n3 srv "[]"] p3 k(2)
    by (auto simp: fresh_req_def send_req_def)
  have g: "env_run now srv rf [reply_event (srv 1)] (solo (send_req ?q) ks3 st3 []) =
      Some (solo ((send_req ?q) \<lparr> rq_phase := phase_of (srv 1) \<rparr>) ks3 st3 [])"
    by (intro run_final_reply) (auto simp: send_req_def fresh_req_def)
  have "api_call now srv rf url st = (srv 1, st3, False)"
    using assms p3 by (simp add: api_call_def Let_def)
  then show ?thesis unfolding some_run_def
    by (intro exI[of _ "proactive_events now rf url st 0 @ ?F @ proactive_events now rf url ?st2 (Suc n1) @ [reply_event (srv 1)]"])
      (simp only: env_run_append k f k3 g option.case, simp add: agrees_def)
qed

lemma some_run: "some_run now srv rf url st"
proof -
  obtain st1 n1 where p: "proactive now rf url (st, 0) = (st1, n1)" by force
  show ?thesis
    using run_direct[OF _ p, of srv] run_refused[OF _ _ _ p, of srv] run_retried[OF _ _ _ p, of srv]
    by (cases "rf n1") blast+
qed

lemma issue_start: "client_exec (Issue url) (client_init st) = Some (solo (fresh_req url) [] st [])"
  by (simp add: client_init_def solo_def fresh_req_def)

lemma alone_start: "alone (solo (fresh_req url) [] st [])"
proof -
  have "reachable (solo (fresh_req url) [] st [])"
    using reachable.step[OF reachable.init] issue_start client_exec_step by blast
  then show ?thesis using reachable_inv by (simp add: alone_def open_call_def call_is_def)
qed

lemma agrees_finished: "agrees c o1 \<Longrightarrow> finished c"
  by (auto simp: agrees_def finished_def settled_phase_def phase_of_def split: sum.split)

text \<open>C4. The sequential reading of the client is what the interleaved machine does with one
  request: whatever the clock shows, whatever the server answers to the two sends and to each refresh,
  and whatever the store holds, a run of the machine under these answers settles the request, and
  every such run that settles it ends with the sequential outcome: the same value, the same store,
  and the session-expired event fired exactly when the sequential reading says so.\<close>

theorem api_call_refines:
  assumes "client_exec (Issue url) (client_init st) = Some c0"
  shows "(\<exists>es c. env_run now srv rf es c0 = Some c \<and> settled_phase (rq_phase (cl_reqs c ! 0))) \<and>
    (\<forall>es c. env_run now srv rf es c0 = Some c \<and> settled_phase (rq_phase (cl_reqs c ! 0)) \<longrightarrow>
       rq_phase (cl_reqs c ! 0) = phase_of (fst (api_call now srv rf url st)) \<and>
       cl_store c = fst (snd (api_call now srv rf url st)) \<and>
       cl_expired_events c = (if snd (snd (api_call now srv rf url st)) then [0] else []))"
proof -
  have c0: "c0 = solo (fresh_req url) [] st []" using assms issue_start[of url st] by simp
  obtain es1 c1 where r: "env_run now srv rf es1 c0 = Some c1" "agrees c1 (api_call now srv rf url st)"
    using some_run[of now srv rf url st] c0 unfolding some_run_def by blast
  have "agrees c (api_call now srv rf url st)" if "env_run now srv rf es c0 = Some c" "finished c" for es c
    using alone_outcome_unique[OF alone_start[of url st, folded c0] r(1) agrees_finished[OF r(2)] that] r(2) by simp
  then show ?thesis using r agrees_finished[OF r(2)] unfolding agrees_def finished_def by blast
qed

text \<open>A run: answered 401, refreshed, sent again and answered.\<close>

definition retry_srv :: "nat \<Rightarrow> reply" where
  "retry_srv n = (if n = 0 then Inl (Some 401) else Inr (JStr ''ok''))"

definition retry_events :: "event list" where
  "retry_events = [Intercept 0 0, ReplyError 0 (Some 401), RefreshReply 0 (Some JNull), RefreshFinally 0, ResumeRe 0,
     Intercept 0 0, Reply 0 (JStr ''ok'')]"

lemma retry_run:
  "env_run 0 retry_srv (\<lambda>_. Some JNull) retry_events (solo (fresh_req (Some ''/api/v1/events'')) [] empty_storage []) =
     Some (solo \<lparr> rq_url = Some ''/api/v1/events'', rq_retry = True, rq_phase = Resolved (JStr ''ok''), rq_sends = 2 \<rparr>
       [Settled True] (refreshed_store (Some JNull) empty_storage) [])"
proof -
  have u: "\<not> isAuthEndpoint (Some ''/api/v1/events'')" by code_simp
  have s: "\<not> isAccessTokenExpired 0 empty_storage" by (simp add: expired_no_hint empty_storage_def)
  have t: "refreshed_store (Some JNull) empty_storage = empty_storage"
    by (simp add: refreshed_store_def recordAccessTokenExpiry_def safeLocalStorage_def empty_storage_def storage_defs)
  show ?thesis
    using u s t by (simp add: retry_events_def retry_srv_def solo_def fresh_req_def client_handlers on_refreshed_def
        on_response_error_def refreshed_store_def)
qed

lemma api_call_refines_witness:
  "fst (api_call 0 retry_srv (\<lambda>_. Some JNull) (Some ''/api/v1/events'') empty_storage) = Inr (JStr ''ok'')"
proof -
  let ?o = "api_call 0 retry_srv (\<lambda>_. Some JNull) (Some ''/api/v1/events'') empty_storage"
  have "Resolved (JStr ''ok'') = phase_of (fst ?o)"
    using api_call_refines[OF issue_start[of "Some ''/api/v1/events''" empty_storage], of 0 retry_srv "\<lambda>_. Some JNull"] retry_run
    by (fastforce simp: settled_phase_def)
  then show ?thesis by (cases "fst ?o") (simp_all add: phase_of_def)
qed

text \<open>An auth endpoint is neither delayed nor retried, and never ends the session from here.\<close>

lemma api_call_auth: "isAuthEndpoint url \<Longrightarrow> api_call now srv rf url st = (srv 0, st, False)"
  by (cases "srv 0") (simp_all add: api_call_def proactive_def needs_refresh_def Let_def)

text \<open>The second leg of an MFA login is not among the auth endpoints of the pattern.\<close>

lemma mfa_verify_is_gated: "\<not> isAuthEndpoint (Some ''/api/v1/auth/mfa/verify'')"
  by code_simp

text \<open>The client without authentication flattens an error to its status and body, or to a detail.\<close>

definition flatten_error :: "(int \<times> (string \<times> js) list) option \<Rightarrow> string \<Rightarrow> js" where
  "flatten_error response message =
     (case response of
        Some (status, body) \<Rightarrow> JObj (AList.updates (map fst body) (map snd body) [(''status'', JInt status)])
      | None \<Rightarrow> JObj [(''detail'', JStr (if message = [] then ''An unexpected error occurred'' else message))])"

lemma flatten_error_status:
  "''status'' \<notin> fst ` set body \<Longrightarrow> js_get ''status'' (flatten_error (Some (n, body)) m) = JInt n"
  by (simp add: flatten_error_def updates_conv' map_upds_apply_nontin or_else_def)

end
