(* ===== verification/Js_Error.thy ===== *)
theory Js_Error
  imports Js_Prelude
begin

text \<open>
  The exceptions that travel through awaited calls, and the property reads and
  spreads of untyped JSON that may throw them.
\<close>

text \<open>
  What the awaited calls throw. An MFA challenge carries its token, methods and enrolment flag; an
  axios error the status and the detail of the response, if any, and its message.
\<close>

datatype js_error =
    MfaRequiredError js js js
  | AxiosError "int option" js string
  | PlainObject js
  | OtherError string

fun error_message :: "js_error \<Rightarrow> string option" where
  "error_message (MfaRequiredError t ms e) = Some ''Multi-factor authentication required''"
| "error_message (AxiosError s d m) = Some m"
| "error_message (PlainObject v) = None"
| "error_message (OtherError m) = Some m"

fun member :: "string \<Rightarrow> js \<Rightarrow> (js_error, js) result" where
  "member k JUndef = Inl (OtherError ''TypeError'')"
| "member k JNull = Inl (OtherError ''TypeError'')"
| "member k v = Inr (js_get k v)"

fun or_nullish :: "js \<Rightarrow> js \<Rightarrow> js" where
  "or_nullish JUndef d = d"
| "or_nullish JNull d = d"
| "or_nullish v d = v"

fun spread_fields :: "js \<Rightarrow> (string \<times> js) list" where
  "spread_fields (JObj fs) = fs"
| "spread_fields (JStr s) = zip (List.map show_nat [0..<length s]) (List.map (\<lambda>c. JStr [c]) s)"
| "spread_fields (JArr xs) = zip (List.map show_nat [0..<length xs]) xs"
| "spread_fields _ = []"

lemma member_no_axios: "member k v = Inl e \<Longrightarrow> e = OtherError ''TypeError''"
  by (cases v) auto

lemma member_eq: "\<not> is_nullish v \<Longrightarrow> member k v = Inr (js_get k v)"
  by (cases v) auto

text \<open>Number applied to any value; arrays and objects are outside what the code passes.\<close>

fun js_to_number :: "js \<Rightarrow> jnum" where
  "js_to_number JUndef = NaN"
| "js_to_number JNull = Fin 0"
| "js_to_number (JBool b) = Fin (if b then 1 else 0)"
| "js_to_number (JNum n) = n"
| "js_to_number (JStr s) = to_number s"
| "js_to_number _ = NaN"

text \<open>String applied to a value; of numbers only whole ones are printed, which is what the code passes.\<close>

fun js_string :: "js \<Rightarrow> string" where
  "js_string JUndef = ''undefined''"
| "js_string JNull = ''null''"
| "js_string (JBool b) = (if b then ''true'' else ''false'')"
| "js_string (JNum (Fin r)) = show_int \<lfloor>r\<rfloor>"
| "js_string (JNum NaN) = ''NaN''"
| "js_string (JNum (Inf b)) = (if b then ''Infinity'' else ''-Infinity'')"
| "js_string (JStr s) = s"
| "js_string _ = ''[object Object]''"

text \<open>The comparisons with a number.\<close>

definition js_gt :: "js \<Rightarrow> rat \<Rightarrow> bool" where
  "js_gt v k = (case js_to_number v of Fin r \<Rightarrow> r > k | NaN \<Rightarrow> False | Inf b \<Rightarrow> b)"

definition js_ge :: "js \<Rightarrow> js \<Rightarrow> bool" where
  "js_ge v w =
     (case js_to_number v of
        NaN \<Rightarrow> False
      | Inf b \<Rightarrow> (case js_to_number w of NaN \<Rightarrow> False | Inf c \<Rightarrow> b \<or> \<not> c | Fin _ \<Rightarrow> b)
      | Fin r \<Rightarrow> (case js_to_number w of NaN \<Rightarrow> False | Inf c \<Rightarrow> \<not> c | Fin q \<Rightarrow> q \<le> r))"

text \<open>Strict equality with a number that may be NaN, which equals nothing.\<close>

definition same_number :: "js \<Rightarrow> jnum \<Rightarrow> bool" where
  "same_number v n \<longleftrightarrow> n \<noteq> NaN \<and> v = JNum n"

text \<open>The logical or on values.\<close>

definition js_or :: "js \<Rightarrow> js \<Rightarrow> js" where
  "js_or a b = (if truthy a then a else b)"

text \<open>Rest and spread of plain objects.\<close>

definition js_set :: "string \<Rightarrow> js \<Rightarrow> js \<Rightarrow> js" where
  "js_set k v o1 = JObj (AList.update k v (spread_fields o1))"

definition js_omit :: "string \<Rightarrow> js \<Rightarrow> js" where
  "js_omit k o1 = JObj (filter (\<lambda>e. fst e \<noteq> k) (spread_fields o1))"

lemma js_get_omit: "js_get k (js_omit k' o1) = (if k = k' then JUndef else js_get k (JObj (spread_fields o1)))"
proof -
  have "map_of (filter (\<lambda>e. fst e \<noteq> k') fs) k = (if k = k' then None else map_of fs k)" for fs :: "(string \<times> js) list"
    by (induction fs) auto
  then show ?thesis by (simp add: js_omit_def)
qed

lemma js_get_set: "js_get k (js_set k' v o1) = (if k = k' then v else js_get k (JObj (spread_fields o1)))"
  by (simp add: js_set_def update_conv' or_else_def)

lemma spread_JObj: "spread_fields o1 = fs \<Longrightarrow> o1 = JObj es \<Longrightarrow> fs = es"
  by simp

lemma js_set_JObj: "js_set k v (JObj fs) = JObj (AList.update k v fs)"
  by (simp add: js_set_def)

text \<open>Spreading an object with distinct keys over another.\<close>

definition js_merge :: "js \<Rightarrow> js \<Rightarrow> js" where
  "js_merge base over = fold (\<lambda>e o1. js_set (fst e) (snd e) o1) (spread_fields over) base"

lemma js_get_merge_JObj:
  "distinct (map fst fs) \<Longrightarrow>
     js_get k (js_merge (JObj vs) (JObj fs)) = (case map_of fs k of Some v \<Rightarrow> v | None \<Rightarrow> js_get k (JObj vs))"
proof (induction fs arbitrary: vs)
  case (Cons e fs)
  obtain k' v' where e: "e = (k', v')" by force
  have "js_merge (JObj vs) (JObj (e # fs)) = js_merge (JObj (AList.update k' v' vs)) (JObj fs)"
    by (simp add: js_merge_def js_set_JObj e)
  then have "js_get k (js_merge (JObj vs) (JObj (e # fs))) =
      (case map_of fs k of Some v \<Rightarrow> v | None \<Rightarrow> js_get k (JObj (AList.update k' v' vs)))"
    using Cons by simp
  moreover have "map_of fs k' = None" using Cons.prems e by (simp add: map_of_eq_None_iff)
  ultimately show ?case by (auto simp: e update_conv' or_else_def split: option.splits)
qed (simp add: js_merge_def)

end
