(* ===== verification/Auth_Session.thy ===== *)
theory Auth_Session
  imports Access_Control Api_Client Js_Error
begin

text \<open>
  The session: the reducer and the provider of core/auth/context/AuthContext.tsx,
  the calls of core/auth/services and core/auth/mfa, and the login hook
  core/auth/hooks/useLogin. The provider's operations are functions on a world of
  the React state, the browser storage, the query cache and the log. The server
  is a parameter (its answer to every call and to every refresh the client makes
  on the way), and each call runs through the client of Api_Client, so a
  session-expired event fired inside a call reaches the provider's listener.
  The user is the untyped JSON the server sent: the code does not validate it.
\<close>

section \<open>Reducer\<close>

record auth_state =
  au_user :: "js option"
  au_role :: "user_role option"
  au_isAuthenticated :: bool
  au_isLoading :: bool
  au_error :: "string option"

datatype action =
    LOADING
  | SET_USER js user_role
  | SET_ERROR string
  | CLEAR_ERROR
  | STOP_LOADING
  | LOGOUT

definition EMPTY :: auth_state where
  "EMPTY = \<lparr> au_user = None, au_role = None, au_isAuthenticated = False, au_isLoading = False, au_error = None \<rparr>"

fun reducer :: "auth_state \<Rightarrow> action \<Rightarrow> auth_state" where
  "reducer s LOADING = s \<lparr> au_isLoading := True, au_error := None \<rparr>"
| "reducer s (SET_USER u r) = EMPTY \<lparr> au_isAuthenticated := True, au_user := Some u, au_role := Some r \<rparr>"
| "reducer s (SET_ERROR e) = s \<lparr> au_isLoading := False, au_error := Some e \<rparr>"
| "reducer s CLEAR_ERROR = s \<lparr> au_error := None \<rparr>"
| "reducer s STOP_LOADING = s \<lparr> au_isLoading := False, au_error := None \<rparr>"
| "reducer s LOGOUT = EMPTY"

definition initial_auth :: auth_state where
  "initial_auth = EMPTY \<lparr> au_isLoading := True \<rparr>"

definition auth_ok :: "auth_state \<Rightarrow> bool" where
  "auth_ok s \<longleftrightarrow>
     (au_isAuthenticated s \<longleftrightarrow> au_user s \<noteq> None) \<and> (au_isAuthenticated s \<longleftrightarrow> au_role s \<noteq> None) \<and>
     (au_isLoading s \<longrightarrow> au_error s = None)"

lemma auth_ok_EMPTY: "auth_ok EMPTY" "auth_ok initial_auth"
  by (simp_all add: auth_ok_def EMPTY_def initial_auth_def)

lemma auth_ok_reducer: "auth_ok s \<Longrightarrow> auth_ok (reducer s a)"
  by (cases a) (auto simp: auth_ok_def EMPTY_def)

section \<open>Rejections\<close>

text \<open>Only a 401 or a 403, nested or flat, rejects the session.\<close>

fun isAuthRejection :: "js_error \<Rightarrow> bool" where
  "isAuthRejection (AxiosError s d m) = (s = Some 401 \<or> s = Some 403)"
| "isAuthRejection (PlainObject v) =
     (js_get ''status'' v \<in> {JInt 401, JInt 403} \<or>
      js_get ''status'' (js_get ''response'' v) \<in> {JInt 401, JInt 403})"
| "isAuthRejection _ = False"

section \<open>The world and the calls\<close>

record world =
  w_auth :: auth_state
  w_store :: storage
  w_cache :: "(string list \<times> js) list"
  w_log :: "string list"

text \<open>
  The server: its answer to each send of a path, its answer to each refresh call
  the client makes during that call, the detail of an error body, and the text
  axios gives an error.
\<close>

record server =
  sv_now :: rat
  sv_reply :: "string \<Rightarrow> nat \<Rightarrow> reply"
  sv_refresh :: "string \<Rightarrow> nat \<Rightarrow> js option"
  sv_detail :: "int option \<Rightarrow> js"
  sv_message :: "int option \<Rightarrow> string"

definition dispatch :: "action \<Rightarrow> world \<Rightarrow> world" where
  "dispatch a w = w \<lparr> w_auth := reducer (w_auth w) a \<rparr>"

definition end_session :: "world \<Rightarrow> world" where
  "end_session w = dispatch LOGOUT (w \<lparr> w_cache := [], w_store := clearAccessTokenExpiry (w_store w) \<rparr>)"

text \<open>One call of the authenticated client; the listener reacts to the session-expired event.\<close>

definition call :: "server \<Rightarrow> string \<Rightarrow> world \<Rightarrow> (js_error, js) result \<times> world" where
  "call sv url w =
     (case api_call (sv_now sv) (sv_reply sv url) (sv_refresh sv url) (Some url) (w_store w) of
        (r, st, expired) \<Rightarrow>
          ((case r of Inl s \<Rightarrow> Inl (AxiosError s (sv_detail sv s) (sv_message sv s)) | Inr body \<Rightarrow> Inr body),
           (if expired then end_session (w \<lparr> w_store := st \<rparr>) else w \<lparr> w_store := st \<rparr>)))"

definition login_path :: string where "login_path = ''/api/v1/auth/login''"
definition refresh_path :: string where "refresh_path = ''/api/v1/auth/refresh''"
definition me_path :: string where "me_path = ''/api/v1/auth/me''"
definition verify_path :: string where "verify_path = ''/api/v1/auth/mfa/verify''"

lemmas auth_paths = login_path_def refresh_path_def me_path_def verify_path_def

definition isMfaChallenge :: "js \<Rightarrow> bool" where
  "isMfaChallenge body \<longleftrightarrow> js_get ''mfa_required'' body = JBool True"

definition mfa_error :: "js \<Rightarrow> js_error" where
  "mfa_error body =
     MfaRequiredError (js_get ''mfa_token'' body)
       (or_nullish (js_get ''methods'' body) (JArr []))
       (or_nullish (js_get ''mfa_enrollment_required'' body) (JBool False))"

text \<open>Record the reported expiry; a null body throws on the property read.\<close>

definition record_reported :: "js \<Rightarrow> world \<Rightarrow> (js_error, js) result \<times> world" where
  "record_reported body w =
     (case member ''access_token_expires_at'' body of
        Inl e \<Rightarrow> (Inl e, w)
      | Inr v \<Rightarrow> (Inr body, w \<lparr> w_store := recordAccessTokenExpiry v (w_store w) \<rparr>))"

definition loginUser :: "server \<Rightarrow> world \<Rightarrow> (js_error, js) result \<times> world" where
  "loginUser sv w =
     (case call sv login_path w of
        (Inl e, w1) \<Rightarrow> (Inl e, w1)
      | (Inr body, w1) \<Rightarrow>
          if isMfaChallenge body then (Inl (mfa_error body), w1) else record_reported body w1)"

definition refreshAccessToken :: "server \<Rightarrow> world \<Rightarrow> (js_error, js) result \<times> world" where
  "refreshAccessToken sv w =
     (case call sv refresh_path w of
        (Inl e, w1) \<Rightarrow> (Inl e, w1)
      | (Inr body, w1) \<Rightarrow> record_reported body w1)"

definition verifyMfaLogin :: "server \<Rightarrow> world \<Rightarrow> (js_error, js) result \<times> world" where
  "verifyMfaLogin sv w =
     (case call sv verify_path w of
        (Inl e, w1) \<Rightarrow> (Inl e, w1)
      | (Inr body, w1) \<Rightarrow> record_reported body w1)"

definition with_org_id :: "js \<Rightarrow> (js_error, js) result" where
  "with_org_id body =
     map_r (\<lambda>o1. JObj (AList.update ''org_id'' (or_nullish o1 (or_nullish (js_get ''org_id'' body) JNull))
                        (spread_fields body)))
       (member ''organization_id'' body)"

definition getCurrentUser :: "server \<Rightarrow> world \<Rightarrow> (js_error, js) result \<times> world" where
  "getCurrentUser sv w =
     (case call sv me_path w of
        (Inl e, w1) \<Rightarrow> (Inl e, w1)
      | (Inr body, w1) \<Rightarrow> (with_org_id body, w1))"

section \<open>The provider's operations\<close>

definition role_of :: "js \<Rightarrow> user_role \<times> bool" where
  "role_of u = (case js_get ''role'' u of JStr s \<Rightarrow> normalizeRole s | _ \<Rightarrow> (GUEST, True))"

definition log_event :: "bool \<Rightarrow> string \<Rightarrow> world \<Rightarrow> world" where
  "log_event b e w = (if b then w \<lparr> w_log := w_log w @ [e] \<rparr> else w)"

text \<open>The shared tail of restore, login, completeMfa and refresh: who am I, then set the user.\<close>

definition resolve_user :: "server \<Rightarrow> world \<Rightarrow> (js_error, user_role) result \<times> world" where
  "resolve_user sv w =
     (case getCurrentUser sv w of
        (Inl e, w1) \<Rightarrow> (Inl e, w1)
      | (Inr u, w1) \<Rightarrow>
          (case role_of u of
             (r, unknown) \<Rightarrow> (Inr r, dispatch (SET_USER u r) (log_event unknown ''auth.unknown_role'' w1))))"

definition restore :: "server \<Rightarrow> world \<Rightarrow> world" where
  "restore sv w =
     (case (if isAccessTokenExpired (sv_now sv) (w_store w)
            then (case refreshAccessToken sv w of
                    (Inl e, w1) \<Rightarrow> (Inl e, w1)
                  | (Inr _, w1) \<Rightarrow> resolve_user sv w1)
            else resolve_user sv w) of
        (Inr _, w1) \<Rightarrow> w1
      | (Inl e, w1) \<Rightarrow>
          (let w2 = log_event (\<not> isAuthRejection e) ''auth.session_unverified'' w1
           in dispatch LOGOUT (w2 \<lparr> w_store := clearAccessTokenExpiry (w_store w2) \<rparr>)))"

definition login :: "server \<Rightarrow> world \<Rightarrow> (js_error, user_role) result \<times> world" where
  "login sv w =
     (case (case loginUser sv (dispatch LOADING w) of
              (Inl e, w1) \<Rightarrow> (Inl e, w1)
            | (Inr _, w1) \<Rightarrow> resolve_user sv w1) of
        (Inr r, w1) \<Rightarrow> (Inr r, w1)
      | (Inl e, w1) \<Rightarrow>
          (Inl e, (case e of
                     MfaRequiredError t ms b \<Rightarrow> dispatch STOP_LOADING w1
                   | _ \<Rightarrow> dispatch (SET_ERROR (or_else (error_message e) ''Login failed'')) w1)))"

definition completeMfa :: "server \<Rightarrow> world \<Rightarrow> (js_error, user_role) result \<times> world" where
  "completeMfa sv w =
     (case (case verifyMfaLogin sv (dispatch LOADING w) of
              (Inl e, w1) \<Rightarrow> (Inl e, w1)
            | (Inr _, w1) \<Rightarrow> resolve_user sv w1) of
        (Inr r, w1) \<Rightarrow> (Inr r, w1)
      | (Inl e, w1) \<Rightarrow>
          (Inl e, dispatch (SET_ERROR (or_else (error_message e) ''Verification failed'')) w1))"

text \<open>logout ignores the answer of the unauthenticated call, so no server appears.\<close>

definition logout :: "world \<Rightarrow> world" where
  "logout w = end_session w"

definition refresh :: "server \<Rightarrow> world \<Rightarrow> (js_error, unit) result \<times> world" where
  "refresh sv w =
     (case (case refreshAccessToken sv w of
              (Inl e, w1) \<Rightarrow> (Inl e, w1)
            | (Inr _, w1) \<Rightarrow> resolve_user sv w1) of
        (Inr r, w1) \<Rightarrow> (Inr (), w1)
      | (Inl e, w1) \<Rightarrow> (Inl e, if isAuthRejection e then end_session w1 else w1))"

definition clearError :: "world \<Rightarrow> world" where
  "clearError w = dispatch CLEAR_ERROR w"

definition provider_view :: "world \<Rightarrow> auth_view" where
  "provider_view w = \<lparr> v_isAuthenticated = au_isAuthenticated (w_auth w),
     v_isLoading = au_isLoading (w_auth w), v_role = au_role (w_auth w) \<rparr>"

lemmas session_ops = dispatch_def end_session_def record_reported_def log_event_def resolve_user_def
  loginUser_def refreshAccessToken_def verifyMfaLogin_def getCurrentUser_def

text \<open>Everything that happens to the React state is a sequence of dispatched actions.\<close>

inductive auth_reach :: "auth_state \<Rightarrow> auth_state \<Rightarrow> bool" for s where
  here: "auth_reach s s"
| act: "auth_reach s t \<Longrightarrow> auth_reach s (reducer t a)"

lemma auth_reach_refl [simp]: "auth_reach s s"
  by (rule auth_reach.here)

lemma auth_reach_one [simp]: "auth_reach s (reducer s a)"
  by (rule auth_reach.act[OF auth_reach.here])

lemma auth_reach_trans: "auth_reach t u \<Longrightarrow> auth_reach s t \<Longrightarrow> auth_reach s u"
  by (induction rule: auth_reach.induct) (auto intro: auth_reach.act)

lemma auth_reach_ok: "auth_reach s t \<Longrightarrow> auth_ok s \<Longrightarrow> auth_ok t"
  by (induction rule: auth_reach.induct) (auto intro: auth_ok_reducer)

lemma w_auth_dispatch [simp]: "w_auth (dispatch a w) = reducer (w_auth w) a"
  by (simp add: dispatch_def)

lemma dispatch_rest [simp]:
  "w_store (dispatch a w) = w_store w" "w_cache (dispatch a w) = w_cache w" "w_log (dispatch a w) = w_log w"
  by (simp_all add: dispatch_def)

lemma log_event_rest [simp]:
  "w_auth (log_event b e w) = w_auth w" "w_store (log_event b e w) = w_store w"
  "w_cache (log_event b e w) = w_cache w"
  by (simp_all add: log_event_def)

lemma end_session_sel [simp]:
  "w_auth (end_session w) = EMPTY" "w_cache (end_session w) = []"
  "w_store (end_session w) = clearAccessTokenExpiry (w_store w)"
  by (simp_all add: end_session_def)

text \<open>The client fires the session-expired event only with a rejected 401.\<close>

lemma api_call_expired: "api_call now srv rf url st = (r, st', True) \<Longrightarrow> r = Inl (Some 401)"
  by (cases "srv 0") (auto simp: api_call_def Let_def split: if_splits option.splits)

lemma api_call_Inr: "api_call now srv rf url st = (Inr b, st', e) \<Longrightarrow> \<exists>n. srv n = Inr b"
  by (cases "srv 0") (auto simp: api_call_def Let_def split: if_splits option.splits)

lemma call_spec:
  assumes "call sv url w = (r, w')"
  shows "(\<forall>b. r = Inr b \<longrightarrow> w_auth w' = w_auth w \<and> w_cache w' = w_cache w \<and> (\<exists>n. sv_reply sv url n = Inr b))"
    and "(\<forall>e. r = Inl e \<longrightarrow> (\<exists>s. e = AxiosError s (sv_detail sv s) (sv_message sv s)) \<and>
           (isAuthRejection e \<and> w_auth w' = EMPTY \<and> w_cache w' = [] \<or>
            w_auth w' = w_auth w \<and> w_cache w' = w_cache w))"
proof -
  obtain q st ev where a: "api_call (sv_now sv) (sv_reply sv url) (sv_refresh sv url) (Some url) (w_store w) = (q, st, ev)"
    by (metis prod_cases3)
  have e: "ev \<Longrightarrow> q = Inl (Some 401)" using a api_call_expired by (cases ev) auto
  show "(\<forall>b. r = Inr b \<longrightarrow> w_auth w' = w_auth w \<and> w_cache w' = w_cache w \<and> (\<exists>n. sv_reply sv url n = Inr b))"
    "(\<forall>e. r = Inl e \<longrightarrow> (\<exists>s. e = AxiosError s (sv_detail sv s) (sv_message sv s)) \<and>
           (isAuthRejection e \<and> w_auth w' = EMPTY \<and> w_cache w' = [] \<or>
            w_auth w' = w_auth w \<and> w_cache w' = w_cache w))"
    using assms a e api_call_Inr[of _ _ _ _ _ _ st ev] by (auto simp: call_def split: sum.splits if_splits)
qed

lemma call_reach: "call sv url w = (r, w') \<Longrightarrow> auth_reach (w_auth w) (w_auth w')"
  using call_spec[of sv url w r w'] auth_reach_one[of "w_auth w" LOGOUT] by (cases r) auto

text \<open>The calls to login and refresh are auth endpoints: answered once, store untouched.\<close>

lemma auth_paths_are_endpoints: "isAuthEndpoint (Some login_path)" "isAuthEndpoint (Some refresh_path)"
  by code_simp+

lemma call_auth_path:
  assumes "isAuthEndpoint (Some url)"
  shows "call sv url w =
    ((case sv_reply sv url 0 of Inl s \<Rightarrow> Inl (AxiosError s (sv_detail sv s) (sv_message sv s)) | Inr b \<Rightarrow> Inr b), w)"
  by (simp add: call_def api_call_auth[OF assms])

lemma record_reported_rest:
  "record_reported b w = (r, w') \<Longrightarrow> w_auth w' = w_auth w \<and> w_cache w' = w_cache w \<and>
     (\<forall>e. r = Inl e \<longrightarrow> e = OtherError ''TypeError'' \<and> w' = w)"
  by (auto simp: record_reported_def member_no_axios split: sum.splits)

text \<open>The outcomes of asking who the user is.\<close>

lemma getCurrentUser_spec:
  assumes "getCurrentUser sv w = (r, w')"
  shows "(\<forall>u. r = Inr u \<longrightarrow> w_auth w' = w_auth w \<and> w_cache w' = w_cache w \<and>
            (\<exists>n b. sv_reply sv me_path n = Inr b \<and> with_org_id b = Inr u))"
    and "(\<forall>e. r = Inl e \<longrightarrow>
            (isAuthRejection e \<and> w_auth w' = EMPTY \<and> w_cache w' = [] \<or> w_auth w' = w_auth w \<and> w_cache w' = w_cache w) \<and>
            (\<forall>t ms b. e \<noteq> MfaRequiredError t ms b))"
proof -
  obtain q w1 where c: "call sv me_path w = (q, w1)" by force
  show "(\<forall>u. r = Inr u \<longrightarrow> w_auth w' = w_auth w \<and> w_cache w' = w_cache w \<and>
            (\<exists>n b. sv_reply sv me_path n = Inr b \<and> with_org_id b = Inr u))"
    "(\<forall>e. r = Inl e \<longrightarrow>
            (isAuthRejection e \<and> w_auth w' = EMPTY \<and> w_cache w' = [] \<or> w_auth w' = w_auth w \<and> w_cache w' = w_cache w) \<and>
            (\<forall>t ms b. e \<noteq> MfaRequiredError t ms b))"
    using assms c call_spec[OF c]
    by (cases q; fastforce simp: getCurrentUser_def with_org_id_def result_simps dest: member_no_axios)+
qed

lemma resolve_user_spec:
  assumes "resolve_user sv w = (r, w')"
  shows "(\<forall>x. r = Inr x \<longrightarrow> w_cache w' = w_cache w \<and>
            (\<exists>n b u. sv_reply sv me_path n = Inr b \<and> with_org_id b = Inr u \<and> x = fst (role_of u) \<and>
                     w_auth w' = reducer (w_auth w) (SET_USER u x)))"
    and "(\<forall>e. r = Inl e \<longrightarrow>
            (isAuthRejection e \<and> w_auth w' = EMPTY \<and> w_cache w' = [] \<or> w_auth w' = w_auth w \<and> w_cache w' = w_cache w) \<and>
            (\<forall>t ms b. e \<noteq> MfaRequiredError t ms b))"
proof -
  obtain q w1 where c: "getCurrentUser sv w = (q, w1)" by force
  show "(\<forall>x. r = Inr x \<longrightarrow> w_cache w' = w_cache w \<and>
            (\<exists>n b u. sv_reply sv me_path n = Inr b \<and> with_org_id b = Inr u \<and> x = fst (role_of u) \<and>
                     w_auth w' = reducer (w_auth w) (SET_USER u x)))"
    "(\<forall>e. r = Inl e \<longrightarrow>
            (isAuthRejection e \<and> w_auth w' = EMPTY \<and> w_cache w' = [] \<or> w_auth w' = w_auth w \<and> w_cache w' = w_cache w) \<and>
            (\<forall>t ms b. e \<noteq> MfaRequiredError t ms b))"
    using assms c getCurrentUser_spec[OF c]
    by (cases q; fastforce simp: resolve_user_def split: prod.splits)+
qed

lemma resolve_user_reach: "resolve_user sv w = (r, w') \<Longrightarrow> auth_reach (w_auth w) (w_auth w')"
proof -
  assume a: "resolve_user sv w = (r, w')"
  show ?thesis
  proof (cases r)
    case (Inl e)
    then have "w_auth w' = EMPTY \<or> w_auth w' = w_auth w" using resolve_user_spec(2)[OF a] by blast
    then show ?thesis using auth_reach_one[of "w_auth w" LOGOUT] by auto
  next
    case (Inr x)
    then obtain u where "w_auth w' = reducer (w_auth w) (SET_USER u x)"
      using resolve_user_spec(1)[OF a] by blast
    then show ?thesis by (simp only: auth_reach_one)
  qed
qed

text \<open>The two legs before the shared tail.\<close>

lemma refreshAccessToken_eq:
  "refreshAccessToken sv w =
     (case sv_reply sv refresh_path 0 of
        Inl s \<Rightarrow> (Inl (AxiosError s (sv_detail sv s) (sv_message sv s)), w)
      | Inr b \<Rightarrow> record_reported b w)"
  by (simp add: refreshAccessToken_def call_auth_path auth_paths_are_endpoints split: sum.split)

lemma loginUser_eq:
  "loginUser sv w =
     (case sv_reply sv login_path 0 of
        Inl s \<Rightarrow> (Inl (AxiosError s (sv_detail sv s) (sv_message sv s)), w)
      | Inr b \<Rightarrow> if isMfaChallenge b then (Inl (mfa_error b), w) else record_reported b w)"
  by (simp add: loginUser_def call_auth_path auth_paths_are_endpoints split: sum.split)

lemma refreshAccessToken_rest:
  "refreshAccessToken sv w = (r, w') \<Longrightarrow> w_auth w' = w_auth w \<and> w_cache w' = w_cache w \<and>
     (\<forall>t ms b. r \<noteq> Inl (MfaRequiredError t ms b))"
  by (auto simp: refreshAccessToken_eq dest: record_reported_rest split: sum.splits)

lemma loginUser_rest:
  "loginUser sv w = (r, w') \<Longrightarrow> w_auth w' = w_auth w \<and> w_cache w' = w_cache w"
  by (auto simp: loginUser_eq dest: record_reported_rest split: sum.splits if_splits)

lemma verifyMfaLogin_reach: "verifyMfaLogin sv w = (r, w') \<Longrightarrow> auth_reach (w_auth w) (w_auth w')"
proof -
  assume a: "verifyMfaLogin sv w = (r, w')"
  obtain q w1 where c: "call sv verify_path w = (q, w1)" by force
  then show ?thesis
    using a call_reach[OF c] by (cases q) (auto simp: verifyMfaLogin_def dest: record_reported_rest)
qed

section \<open>What a session guarantees\<close>

datatype session_op =
    ORestore server | OLogin server | OCompleteMfa server | ORefresh server
  | OLogout | OClearError | OExpired

fun session_step :: "world \<Rightarrow> session_op \<Rightarrow> world" where
  "session_step w (ORestore sv) = restore sv w"
| "session_step w (OLogin sv) = snd (login sv w)"
| "session_step w (OCompleteMfa sv) = snd (completeMfa sv w)"
| "session_step w (ORefresh sv) = snd (refresh sv w)"
| "session_step w OLogout = logout w"
| "session_step w OClearError = clearError w"
| "session_step w OExpired = end_session w"

lemma restore_reach: "auth_reach (w_auth w) (w_auth (restore sv w))"
proof (cases "isAccessTokenExpired (sv_now sv) (w_store w)")
  case True
  obtain q w1 where r: "refreshAccessToken sv w = (q, w1)" by force
  obtain q2 w2 where u: "resolve_user sv w1 = (q2, w2)" by force
  show ?thesis
    using True r u refreshAccessToken_rest[OF r] resolve_user_reach[OF u] auth_reach.act[OF resolve_user_reach[OF u], of LOGOUT]
      auth_reach_one[of "w_auth w" LOGOUT]
    by (cases q; cases q2) (auto simp: restore_def Let_def simp del: reducer.simps)
next
  case False
  obtain q2 w2 where u: "resolve_user sv w = (q2, w2)" by force
  show ?thesis
    using False u resolve_user_reach[OF u] auth_reach.act[OF resolve_user_reach[OF u], of LOGOUT]
    by (cases q2) (auto simp: restore_def Let_def simp del: reducer.simps)
qed

lemma login_reach: "auth_reach (w_auth w) (w_auth (snd (login sv w)))"
proof -
  obtain q w1 where r: "loginUser sv (dispatch LOADING w) = (q, w1)" by force
  obtain q2 w2 where u: "resolve_user sv w1 = (q2, w2)" by force
  have 1: "auth_reach (w_auth w) (w_auth w1)" using loginUser_rest[OF r] by (simp del: reducer.simps)
  have 2: "auth_reach (w_auth w) (w_auth w2)" using auth_reach_trans[OF resolve_user_reach[OF u] 1] .
  show ?thesis
    using r u auth_reach.act[OF 1] auth_reach.act[OF 2] 2
    by (cases q; cases q2) (auto simp: login_def simp del: reducer.simps split: js_error.split)
qed

lemma completeMfa_reach: "auth_reach (w_auth w) (w_auth (snd (completeMfa sv w)))"
proof -
  obtain q w1 where r: "verifyMfaLogin sv (dispatch LOADING w) = (q, w1)" by force
  obtain q2 w2 where u: "resolve_user sv w1 = (q2, w2)" by force
  have 1: "auth_reach (w_auth w) (w_auth w1)"
    using auth_reach_trans[OF verifyMfaLogin_reach[OF r]] by (simp del: reducer.simps)
  have 2: "auth_reach (w_auth w) (w_auth w2)" using auth_reach_trans[OF resolve_user_reach[OF u] 1] .
  show ?thesis
    using r u auth_reach.act[OF 1] auth_reach.act[OF 2] 2
    by (cases q; cases q2) (auto simp: completeMfa_def simp del: reducer.simps)
qed

lemma refresh_reach: "auth_reach (w_auth w) (w_auth (snd (refresh sv w)))"
proof -
  obtain q w1 where r: "refreshAccessToken sv w = (q, w1)" by force
  obtain q2 w2 where u: "resolve_user sv w1 = (q2, w2)" by force
  have 1: "w_auth w1 = w_auth w" using refreshAccessToken_rest[OF r] by simp
  have e: "auth_reach (w_auth w) EMPTY" using auth_reach_one[of "w_auth w" LOGOUT] by simp
  show ?thesis
    using r u 1 e resolve_user_reach[OF u] by (cases q; cases q2) (auto simp: refresh_def)
qed

lemma session_step_reach: "auth_reach (w_auth w) (w_auth (session_step w x))"
proof -
  have "auth_reach (w_auth w) EMPTY" using auth_reach_one[of "w_auth w" LOGOUT] by simp
  then show ?thesis
    using restore_reach login_reach completeMfa_reach refresh_reach
    by (cases x) (simp_all add: logout_def clearError_def del: reducer.simps(4))
qed

text \<open>C8. The session state stays consistent: after any sequence of the provider's operations, with
  any servers, and under any interleaving of the actions they dispatch, being authenticated means
  having a user and having a role, and a pending operation shows no error.\<close>

theorem session_invariant:
  "auth_ok (w_auth (foldl session_step (\<lparr> w_auth = initial_auth, w_store = st, w_cache = c, w_log = l \<rparr>) ops)) \<and>
   auth_ok (foldl reducer initial_auth acts)"
proof -
  have "auth_ok (w_auth w) \<Longrightarrow> auth_ok (w_auth (foldl session_step w ops))" for w
  proof (induction ops arbitrary: w)
    case (Cons x ops)
    then show ?case using auth_reach_ok[OF session_step_reach[of w x]] by simp
  qed simp
  moreover have "auth_ok s \<Longrightarrow> auth_ok (foldl reducer s acts)" for s
    by (induction acts arbitrary: s) (simp_all add: auth_ok_reducer)
  ultimately show ?thesis by (simp add: auth_ok_EMPTY)
qed

text \<open>C9. Restoring a session fails closed: it always leaves the loading state; an authenticated
  outcome shows exactly a user the server answered to the session query, and every other outcome is
  the empty state with no expiry hint left in a writable store.\<close>

theorem restore_fails_closed:
  assumes "w_auth w = initial_auth"
  shows "\<not> au_isLoading (w_auth (restore sv w)) \<and>
    (au_isAuthenticated (w_auth (restore sv w)) \<longrightarrow>
       (\<exists>n b u. sv_reply sv me_path n = Inr b \<and> with_org_id b = Inr u \<and>
          au_user (w_auth (restore sv w)) = Some u \<and>
          au_role (w_auth (restore sv w)) = Some (fst (role_of u)))) \<and>
    (\<not> au_isAuthenticated (w_auth (restore sv w)) \<longrightarrow>
       w_auth (restore sv w) = EMPTY \<and>
       (st_writes (w_store (restore sv w)) \<longrightarrow> token_hint (w_store (restore sv w)) = None))"
proof -
  let ?out = "if isAccessTokenExpired (sv_now sv) (w_store w)
            then (case refreshAccessToken sv w of
                    (Inl e, w1) \<Rightarrow> (Inl e, w1)
                  | (Inr _, w1) \<Rightarrow> resolve_user sv w1)
            else resolve_user sv w"
  obtain q w1 where o1: "?out = (q, w1)" by force
  show ?thesis
  proof (cases q)
    case (Inl e)
    then have "restore sv w = (let w2 = log_event (\<not> isAuthRejection e) ''auth.session_unverified'' w1
           in dispatch LOGOUT (w2 \<lparr> w_store := clearAccessTokenExpiry (w_store w2) \<rparr>))"
      using o1 by (simp add: restore_def)
    moreover have "st_writes (clearAccessTokenExpiry s) \<Longrightarrow> token_hint (clearAccessTokenExpiry s) = None" for s
      using hint.clr_device[of s] hint.rd_clr[of s] by (simp add: st_same_device_def)
    ultimately show ?thesis by (simp add: Let_def EMPTY_def)
  next
    case (Inr r)
    then obtain w0 where "resolve_user sv w0 = (Inr r, w1)"
      using o1 by (auto split: if_splits prod.splits sum.splits)
    moreover have "restore sv w = w1" using o1 Inr by (simp add: restore_def)
    ultimately obtain n b u where "sv_reply sv me_path n = Inr b" "with_org_id b = Inr u" "r = fst (role_of u)"
      "w_auth (restore sv w) = reducer (w_auth w0) (SET_USER u r)"
      using resolve_user_spec(1)[of sv w0 "Inr r" w1] by blast
    then show ?thesis by (auto simp: EMPTY_def)
  qed
qed

definition down_server :: server where
  "down_server = \<lparr> sv_now = 0, sv_reply = (\<lambda>_ _. Inl None), sv_refresh = (\<lambda>_ _. None),
     sv_detail = (\<lambda>_. JUndef), sv_message = (\<lambda>_. ''Network Error'') \<rparr>"

definition world0 :: world where
  "world0 = \<lparr> w_auth = initial_auth, w_store = empty_storage, w_cache = [], w_log = [] \<rparr>"

lemma restore_fails_closed_witness:
  "\<not> au_isLoading (w_auth (restore down_server world0))"
  using restore_fails_closed[of world0 down_server] by (simp add: world0_def)

text \<open>A manual refresh ends the session exactly on a rejection: with a 401 or 403 the state is
  empty, the query cache wiped and the hint gone; with any other failure the state and the cache are
  untouched; with success the user is the one the server answered and the cache is kept.\<close>

theorem refresh_ends_session_only_on_rejection:
  "case refresh sv w of
     (Inr (), w') \<Rightarrow>
       w_cache w' = w_cache w \<and> au_isAuthenticated (w_auth w') \<and>
       (\<exists>n b u. sv_reply sv me_path n = Inr b \<and> with_org_id b = Inr u \<and> au_user (w_auth w') = Some u)
   | (Inl e, w') \<Rightarrow>
       if isAuthRejection e
       then w_auth w' = EMPTY \<and> w_cache w' = [] \<and> (st_writes (w_store w') \<longrightarrow> token_hint (w_store w') = None)
       else w_auth w' = w_auth w \<and> w_cache w' = w_cache w"
proof -
  obtain q w1 where r: "refreshAccessToken sv w = (q, w1)" by force
  have 1: "w_auth w1 = w_auth w" "w_cache w1 = w_cache w" using refreshAccessToken_rest[OF r] by auto
  have h: "st_writes (clearAccessTokenExpiry s) \<Longrightarrow> token_hint (clearAccessTokenExpiry s) = None" for s
    using hint.clr_device[of s] hint.rd_clr[of s] by (simp add: st_same_device_def)
  show ?thesis
  proof (cases q)
    case (Inl e)
    then show ?thesis using r 1 h by (auto simp: refresh_def)
  next
    case (Inr b)
    obtain q2 w2 where u: "resolve_user sv w1 = (q2, w2)" by force
    show ?thesis
    proof (cases q2)
      case (Inl e)
      then have "isAuthRejection e \<or> w_auth w2 = w_auth w \<and> w_cache w2 = w_cache w"
        using resolve_user_spec(2)[OF u] 1 by auto
      then show ?thesis using r Inr u Inl h by (auto simp: refresh_def)
    next
      case (Inr x)
      obtain n c v where s: "sv_reply sv me_path n = Inr c" "with_org_id c = Inr v" "w_cache w2 = w_cache w1"
        "w_auth w2 = reducer (w_auth w1) (SET_USER v x)"
        using resolve_user_spec(1)[OF u] Inr by blast
      have e: "refresh sv w = (Inr (), w2)" using r Inr u \<open>q = Inr b\<close> by (simp add: refresh_def)
      have a: "au_isAuthenticated (w_auth w2)" "au_user (w_auth w2) = Some v" using s(4) by simp_all
      have "w_cache w2 = w_cache w" using s(3) 1(2) by simp
      then show ?thesis unfolding e prod.case sum.case unit.case using s(1,2) a by blast
    qed
  qed
qed

definition rejecting_server :: server where
  "rejecting_server = \<lparr> sv_now = 0, sv_reply = (\<lambda>_ _. Inl (Some 401)), sv_refresh = (\<lambda>_ _. None),
     sv_detail = (\<lambda>_. JUndef), sv_message = (\<lambda>_. ''Unauthorized'') \<rparr>"

definition signed_in_world :: world where
  "signed_in_world = \<lparr> w_auth = reducer EMPTY (SET_USER (JObj []) SUPER_ADMIN), w_store = empty_storage,
     w_cache = [([''registrations''], JObj [])], w_log = [] \<rparr>"

lemma refresh_ends_session_only_on_rejection_witness:
  "w_auth (snd (refresh rejecting_server (signed_in_world))) = EMPTY \<and>
   w_cache (snd (refresh rejecting_server (signed_in_world))) = []"
proof -
  have "fst (refresh rejecting_server signed_in_world) = Inl (AxiosError (Some 401) JUndef ''Unauthorized'')"
    by code_simp
  then show ?thesis
    using refresh_ends_session_only_on_rejection[of signed_in_world rejecting_server]
    by (cases "refresh rejecting_server signed_in_world") auto
qed

text \<open>Signing in, on every outcome of the two calls: an MFA challenge throws its token and leaves
  the user, the cache and the expiry hint as they were, without an error and not loading; success
  authenticates with the user and the role the server answered and clears the error; any other
  failure shows its message and stops loading.\<close>

theorem login_outcomes:
  "case login sv w of
     (Inr role, w') \<Rightarrow>
       (\<exists>n b u. sv_reply sv me_path n = Inr b \<and> with_org_id b = Inr u \<and> role = fst (role_of u) \<and>
          w_auth w' = reducer EMPTY (SET_USER u role)) \<and> w_cache w' = w_cache w
   | (Inl (MfaRequiredError t ms en), w') \<Rightarrow>
       (\<exists>b. sv_reply sv login_path 0 = Inr b \<and> isMfaChallenge b \<and> mfa_error b = MfaRequiredError t ms en) \<and>
       w_auth w' = (w_auth w) \<lparr> au_isLoading := False, au_error := None \<rparr> \<and>
       w_store w' = w_store w \<and> w_cache w' = w_cache w
   | (Inl e, w') \<Rightarrow>
       \<not> au_isLoading (w_auth w') \<and> au_error (w_auth w') = Some (or_else (error_message e) ''Login failed'')"
proof -
  let ?w0 = "dispatch LOADING w"
  obtain q w1 where r: "loginUser sv ?w0 = (q, w1)" by force
  have 1: "w_auth w1 = w_auth ?w0" "w_cache w1 = w_cache w" using loginUser_rest[OF r] by auto
  show ?thesis
  proof (cases q)
    case (Inl e)
    show ?thesis
    proof (cases "\<exists>t ms en. e = MfaRequiredError t ms en")
      case True
      then obtain b where "sv_reply sv login_path 0 = Inr b" "isMfaChallenge b" "mfa_error b = e" "w1 = ?w0"
        using r Inl by (auto simp: loginUser_eq split: sum.splits if_splits dest: record_reported_rest)
      then show ?thesis using r Inl True by (auto simp: login_def)
    next
      case False
      then show ?thesis using r Inl by (cases e) (auto simp: login_def)
    qed
  next
    case (Inr b)
    obtain q2 w2 where u: "resolve_user sv w1 = (q2, w2)" by force
    show ?thesis
    proof (cases q2)
      case (Inl e)
      then have "\<forall>t ms b. e \<noteq> MfaRequiredError t ms b" using resolve_user_spec(2)[OF u] by blast
      then show ?thesis using r Inr u Inl by (cases e) (auto simp: login_def)
    next
      case (Inr x)
      obtain n c v where s: "sv_reply sv me_path n = Inr c" "with_org_id c = Inr v" "w_cache w2 = w_cache w1"
        "w_auth w2 = reducer (w_auth w1) (SET_USER v x)" "x = fst (role_of v)"
        using resolve_user_spec(1)[OF u] Inr by blast
      have e: "login sv w = (Inr x, w2)" using r Inr u \<open>q = Inr b\<close> by (simp add: login_def)
      have a: "w_auth w2 = reducer EMPTY (SET_USER v x)" using s(4) by simp
      show ?thesis unfolding e prod.case sum.case using s(1,2,3,5) a 1(2) by auto
    qed
  qed
qed

end
