(* ===== verification/Login_Flow.thy ===== *)
theory Login_Flow
  imports Auth_Session
begin

text \<open>
  The two-legged sign-in as the login page runs it: the hook
  core/auth/hooks/useLogin on top of the provider, with the errors its two
  mutations keep, and the decisions of modules/auth LoginForm (where to go, which
  message to show, which second-factor method to send).
\<close>

record login_hook =
  lh_challenge :: "(js \<times> js \<times> js) option"
  lh_login_error :: "js_error option"
  lh_mfa_error :: "js_error option"

definition hook_init :: login_hook where
  "hook_init = \<lparr> lh_challenge = None, lh_login_error = None, lh_mfa_error = None \<rparr>"

definition axiosDetail :: "js_error option \<Rightarrow> js" where
  "axiosDetail e =
     (case e of
        None \<Rightarrow> JNull
      | Some (AxiosError s d m) \<Rightarrow> if truthy d then d else JStr m
      | Some e' \<Rightarrow> (case error_message e' of Some m \<Rightarrow> JStr m | None \<Rightarrow> JNull))"

definition hook_login :: "server \<Rightarrow> world \<times> login_hook \<Rightarrow> user_role option \<times> world \<times> login_hook" where
  "hook_login sv wh =
     (case login sv (fst wh) of
        (Inr role, w) \<Rightarrow> (Some role, w, (snd wh) \<lparr> lh_login_error := None, lh_challenge := None \<rparr>)
      | (Inl e, w) \<Rightarrow>
          (None, w, (snd wh) \<lparr> lh_login_error := Some e,
             lh_challenge := (case e of MfaRequiredError t ms b \<Rightarrow> Some (t, ms, b)
                              | _ \<Rightarrow> lh_challenge (snd wh)) \<rparr>))"

definition submitMfa :: "server \<Rightarrow> world \<times> login_hook \<Rightarrow> user_role option \<times> world \<times> login_hook" where
  "submitMfa sv wh =
     (case lh_challenge (snd wh) of
        None \<Rightarrow> (None, fst wh, (snd wh) \<lparr> lh_mfa_error := Some (OtherError ''No active MFA challenge'') \<rparr>)
      | Some _ \<Rightarrow>
          (case completeMfa sv (fst wh) of
             (Inr role, w) \<Rightarrow> (Some role, w, (snd wh) \<lparr> lh_mfa_error := None, lh_challenge := None \<rparr>)
           | (Inl e, w) \<Rightarrow> (None, w, (snd wh) \<lparr> lh_mfa_error := Some e \<rparr>)))"

definition cancelMfa :: "world \<times> login_hook \<Rightarrow> world \<times> login_hook" where
  "cancelMfa wh = (clearError (fst wh), (snd wh) \<lparr> lh_challenge := None, lh_mfa_error := None \<rparr>)"

definition is_mfa :: "js_error option \<Rightarrow> bool" where
  "is_mfa e = (case e of Some (MfaRequiredError t ms b) \<Rightarrow> True | _ \<Rightarrow> False)"

definition js_of_error :: "string option \<Rightarrow> js" where
  "js_of_error e = (case e of None \<Rightarrow> JNull | Some s \<Rightarrow> JStr s)"

definition rawError :: "world \<times> login_hook \<Rightarrow> js" where
  "rawError wh =
     (if lh_challenge (snd wh) \<noteq> None then axiosDetail (lh_mfa_error (snd wh))
      else if is_mfa (lh_login_error (snd wh)) then JNull
      else or_nullish (axiosDetail (lh_login_error (snd wh))) (js_of_error (au_error (w_auth (fst wh)))))"

definition shown_error :: "world \<times> login_hook \<Rightarrow> string option" where
  "shown_error wh = (case rawError wh of JStr s \<Rightarrow> Some s | _ \<Rightarrow> None)"

definition shown_status :: "login_hook \<Rightarrow> int option" where
  "shown_status h =
     (case (if lh_challenge h \<noteq> None then lh_mfa_error h else lh_login_error h) of
        Some (AxiosError s d m) \<Rightarrow> s
      | _ \<Rightarrow> None)"

section \<open>The form\<close>

definition isLockout :: "int option \<Rightarrow> bool" where
  "isLockout status \<longleftrightarrow> status = Some 423 \<or> status = Some 429"

definition errorMessage :: "string \<Rightarrow> world \<times> login_hook \<Rightarrow> string option" where
  "errorMessage lockedText wh =
     (case shown_error wh of
        None \<Rightarrow> None
      | Some e \<Rightarrow> if e = [] then None else Some (if isLockout (shown_status (snd wh)) then lockedText else e))"

text \<open>handleSubmit and handleVerify: clear the context error, run the leg, and go on with a role.\<close>

definition handleSubmit ::
  "server \<Rightarrow> string option \<Rightarrow> world \<times> login_hook \<Rightarrow> nav option \<times> world \<times> login_hook" where
  "handleSubmit sv returnUrl wh =
     (case hook_login sv (clearError (fst wh), snd wh) of
        (Some role, wh') \<Rightarrow> (goAfterLogin returnUrl role, wh')
      | (None, wh') \<Rightarrow> (None, wh'))"

definition handleVerify ::
  "server \<Rightarrow> string option \<Rightarrow> world \<times> login_hook \<Rightarrow> nav option \<times> world \<times> login_hook" where
  "handleVerify sv returnUrl wh =
     (case submitMfa sv (clearError (fst wh), snd wh) of
        (Some role, wh') \<Rightarrow> (goAfterLogin returnUrl role, wh')
      | (None, wh') \<Rightarrow> (None, wh'))"

definition second_factor :: "bool \<Rightarrow> string \<Rightarrow> string \<times> string" where
  "second_factor useRecovery code = ((if useRecovery then ''recovery'' else ''totp''), trim code)"

lemmas login_hook_defs = hook_login_def submitMfa_def cancelMfa_def rawError_def shown_error_def
  shown_status_def is_mfa_def

section \<open>Both legs together\<close>

lemma login_challenge:
  assumes "sv_reply sv login_path 0 = Inr b" "isMfaChallenge b"
  shows "login sv w = (Inl (mfa_error b), (w \<lparr> w_auth := (w_auth w) \<lparr> au_isLoading := False, au_error := None \<rparr> \<rparr>))"
  using assms by (simp add: login_def loginUser_eq mfa_error_def dispatch_def)

lemma completeMfa_success:
  assumes "completeMfa sv w = (Inr role, w')"
  shows "au_isAuthenticated (w_auth w') \<and> au_role (w_auth w') = Some role \<and> au_error (w_auth w') = None"
proof -
  obtain w1 where r: "resolve_user sv w1 = (Inr role, w')"
    using assms by (auto simp: completeMfa_def split: prod.splits sum.splits)
  then obtain u w0 where "w_auth w' = reducer w0 (SET_USER u role)"
    using resolve_user_spec(1)[OF r] by blast
  then show ?thesis by (simp add: EMPTY_def)
qed

text \<open>C10. The two legs of a sign-in with a second factor. When the password is right and a factor is
  outstanding, the page gets no role, no error and no status, holds the challenge the server sent, and
  the browser storage is as before. Submitting the factor then either succeeds: the role is returned,
  the session is authenticated with it, the challenge is gone and no error shows; or it fails: the
  challenge is kept for another try and the text shown is the detail of that failure.\<close>

theorem mfa_login_flow:
  assumes "sv_reply sv login_path 0 = Inr b" "isMfaChallenge b"
    and "hook_login sv (w, h) = (r1, w1, h1)" "submitMfa sv2 (w1, h1) = (r2, w2, h2)"
    and "lh_mfa_error h = None"
  shows "r1 = None \<and> w_store w1 = w_store w \<and> shown_error (w1, h1) = None \<and> shown_status h1 = None \<and>
    (\<exists>ms en. lh_challenge h1 = Some (js_get ''mfa_token'' b, ms, en)) \<and>
    (case r2 of
       Some role \<Rightarrow>
         au_isAuthenticated (w_auth w2) \<and> au_role (w_auth w2) = Some role \<and>
         lh_challenge h2 = None \<and> shown_error (w2, h2) = None
     | None \<Rightarrow>
         lh_challenge h2 = lh_challenge h1 \<and>
         shown_error (w2, h2) = (case axiosDetail (lh_mfa_error h2) of JStr s \<Rightarrow> Some s | _ \<Rightarrow> None) \<and>
         lh_mfa_error h2 \<noteq> None)"
proof -
  have l: "login sv w = (Inl (mfa_error b), (w \<lparr> w_auth := (w_auth w) \<lparr> au_isLoading := False, au_error := None \<rparr> \<rparr>))"
    using assms(1,2) by (rule login_challenge)
  have 1: "r1 = None" "w_store w1 = w_store w" "shown_error (w1, h1) = None" "shown_status h1 = None"
    "is_mfa (lh_login_error h1)" "\<exists>ms en. lh_challenge h1 = Some (js_get ''mfa_token'' b, ms, en)"
    using assms(3,5) l by (auto simp: login_hook_defs mfa_error_def axiosDetail_def)
  obtain q w3 where c: "completeMfa sv2 w1 = (q, w3)" by force
  show ?thesis
  proof (cases q)
    case (Inl e)
    then have "r2 = None" "h2 = h1 \<lparr> lh_mfa_error := Some e \<rparr>"
      using assms(4) 1(6) c by (auto simp: submitMfa_def)
    moreover have "shown_error (w2, h1 \<lparr> lh_mfa_error := Some e \<rparr>) =
        (case axiosDetail (Some e) of JStr s \<Rightarrow> Some s | _ \<Rightarrow> None)"
      using 1(6) by (auto simp: shown_error_def rawError_def)
    ultimately show ?thesis using 1 by simp
  next
    case (Inr role)
    then have "r2 = Some role" "w2 = w3" "h2 = h1 \<lparr> lh_mfa_error := None, lh_challenge := None \<rparr>"
      using assms(4) 1(6) c by (auto simp: submitMfa_def)
    then show ?thesis using 1 completeMfa_success[of sv2 w1 role w3] c Inr
      by (simp add: shown_error_def rawError_def)
  qed
qed

definition mfa_server :: server where
  "mfa_server = down_server \<lparr> sv_reply := (\<lambda>_ _. Inr (JObj [(''mfa_required'', JBool True), (''mfa_token'', JStr ''t1'')])) \<rparr>"

lemma mfa_login_flow_witness:
  "fst (hook_login mfa_server (world0, hook_init)) = None \<and>
   lh_challenge (snd (snd (hook_login mfa_server (world0, hook_init)))) \<noteq> None"
proof -
  obtain r1 w1 h1 where a: "hook_login mfa_server (world0, hook_init) = (r1, w1, h1)" by (metis prod_cases3)
  obtain r2 w2 h2 where b: "submitMfa down_server (w1, h1) = (r2, w2, h2)" by (metis prod_cases3)
  show ?thesis
    using mfa_login_flow[OF _ _ a b] a by (auto simp: mfa_server_def isMfaChallenge_def hook_init_def)
qed

text \<open>Cancelling returns to the password step without an error of the second leg.\<close>

lemma cancel_clears:
  "is_mfa (lh_login_error h) \<Longrightarrow> shown_error (cancelMfa (w, h)) = None \<and> lh_challenge (snd (cancelMfa (w, h))) = None"
  by (simp add: login_hook_defs)

text \<open>A locked account shows the lockout text, never the server's detail.\<close>

lemma lockout_message:
  "isLockout (shown_status (snd wh)) \<Longrightarrow> errorMessage locked wh \<in> {None, Some locked}"
  by (auto simp: errorMessage_def split: option.splits)

end
