(* ===== verification/Login_Page.thy ===== *)
theory Login_Page
  imports Login_Flow
begin

text \<open>
  The login page as a user meets it, modules/auth LoginForm: its inputs, the two forms with their
  buttons, and the answers of the two requests, which may come late. A verification that was
  cancelled stays under way unobserved. The lemmas say what may leave the page and when it may be
  left. A leg runs as a whole when its answer comes; the loading flag the session holds meanwhile is
  not read here.
\<close>

section \<open>State\<close>

record login_page =
  lg_username :: string
  lg_password :: string
  lg_showPassword :: bool
  lg_capsLockOn :: bool
  lg_mfaCode :: string
  lg_useRecovery :: bool
  lg_login :: bool
  lg_verify :: bool
  lg_stray :: nat
  lg_world :: world
  lg_hook :: login_hook

definition login_page_start :: "world \<Rightarrow> login_page" where
  "login_page_start w =
     \<lparr> lg_username = [], lg_password = [], lg_showPassword = False, lg_capsLockOn = False, lg_mfaCode = [],
       lg_useRecovery = False, lg_login = False, lg_verify = False, lg_stray = 0, lg_world = w, lg_hook = hook_init \<rparr>"

definition isPending :: "login_page \<Rightarrow> bool" where
  "isPending s \<longleftrightarrow> lg_login s \<or> lg_verify s"

section \<open>What is shown\<close>

datatype login_body =
    Password_form "string \<times> bool \<times> bool" "string \<times> bool"
  | Code_form "string \<times> string \<times> string \<times> string" "string \<times> bool" string
  | Enroll_notice

record login_view =
  lv_title :: string
  lv_subtitle :: string
  lv_alert :: "string option"
  lv_body :: login_body
  lv_forgot :: bool

definition login_enabled :: "login_page \<Rightarrow> bool" where
  "login_enabled s \<longleftrightarrow> \<not> (isPending s \<or> lg_username s = [] \<or> lg_password s = [])"

definition verify_enabled :: "login_page \<Rightarrow> bool" where
  "verify_enabled s \<longleftrightarrow> \<not> (isPending s \<or> trim (lg_mfaCode s) = [])"

text \<open>The keys of the texts are those of the message file; the password row is the kind of the input, the
  warning about capital letters and whether the password can be read.\<close>

definition LoginForm :: "string \<Rightarrow> login_page \<Rightarrow> login_view" where
  "LoginForm lockedText s =
     (let challenge = lh_challenge (lg_hook s) in
      \<lparr> lv_title = (if challenge \<noteq> None then ''mfaTitle'' else ''welcomeBack''),
        lv_subtitle = (if challenge \<noteq> None then ''mfaSubtitle'' else ''signInSubtitle''),
        lv_alert = errorMessage lockedText (lg_world s, lg_hook s),
        lv_body =
          (case challenge of
             None \<Rightarrow>
               Password_form (if lg_showPassword s then ''text'' else ''password'', lg_capsLockOn s, lg_showPassword s)
                 (if isPending s then ''signingIn'' else ''signIn'', login_enabled s)
           | Some (token, ms, enrollmentRequired) \<Rightarrow>
               if truthy enrollmentRequired then Enroll_notice
               else Code_form
                 (if lg_useRecovery s then ''mfaRecoveryCode'' else ''mfaCode'',
                  if lg_useRecovery s then ''text'' else ''numeric'',
                  lg_mfaCode s,
                  if lg_useRecovery s then ''mfaRecoveryPlaceholder'' else ''mfaCodePlaceholder'')
                 (if isPending s then ''mfaVerifying'' else ''mfaVerify'', verify_enabled s)
                 (if lg_useRecovery s then ''mfaUseAuthenticator'' else ''mfaUseRecovery'')),
        lv_forgot = (challenge = None) \<rparr>)"

section \<open>Steps\<close>

datatype login_input =
    Lg_username string
  | Lg_password string
  | Lg_show
  | Lg_key bool
  | Lg_code string
  | Lg_recovery
  | Lg_cancel
  | Lg_submit
  | Lg_verify
  | Lg_login_answer server
  | Lg_verify_answer server
  | Lg_stray_answer server

datatype login_out = Send_login string string | Send_code js string string | Leave nav

definition on_password :: "login_page \<Rightarrow> bool" where
  "on_password s \<longleftrightarrow> lh_challenge (lg_hook s) = None"

definition on_code :: "login_page \<Rightarrow> bool" where
  "on_code s \<longleftrightarrow> (case lh_challenge (lg_hook s) of Some (t, ms, en) \<Rightarrow> \<not> truthy en | None \<Rightarrow> False)"

text \<open>A malformed return address throws after the sign-in, and nothing opens.\<close>

definition leave :: "string option \<Rightarrow> user_role option \<Rightarrow> login_out list" where
  "leave returnUrl role =
     (case role of None \<Rightarrow> [] | Some r \<Rightarrow> (case goAfterLogin returnUrl r of Some n \<Rightarrow> [Leave n] | None \<Rightarrow> []))"

fun login_page_step :: "string option \<Rightarrow> login_input \<Rightarrow> login_page \<Rightarrow> login_page \<times> login_out list" where
  "login_page_step ru (Lg_username t) s = (if on_password s then s\<lparr>lg_username := t\<rparr> else s, [])"
| "login_page_step ru (Lg_password t) s = (if on_password s then s\<lparr>lg_password := t\<rparr> else s, [])"
| "login_page_step ru Lg_show s = (if on_password s then s\<lparr>lg_showPassword := \<not> lg_showPassword s\<rparr> else s, [])"
| "login_page_step ru (Lg_key capsLock) s = (if on_password s then s\<lparr>lg_capsLockOn := capsLock\<rparr> else s, [])"
| "login_page_step ru (Lg_code t) s = (if on_code s then s\<lparr>lg_mfaCode := t\<rparr> else s, [])"
| "login_page_step ru Lg_recovery s =
     (if on_code s
      then s\<lparr>lg_useRecovery := \<not> lg_useRecovery s, lg_mfaCode := [], lg_world := clearError (lg_world s)\<rparr> else s, [])"
| "login_page_step ru Lg_cancel s =
     (if on_password s then (s, [])
      else case cancelMfa (lg_world s, lg_hook s) of (w, h) \<Rightarrow>
        (s\<lparr>lg_mfaCode := [], lg_useRecovery := False, lg_world := w, lg_hook := h,
           lg_stray := lg_stray s + (if lg_verify s then 1 else 0), lg_verify := False\<rparr>, []))"
| "login_page_step ru Lg_submit s =
     (if on_password s \<and> login_enabled s
      then (s\<lparr>lg_world := clearError (lg_world s), lg_hook := (lg_hook s)\<lparr>lh_login_error := None\<rparr>, lg_login := True\<rparr>,
            [Send_login (lg_username s) (lg_password s)])
      else (s, []))"
| "login_page_step ru Lg_verify s =
     (case lh_challenge (lg_hook s) of
        Some (token, ms, en) \<Rightarrow>
          if on_code s \<and> verify_enabled s
          then (s\<lparr>lg_world := clearError (lg_world s), lg_hook := (lg_hook s)\<lparr>lh_mfa_error := None\<rparr>, lg_verify := True\<rparr>,
                [case second_factor (lg_useRecovery s) (lg_mfaCode s) of (m, c) \<Rightarrow> Send_code token m c])
          else (s, [])
      | None \<Rightarrow> (s, []))"
| "login_page_step ru (Lg_login_answer sv) s =
     (if lg_login s
      then (case hook_login sv (lg_world s, lg_hook s) of
              (role, w, h) \<Rightarrow> (s\<lparr>lg_world := w, lg_hook := h, lg_login := False\<rparr>, leave ru role))
      else (s, []))"
| "login_page_step ru (Lg_verify_answer sv) s =
     (if lg_verify s
      then (case completeMfa sv (lg_world s) of
              (Inr role, w) \<Rightarrow>
                (s\<lparr>lg_world := w, lg_hook := (lg_hook s)\<lparr>lh_mfa_error := None, lh_challenge := None\<rparr>, lg_verify := False\<rparr>,
                 leave ru (Some role))
            | (Inl e, w) \<Rightarrow>
                (s\<lparr>lg_world := w, lg_hook := (lg_hook s)\<lparr>lh_mfa_error := Some e\<rparr>, lg_verify := False\<rparr>, []))
      else (s, []))"
| "login_page_step ru (Lg_stray_answer sv) s =
     (if lg_stray s = 0 then (s, [])
      else case completeMfa sv (lg_world s) of
             (Inr role, w) \<Rightarrow>
               (s\<lparr>lg_world := w, lg_hook := (lg_hook s)\<lparr>lh_challenge := None\<rparr>, lg_stray := lg_stray s - 1\<rparr>, leave ru (Some role))
           | (Inl e, w) \<Rightarrow> (s\<lparr>lg_world := w, lg_stray := lg_stray s - 1\<rparr>, []))"

inductive login_page_reach :: "string option \<Rightarrow> login_page \<Rightarrow> bool" for ru where
  start: "login_page_reach ru (login_page_start w)"
| step: "login_page_reach ru s \<Longrightarrow> login_page_reach ru (fst (login_page_step ru i s))"

section \<open>What leaves the page, and when it is left\<close>

text \<open>Where the challenge is still there the answer is that of the hook.\<close>

lemma verify_answer_is_submitMfa:
  assumes "lg_verify s" and "lh_challenge (lg_hook s) \<noteq> None"
  shows "login_page_step ru (Lg_verify_answer sv) s =
    (case submitMfa sv (lg_world s, lg_hook s) of
       (role, w, h) \<Rightarrow> (s\<lparr>lg_world := w, lg_hook := h, lg_verify := False\<rparr>, leave ru role))"
  using assms by (auto simp: submitMfa_def leave_def split: option.split prod.split sum.split)

definition one_request :: "login_page \<Rightarrow> bool" where
  "one_request s \<longleftrightarrow> \<not> (lg_login s \<and> lg_verify s) \<and> (lg_login s \<longrightarrow> on_password s)"

lemma one_request_step:
  assumes "one_request s"
  shows "one_request (fst (login_page_step ru i s))"
proof (cases i)
  case Lg_cancel
  then show ?thesis using assms by (auto simp: one_request_def on_password_def cancelMfa_def)
next
  case Lg_verify
  then show ?thesis
    using assms by (auto simp: one_request_def on_password_def verify_enabled_def isPending_def split: option.splits)
next
  case (Lg_login_answer sv)
  then show ?thesis using assms by (auto simp: one_request_def on_password_def split: prod.splits)
next
  case (Lg_verify_answer sv)
  then show ?thesis using assms by (auto simp: one_request_def on_password_def split: prod.splits sum.splits)
next
  case (Lg_stray_answer sv)
  then show ?thesis using assms by (auto simp: one_request_def on_password_def split: prod.splits sum.splits)
qed (use assms in \<open>auto simp: one_request_def on_password_def login_enabled_def isPending_def\<close>)

lemma one_request_reach: "login_page_reach ru s \<Longrightarrow> one_request s"
  by (induction rule: login_page_reach.induct) (simp_all add: one_request_step, simp add: one_request_def login_page_start_def)

lemma login_success:
  assumes "hook_login sv (w, h) = (Some role, w', h')"
  shows "au_isAuthenticated (w_auth w') \<and> au_role (w_auth w') = Some role \<and> lh_challenge h' = None"
proof -
  have l: "login sv w = (Inr role, w')" and h: "h' = h\<lparr>lh_login_error := None, lh_challenge := None\<rparr>"
    using assms by (auto simp: hook_login_def split: prod.splits sum.splits)
  obtain u where "w_auth w' = reducer EMPTY (SET_USER u role)" using login_outcomes[of sv w] l by auto
  then show ?thesis using h by (simp add: EMPTY_def)
qed

lemma leave_some: "Leave n \<in> set (leave ru role) \<Longrightarrow> \<exists>r. role = Some r \<and> goAfterLogin ru r = Some n"
  by (auto simp: leave_def split: option.splits)

lemma leave_only: "x \<in> set (leave ru role) \<Longrightarrow> \<exists>n. x = Leave n"
  by (auto simp: leave_def split: option.splits)

lemma left_signed_in:
  assumes "Leave n \<in> set (snd (login_page_step ru i s))"
  shows "\<exists>r. au_isAuthenticated (w_auth (lg_world (fst (login_page_step ru i s)))) \<and>
    au_role (w_auth (lg_world (fst (login_page_step ru i s)))) = Some r \<and> goAfterLogin ru r = Some n \<and>
    on_password (fst (login_page_step ru i s))"
proof (cases i)
  case (Lg_login_answer sv)
  then obtain role w h where a: "hook_login sv (lg_world s, lg_hook s) = (role, w, h)" "lg_login s" "Leave n \<in> set (leave ru role)"
    using assms by (auto split: if_splits prod.splits)
  then show ?thesis using Lg_login_answer leave_some[OF a(3)] login_success[of sv "lg_world s" "lg_hook s" _ w h]
    by (auto simp: on_password_def)
next
  case (Lg_verify_answer sv)
  then obtain role w where a: "completeMfa sv (lg_world s) = (Inr role, w)" "lg_verify s" "Leave n \<in> set (leave ru (Some role))"
    using assms by (auto split: if_splits prod.splits sum.splits)
  then show ?thesis using Lg_verify_answer leave_some[OF a(3)] completeMfa_success[OF a(1)] by (auto simp: on_password_def)
next
  case (Lg_stray_answer sv)
  then obtain role w where a: "completeMfa sv (lg_world s) = (Inr role, w)" "lg_stray s \<noteq> 0" "Leave n \<in> set (leave ru (Some role))"
    using assms by (auto split: if_splits prod.splits sum.splits)
  then show ?thesis using Lg_stray_answer leave_some[OF a(3)] completeMfa_success[OF a(1)] by (auto simp: on_password_def)
next
  case Lg_verify
  then show ?thesis using assms by (auto split: option.splits if_splits prod.splits)
next
  case Lg_cancel
  then show ?thesis using assms by (auto split: if_splits prod.splits)
qed (use assms in \<open>auto split: if_splits\<close>)

text \<open>Open redirect: an address of another site in the query is opened after the sign-in.\<close>

lemma login_open_redirect:
  "goAfterLogin (Some ''https%3A//evil.example'') r = Some (Push ''https://evil.example'')"
proof -
  have "decodeURIComponent ''https%3A//evil.example'' = Some ''https://evil.example''" by code_simp
  then show ?thesis by (simp add: goAfterLogin_def del: decodeURIComponent.simps)
qed

text \<open>Going back during a verification does not stop it: its late success signs in and leaves.\<close>

lemma cancelled_verify_signs_in:
  assumes "lg_verify s" and "completeMfa sv (clearError (lg_world s)) = (Inr role, w)" and "\<not> on_password s"
    and "goAfterLogin ru role = Some n"
  defines "s1 \<equiv> fst (login_page_step ru Lg_cancel s)"
  shows "on_password s1 \<and> snd (login_page_step ru (Lg_stray_answer sv) s1) = [Leave n] \<and>
    au_isAuthenticated (w_auth (lg_world (fst (login_page_step ru (Lg_stray_answer sv) s1))))"
  using assms(1,2,3,4) completeMfa_success[OF assms(2)] unfolding s1_def
  by (auto simp: cancelMfa_def on_password_def leave_def)

text \<open>An account that has to enrol first can only go back.\<close>

lemma enroll_only_back:
  assumes "lh_challenge (lg_hook s) = Some (t, ms, en)" "truthy en"
  shows "lv_body (LoginForm locked s) = Enroll_notice"
    and "snd (login_page_step ru Lg_verify s) = []" "snd (login_page_step ru Lg_submit s) = []"
    and "on_password (fst (login_page_step ru Lg_cancel s))"
  using assms by (simp_all add: LoginForm_def on_code_def on_password_def cancelMfa_def)

section \<open>Requests\<close>

lemma sends_login:
  "Send_login u p \<in> set (snd (login_page_step ru i s)) \<Longrightarrow>
   i = Lg_submit \<and> on_password s \<and> login_enabled s \<and> u = lg_username s \<and> p = lg_password s"
  by (cases i) (auto dest: leave_only split: if_splits option.splits prod.splits sum.splits)

lemma sends_code:
  "Send_code t m c \<in> set (snd (login_page_step ru i s)) \<Longrightarrow>
   i = Lg_verify \<and> on_code s \<and> verify_enabled s \<and> (m, c) = second_factor (lg_useRecovery s) (lg_mfaCode s) \<and>
   (\<exists>ms en. lh_challenge (lg_hook s) = Some (t, ms, en))"
  by (cases i) (auto dest: leave_only split: if_splits option.splits prod.splits sum.splits)

text \<open>The form on the screen is the one whose request is sent, and its button is the guard.\<close>

definition shown_button :: "login_page \<Rightarrow> bool" where
  "shown_button s =
     (case lv_body (LoginForm [] s) of Password_form a (l, e) \<Rightarrow> e | Code_form a (l, e) b \<Rightarrow> e | Enroll_notice \<Rightarrow> False)"

lemma shown_button_cases:
  "shown_button s \<longleftrightarrow> (on_password s \<and> login_enabled s) \<or> (on_code s \<and> verify_enabled s)"
  by (auto simp: shown_button_def LoginForm_def on_password_def on_code_def split: option.splits prod.splits)

lemma left_under_way: "Leave n \<in> set (snd (login_page_step ru i s)) \<Longrightarrow> isPending s \<or> lg_stray s \<noteq> 0"
  unfolding isPending_def by (cases i) (auto split: if_splits option.splits prod.splits)

text \<open>C40. The login page, from any start and over any order of typing, clicking, going back and late
  answers. At most one request is watched. The password form sends just what was typed, both fields
  filled, never while a request is under way; the code form sends the trimmed code, never empty, under
  the method the form shows and with the token of the challenge, and never for an account that has
  to enrol first; a request goes out only where the button on the screen is enabled. The page is left
  only by an answer that signed the user in, to the address the query or the role names, with the
  second factor done.\<close>

theorem login_page_safe:
  assumes "login_page_reach ru s" and "login_page_step ru i s = (s', out)"
  shows "\<not> (lg_login s \<and> lg_verify s) \<and>
    (Send_login u p \<in> set out \<longrightarrow>
       shown_button s \<and> u = lg_username s \<and> p = lg_password s \<and> u \<noteq> [] \<and> p \<noteq> [] \<and> \<not> isPending s) \<and>
    (Send_code t m c \<in> set out \<longrightarrow>
       shown_button s \<and> c = trim (lg_mfaCode s) \<and> c \<noteq> [] \<and> \<not> isPending s \<and>
       m = (if lg_useRecovery s then ''recovery'' else ''totp'') \<and>
       (\<exists>ms en. lh_challenge (lg_hook s) = Some (t, ms, en) \<and> \<not> truthy en)) \<and>
    (Leave n \<in> set out \<longrightarrow>
       (isPending s \<or> lg_stray s \<noteq> 0) \<and>
       (\<exists>r. au_isAuthenticated (w_auth (lg_world s')) \<and> au_role (w_auth (lg_world s')) = Some r \<and>
         goAfterLogin ru r = Some n \<and> lh_challenge (lg_hook s') = None))"
proof (intro conjI impI)
  have o: "out = snd (login_page_step ru i s)" and s': "s' = fst (login_page_step ru i s)" using assms(2) by simp_all
  show "\<not> (lg_login s \<and> lg_verify s)" using one_request_reach[OF assms(1)] by (simp add: one_request_def)
  { assume "Send_login u p \<in> set out"
    then have "on_password s" "login_enabled s" "u = lg_username s" "p = lg_password s"
      using sends_login[of u p ru i s] by (simp_all add: o)
    then show "shown_button s" "u = lg_username s" "p = lg_password s" "u \<noteq> []" "p \<noteq> []" "\<not> isPending s"
      by (simp_all add: shown_button_cases login_enabled_def) }
  { assume "Send_code t m c \<in> set out"
    then have "on_code s" "verify_enabled s" "(m, c) = second_factor (lg_useRecovery s) (lg_mfaCode s)"
      "\<exists>ms en. lh_challenge (lg_hook s) = Some (t, ms, en)" using sends_code[of t m c ru i s] by (simp_all add: o)
    then show "shown_button s" "c = trim (lg_mfaCode s)" "c \<noteq> []" "\<not> isPending s"
      "m = (if lg_useRecovery s then ''recovery'' else ''totp'')"
      "\<exists>ms en. lh_challenge (lg_hook s) = Some (t, ms, en) \<and> \<not> truthy en"
      by (auto simp: shown_button_cases verify_enabled_def second_factor_def on_code_def) }
  { assume l: "Leave n \<in> set out"
    show "isPending s \<or> lg_stray s \<noteq> 0" using left_under_way l by (simp add: o)
    show "\<exists>r. au_isAuthenticated (w_auth (lg_world s')) \<and> au_role (w_auth (lg_world s')) = Some r \<and>
         goAfterLogin ru r = Some n \<and> lh_challenge (lg_hook s') = None"
      using left_signed_in[of n ru i s] l by (simp add: o s' on_password_def) }
qed

definition typed_page :: login_page where
  "typed_page = (login_page_start world0)\<lparr>lg_username := ''dara'', lg_password := ''pw''\<rparr>"

lemma typed_reach: "login_page_reach None typed_page"
proof -
  have "typed_page = fst (login_page_step None (Lg_password ''pw'')
      (fst (login_page_step None (Lg_username ''dara'') (login_page_start world0))))"
    by (simp add: typed_page_def login_page_start_def on_password_def hook_init_def)
  then show ?thesis using login_page_reach.step[OF login_page_reach.step[OF login_page_reach.start]] by metis
qed

lemma login_page_safe_witness:
  "Send_login ''dara'' ''pw'' \<in> set (snd (login_page_step None Lg_submit typed_page)) \<and>
   shown_button typed_page \<and> \<not> isPending typed_page"
proof -
  have s: "Send_login ''dara'' ''pw'' \<in> set (snd (login_page_step None Lg_submit typed_page))"
    by (simp add: typed_page_def login_page_start_def on_password_def hook_init_def login_enabled_def isPending_def)
  show ?thesis using login_page_safe[OF typed_reach prod.collapse[symmetric], of "''dara''" "''pw''" Lg_submit] s by simp
qed

end
