(* ===== verification/Zod.thy ===== *)
theory Zod
  imports Js_Prelude
begin

text \<open>
  The schema language of the zod package, which the code uses to validate forms
  and server answers. A schema of the source is a value of the datatype
  \<^verbatim>\<open>schema\<close>, with the combinators the code calls. The package itself is not part of the
  repository: its parse function is a parameter, and the interface
  \<^verbatim>\<open>zod_parser\<close> states the documented behaviour the code relies on, one law per
  combinator, about which inputs are accepted and what they become. Of the
  issues of a rejected input only those of a refinement whose base accepts are
  stated. \<^verbatim>\<open>zparse\<close> is one executable function that satisfies the interface.
\<close>

datatype str_op =
    Trim
  | ToUpper
  | ToLower
  | MinLen nat
  | MaxLen nat
  | Matches "string \<Rightarrow> bool"

datatype num_op = NInt | NMin rat | NMax rat | NPositive

text \<open>An issue is a path and a message.\<close>

type_synonym issue = "string list \<times> string"

datatype schema =
    ZString "str_op list"
  | ZNumber "num_op list"
  | ZBoolean
  | ZNull
  | ZUnknown
  | ZLiteral js
  | ZEnum "string list"
  | ZArray schema
  | ZRecord schema
  | ZObject bool "(string \<times> schema) list"
  | ZOptional schema
  | ZNullable schema
  | ZDefault schema js
  | ZCatch schema js
  | ZOr schema schema
  | ZPipe schema schema
  | ZPreprocess "js \<Rightarrow> js" schema
  | ZRefine schema "js \<Rightarrow> issue list"

text \<open>The chained checks and transformations of a string, in order; None is a failed check.\<close>

fun run_str_op :: "str_op \<Rightarrow> string \<Rightarrow> string option" where
  "run_str_op Trim s = Some (trim s)"
| "run_str_op ToUpper s = Some (to_upper s)"
| "run_str_op ToLower s = Some (to_lower s)"
| "run_str_op (MinLen n) s = (if n \<le> length s then Some s else None)"
| "run_str_op (MaxLen n) s = (if length s \<le> n then Some s else None)"
| "run_str_op (Matches p) s = (if p s then Some s else None)"

fun run_str_ops :: "str_op list \<Rightarrow> string \<Rightarrow> string option" where
  "run_str_ops [] s = Some s"
| "run_str_ops (c # cs) s = (case run_str_op c s of None \<Rightarrow> None | Some t \<Rightarrow> run_str_ops cs t)"

definition max_safe_integer :: rat where
  "max_safe_integer = 9007199254740991"

fun num_op_ok :: "num_op \<Rightarrow> rat \<Rightarrow> bool" where
  "num_op_ok NInt r = (of_int \<lfloor>r\<rfloor> = r \<and> \<bar>r\<bar> \<le> max_safe_integer)"
| "num_op_ok (NMin a) r = (a \<le> r)"
| "num_op_ok (NMax a) r = (r \<le> a)"
| "num_op_ok NPositive r = (0 < r)"

text \<open>One refinement with a fixed path and message, as the method refine makes it.\<close>

definition refine1 :: "schema \<Rightarrow> (js \<Rightarrow> bool) \<Rightarrow> string list \<Rightarrow> string \<Rightarrow> schema" where
  "refine1 s p path msg = ZRefine s (\<lambda>v. if p v then [] else [(path, msg)])"

definition has_key :: "string \<Rightarrow> js \<Rightarrow> bool" where
  "has_key k v = (case v of JObj fs \<Rightarrow> k \<in> fst ` set fs | _ \<Rightarrow> False)"

text \<open>The parsed fields of an object: an absent optional key stays absent.\<close>

fun obj_fields :: "(schema \<Rightarrow> js \<Rightarrow> (issue list, js) result) \<Rightarrow> (string \<times> schema) list \<Rightarrow> js \<Rightarrow> (string \<times> js) list option" where
  "obj_fields P [] v = Some []"
| "obj_fields P ((k, s) # fs) v =
     (case P s (js_get k v) of
        Inl _ \<Rightarrow> None
      | Inr r \<Rightarrow>
          map_option (\<lambda>rs. if has_key k v \<or> r \<noteq> JUndef then (k, r) # rs else rs) (obj_fields P fs v))"

text \<open>Frequent combinations of the source.\<close>

abbreviation zstr :: schema where "zstr \<equiv> ZString []"
abbreviation zint :: schema where "zint \<equiv> ZNumber [NInt]"
abbreviation znum :: schema where "znum \<equiv> ZNumber []"
abbreviation znullable_optional :: "schema \<Rightarrow> schema" where
  "znullable_optional s \<equiv> ZOptional (ZNullable s)"
abbreviation zoptional_nullable :: "schema \<Rightarrow> schema" where
  "zoptional_nullable s \<equiv> ZNullable (ZOptional s)"

locale zod_parser =
  fixes parse :: "schema \<Rightarrow> js \<Rightarrow> (issue list, js) result"
  assumes p_string: "parse (ZString ops) v = Inr w \<longleftrightarrow> (\<exists>s t. v = JStr s \<and> run_str_ops ops s = Some t \<and> w = JStr t)"
    and p_number: "parse (ZNumber nops) v = Inr w \<longleftrightarrow> (\<exists>r. v = JNum (Fin r) \<and> list_all (\<lambda>c. num_op_ok c r) nops \<and> w = v)"
    and p_boolean: "parse ZBoolean v = Inr w \<longleftrightarrow> (\<exists>b. v = JBool b) \<and> w = v"
    and p_null: "parse ZNull v = Inr w \<longleftrightarrow> v = JNull \<and> w = v"
    and p_unknown: "parse ZUnknown v = Inr v"
    and p_literal: "parse (ZLiteral l) v = Inr w \<longleftrightarrow> v = l \<and> w = v"
    and p_enum: "parse (ZEnum es) v = Inr w \<longleftrightarrow> (\<exists>s. v = JStr s \<and> s \<in> set es) \<and> w = v"
    and p_array: "parse (ZArray s) v = Inr w \<longleftrightarrow>
      (\<exists>xs ys. v = JArr xs \<and> w = JArr ys \<and> list_all2 (\<lambda>x y. parse s x = Inr y) xs ys)"
    and p_record: "parse (ZRecord s) v = Inr w \<longleftrightarrow>
      (\<exists>xs ys. v = JObj xs \<and> w = JObj ys \<and> list_all2 (\<lambda>x y. fst x = fst y \<and> parse s (snd x) = Inr (snd y)) xs ys)"
    and p_object: "parse (ZObject strict fs) v = Inr w \<longleftrightarrow>
      (\<exists>es rs. v = JObj es \<and> (strict \<longrightarrow> fst ` set es \<subseteq> fst ` set fs) \<and> obj_fields parse fs v = Some rs \<and> w = JObj rs)"
    and p_optional: "parse (ZOptional s) v = Inr w \<longleftrightarrow> (if v = JUndef then w = JUndef else parse s v = Inr w)"
    and p_nullable: "parse (ZNullable s) v = Inr w \<longleftrightarrow> (if v = JNull then w = JNull else parse s v = Inr w)"
    and p_default: "parse (ZDefault s d) v = Inr w \<longleftrightarrow> (if v = JUndef then w = d else parse s v = Inr w)"
    and p_catch: "parse (ZCatch s d) v = Inr (case parse s v of Inr w \<Rightarrow> w | Inl _ \<Rightarrow> d)"
    and p_or: "parse (ZOr s1 s2) v = Inr w \<longleftrightarrow>
      (case parse s1 v of Inr x \<Rightarrow> w = x | Inl _ \<Rightarrow> parse s2 v = Inr w)"
    and p_pipe: "parse (ZPipe s1 s2) v = Inr w \<longleftrightarrow> (\<exists>x. parse s1 v = Inr x \<and> parse s2 x = Inr w)"
    and p_preprocess: "parse (ZPreprocess f s) v = Inr w \<longleftrightarrow> parse s (f v) = Inr w"
    and p_refine: "parse (ZRefine s g) v = Inr w \<longleftrightarrow> parse s v = Inr w \<and> g w = []"
    and p_refine_issues: "parse s v = Inr w \<Longrightarrow> g w \<noteq> [] \<Longrightarrow> parse (ZRefine s g) v = Inl (g w)"
begin

lemmas accepts = p_string p_number p_boolean p_null p_unknown p_literal p_enum p_array p_record
  p_optional p_nullable p_default p_or p_pipe p_preprocess p_refine

lemma p_refine1: "parse (refine1 s p path msg) v = Inr w \<longleftrightarrow> parse s v = Inr w \<and> p w"
  by (simp add: refine1_def p_refine)

lemma refine1_issue: "parse s v = Inr w \<Longrightarrow> \<not> p w \<Longrightarrow> parse (refine1 s p path msg) v = Inl [(path, msg)]"
  by (simp add: refine1_def p_refine_issues)

lemma fields_keys: "obj_fields parse fs v = Some rs \<Longrightarrow> fst ` set rs \<subseteq> fst ` set fs"
proof (induction fs arbitrary: rs)
  case (Cons f fs)
  obtain k s where f: "f = (k, s)" by force
  obtain r qs where r: "obj_fields parse fs v = Some qs" "rs = (k, r) # qs \<or> rs = qs"
    using Cons.prems f by (auto split: sum.splits if_splits)
  from r(2) have "fst ` set rs \<subseteq> insert k (fst ` set qs)" by auto
  also have "\<dots> \<subseteq> insert k (fst ` set fs)" using Cons.IH[OF r(1)] by (rule insert_mono)
  finally show ?case by (simp add: f)
qed simp

lemma fields_get:
  assumes "obj_fields parse fs v = Some rs" "distinct (map fst fs)" "map_of fs k = Some s"
  shows "parse s (js_get k v) = Inr (js_get k (JObj rs))"
  using assms
proof (induction fs arbitrary: rs)
  case (Cons f fs)
  obtain k' s' where f: "f = (k', s')" by force
  obtain r qs where r: "parse s' (js_get k' v) = Inr r" "obj_fields parse fs v = Some qs"
    "rs = (if has_key k' v \<or> r \<noteq> JUndef then (k', r) # qs else qs)"
    using Cons.prems(1) f by (auto split: sum.splits)
  show ?case
  proof (cases "k = k'")
    case True
    have "k' \<notin> fst ` set qs" using fields_keys[OF r(2)] Cons.prems(2) f by auto
    then have "map_of qs k' = None" by (simp add: map_of_eq_None_iff)
    then show ?thesis using r True Cons.prems(3) f by (auto simp: or_else_def)
  next
    case False
    then show ?thesis using Cons f r by auto
  qed
qed simp

lemma object_get:
  assumes "parse (ZObject b fs) v = Inr w" "distinct (map fst fs)" "map_of fs k = Some s"
  shows "parse s (js_get k v) = Inr (js_get k w)"
proof -
  obtain rs where "obj_fields parse fs v = Some rs" "w = JObj rs" using assms(1) unfolding p_object by blast
  then show ?thesis using fields_get[OF _ assms(2,3)] by blast
qed

lemma object_keys:
  assumes "parse (ZObject b fs) v = Inr w" "has_key k w"
  shows "k \<in> fst ` set fs"
proof -
  obtain rs where rs: "obj_fields parse fs v = Some rs" "w = JObj rs" using assms(1) unfolding p_object by blast
  have "k \<in> fst ` set rs" using assms(2) rs(2) by (simp only: has_key_def js.case)
  then show ?thesis using fields_keys[OF rs(1)] by blast
qed

lemma strict_keys:
  assumes "parse (ZObject True fs) v = Inr w" "has_key k v"
  shows "k \<in> fst ` set fs"
proof -
  obtain es where "v = JObj es" "fst ` set es \<subseteq> fst ` set fs" using assms(1) unfolding p_object by blast
  then show ?thesis using assms(2) by (auto simp: has_key_def)
qed

lemma array_elements:
  assumes "parse (ZArray s) v = Inr w" "w = JArr ys" "y \<in> set ys"
  shows "\<exists>xs x. v = JArr xs \<and> x \<in> set xs \<and> parse s x = Inr y"
proof -
  obtain xs where xs: "v = JArr xs" "list_all2 (\<lambda>x y. parse s x = Inr y) xs ys"
    using assms(1,2) by (auto simp: p_array)
  obtain i where i: "i < length ys" "y = ys ! i" using assms(3) by (auto simp: in_set_conv_nth)
  then have "i < length xs" "parse s (xs ! i) = Inr y"
    using xs(2) by (auto simp: list_all2_conv_all_nth)
  then show ?thesis using xs(1) nth_mem by blast
qed

end

section \<open>An executable parser with these laws\<close>

definition bad :: "string \<Rightarrow> (issue list, js) result" where
  "bad msg = Inl [([], msg)]"

function (sequential) zparse :: "schema \<Rightarrow> js \<Rightarrow> (issue list, js) result"
  and zparse_fields :: "(string \<times> schema) list \<Rightarrow> js \<Rightarrow> (string \<times> js) list option"
  and zparse_elems :: "schema \<Rightarrow> js list \<Rightarrow> js list option" where
  "zparse (ZString ops) v =
     (case v of
        JStr s \<Rightarrow> (case run_str_ops ops s of Some t \<Rightarrow> Inr (JStr t) | None \<Rightarrow> bad ''string'')
      | _ \<Rightarrow> bad ''string'')"
| "zparse (ZNumber nops) v =
     (case v of
        JNum (Fin r) \<Rightarrow> if list_all (\<lambda>c. num_op_ok c r) nops then Inr v else bad ''number''
      | _ \<Rightarrow> bad ''number'')"
| "zparse ZBoolean v = (case v of JBool b \<Rightarrow> Inr v | _ \<Rightarrow> bad ''boolean'')"
| "zparse ZNull v = (case v of JNull \<Rightarrow> Inr v | _ \<Rightarrow> bad ''null'')"
| "zparse ZUnknown v = Inr v"
| "zparse (ZLiteral l) v = (if v = l then Inr v else bad ''literal'')"
| "zparse (ZEnum es) v =
     (case v of JStr s \<Rightarrow> if s \<in> set es then Inr v else bad ''enum'' | _ \<Rightarrow> bad ''enum'')"
| "zparse (ZArray s) v =
     (case v of
        JArr xs \<Rightarrow> (case zparse_elems s xs of Some ys \<Rightarrow> Inr (JArr ys) | None \<Rightarrow> bad ''array'')
      | _ \<Rightarrow> bad ''array'')"
| "zparse (ZRecord s) v =
     (case v of
        JObj xs \<Rightarrow> (case zparse_elems s (map snd xs) of
                      Some ys \<Rightarrow> Inr (JObj (zip (map fst xs) ys)) | None \<Rightarrow> bad ''record'')
      | _ \<Rightarrow> bad ''record'')"
| "zparse (ZObject strict fs) v =
     (case v of
        JObj es \<Rightarrow>
          if strict \<and> \<not> list_all (\<lambda>e. fst e \<in> fst ` set fs) es then bad ''keys''
          else (case zparse_fields fs v of Some rs \<Rightarrow> Inr (JObj rs) | None \<Rightarrow> bad ''object'')
      | _ \<Rightarrow> bad ''object'')"
| "zparse (ZOptional s) v = (if v = JUndef then Inr JUndef else zparse s v)"
| "zparse (ZNullable s) v = (if v = JNull then Inr JNull else zparse s v)"
| "zparse (ZDefault s d) v = (if v = JUndef then Inr d else zparse s v)"
| "zparse (ZCatch s d) v = Inr (case zparse s v of Inr w \<Rightarrow> w | Inl _ \<Rightarrow> d)"
| "zparse (ZOr s1 s2) v = (case zparse s1 v of Inr w \<Rightarrow> Inr w | Inl _ \<Rightarrow> zparse s2 v)"
| "zparse (ZPipe s1 s2) v = (case zparse s1 v of Inl e \<Rightarrow> Inl e | Inr x \<Rightarrow> zparse s2 x)"
| "zparse (ZPreprocess f s) v = zparse s (f v)"
| "zparse (ZRefine s g) v =
     (case zparse s v of Inl e \<Rightarrow> Inl e | Inr w \<Rightarrow> if g w = [] then Inr w else Inl (g w))"
| "zparse_fields [] v = Some []"
| "zparse_fields ((k, s) # fs) v =
     (case zparse s (js_get k v) of
        Inl _ \<Rightarrow> None
      | Inr r \<Rightarrow>
          map_option (\<lambda>rs. if has_key k v \<or> r \<noteq> JUndef then (k, r) # rs else rs) (zparse_fields fs v))"
| "zparse_elems s [] = Some []"
| "zparse_elems s (x # xs) =
     (case zparse s x of Inl _ \<Rightarrow> None | Inr y \<Rightarrow> map_option ((#) y) (zparse_elems s xs))"
  by pat_completeness auto

termination
  by (relation "inv_image (less_than <*lex*> less_than) (\<lambda>x. case x of
      Inl (s, v) \<Rightarrow> (size s, 0)
    | Inr (Inl (fs, v)) \<Rightarrow> (size_list (size_prod (\<lambda>_. 0) size) fs, 0)
    | Inr (Inr (s, xs)) \<Rightarrow> (size s, Suc (length xs)))") auto

lemma zparse_fields_eq: "zparse_fields fs v = obj_fields zparse fs v"
proof (induction fs)
  case (Cons f fs)
  then show ?case by (cases f) (simp split: sum.split)
qed simp

lemma zparse_elems_eq: "zparse_elems s xs = Some ys \<longleftrightarrow> list_all2 (\<lambda>x y. zparse s x = Inr y) xs ys"
proof (induction xs arbitrary: ys)
  case (Cons x xs)
  then show ?case by (cases "zparse s x") (auto simp: list_all2_Cons1)
qed auto

lemma zparse_array: "zparse (ZArray s) v = Inr w \<longleftrightarrow>
    (\<exists>xs ys. v = JArr xs \<and> w = JArr ys \<and> list_all2 (\<lambda>x y. zparse s x = Inr y) xs ys)"
  by (cases v) (auto simp: bad_def zparse_elems_eq[symmetric] split: option.splits)

lemma zparse_record: "zparse (ZRecord s) v = Inr w \<longleftrightarrow>
    (\<exists>xs ys. v = JObj xs \<and> w = JObj ys \<and> list_all2 (\<lambda>x y. fst x = fst y \<and> zparse s (snd x) = Inr (snd y)) xs ys)"
proof (cases v)
  case (JObj xs)
  have "(\<exists>zs. zparse_elems s (map snd xs) = Some zs \<and> ys = zip (map fst xs) zs) \<longleftrightarrow>
      list_all2 (\<lambda>x y. fst x = fst y \<and> zparse s (snd x) = Inr (snd y)) xs ys" for ys
  proof
    assume "\<exists>zs. zparse_elems s (map snd xs) = Some zs \<and> ys = zip (map fst xs) zs"
    then show "list_all2 (\<lambda>x y. fst x = fst y \<and> zparse s (snd x) = Inr (snd y)) xs ys"
      unfolding zparse_elems_eq by (auto simp: list_all2_conv_all_nth)
  next
    assume a: "list_all2 (\<lambda>x y. fst x = fst y \<and> zparse s (snd x) = Inr (snd y)) xs ys"
    then have "map fst xs = map fst ys"
      by (simp add: list_all2_conv_all_nth list_eq_iff_nth_eq)
    then have "ys = zip (map fst xs) (map snd ys)" by (simp add: zip_map_fst_snd)
    moreover have "zparse_elems s (map snd xs) = Some (map snd ys)"
      unfolding zparse_elems_eq using a by (simp add: list_all2_conv_all_nth)
    ultimately show "\<exists>zs. zparse_elems s (map snd xs) = Some zs \<and> ys = zip (map fst xs) zs" by blast
  qed
  from this[symmetric] show ?thesis using JObj by (auto simp: bad_def split: option.splits)
qed (auto simp: bad_def)

lemma zparse_object: "zparse (ZObject strict fs) v = Inr w \<longleftrightarrow>
    (\<exists>es rs. v = JObj es \<and> (strict \<longrightarrow> fst ` set es \<subseteq> fst ` set fs) \<and> obj_fields zparse fs v = Some rs \<and> w = JObj rs)"
  by (cases v) (auto simp: bad_def zparse_fields_eq list_all_iff split: option.splits if_splits)

interpretation zp: zod_parser zparse
proof
  show "zparse (ZArray s) v = Inr w \<longleftrightarrow>
    (\<exists>xs ys. v = JArr xs \<and> w = JArr ys \<and> list_all2 (\<lambda>x y. zparse s x = Inr y) xs ys)" for s v w
    by (rule zparse_array)
  show "zparse (ZRecord s) v = Inr w \<longleftrightarrow>
    (\<exists>xs ys. v = JObj xs \<and> w = JObj ys \<and> list_all2 (\<lambda>x y. fst x = fst y \<and> zparse s (snd x) = Inr (snd y)) xs ys)" for s v w
    by (rule zparse_record)
  show "zparse (ZObject strict fs) v = Inr w \<longleftrightarrow>
    (\<exists>es rs. v = JObj es \<and> (strict \<longrightarrow> fst ` set es \<subseteq> fst ` set fs) \<and> obj_fields zparse fs v = Some rs \<and> w = JObj rs)" for strict fs v w
    by (rule zparse_object)
qed (auto simp: bad_def split: js.splits jnum.splits option.splits sum.splits if_splits)

end
