(* ===== verification/Http.thy ===== *)
theory Http
  imports Js_Error Zod "HOL-Library.List_Lexorder" "HOL-Library.Char_ord"
begin

text \<open>
  Requests to the backend: the paths of core/api/endpoints.ts that the modelled
  adapters use, requests as values, and the server as a function from requests to
  answers. Also core/api/referenceData.ts, the cascading lists the wizards start
  from. A server answer is untyped JSON.
\<close>

record request =
  ht_method :: string
  ht_path :: string
  ht_params :: "(string \<times> js) list"
  ht_body :: js

type_synonym backend = "request \<Rightarrow> (js_error, js) result"

definition get_req :: "string \<Rightarrow> (string \<times> js) list \<Rightarrow> request" where
  "get_req path params = \<lparr> ht_method = ''get'', ht_path = path, ht_params = params, ht_body = JUndef \<rparr>"

definition body_req :: "string \<Rightarrow> string \<Rightarrow> js \<Rightarrow> request" where
  "body_req m path body = \<lparr> ht_method = m, ht_path = path, ht_params = [], ht_body = body \<rparr>"

definition api_v1 :: "string \<Rightarrow> string" where
  "api_v1 p = ''/api/v1/'' @ p"

section \<open>Endpoints\<close>

definition ep_registration :: string where "ep_registration = api_v1 ''registration''"
definition ep_registration_search :: string where "ep_registration_search = api_v1 ''registration/search''"
definition ep_registration_byId :: "int \<Rightarrow> string" where
  "ep_registration_byId i = api_v1 ''registration/'' @ show_int i"
definition ep_registration_reveal :: "int \<Rightarrow> string" where
  "ep_registration_reveal i = api_v1 ''registration/'' @ show_int i @ ''/reveal''"
definition ep_registration_update :: string where "ep_registration_update = api_v1 ''registration/update''"
definition ep_registration_delete :: string where "ep_registration_delete = api_v1 ''registration/delete''"

definition ep_teams :: string where "ep_teams = api_v1 ''teams''"
definition ep_team :: "int \<Rightarrow> string" where "ep_team i = ep_teams @ ''/'' @ show_int i"
definition ep_team_members :: "int \<Rightarrow> string" where "ep_team_members i = ep_team i @ ''/members''"

definition ep_events :: string where "ep_events = api_v1 ''events''"
definition ep_organization :: string where "ep_organization = api_v1 ''organization''"
definition ep_sports :: string where "ep_sports = api_v1 ''sports''"
definition ep_event_sport_categories :: "int \<Rightarrow> int \<Rightarrow> string" where
  "ep_event_sport_categories e s = ep_events @ ''/'' @ show_int e @ ''/sports/'' @ show_int s @ ''/categories''"
definition ep_my_eligible_sports :: "int \<Rightarrow> string" where
  "ep_my_eligible_sports e = ep_events @ ''/'' @ show_int e @ ''/my-eligible-sports''"

definition openSurvey_responses :: "int \<Rightarrow> int option \<Rightarrow> string" where
  "openSurvey_responses e org =
     api_v1 ''surveys/open/responses?event_id='' @ show_int e @
     (case org of Some i \<Rightarrow> if i \<noteq> 0 then ''&organization_id='' @ show_int i else [] | None \<Rightarrow> [])"
definition openSurvey_fields :: "int \<Rightarrow> bool \<Rightarrow> string" where
  "openSurvey_fields e inactive =
     api_v1 ''surveys/open/fields?event_id='' @ show_int e @ (if inactive then ''&include_inactive=true'' else [])"
definition openSurvey_createField :: "int \<Rightarrow> string" where
  "openSurvey_createField e = api_v1 ''surveys/open/fields?event_id='' @ show_int e"
definition openSurvey_field :: "int \<Rightarrow> string" where
  "openSurvey_field f = api_v1 ''surveys/open/fields/'' @ show_int f"

section \<open>Validated answers\<close>

text \<open>A schema's parse of an awaited answer; a rejected parse throws the issues.\<close>

definition parsed_call ::
  "(schema \<Rightarrow> js \<Rightarrow> (issue list, js) result) \<Rightarrow> backend \<Rightarrow> schema \<Rightarrow> request \<Rightarrow> (js_error, js) result" where
  "parsed_call parse srv sch rq =
     bind_r (srv rq) (\<lambda>body. case parse sch body of Inl _ \<Rightarrow> Inl (OtherError ''ZodError'') | Inr w \<Rightarrow> Inr w)"

lemma parsed_call_Inr:
  "parsed_call parse srv sch rq = Inr w \<longleftrightarrow> (\<exists>body. srv rq = Inr body \<and> parse sch body = Inr w)"
proof (cases "srv rq")
  case (Inr body)
  then show ?thesis by (cases "parse sch body") (auto simp: parsed_call_def)
qed (simp add: parsed_call_def)

section \<open>Reference data\<close>

definition page_params :: "(string \<times> js) list" where
  "page_params = [(''skip'', JInt 0), (''limit'', JInt 100)]"

text \<open>A list endpoint whose failure, or whose missing list, reads as no entries.\<close>

definition fetch_list :: "backend \<Rightarrow> string \<Rightarrow> js" where
  "fetch_list srv path =
     (case srv (get_req path page_params) of
        Inl _ \<Rightarrow> JArr []
      | Inr body \<Rightarrow> (case member ''data'' body of Inl _ \<Rightarrow> JArr [] | Inr d \<Rightarrow> js_or d (JArr [])))"

definition fetchEvents :: "backend \<Rightarrow> js" where "fetchEvents srv = fetch_list srv ep_events"
definition fetchAllOrganizations :: "backend \<Rightarrow> js" where
  "fetchAllOrganizations srv = fetch_list srv ep_organization"
definition fetchAllSports :: "backend \<Rightarrow> js" where "fetchAllSports srv = fetch_list srv ep_sports"

fun array_or_empty :: "(js_error, js) result \<Rightarrow> js list" where
  "array_or_empty (Inr (JArr xs)) = xs"
| "array_or_empty _ = []"

definition fetchCategories :: "backend \<Rightarrow> int \<Rightarrow> int \<Rightarrow> js list" where
  "fetchCategories srv e s = array_or_empty (srv (get_req (ep_event_sport_categories e s) []))"

definition fetchEligibleSports :: "backend \<Rightarrow> int \<Rightarrow> int option \<Rightarrow> js list" where
  "fetchEligibleSports srv e org =
     array_or_empty (srv (get_req (ep_my_eligible_sports e)
       (case org of Some i \<Rightarrow> if i \<noteq> 0 then [(''organization_id'', JInt i)] else [] | None \<Rightarrow> [])))"

text \<open>The distinct non-empty event types in code-unit order; types are strings.\<close>

fun js_str :: "js \<Rightarrow> string" where
  "js_str (JStr s) = s"
| "js_str _ = []"

definition getUniqueEventTypes :: "js list \<Rightarrow> string list" where
  "getUniqueEventTypes evs =
     sort (remdups (filter (\<lambda>t. t \<noteq> []) (map (\<lambda>e. js_str (js_get ''type'' e)) evs)))"

record cascading =
  eventTypes :: "string list"
  c_events :: js
  c_organizations :: js
  c_sports :: js

text \<open>Reading the types of something that is not an array throws; the catch answers the empty data.\<close>

definition loadCascadingData :: "backend \<Rightarrow> cascading" where
  "loadCascadingData srv =
     (case fetchEvents srv of
        JArr evs \<Rightarrow>
          if list_ex is_nullish evs
          then \<lparr> eventTypes = [], c_events = JArr [], c_organizations = JArr [], c_sports = JArr [] \<rparr>
          else \<lparr> eventTypes = getUniqueEventTypes evs, c_events = JArr evs,
                 c_organizations = fetchAllOrganizations srv, c_sports = fetchAllSports srv \<rparr>
      | _ \<Rightarrow> \<lparr> eventTypes = [], c_events = JArr [], c_organizations = JArr [], c_sports = JArr [] \<rparr>)"

lemma getUniqueEventTypes_spec:
  "set (getUniqueEventTypes evs) = {t. t \<noteq> [] \<and> (\<exists>e \<in> set evs. js_get ''type'' e = JStr t)} \<and>
   sorted (getUniqueEventTypes evs) \<and> distinct (getUniqueEventTypes evs)"
proof -
  have "js_str x = t \<and> t \<noteq> [] \<longleftrightarrow> x = JStr t \<and> t \<noteq> []" for x t by (cases x) auto
  then have "t \<in> set (getUniqueEventTypes evs) \<longleftrightarrow> t \<noteq> [] \<and> (\<exists>e \<in> set evs. js_get ''type'' e = JStr t)" for t
    by (auto simp: getUniqueEventTypes_def image_iff) (metis js_str.simps(1))
  then show ?thesis by (auto simp: getUniqueEventTypes_def)
qed

lemma cascading_down:
  "(\<And>r. \<exists>e. srv r = Inl e) \<Longrightarrow>
     loadCascadingData srv =
       \<lparr> eventTypes = [], c_events = JArr [], c_organizations = JArr [], c_sports = JArr [] \<rparr>"
proof -
  assume a: "\<And>r. \<exists>e. srv r = Inl e"
  have "fetch_list srv p = JArr []" for p
    using a[of "get_req p page_params"] by (auto simp: fetch_list_def)
  then show ?thesis
    by (simp add: loadCascadingData_def fetchEvents_def fetchAllOrganizations_def fetchAllSports_def
        getUniqueEventTypes_def)
qed

end
