(* ===== verification/Query_Cache.thy ===== *)
theory Query_Cache
  imports Js_Error
begin

text \<open>
  The query cache the hooks share: the key registry core/api/queryKeys.ts and the
  policy of core/api/queryClient.ts. The TanStack Query library is not part of the
  repository: which cached keys a filter key selects is the parameter
  \<^verbatim>\<open>matches\<close>, whose documented law (a filter selects the keys it is a prefix of, for keys of scalars)
  is the interface \<^verbatim>\<open>key_filter\<close>. The cache is an association list from keys to data.
\<close>

type_synonym qkey = "js list"
type_synonym qcache = "(qkey \<times> js) list"

section \<open>Keys\<close>

fun scalar :: "js \<Rightarrow> bool" where
  "scalar (JArr _) = False"
| "scalar (JObj _) = False"
| "scalar _ = True"

definition k_registrations :: qkey where "k_registrations = [JStr ''registrations'']"
definition k_registrations_list :: "js \<Rightarrow> qkey" where
  "k_registrations_list f = [JStr ''registrations'', f]"
definition k_registrations_detail :: "int \<Rightarrow> string \<Rightarrow> qkey" where
  "k_registrations_detail i role = [JStr ''registrations'', JStr ''detail'', JInt i, JStr role]"
definition k_events :: qkey where "k_events = [JStr ''events'']"
definition k_event :: "int \<Rightarrow> qkey" where "k_event i = [JStr ''events'', JInt i]"
definition k_event_sports :: "int \<Rightarrow> qkey" where "k_event_sports i = [JStr ''events'', JInt i, JStr ''sports'']"
definition k_event_sport_orgs :: "int \<Rightarrow> js \<Rightarrow> qkey" where
  "k_event_sport_orgs i s = [JStr ''events'', JInt i, JStr ''sports'', s, JStr ''orgs'']"
definition k_event_organizations :: "int \<Rightarrow> qkey" where
  "k_event_organizations i = [JStr ''events'', JInt i, JStr ''organizations'']"
definition k_dashboard :: qkey where "k_dashboard = [JStr ''dashboard'']"
definition k_dashboard_scoped :: "js \<Rightarrow> js \<Rightarrow> qkey" where
  "k_dashboard_scoped role org = [JStr ''dashboard'', role, org]"
definition k_review_pending :: "js \<Rightarrow> qkey" where
  "k_review_pending role = [JStr ''dashboard'', JStr ''review-pending-count'', role]"
definition k_registration_window :: qkey where
  "k_registration_window = [JStr ''dashboard'', JStr ''registration-window'']"
definition k_categories_bySport :: "int \<Rightarrow> qkey" where
  "k_categories_bySport s = [JStr ''categories'', JInt s]"
text \<open>The key the registration hook useCategories builds by hand.\<close>
definition k_useCategories :: "int \<Rightarrow> int \<Rightarrow> qkey" where
  "k_useCategories e s = [JStr ''categories'', JInt e, JInt s]"
definition k_openSurvey_fieldsAll :: "int \<Rightarrow> qkey" where
  "k_openSurvey_fieldsAll e = [JStr ''open-survey'', JStr ''fields'', JInt e]"
definition k_openSurvey_fields :: "int \<Rightarrow> bool \<Rightarrow> qkey" where
  "k_openSurvey_fields e b = [JStr ''open-survey'', JStr ''fields'', JInt e, JBool b]"
definition k_openSurvey_fillView :: "int \<Rightarrow> int option \<Rightarrow> qkey" where
  "k_openSurvey_fillView e org =
     [JStr ''open-survey'', JStr ''fill-view'', JInt e, (case org of None \<Rightarrow> JNull | Some i \<Rightarrow> JInt i)]"

lemmas query_keys = k_registrations_def k_registrations_list_def k_registrations_detail_def
  k_events_def k_event_def k_event_sports_def k_event_sport_orgs_def k_event_organizations_def
  k_dashboard_def k_dashboard_scoped_def k_review_pending_def k_registration_window_def
  k_categories_bySport_def k_useCategories_def k_openSurvey_fieldsAll_def k_openSurvey_fields_def
  k_openSurvey_fillView_def

section \<open>The library's operations the hooks call\<close>

definition getQueriesData :: "(qkey \<Rightarrow> qkey \<Rightarrow> bool) \<Rightarrow> qkey \<Rightarrow> qcache \<Rightarrow> qcache" where
  "getQueriesData matches k c = filter (\<lambda>e. matches k (fst e)) c"

definition setQueriesData :: "(qkey \<Rightarrow> qkey \<Rightarrow> bool) \<Rightarrow> qkey \<Rightarrow> (js \<Rightarrow> js) \<Rightarrow> qcache \<Rightarrow> qcache" where
  "setQueriesData matches k f c = map (\<lambda>e. if matches k (fst e) then (fst e, f (snd e)) else e) c"

definition setQueryData :: "qkey \<Rightarrow> js \<Rightarrow> qcache \<Rightarrow> qcache" where
  "setQueryData k v c = AList.update k v c"

definition restoreQueries :: "qcache \<Rightarrow> qcache \<Rightarrow> qcache" where
  "restoreQueries prev c = fold (\<lambda>e. setQueryData (fst e) (snd e)) prev c"

text \<open>The cached keys an invalidation marks stale.\<close>

definition invalidated :: "(qkey \<Rightarrow> qkey \<Rightarrow> bool) \<Rightarrow> qkey list \<Rightarrow> qkey \<Rightarrow> bool" where
  "invalidated matches ks k \<longleftrightarrow> list_ex (\<lambda>f. matches f k) ks"

locale key_filter =
  fixes matches :: "qkey \<Rightarrow> qkey \<Rightarrow> bool"
  assumes prefix_matches: "matches ks (ks @ rest)"
    and scalar_matches: "list_all scalar ks \<Longrightarrow> matches ks k \<Longrightarrow> take (length ks) k = ks"
begin

lemma matches_scalar_iff: "list_all scalar ks \<Longrightarrow> matches ks k \<longleftrightarrow> take (length ks) k = ks"
  using prefix_matches[of ks "drop (length ks) k"] scalar_matches[of ks k]
  by (metis append_take_drop_id)

lemma matches_head: "scalar x \<Longrightarrow> matches [x] (y # ys) \<longleftrightarrow> x = y"
  by (auto simp: matches_scalar_iff)

text \<open>Rolling back to the saved entries undoes an update of the selected entries.\<close>

lemma keys_setQueriesData: "map fst (setQueriesData matches k f c) = map fst c"
  by (simp add: setQueriesData_def)

end

definition prefix_filter :: "qkey \<Rightarrow> qkey \<Rightarrow> bool" where
  "prefix_filter ks k \<longleftrightarrow> take (length ks) k = ks"

interpretation pf: key_filter prefix_filter
  by unfold_locales (simp_all add: prefix_filter_def)

lemma map_of_restoreQueries:
  "distinct (map fst prev) \<Longrightarrow>
     map_of (restoreQueries prev c) = map_of c ++ map_of prev"
proof (induction prev arbitrary: c)
  case (Cons e prev)
  have "map_of (restoreQueries prev (AList.update (fst e) (snd e) c)) =
      map_of (AList.update (fst e) (snd e) c) ++ map_of prev"
    using Cons by simp
  also have "\<dots> = map_of c ++ map_of (e # prev)"
  proof -
    have "map_of prev (fst e) = None" using Cons.prems by (simp add: map_of_eq_None_iff)
    then show ?thesis by (cases e) (auto simp: update_conv' map_add_def fun_eq_iff split: option.split)
  qed
  finally have "map_of (restoreQueries prev (AList.update (fst e) (snd e) c)) = map_of c ++ map_of (e # prev)" .
  moreover have "restoreQueries (e # prev) c = restoreQueries prev (AList.update (fst e) (snd e) c)"
    by (simp add: restoreQueries_def setQueryData_def)
  ultimately show ?case by (simp only:)
qed (simp add: restoreQueries_def)

text \<open>Restoring what was saved before an update of the same selection gives the old cache back.\<close>

lemma rollback:
  assumes "distinct (map fst c)"
  shows "map_of (restoreQueries (getQueriesData m k c) (setQueriesData m k f c)) = map_of c"
proof -
  have d: "distinct (map fst (getQueriesData m k c))"
    using assms by (simp add: getQueriesData_def distinct_map_filter)
  have g: "map_of (getQueriesData m k c) x = (if m k x then map_of c x else None)" for x
    by (induction c) (auto simp: getQueriesData_def)
  have s: "map_of (setQueriesData m k f c) x = (if m k x then map_option f (map_of c x) else map_of c x)" for x
    by (induction c) (auto simp: setQueriesData_def)
  show ?thesis
    by (rule ext) (auto simp: map_of_restoreQueries[OF d] map_add_def g s split: option.splits)
qed

section \<open>The global mutation policy\<close>

record mutation_meta =
  suppressErrorToast :: bool
  errorMessage_meta :: "string option"
  successMessage :: "string option"
  skipDashboardInvalidation :: bool

datatype toast = ErrorToast string | SuccessToast string

definition on_mutation_error :: "string \<Rightarrow> mutation_meta \<Rightarrow> toast list" where
  "on_mutation_error fallback m =
     (if suppressErrorToast m then [] else [ErrorToast (or_else (errorMessage_meta m) fallback)])"

definition on_mutation_success :: "mutation_meta \<Rightarrow> toast list \<times> qkey list" where
  "on_mutation_success m =
     ((case successMessage m of Some s \<Rightarrow> if s \<noteq> [] then [SuccessToast s] else [] | None \<Rightarrow> []),
      (if skipDashboardInvalidation m then [] else [k_dashboard]))"

text \<open>Any mutation that does not opt out refreshes every dashboard query.\<close>

lemma mutation_refreshes_dashboard:
  assumes "key_filter matches" "\<not> skipDashboardInvalidation m"
    and "k \<in> {k_dashboard_scoped r o1, k_review_pending r, k_registration_window}"
  shows "invalidated matches (snd (on_mutation_success m)) k"
proof -
  have "matches k_dashboard k"
    using assms(3) key_filter.matches_head[OF assms(1), of "JStr ''dashboard''" "JStr ''dashboard''"]
    by (auto simp: query_keys)
  then show ?thesis using assms(2) by (simp add: on_mutation_success_def invalidated_def)
qed

text \<open>The categories the registration wizard caches under an event are not reached by the
  invalidation the category mutations send, unless the event and the sport have the same number.\<close>

lemma categories_invalidation_misses:
  assumes "key_filter matches"
  shows "invalidated matches [k_categories_bySport s] (k_useCategories e s) \<longleftrightarrow> e = s"
  using key_filter.matches_scalar_iff[OF assms, of "[JStr ''categories'', JInt s]"]
  by (auto simp: invalidated_def query_keys)

end
