(* ===== verification/Registration.thy ===== *)
theory Registration
  imports Zod Http Query_Cache Token_Expiry
begin

text \<open>
  Registering participants, modules/registration: the schemas of the server
  answers and of the form, the mapper from form data to the backend payload and
  from backend errors to what the form shows, the HTTP adapters, the mutation
  and list hooks with their cache updates, and the draft kept in localStorage.
  The zod parser, the parsing of dates and the JSON codec are parameters.
\<close>

section \<open>Schemas of the server answers\<close>

definition registerResponseSchema :: schema where
  "registerResponseSchema = ZObject True
     [(''status'', zstr), (''enroll_id'', zint), (''user_id'', ZOptional zstr)]"

definition enrollmentListItemSchema :: schema where
  "enrollmentListItemSchema = ZObject True
     [(''id'', zint),
      (''created_at'', ZNullable zstr),
      (''kh_family_name'', zstr),
      (''kh_given_name'', zstr),
      (''en_family_name'', zstr),
      (''en_given_name'', zstr),
      (''photo_url'', znullable_optional zstr),
      (''sport_name'', znullable_optional zstr),
      (''event_name'', znullable_optional zstr),
      (''role'', zstr),
      (''leader_role'', znullable_optional zstr)]"

definition enrollmentListResponseSchema :: schema where
  "enrollmentListResponseSchema = ZObject True
     [(''status'', zstr),
      (''data'', ZArray enrollmentListItemSchema),
      (''count'', ZNumber [NInt, NMin 0]),
      (''total_pages'', ZOptional zint),
      (''has_next'', ZOptional ZBoolean),
      (''has_prev'', ZOptional ZBoolean),
      (''page'', ZOptional zint),
      (''page_size'', ZOptional zint)]"

definition revealedPiiSchema :: schema where
  "revealedPiiSchema = ZObject True [(''enroll_id'', zint), (''phone'', zstr)]"

definition namedRefSchema :: schema where
  "namedRefSchema = znullable_optional (ZObject False [(''id'', zint), (''name'', znullable_optional zstr)])"

definition participantDetailSchema :: schema where
  "participantDetailSchema = ZObject False
     ([(''participant_id'', zint), (''id'', zint), (''created_at'', znullable_optional zstr), (''role'', zstr),
       (''kh_family_name'', zstr), (''kh_given_name'', zstr), (''en_family_name'', zstr), (''en_given_name'', zstr)] @
      map (\<lambda>k. (k, znullable_optional zstr))
        [''name_kh'', ''name_en'', ''gender'', ''phone'', ''date_of_birth'',
         ''photo_url'', ''photoUrl'', ''nationalityDocumentUrl'', ''birthCertificateUrl'', ''nationalIdUrl'',
         ''passportUrl''] @
      [(''event_id'', znullable_optional zint), (''event_name'', znullable_optional zstr),
       (''sport_name'', znullable_optional zstr), (''sport'', namedRefSchema), (''organization'', namedRefSchema),
       (''category'', namedRefSchema), (''leader_role'', znullable_optional zstr)])"

definition participantDetailResponseSchema :: schema where
  "participantDetailResponseSchema = ZObject False [(''status'', zstr), (''data'', participantDetailSchema)]"

section \<open>The form schema\<close>

text \<open>Seven to fifteen digits and nothing else.\<close>

definition phoneRegex :: "string \<Rightarrow> bool" where
  "phoneRegex s \<longleftrightarrow> 7 \<le> length s \<and> length s \<le> 15 \<and> list_all is_digit s"

text \<open>
  The date text is read by the parameter: its time in milliseconds, None where
  the Date is invalid. The clock reading is the other parameter.
\<close>

definition pastDateSchema :: "(string \<Rightarrow> rat option) \<Rightarrow> rat \<Rightarrow> schema" where
  "pastDateSchema date_ms now =
     refine1 zstr
       (\<lambda>v. case date_ms (js_str v) of None \<Rightarrow> False | Some t \<Rightarrow> t \<le> now)
       [] ''Birth date must be today or earlier''"

definition upper_enum :: "string list \<Rightarrow> schema" where
  "upper_enum es = ZPipe (ZString [ToUpper]) (ZEnum es)"

definition register_fields :: "(string \<Rightarrow> rat option) \<Rightarrow> rat \<Rightarrow> (string \<times> schema) list" where
  "register_fields date_ms now =
     [(''eventType'', ZNullable (ZString [MinLen 1])),
      (''eventId'', ZNullable (ZNumber [NMin 1])),
      (''organizationId'', ZNullable (ZString [MinLen 1])),
      (''sportId'', ZNullable (ZNumber [NMin 1])),
      (''categoryId'', ZNullable (ZNumber [NMin 1])),
      (''teamId'', znullable_optional zint),
      (''khFamilyName'', ZString [Trim, MinLen 1]),
      (''khGivenName'', ZString [Trim, MinLen 1]),
      (''enFamilyName'', ZString [Trim, MinLen 1]),
      (''enGivenName'', ZString [Trim, MinLen 1]),
      (''gender'', upper_enum [''MALE'', ''FEMALE'', ''OTHER'']),
      (''dateOfBirth'', pastDateSchema date_ms now),
      (''nationality'', ZDefault (ZString [Trim, MinLen 1]) (JStr ''Cambodian'')),
      (''phone'', ZString [Trim, Matches phoneRegex]),
      (''idDocumentType'', upper_enum [''IDCARD'', ''BIRTHCERTIFICATE'', ''PASSPORT'', ''FAMILYBOOK'', ''OTHER'']),
      (''address'', ZOptional (ZString [Trim])),
      (''role'', ZPipe (ZString [ToLower]) (ZEnum [''athlete'', ''leader''])),
      (''leaderRole'', refine1 (ZOptional zstr) (\<lambda>v. \<not> truthy v \<or> js_str v \<noteq> []) [] ''Leader role cannot be empty''),
      (''photoPath'', ZNullable (ZString [MinLen 1])),
      (''birthCertificatePath'', zoptional_nullable zstr),
      (''nationalIdPath'', zoptional_nullable zstr),
      (''passportPath'', zoptional_nullable zstr),
      (''_uploadPhoto'', ZOptional ZBoolean),
      (''_uploadId'', ZOptional ZBoolean),
      (''_uploadBirth'', ZOptional ZBoolean),
      (''_uploadPassport'', ZOptional ZBoolean),
      (''force'', ZOptional ZBoolean)]"

text \<open>The chain of refinements, each as its test on the parsed object, its path and its message.\<close>

definition register_refinements :: "((js \<Rightarrow> bool) \<times> string \<times> string) list" where
  "register_refinements =
     [(\<lambda>d. js_get ''eventType'' d \<notin> {JNull, JUndef, JStr []}, ''eventType'', ''Event Type is required''),
      (\<lambda>d. js_get ''eventId'' d \<notin> {JNull, JUndef}, ''eventId'', ''Event is required''),
      (\<lambda>d. js_get ''organizationId'' d \<notin> {JNull, JUndef}, ''organizationId'', ''Organization is required''),
      (\<lambda>d. js_get ''sportId'' d \<notin> {JNull, JUndef}, ''sportId'', ''Sport is required''),
      (\<lambda>d. \<not> (js_get ''role'' d = JStr ''athlete'' \<and> \<not> truthy (js_get ''categoryId'' d)), ''categoryId'',
         ''Athletes must select a category''),
      (\<lambda>d. \<not> (js_get ''role'' d = JStr ''leader'' \<and> \<not> truthy (js_get ''leaderRole'' d)), ''leaderRole'',
         ''Leaders must have a role assigned'')]"

definition registerSchema :: "(string \<Rightarrow> rat option) \<Rightarrow> rat \<Rightarrow> schema" where
  "registerSchema date_ms now =
     fold (\<lambda>(p, path, msg) s. refine1 s p [path] msg) register_refinements
       (ZObject False (register_fields date_ms now))"

text \<open>What an accepted registration is.\<close>

definition nonempty_str :: "js \<Rightarrow> bool" where
  "nonempty_str v \<longleftrightarrow> (\<exists>s. v = JStr s \<and> s \<noteq> [])"

definition id_from_1 :: "js \<Rightarrow> bool" where
  "id_from_1 v \<longleftrightarrow> (\<exists>r. v = JNum (Fin r) \<and> 1 \<le> r)"

definition valid_registration :: "(string \<Rightarrow> rat option) \<Rightarrow> rat \<Rightarrow> js \<Rightarrow> bool" where
  "valid_registration date_ms now d \<longleftrightarrow>
     nonempty_str (js_get ''eventType'' d) \<and> id_from_1 (js_get ''eventId'' d) \<and>
     nonempty_str (js_get ''organizationId'' d) \<and> id_from_1 (js_get ''sportId'' d) \<and>
     nonempty_str (js_get ''khFamilyName'' d) \<and> nonempty_str (js_get ''khGivenName'' d) \<and>
     nonempty_str (js_get ''enFamilyName'' d) \<and> nonempty_str (js_get ''enGivenName'' d) \<and>
     nonempty_str (js_get ''nationality'' d) \<and>
     js_get ''gender'' d \<in> {JStr ''MALE'', JStr ''FEMALE'', JStr ''OTHER''} \<and>
     (\<exists>s t. js_get ''dateOfBirth'' d = JStr s \<and> date_ms s = Some t \<and> t \<le> now) \<and>
     (\<exists>s. js_get ''phone'' d = JStr s \<and> phoneRegex s) \<and>
     js_get ''idDocumentType'' d \<in>
       {JStr ''IDCARD'', JStr ''BIRTHCERTIFICATE'', JStr ''PASSPORT'', JStr ''FAMILYBOOK'', JStr ''OTHER''} \<and>
     (js_get ''role'' d = JStr ''athlete'' \<and> id_from_1 (js_get ''categoryId'' d) \<or>
      js_get ''role'' d = JStr ''leader'' \<and> nonempty_str (js_get ''leaderRole'' d)) \<and>
     (js_get ''photoPath'' d = JNull \<or> nonempty_str (js_get ''photoPath'' d))"

context zod_parser
begin

lemma parse_refinements:
  "parse (fold (\<lambda>(p, path, msg) s. refine1 s p [path] msg) rs s) v = Inr w \<longleftrightarrow>
     parse s v = Inr w \<and> (\<forall>r \<in> set rs. fst r w)"
  by (induction rs arbitrary: s) (auto simp: p_refine1)

lemma parse_nonempty: "parse (ZString [MinLen 1]) v = Inr w \<Longrightarrow> nonempty_str w"
  by (auto simp: p_string nonempty_str_def split: if_splits)

lemma parse_trimmed: "parse (ZString [Trim, MinLen 1]) v = Inr w \<Longrightarrow> nonempty_str w"
  by (auto simp: p_string nonempty_str_def split: if_splits)

lemma parse_nullable_nonempty: "parse (ZNullable (ZString [MinLen 1])) v = Inr w \<Longrightarrow> w = JNull \<or> nonempty_str w"
  by (auto simp: p_nullable p_string nonempty_str_def split: if_splits)

lemma parse_nullable_id: "parse (ZNullable (ZNumber [NMin 1])) v = Inr w \<Longrightarrow> w = JNull \<or> id_from_1 w"
  by (auto simp: p_nullable p_number id_from_1_def split: if_splits)

lemma parse_upper_enum: "parse (upper_enum es) v = Inr w \<Longrightarrow> \<exists>s \<in> set es. w = JStr s"
  by (auto simp: upper_enum_def p_pipe p_enum)

lemma parse_past_date:
  "parse (pastDateSchema date_ms now) v = Inr w \<Longrightarrow> \<exists>s t. w = JStr s \<and> date_ms s = Some t \<and> t \<le> now"
  by (auto simp: pastDateSchema_def p_refine1 p_string split: option.splits)

lemma register_field:
  assumes "parse (ZObject False (register_fields date_ms now)) v = Inr w"
    "map_of (register_fields date_ms now) k = Some s"
  shows "parse s (js_get k v) = Inr (js_get k w)"
  by (rule object_get[OF assms(1) _ assms(2)]) (simp add: register_fields_def)

lemma register_accepted:
  assumes "parse (registerSchema date_ms now) v = Inr w"
  shows "valid_registration date_ms now w"
proof -
  have o1: "parse (ZObject False (register_fields date_ms now)) v = Inr w"
    and r: "\<forall>r \<in> set register_refinements. fst r w"
    using assms by (auto simp: registerSchema_def parse_refinements)
  note f = register_field[OF o1, unfolded register_fields_def]
  have ids: "js_get ''eventType'' w = JNull \<or> nonempty_str (js_get ''eventType'' w)"
    "js_get ''organizationId'' w = JNull \<or> nonempty_str (js_get ''organizationId'' w)"
    "js_get ''photoPath'' w = JNull \<or> nonempty_str (js_get ''photoPath'' w)"
    "js_get ''eventId'' w = JNull \<or> id_from_1 (js_get ''eventId'' w)"
    "js_get ''sportId'' w = JNull \<or> id_from_1 (js_get ''sportId'' w)"
    "js_get ''categoryId'' w = JNull \<or> id_from_1 (js_get ''categoryId'' w)"
    by (rule parse_nullable_nonempty parse_nullable_id; rule f; simp)+
  have names: "nonempty_str (js_get ''khFamilyName'' w)" "nonempty_str (js_get ''khGivenName'' w)"
    "nonempty_str (js_get ''enFamilyName'' w)" "nonempty_str (js_get ''enGivenName'' w)"
    by (rule parse_trimmed; rule f; simp)+
  have nat: "nonempty_str (js_get ''nationality'' w)"
    using f[of "''nationality''"] by (auto simp: p_default p_string nonempty_str_def split: if_splits)
  have enums: "\<exists>s \<in> set [''MALE'', ''FEMALE'', ''OTHER'']. js_get ''gender'' w = JStr s"
    "\<exists>s \<in> set [''IDCARD'', ''BIRTHCERTIFICATE'', ''PASSPORT'', ''FAMILYBOOK'', ''OTHER''].
       js_get ''idDocumentType'' w = JStr s"
    by (rule parse_upper_enum; rule f; simp)+
  have role: "js_get ''role'' w = JStr ''athlete'' \<or> js_get ''role'' w = JStr ''leader''"
    using f[of "''role''"] by (auto simp: p_pipe p_enum)
  have leader: "truthy (js_get ''leaderRole'' w) \<Longrightarrow> nonempty_str (js_get ''leaderRole'' w)"
    using f[of "''leaderRole''"] by (auto simp: p_refine1 p_optional p_string nonempty_str_def split: if_splits)
  have phone: "\<exists>s. js_get ''phone'' w = JStr s \<and> phoneRegex s"
    using f[of "''phone''"] by (auto simp: p_string split: if_splits)
  have dob: "\<exists>s t. js_get ''dateOfBirth'' w = JStr s \<and> date_ms s = Some t \<and> t \<le> now"
    by (rule parse_past_date; rule f; simp)
  have ref: "js_get ''eventType'' w \<noteq> JNull" "js_get ''eventId'' w \<noteq> JNull"
    "js_get ''organizationId'' w \<noteq> JNull" "js_get ''sportId'' w \<noteq> JNull"
    "js_get ''role'' w = JStr ''athlete'' \<Longrightarrow> truthy (js_get ''categoryId'' w)"
    "js_get ''role'' w = JStr ''leader'' \<Longrightarrow> truthy (js_get ''leaderRole'' w)"
    using r by (simp_all add: register_refinements_def)
  have ctx: "nonempty_str (js_get ''eventType'' w)" "id_from_1 (js_get ''eventId'' w)"
    "nonempty_str (js_get ''organizationId'' w)" "id_from_1 (js_get ''sportId'' w)"
    using ids ref(1-4) by blast+
  have roles: "js_get ''role'' w = JStr ''athlete'' \<and> id_from_1 (js_get ''categoryId'' w) \<or>
      js_get ''role'' w = JStr ''leader'' \<and> nonempty_str (js_get ''leaderRole'' w)"
    using role ids(6) ref(5,6) leader by (metis truthy.simps(2))
  have en: "js_get ''gender'' w \<in> {JStr ''MALE'', JStr ''FEMALE'', JStr ''OTHER''}"
    "js_get ''idDocumentType'' w \<in>
       {JStr ''IDCARD'', JStr ''BIRTHCERTIFICATE'', JStr ''PASSPORT'', JStr ''FAMILYBOOK'', JStr ''OTHER''}"
    using enums by auto
  show ?thesis
    unfolding valid_registration_def
    using ctx names nat en dob phone roles ids(3) by blast
qed

end

section \<open>From the form to the payload\<close>

definition documentTypeByFormValue :: "string \<Rightarrow> string option" where
  "documentTypeByFormValue = map_of
     [(''IDCARD'', ''IDCard''), (''BIRTHCERTIFICATE'', ''BirthCertificate''), (''PASSPORT'', ''Passport''),
      (''FAMILYBOOK'', ''FamilyBook''), (''OTHER'', ''Other'')]"

definition formDataToPayload :: "js \<Rightarrow> string \<Rightarrow> js" where
  "formDataToPayload d userId = JObj
     [(''userId'', JStr userId),
      (''eventId'', js_get ''eventId'' d),
      (''organizationId'', JNum (js_to_number (js_get ''organizationId'' d))),
      (''sportId'', js_get ''sportId'' d),
      (''categoryId'', or_nullish (js_get ''categoryId'' d) JNull),
      (''teamId'', or_nullish (js_get ''teamId'' d) JNull),
      (''force'', or_nullish (js_get ''force'' d) (JBool False)),
      (''lastNameKhmer'', js_get ''khFamilyName'' d),
      (''firstNameKhmer'', js_get ''khGivenName'' d),
      (''lastNameLatin'', js_get ''enFamilyName'' d),
      (''firstNameLatin'', js_get ''enGivenName'' d),
      (''phone'', js_get ''phone'' d),
      (''gender'', js_get ''gender'' d),
      (''dateOfBirth'', js_get ''dateOfBirth'' d),
      (''idDocType'', (case documentTypeByFormValue (js_str (js_get ''idDocumentType'' d)) of
                         Some t \<Rightarrow> JStr t | None \<Rightarrow> js_get ''idDocumentType'' d)),
      (''address'', js_get ''address'' d),
      (''nationality'', js_get ''nationality'' d),
      (''role'', js_get ''role'' d),
      (''leaderRole'', js_or (js_get ''leaderRole'' d) JNull),
      (''photoUrl'', or_nullish (js_get ''photoPath'' d) JNull),
      (''birthCertificateUrl'', or_nullish (js_get ''birthCertificatePath'' d) JNull),
      (''nationalIdUrl'', or_nullish (js_get ''nationalIdPath'' d) JNull),
      (''passportUrl'', or_nullish (js_get ''passportPath'' d) JNull),
      (''nationalityDocumentUrl'', JNull)]"

lemma or_nullish_id [simp]: "\<not> is_nullish v \<Longrightarrow> or_nullish v d = v"
  by (cases v) auto

lemma id_from_1_nullish: "id_from_1 v \<Longrightarrow> \<not> is_nullish v"
  by (auto simp: id_from_1_def)

section \<open>Errors of the backend\<close>

record parsed_error =
  pe_code :: js
  pe_message :: js
  pe_params :: js
  pe_duplicate :: bool
  pe_fields :: "(js \<times> js) list option"

definition plain_error :: "js \<Rightarrow> parsed_error" where
  "plain_error m = \<lparr> pe_code = JUndef, pe_message = m, pe_params = JUndef, pe_duplicate = False, pe_fields = None \<rparr>"

definition generic_error_text :: string where
  "generic_error_text = ''An unexpected error occurred. Please try again.''"

text \<open>\<^verbatim>\<open>err.loc[err.loc.length - 1]\<close>: the last element of a list, the last character of a text; a
  missing location throws.\<close>

definition jnum_pred :: "jnum \<Rightarrow> jnum" where
  "jnum_pred n = (case n of Fin r \<Rightarrow> Fin (r - 1) | _ \<Rightarrow> n)"

definition err_loc :: "js \<Rightarrow> (js_error, js) result" where
  "err_loc e = bind_r (member ''loc'' e)
     (\<lambda>l. case l of
        JArr xs \<Rightarrow> Inr (if xs = [] then JUndef else last xs)
      | JStr t \<Rightarrow> Inr (if t = [] then JUndef else JStr [last t])
      | JObj fs \<Rightarrow> Inr (js_get (js_string (JNum (jnum_pred (js_to_number (js_get ''length'' l))))) l)
      | JBool b \<Rightarrow> Inr JUndef
      | JNum n \<Rightarrow> Inr JUndef
      | _ \<Rightarrow> Inl (OtherError ''TypeError''))"

fun field_map :: "js list \<Rightarrow> (js \<times> js) list \<Rightarrow> (js_error, (js \<times> js) list) result" where
  "field_map [] m = Inr m"
| "field_map (e # es) m =
     bind_r (err_loc e) (\<lambda>k. field_map es (AList.update k (js_get ''msg'' e) m))"

definition parseApiError :: "js \<Rightarrow> (js_error, parsed_error) result" where
  "parseApiError error =
     (case js_get ''detail'' error of
        JStr s \<Rightarrow> Inr (plain_error (JStr s))
      | JArr es \<Rightarrow>
          bind_r (field_map es [])
            (\<lambda>m. Inr ((plain_error (case es of [] \<Rightarrow> JStr ''Validation error''
                                  | e # _ \<Rightarrow> or_nullish (js_get ''msg'' e) (JStr ''Validation error'')))
                     \<lparr> pe_fields := Some m \<rparr>))
      | JObj fs \<Rightarrow>
          Inr \<lparr> pe_code = js_get ''code'' (JObj fs),
                pe_message = or_nullish (js_get ''message'' (JObj fs)) (JStr generic_error_text),
                pe_params = js_get ''params'' (JObj fs),
                pe_duplicate = (js_get ''duplicate_suspect'' (JObj fs) = JBool True),
                pe_fields = None \<rparr>
      | _ \<Rightarrow> Inr (plain_error (JStr generic_error_text)))"

definition LOCALIZED_CODES :: "string list" where
  "LOCALIZED_CODES = [''REGISTRATION_CLOSED'', ''SPORT_NOT_ELIGIBLE'', ''CATEGORY_INVALID'',
     ''AGE_OUT_OF_RANGE'', ''DOCUMENT_REQUIRED'', ''QUOTA_FULL'']"

text \<open>What the failed mutation does to the form: ask about the duplicate, mark fields, or show a message.\<close>

datatype form_effect =
    AskDuplicate
  | FieldError js js
  | RootError js
  | LocalizedRoot string js

definition register_on_error :: "bool \<Rightarrow> js \<Rightarrow> (js_error, form_effect list) result" where
  "register_on_error has_onDuplicate body =
     bind_r (parseApiError body) (\<lambda>p.
       Inr (if pe_duplicate p then [if has_onDuplicate then AskDuplicate else RootError (pe_message p)]
            else (case pe_fields p of
                    Some m \<Rightarrow> map (\<lambda>(k, v). FieldError k v) m
                  | None \<Rightarrow>
                      (case pe_code p of
                         JStr c \<Rightarrow>
                           if c \<in> set LOCALIZED_CODES then [LocalizedRoot c (or_nullish (pe_params p) (JObj []))]
                           else [RootError (pe_message p)]
                       | _ \<Rightarrow> [RootError (pe_message p)]))))"

text \<open>The body: the data of the response when the error has one, the error itself otherwise.\<close>

definition error_body :: "js \<Rightarrow> js" where
  "error_body e = or_nullish (js_get ''data'' (js_get ''response'' e)) e"

section \<open>Adapters\<close>

definition apiRegisterParticipant :: "js \<Rightarrow> request" where
  "apiRegisterParticipant payload = body_req ''post'' ep_registration payload"

definition apiSearchRegistrations :: "js \<Rightarrow> request" where
  "apiSearchRegistrations params =
     body_req ''post'' ep_registration_search
       (js_set ''offset'' (js_get ''skip'' params) (js_omit ''skip'' params))"

definition apiRevealParticipantPii :: "int \<Rightarrow> request" where
  "apiRevealParticipantPii i = body_req ''post'' (ep_registration_reveal i) (JObj [])"

definition apiGetRegistration :: "int \<Rightarrow> string \<Rightarrow> request" where
  "apiGetRegistration i role = get_req (ep_registration_byId i) [(''role'', JStr role)]"

definition apiUpdateRegistration :: "int \<Rightarrow> string \<Rightarrow> js \<Rightarrow> request" where
  "apiUpdateRegistration i role d =
     body_req ''patch'' ep_registration_update (JObj [(''enroll_id'', JInt i), (''role'', JStr role), (''data'', d)])"

definition apiDeleteRegistration :: "int \<Rightarrow> request" where
  "apiDeleteRegistration i = body_req ''delete'' ep_registration_delete (JObj [(''enroll_id'', JInt i)])"

definition repo_register where
  "repo_register parse srv payload = parsed_call parse srv registerResponseSchema (apiRegisterParticipant payload)"

definition repo_getAll where
  "repo_getAll parse srv params = parsed_call parse srv enrollmentListResponseSchema (apiSearchRegistrations params)"

definition repo_revealPhone where
  "repo_revealPhone parse srv i = parsed_call parse srv revealedPiiSchema (apiRevealParticipantPii i)"

definition repo_getById where
  "repo_getById parse srv i role =
     map_r (js_get ''data'') (parsed_call parse srv participantDetailResponseSchema (apiGetRegistration i role))"

definition repo_update where
  "repo_update parse srv i role d =
     map_r (js_get ''data'') (parsed_call parse srv participantDetailResponseSchema (apiUpdateRegistration i role d))"

definition repo_delete :: "backend \<Rightarrow> int \<Rightarrow> (js_error, js) result" where
  "repo_delete srv i = srv (apiDeleteRegistration i)"

text \<open>The submit of the form: no user, no request.\<close>

definition submit_registration where
  "submit_registration parse srv userId d =
     (case userId of
        None \<Rightarrow> Inl (OtherError ''User not authenticated. Please login first.'')
      | Some u \<Rightarrow>
          if u = [] then Inl (OtherError ''User not authenticated. Please login first.'')
          else repo_register parse srv (formDataToPayload d u))"

section \<open>The list hook and its optimistic delete\<close>

text \<open>What onMutate does to one cached value: drop the items whose enroll_id is the deleted one.\<close>

definition drop_enrollment :: "int \<Rightarrow> js \<Rightarrow> js" where
  "drop_enrollment i old =
     (case old of
        JObj fs \<Rightarrow>
          (case map_of fs ''data'' of
             Some (JArr xs) \<Rightarrow>
               JObj (AList.update ''data'' (JArr (filter (\<lambda>item. js_get ''enroll_id'' item \<noteq> JInt i) xs)) fs)
           | _ \<Rightarrow> old)
      | _ \<Rightarrow> old)"

definition delete_onMutate ::
  "(qkey \<Rightarrow> qkey \<Rightarrow> bool) \<Rightarrow> int \<Rightarrow> qcache \<Rightarrow> qcache \<times> qcache" where
  "delete_onMutate matches i c =
     (getQueriesData matches k_registrations c, setQueriesData matches k_registrations (drop_enrollment i) c)"

definition delete_onError :: "qcache \<Rightarrow> qcache \<Rightarrow> qcache" where
  "delete_onError previousData c = restoreQueries previousData c"

definition delete_onSettled :: "qkey list" where
  "delete_onSettled = [k_registrations]"

definition register_onSuccess :: "qkey list" where
  "register_onSuccess = [k_registrations]"

definition update_onSuccess :: "int \<Rightarrow> string \<Rightarrow> qkey list" where
  "update_onSuccess i role = [k_registrations_detail i role, k_registrations]"

definition useRegistration_enabled :: "int option \<Rightarrow> string option \<Rightarrow> bool" where
  "useRegistration_enabled i role \<longleftrightarrow>
     (case i of Some n \<Rightarrow> n \<noteq> 0 | None \<Rightarrow> False) \<and> (case role of Some r \<Rightarrow> r \<noteq> [] | None \<Rightarrow> False)"

section \<open>The draft\<close>

definition DRAFT_PREFIX :: string where
  "DRAFT_PREFIX = ''moeys.registration.draft''"

definition draftKey :: "string option \<Rightarrow> string \<Rightarrow> string" where
  "draftKey userId mode = DRAFT_PREFIX @ '':'' @ or_else userId ''anon'' @ '':'' @ mode"

definition save_draft :: "(js \<Rightarrow> string) \<Rightarrow> string \<Rightarrow> js \<Rightarrow> storage \<Rightarrow> storage" where
  "save_draft stringify key values st =
     (case local_storage st of None \<Rightarrow> st | Some s \<Rightarrow> ignoring (st_set key (stringify values)) s)"

definition clearDraft :: "string \<Rightarrow> storage \<Rightarrow> storage" where
  "clearDraft key st = (case local_storage st of None \<Rightarrow> st | Some s \<Rightarrow> ignoring (st_remove key) s)"

text \<open>The saved object, None when there is none, it is empty, or it does not parse.\<close>

definition read_draft :: "(string \<Rightarrow> js option) \<Rightarrow> string \<Rightarrow> storage \<Rightarrow> js option" where
  "read_draft json_parse key st =
     (case local_storage st of
        None \<Rightarrow> None
      | Some s \<Rightarrow>
          (case st_get key s of
             Inr (Some raw) \<Rightarrow> if raw = [] then None else json_parse raw
           | _ \<Rightarrow> None))"

text \<open>Restoring merges the saved fields over the current values of the form.\<close>

definition restore_draft :: "(string \<Rightarrow> js option) \<Rightarrow> string \<Rightarrow> storage \<Rightarrow> js \<Rightarrow> js" where
  "restore_draft json_parse key st values =
     (case read_draft json_parse key st of
        None \<Rightarrow> values
      | Some saved \<Rightarrow> js_merge values saved)"

section \<open>What registering guarantees\<close>

lemma payload_get:
  "js_get ''eventId'' (formDataToPayload d u) = js_get ''eventId'' d"
  "js_get ''sportId'' (formDataToPayload d u) = js_get ''sportId'' d"
  "js_get ''organizationId'' (formDataToPayload d u) = JNum (js_to_number (js_get ''organizationId'' d))"
  "js_get ''categoryId'' (formDataToPayload d u) = or_nullish (js_get ''categoryId'' d) JNull"
  "js_get ''role'' (formDataToPayload d u) = js_get ''role'' d"
  "js_get ''leaderRole'' (formDataToPayload d u) = js_or (js_get ''leaderRole'' d) JNull"
  "js_get ''phone'' (formDataToPayload d u) = js_get ''phone'' d"
  "js_get ''userId'' (formDataToPayload d u) = JStr u"
  "js_get ''idDocType'' (formDataToPayload d u) =
     (case documentTypeByFormValue (js_str (js_get ''idDocumentType'' d)) of
        Some t \<Rightarrow> JStr t | None \<Rightarrow> js_get ''idDocumentType'' d)"
  by (simp_all add: formDataToPayload_def)

definition backend_doc_types :: "js set" where
  "backend_doc_types = {JStr ''IDCard'', JStr ''BirthCertificate'', JStr ''Passport'', JStr ''FamilyBook'', JStr ''Other''}"

lemma doc_type_mapped:
  assumes "js_get ''idDocumentType'' d \<in>
     {JStr ''IDCARD'', JStr ''BIRTHCERTIFICATE'', JStr ''PASSPORT'', JStr ''FAMILYBOOK'', JStr ''OTHER''}"
  shows "js_get ''idDocType'' (formDataToPayload d u) \<in> backend_doc_types"
  unfolding payload_get using assms by (auto simp: documentTypeByFormValue_def backend_doc_types_def)

text \<open>C11. A form the schema accepts becomes a payload the backend's request needs: an event and a
  sport from 1 on, seven to fifteen digits of phone, a document type in the backend's spelling, and
  for the role either an athlete with a category from 1 on or a leader with a non-empty leader role;
  the organization chosen as the text of a number is sent as that number.\<close>

theorem accepted_form_gives_valid_payload:
  assumes "zod_parser parse" "parse (registerSchema date_ms now) v = Inr d" "p = formDataToPayload d u"
  shows "valid_registration date_ms now d \<and>
    js_get ''userId'' p = JStr u \<and> id_from_1 (js_get ''eventId'' p) \<and> id_from_1 (js_get ''sportId'' p) \<and>
    (\<exists>s. js_get ''phone'' p = JStr s \<and> phoneRegex s) \<and>
    js_get ''idDocType'' p \<in> backend_doc_types \<and>
    (js_get ''role'' p = JStr ''athlete'' \<and> id_from_1 (js_get ''categoryId'' p) \<or>
     js_get ''role'' p = JStr ''leader'' \<and> nonempty_str (js_get ''leaderRole'' p)) \<and>
    (\<forall>i. js_get ''organizationId'' d = JStr (show_int i) \<longrightarrow> js_get ''organizationId'' p = JInt i)"
proof -
  have a: "valid_registration date_ms now d" using zod_parser.register_accepted[OF assms(1,2)] .
  have cat: "id_from_1 (js_get ''categoryId'' d) \<Longrightarrow> id_from_1 (js_get ''categoryId'' p)"
    using assms(3) by (simp add: payload_get id_from_1_nullish)
  have lead: "nonempty_str (js_get ''leaderRole'' d) \<Longrightarrow> nonempty_str (js_get ''leaderRole'' p)"
    using assms(3) by (auto simp: payload_get nonempty_str_def js_or_def)
  have doc: "js_get ''idDocType'' p \<in> backend_doc_types"
    using a assms(3) doc_type_mapped unfolding valid_registration_def by blast
  have org: "js_get ''organizationId'' d = JStr (show_int i) \<Longrightarrow> js_get ''organizationId'' p = JInt i" for i
    using assms(3) by (simp add: payload_get)
  have same: "js_get ''userId'' p = JStr u" "js_get ''eventId'' p = js_get ''eventId'' d"
    "js_get ''sportId'' p = js_get ''sportId'' d" "js_get ''phone'' p = js_get ''phone'' d"
    "js_get ''role'' p = js_get ''role'' d"
    using assms(3) by (simp_all add: payload_get)
  show ?thesis
    unfolding same using a doc org cat lead unfolding valid_registration_def by blast
qed

definition sample_form :: js where
  "sample_form = JObj
     [(''eventType'', JStr ''NATIONAL''), (''eventId'', JInt 3), (''organizationId'', JStr ''12''),
      (''sportId'', JInt 4), (''categoryId'', JInt 9), (''khFamilyName'', JStr '' Sok ''),
      (''khGivenName'', JStr ''Dara''), (''enFamilyName'', JStr ''Sok''), (''enGivenName'', JStr ''Dara''),
      (''gender'', JStr ''male''), (''dateOfBirth'', JStr ''2005-01-02''), (''phone'', JStr ''012345678''),
      (''idDocumentType'', JStr ''PASSPORT''), (''role'', JStr ''athlete''), (''photoPath'', JStr ''/api/files/1'')]"

lemma sample_form_accepted: "\<exists>d. zparse (registerSchema (\<lambda>_. Some 0) 1) sample_form = Inr d"
proof -
  have "\<not> Option.is_none (case zparse (registerSchema (\<lambda>_. Some 0) 1) sample_form of Inr d \<Rightarrow> Some d | Inl e \<Rightarrow> None)"
    by code_simp
  then show ?thesis by (cases "zparse (registerSchema (\<lambda>_. Some 0) 1) sample_form") auto
qed

lemma accepted_form_gives_valid_payload_witness:
  "\<exists>d. zparse (registerSchema (\<lambda>_. Some 0) 1) sample_form = Inr d \<and>
     id_from_1 (js_get ''eventId'' (formDataToPayload d ''u1''))"
  using sample_form_accepted accepted_form_gives_valid_payload[OF zp.zod_parser_axioms _ refl, of "\<lambda>_. Some 0" 1 sample_form _ "''u1''"]
  by blast

text \<open>The body of a search: the page's skip travels as the offset, every other filter under its own name.\<close>

lemma search_body:
  "js_get k (ht_body (apiSearchRegistrations params)) =
     (if k = ''offset'' then js_get ''skip'' params
      else if k = ''skip'' then JUndef else js_get k (JObj (spread_fields params)))"
proof -
  have "JObj (spread_fields (js_omit ''skip'' params)) = js_omit ''skip'' params" by (simp add: js_omit_def)
  then show ?thesis by (simp add: apiSearchRegistrations_def body_req_def js_get_set js_get_omit del: js_get.simps)
qed

text \<open>C12. The list of registrations stays minimal: whenever the list call succeeds, every item the
  server answered had only the eleven public keys, so an answer that leaks a phone number or a birth
  date makes the call fail. The search filters travel in the body of a POST: each under its own name and
  with its value, the page's skip as the offset, while the path and the query do not depend on them.\<close>

theorem registrations_list_minimized:
  assumes "zod_parser parse" "repo_getAll parse srv params = Inr w"
  shows "(\<exists>body xs. srv (apiSearchRegistrations params) = Inr body \<and> js_get ''data'' body = JArr xs \<and>
      (\<forall>x \<in> set xs. \<forall>k. has_key k x \<longrightarrow>
         k \<in> {''id'', ''created_at'', ''kh_family_name'', ''kh_given_name'', ''en_family_name'', ''en_given_name'',
              ''photo_url'', ''sport_name'', ''event_name'', ''role'', ''leader_role''})) \<and>
    ht_method (apiSearchRegistrations params) = ''post'' \<and>
    ht_path (apiSearchRegistrations params) = ep_registration_search \<and> ht_params (apiSearchRegistrations params) = [] \<and>
    (\<forall>k. js_get k (ht_body (apiSearchRegistrations params)) =
       (if k = ''offset'' then js_get ''skip'' params
        else if k = ''skip'' then JUndef else js_get k (JObj (spread_fields params))))"
proof -
  obtain body where b: "srv (apiSearchRegistrations params) = Inr body"
      "parse enrollmentListResponseSchema body = Inr w"
    using assms(2) by (auto simp: repo_getAll_def parsed_call_Inr)
  have "parse (ZArray enrollmentListItemSchema) (js_get ''data'' body) = Inr (js_get ''data'' w)"
    using zod_parser.object_get[OF assms(1) b(2)[unfolded enrollmentListResponseSchema_def], of "''data''"] by simp
  then obtain xs ys where d: "js_get ''data'' body = JArr xs"
      "list_all2 (\<lambda>x y. parse enrollmentListItemSchema x = Inr y) xs ys"
    using zod_parser.p_array[OF assms(1)] by blast
  have "k \<in> {''id'', ''created_at'', ''kh_family_name'', ''kh_given_name'', ''en_family_name'', ''en_given_name'',
              ''photo_url'', ''sport_name'', ''event_name'', ''role'', ''leader_role''}"
    if hx: "x \<in> set xs" "has_key k x" for x k
  proof -
    obtain y where "parse enrollmentListItemSchema x = Inr y"
      using all2_left[OF d(2) hx(1)] by blast
    from zod_parser.strict_keys[OF assms(1) this[unfolded enrollmentListItemSchema_def] hx(2)]
    show ?thesis by simp
  qed
  then show ?thesis using b(1) d(1) search_body[of _ params] by (auto simp: apiSearchRegistrations_def body_req_def)
qed

definition sample_list_server :: backend where
  "sample_list_server r = Inr (JObj [(''status'', JStr ''ok''), (''data'', JArr []), (''count'', JInt 0)])"

lemma registrations_list_minimized_witness:
  "\<exists>w. repo_getAll zparse sample_list_server (JObj [(''search'', JStr ''012 345'')]) = Inr w \<and>
     ht_params (apiSearchRegistrations (JObj [(''search'', JStr ''012 345'')])) = [] \<and>
     js_get ''search'' (ht_body (apiSearchRegistrations (JObj [(''search'', JStr ''012 345'')]))) = JStr ''012 345''"
proof -
  have a: "repo_getAll zparse sample_list_server (JObj [(''search'', JStr ''012 345'')]) =
      Inr (JObj [(''status'', JStr ''ok''), (''data'', JArr []), (''count'', JInt 0)])"
    by (simp add: repo_getAll_def parsed_call_def sample_list_server_def enrollmentListResponseSchema_def
        has_key_def max_safe_integer_def)
  show ?thesis using registrations_list_minimized[OF zp.zod_parser_axioms a] a by (simp add: or_else_def)
qed

lemma update_same: "map_of fs k = Some v \<Longrightarrow> AList.update k v fs = fs"
  by (induction fs) (auto split: if_splits)

text \<open>Items of a parsed list have no enroll_id.\<close>

context zod_parser
begin

lemma parsed_list_unchanged:
  assumes "parse enrollmentListResponseSchema v = Inr w"
  shows "drop_enrollment i w = w"
proof -
  obtain fs where w: "w = JObj fs" using assms by (auto simp: enrollmentListResponseSchema_def p_object)
  have "parse (ZArray enrollmentListItemSchema) (js_get ''data'' v) = Inr (js_get ''data'' w)"
    using object_get[OF assms[unfolded enrollmentListResponseSchema_def], of "''data''"] by simp
  then obtain xs ys where d: "js_get ''data'' w = JArr ys"
      "list_all2 (\<lambda>x y. parse enrollmentListItemSchema x = Inr y) xs ys"
    using p_array by blast
  have none: "js_get ''enroll_id'' y \<noteq> JInt i" if hy: "y \<in> set ys" for y
  proof -
    obtain x where p: "parse enrollmentListItemSchema x = Inr y"
      using all2_right[OF d(2) hy] by blast
    have "\<not> has_key ''enroll_id'' y"
      using object_keys[OF p[unfolded enrollmentListItemSchema_def], of "''enroll_id''"] by auto
    then have "js_get ''enroll_id'' y = JUndef"
      by (cases y) (auto simp: has_key_def or_else_def map_of_eq_None_iff[symmetric] split: option.splits)
    then show ?thesis by simp
  qed
  have m: "map_of fs ''data'' = Some (JArr ys)"
    using d(1) w by (auto simp: or_else_def split: option.splits)
  have "filter (\<lambda>item. js_get ''enroll_id'' item \<noteq> JInt i) ys = ys" using none by (simp add: filter_id_conv)
  then show ?thesis using m by (simp add: drop_enrollment_def w update_same)
qed

end

text \<open>The optimistic delete of the registrations list: when the request fails, every cached entry
  is what it was before the click. Before that, the step that should hide the deleted row changes no
  list the adapter produced, because it filters on enroll_id, a key the list items never have.\<close>

theorem optimistic_delete_spec:
  assumes "zod_parser parse" "distinct (map fst c)" "delete_onMutate matches i c = (prev, c')"
  shows "map_of (delete_onError prev c') = map_of c \<and>
    (\<forall>k v w. map_of c k = Some w \<and> parse enrollmentListResponseSchema v = Inr w \<longrightarrow> map_of c' k = Some w)"
proof -
  have e: "prev = getQueriesData matches k_registrations c"
    "c' = setQueriesData matches k_registrations (drop_enrollment i) c"
    using assms(3) by (simp_all add: delete_onMutate_def)
  have m: "map_of c' k = (if matches k_registrations k then map_option (drop_enrollment i) (map_of c k) else map_of c k)" for k
    unfolding e(2) by (induction c) (auto simp: setQueriesData_def)
  show ?thesis
    using rollback[OF assms(2), of matches k_registrations "drop_enrollment i"] m
      zod_parser.parsed_list_unchanged[OF assms(1)]
    by (auto simp: delete_onError_def e)
qed

definition sample_list :: js where
  "sample_list = JObj [(''status'', JStr ''ok''), (''data'', JArr []), (''count'', JInt 0)]"

lemma optimistic_delete_spec_witness:
  "map_of (snd (delete_onMutate prefix_filter 5 [(k_registrations, sample_list)])) k_registrations = Some sample_list"
proof -
  have "zparse enrollmentListResponseSchema sample_list = Inr sample_list"
    by (simp add: sample_list_def enrollmentListResponseSchema_def has_key_def max_safe_integer_def)
  then show ?thesis
    using optimistic_delete_spec[OF zp.zod_parser_axioms, of "[(k_registrations, sample_list)]" prefix_filter 5
        "fst (delete_onMutate prefix_filter 5 [(k_registrations, sample_list)])"
        "snd (delete_onMutate prefix_filter 5 [(k_registrations, sample_list)])"]
    by simp
qed

text \<open>A validation list marks exactly the last locations of its entries.\<close>

lemma field_map_keys: "field_map es m0 = Inr m \<Longrightarrow> k \<in> fst ` set m \<longleftrightarrow> k \<in> fst ` set m0 \<or> (\<exists>e \<in> set es. err_loc e = Inr k)"
proof (induction es arbitrary: m0)
  case (Cons e es)
  then obtain k' where "err_loc e = Inr k'" "field_map es (AList.update k' (js_get ''msg'' e) m0) = Inr m"
    by (auto simp: result_simps)
  then show ?case using Cons.IH[of "AList.update k' (js_get ''msg'' e) m0"] by (auto simp: dom_update)
qed simp

section \<open>What the draft guarantees\<close>

lemma draft_slot:
  assumes "\<And>v. ok v \<Longrightarrow> dec (enc v) = Some v \<and> enc v \<noteq> []"
  shows "storage_slot (read_draft dec key) (save_draft enc key) (clearDraft key) key ok"
  using assms
  by unfold_locales
    (auto simp: read_draft_def save_draft_def clearDraft_def storage_defs st_usable_def st_same_device_def)

lemma draftKey_inj:
  assumes "m \<in> {''athlete'', ''leader''}" "m' \<in> {''athlete'', ''leader''}"
  shows "draftKey u m = draftKey u' m' \<longleftrightarrow> m = m' \<and> or_else u ''anon'' = or_else u' ''anon''"
proof
  assume a: "draftKey u m = draftKey u' m'"
  have "last (draftKey w n) = last n" if "n \<noteq> []" for w n
    using that by (simp add: draftKey_def)
  then have "last m = last m'" using a assms by (metis empty_iff insert_iff list.distinct(1))
  then have "m = m'" using assms by auto
  then show "m = m' \<and> or_else u ''anon'' = or_else u' ''anon''" using a by (simp add: draftKey_def)
qed (simp add: draftKey_def)

lemma draftKey_not_hint: "draftKey u m \<noteq> STORAGE_KEY"
  by (simp add: draftKey_def DRAFT_PREFIX_def STORAGE_KEY_def)

text \<open>C13. The draft of the wizard: with usable storage and a codec that reads its own text back, a
  form restored after a save has every saved field as saved and every other field as it was; the
  draft of another user or of the other mode and the token hint are not disturbed; and after the
  draft is cleared a restore changes nothing.\<close>

theorem draft_roundtrip:
  assumes "\<forall>v. ok v \<longrightarrow> dec (enc v) = Some v \<and> enc v \<noteq> []"
    and "st_usable st" "ok (JObj fs)" "distinct (map fst fs)"
    and "m \<in> {''athlete'', ''leader''}" "m' \<in> {''athlete'', ''leader''}"
  shows "js_get k (restore_draft dec (draftKey u m) (save_draft enc (draftKey u m) (JObj fs) st) (JObj vs)) =
      (case map_of fs k of Some v \<Rightarrow> v | None \<Rightarrow> js_get k (JObj vs)) \<and>
    (or_else u ''anon'' \<noteq> or_else u' ''anon'' \<or> m \<noteq> m' \<longrightarrow>
       read_draft dec (draftKey u' m') (save_draft enc (draftKey u m) (JObj fs) st) = read_draft dec (draftKey u' m') st) \<and>
    token_hint (save_draft enc (draftKey u m) (JObj fs) st) = token_hint st \<and>
    restore_draft dec (draftKey u m) (clearDraft (draftKey u m) (save_draft enc (draftKey u m) (JObj fs) st)) (JObj vs) = JObj vs"
proof -
  let ?K = "draftKey u m"
  let ?s = "save_draft enc ?K (JObj fs) st"
  have codec: "\<And>v. ok v \<Longrightarrow> dec (enc v) = Some v \<and> enc v \<noteq> []" using assms(1) by blast
  note slot = draft_slot[of ok dec enc, OF codec]
  have r: "read_draft dec ?K ?s = Some (JObj fs)"
    using storage_slot.rd_wr[OF slot assms(2,3)] .
  have d: "st_same_device st ?s" using storage_slot.wr_device[OF slot] .
  have w: "st_writes ?s" using d assms(2) by (simp add: st_same_device_def st_usable_def)
  have frame: "st_entries ?s k' = st_entries st k'" if "k' \<noteq> ?K" for k'
    using storage_slot.wr_frame[OF slot that] .
  have c: "read_draft dec ?K (clearDraft ?K ?s) = None" using storage_slot.rd_clr[OF slot w] .
  have o1: "read_draft dec (draftKey u' m') ?s = read_draft dec (draftKey u' m') st"
    if "or_else u ''anon'' \<noteq> or_else u' ''anon'' \<or> m \<noteq> m'"
  proof -
    have "draftKey u' m' \<noteq> ?K" using draftKey_inj[OF assms(6,5), of u' u] that by auto
    then show ?thesis using storage_slot.rd_local[OF slot d] frame by metis
  qed
  have h: "token_hint ?s = token_hint st"
    using hint.other_key_kept[OF d frame draftKey_not_hint] .
  show ?thesis
    using r c o1 h js_get_merge_JObj[OF assms(4)] by (simp add: restore_draft_def)
qed

lemma draft_roundtrip_witness:
  "js_get ''phone'' (restore_draft (\<lambda>t. Some (JObj [(''phone'', JStr t)])) (draftKey (Some ''u1'') ''athlete'')
     (save_draft (\<lambda>v. js_str (js_get ''phone'' v)) (draftKey (Some ''u1'') ''athlete'')
        (JObj [(''phone'', JStr ''012'')]) empty_storage) (JObj [(''phone'', JStr [])])) = JStr ''012''"
proof -
  let ?ok = "\<lambda>v. \<exists>t. t \<noteq> [] \<and> v = JObj [(''phone'', JStr t)]"
  let ?enc = "\<lambda>v. js_str (js_get ''phone'' v)"
  let ?dec = "\<lambda>t. Some (JObj [(''phone'', JStr t)])"
  have c: "\<forall>v. ?ok v \<longrightarrow> ?dec (?enc v) = Some v \<and> ?enc v \<noteq> []" by auto
  have u: "st_usable empty_storage" by (simp add: empty_storage_def st_usable_def)
  show ?thesis
    using draft_roundtrip[OF c u, of "[(''phone'', JStr ''012'')]" "''athlete''" "''leader''" "''phone''"
        "Some ''u1''" "[(''phone'', JStr [])]" None]
    by simp
qed

end
