(* ===== verification/Form.thy ===== *)
theory Form
  imports Js_Error Zod
begin

text \<open>
  The form state the program keeps in react-hook-form: the values by field name,
  their setters, the validation of single fields (trigger) and the validated
  submit. The form package is not part of the repository; of trigger the code
  relies on one documented law, the interface \<^verbatim>\<open>form_trigger\<close>: it answers true only if none
  of the named fields has an error of its own. The submit runs its callback
  exactly with the value the whole schema parses to.
\<close>

type_synonym form_values = "(string \<times> js) list"
type_synonym parser = "schema \<Rightarrow> js \<Rightarrow> (issue list, js) result"

definition getValue :: "string \<Rightarrow> form_values \<Rightarrow> js" where
  "getValue k f = js_get k (JObj f)"

definition setValue :: "string \<Rightarrow> js \<Rightarrow> form_values \<Rightarrow> form_values" where
  "setValue k v f = AList.update k v f"

lemma getValue_setValue [simp]: "getValue k (setValue k' v f) = (if k = k' then v else getValue k f)"
  by (simp add: getValue_def setValue_def update_conv' or_else_def)

lemma getValue_Nil [simp]: "getValue k [] = JUndef"
  by (simp add: getValue_def or_else_def)

lemma getValue_Cons [simp]: "getValue k ((k', v) # f) = (if k = k' then v else getValue k f)"
  by (simp add: getValue_def or_else_def)

definition setValues :: "(string \<times> js) list \<Rightarrow> form_values \<Rightarrow> form_values" where
  "setValues kvs f = fold (\<lambda>(k, v). setValue k v) kvs f"

lemma getValue_setValues: "k \<notin> fst ` set kvs \<Longrightarrow> getValue k (setValues kvs f) = getValue k f"
  by (induction kvs arbitrary: f) (auto simp: setValues_def)

definition submit_values :: "parser \<Rightarrow> schema \<Rightarrow> form_values \<Rightarrow> js option" where
  "submit_values parse sch f = (case parse sch (JObj f) of Inr d \<Rightarrow> Some d | Inl _ \<Rightarrow> None)"

lemma submit_values_Some: "submit_values parse sch f = Some d \<longleftrightarrow> parse sch (JObj f) = Inr d"
  by (auto simp: submit_values_def split: sum.splits)

section \<open>Validating single fields\<close>

locale form_trigger =
  fixes trigger :: "form_values \<Rightarrow> string list \<Rightarrow> bool"
    and field_ok :: "string \<Rightarrow> js \<Rightarrow> bool"
  assumes trigger_ok: "trigger f ks \<Longrightarrow> k \<in> set ks \<Longrightarrow> field_ok k (getValue k f)"
begin

lemma trigger_all: "trigger f ks \<Longrightarrow> \<forall>k \<in> set ks. field_ok k (getValue k f)"
  using trigger_ok by blast

end

definition accepts :: "parser \<Rightarrow> schema \<Rightarrow> js \<Rightarrow> bool" where
  "accepts parse s v = (case parse s v of Inr _ \<Rightarrow> True | Inl _ \<Rightarrow> False)"

definition schema_field_ok :: "parser \<Rightarrow> (string \<times> schema) list \<Rightarrow> string \<Rightarrow> js \<Rightarrow> bool" where
  "schema_field_ok parse fs k v = (case map_of fs k of Some s \<Rightarrow> accepts parse s v | None \<Rightarrow> True)"

text \<open>The least trigger: exactly the errors of the named fields themselves.\<close>

definition field_trigger :: "parser \<Rightarrow> (string \<times> schema) list \<Rightarrow> form_values \<Rightarrow> string list \<Rightarrow> bool" where
  "field_trigger parse fs f ks = list_all (\<lambda>k. schema_field_ok parse fs k (getValue k f)) ks"

interpretation ft: form_trigger "field_trigger parse fs" "schema_field_ok parse fs"
  by unfold_locales (simp add: field_trigger_def list_all_iff)

lemma accepts_iff: "accepts parse s v \<longleftrightarrow> (\<exists>w. parse s v = Inr w)"
  by (auto simp: accepts_def split: sum.splits)

end
