(* ===== verification/Step_Wizard.thy ===== *)
theory Step_Wizard
  imports Js_Prelude
begin

text \<open>
  The stepwise forms. The four wizards of the program (registration, by number,
  by sport, by category) keep a current step out of a list of steps and move
  with a Next button that validates the step, a Back button, and the step
  indicator. The interface \<^verbatim>\<open>step_wizard\<close> states what these three moves promise;
  its lemmas show that a wizard that keeps the promise can only be on a step
  when the validation of every earlier step holds for the values it has now.
  Also here: shared/ui/StepIndicator.tsx.
\<close>

section \<open>Positions in a list\<close>

fun index_of :: "'a \<Rightarrow> 'a list \<Rightarrow> int" where
  "index_of x [] = -1"
| "index_of x (y # ys) = (if x = y then 0 else (let i = index_of x ys in if i < 0 then -1 else i + 1))"

lemma index_of_range: "-1 \<le> index_of x xs \<and> index_of x xs < int (length xs)"
  by (induction xs) (auto simp: Let_def)

lemma index_of_absent [simp]: "x \<notin> set xs \<Longrightarrow> index_of x xs = -1"
  by (induction xs) auto

lemma index_of_present: "x \<in> set xs \<Longrightarrow> 0 \<le> index_of x xs \<and> xs ! nat (index_of x xs) = x"
  by (induction xs) (auto simp: Let_def nat_add_distrib)

lemma index_of_nth: "distinct xs \<Longrightarrow> i < length xs \<Longrightarrow> index_of (xs ! i) xs = int i"
proof (induction xs arbitrary: i)
  case (Cons x xs)
  then show ?case by (cases i) auto
qed simp

section \<open>The step indicator\<close>

text \<open>Only circles up to the current one can be clicked.\<close>

definition isReachable :: "nat \<Rightarrow> int \<Rightarrow> bool" where
  "isReachable index currentIndex \<longleftrightarrow> int index \<le> currentIndex"

definition indicator_click :: "(nat \<Rightarrow> 's \<Rightarrow> 's) \<Rightarrow> nat \<Rightarrow> int \<Rightarrow> nat \<Rightarrow> 's \<Rightarrow> 's" where
  "indicator_click onStepClick n currentIndex index s =
     (if index < n \<and> isReachable index currentIndex then onStepClick index s else s)"

section \<open>The interface\<close>

locale step_wizard =
  fixes steps :: "'s \<Rightarrow> 'p list"
    and cur :: "'s \<Rightarrow> 'p"
    and gate :: "'p \<Rightarrow> 's \<Rightarrow> bool"
    and nxt :: "'s \<Rightarrow> 's"
    and prev :: "'s \<Rightarrow> 's"
    and jump :: "nat \<Rightarrow> 's \<Rightarrow> 's"
  assumes steps_distinct: "distinct (steps s)"
    and nxt_keeps: "steps (nxt s) = steps s" "gate p (nxt s) = gate p s"
    and nxt_cur: "i < length (steps s) \<Longrightarrow> cur s = steps s ! i \<Longrightarrow>
      cur (nxt s) = cur s \<or> gate (cur s) s \<and> Suc i < length (steps s) \<and> cur (nxt s) = steps s ! Suc i"
    and prev_keeps: "steps (prev s) = steps s" "gate p (prev s) = gate p s"
    and prev_cur: "i < length (steps s) \<Longrightarrow> cur s = steps s ! i \<Longrightarrow> cur (prev s) = steps s ! (i - 1)"
    and jump_keeps: "steps (jump j s) = steps s" "gate p (jump j s) = gate p s"
    and jump_cur: "i < length (steps s) \<Longrightarrow> cur s = steps s ! i \<Longrightarrow>
      cur (jump j s) = cur s \<or> j \<le> i \<and> cur (jump j s) = steps s ! j"
begin

definition on :: "nat \<Rightarrow> 's \<Rightarrow> bool" where
  "on i s \<longleftrightarrow> i < length (steps s) \<and> cur s = steps s ! i \<and> (\<forall>j < i. gate (steps s ! j) s)"

text \<open>An edit on a step: it stays there, keeps the steps so far, and what it changes are values the
  earlier validations do not look at.\<close>

definition edit :: "('s \<Rightarrow> 's) \<Rightarrow> 's \<Rightarrow> bool" where
  "edit f s \<longleftrightarrow> (\<forall>i < length (steps s). cur s = steps s ! i \<longrightarrow>
     cur (f s) = cur s \<and> i < length (steps (f s)) \<and> take (Suc i) (steps (f s)) = take (Suc i) (steps s) \<and>
     (\<forall>j < i. gate (steps s ! j) s \<longrightarrow> gate (steps s ! j) (f s)))"

lemma on_nxt: assumes "on i s" shows "on i (nxt s) \<or> on (Suc i) (nxt s)"
proof (cases "cur (nxt s) = cur s")
  case True
  then show ?thesis using assms by (simp add: on_def nxt_keeps)
next
  case False
  then have "gate (cur s) s" "Suc i < length (steps s)" "cur (nxt s) = steps s ! Suc i"
    using nxt_cur[of i s] assms by (auto simp: on_def)
  then have "on (Suc i) (nxt s)" using assms by (auto simp: on_def nxt_keeps less_Suc_eq)
  then show ?thesis ..
qed

lemma on_prev: assumes "on i s" shows "on (i - 1) (prev s)"
  using assms prev_cur[of i s] by (auto simp: on_def prev_keeps)

lemma on_jump: assumes "on i s" shows "on i (jump j s) \<or> on j (jump j s)"
proof (cases "cur (jump j s) = cur s")
  case True
  then show ?thesis using assms by (simp add: on_def jump_keeps)
next
  case False
  then show ?thesis using jump_cur[of i s j] assms by (auto simp: on_def jump_keeps)
qed

lemma on_edit: assumes "on i s" "edit f s" shows "on i (f s)"
proof -
  have e: "cur (f s) = cur s" "i < length (steps (f s))" "take (Suc i) (steps (f s)) = take (Suc i) (steps s)"
    "\<forall>j < i. gate (steps s ! j) s \<longrightarrow> gate (steps s ! j) (f s)"
    using assms by (auto simp: on_def edit_def)
  have "steps (f s) ! j = steps s ! j" if "j \<le> i" for j
    using e(3) that by (metis less_Suc_eq_le nth_take)
  then show ?thesis using assms(1) e by (auto simp: on_def)
qed

text \<open>A move to an earlier step, or to the next one when its validation holds, that keeps the
  steps up to there and what the validations before it look at.\<close>

lemma on_move:
  assumes "on i s" "j \<le> i \<or> j = Suc i \<and> gate (cur s) s"
    and "j < length (steps t)" "take j (steps t) = take j (steps s)" "cur t = steps t ! j"
    and "\<forall>k < j. gate (steps s ! k) s \<longrightarrow> gate (steps s ! k) t"
  shows "on j t"
proof -
  have "steps t ! k = steps s ! k" if "k < j" for k
    using assms(4) that by (metis nth_take)
  moreover have "gate (steps s ! k) s" if "k < j" for k
    using assms(1,2) that by (auto simp: on_def less_Suc_eq)
  ultimately show ?thesis using assms(3,5,6) by (simp add: on_def)
qed

lemma on_unique: "on i s \<Longrightarrow> on j s \<Longrightarrow> i = j"
  using steps_distinct[of s] by (auto simp: on_def nth_eq_iff_index_eq)

lemma on_gates: "on i s \<Longrightarrow> j < i \<Longrightarrow> gate (steps s ! j) s"
  by (simp add: on_def)

lemma edit_id: "edit (\<lambda>s. s) s"
  by (simp add: edit_def)

end

section \<open>The current step and the furthest one\<close>

text \<open>
  The three survey forms keep their position in the same way: the current step, and the
  furthest index reached. \<^verbatim>\<open>ok\<close> is the answer of the validation of the current step.
\<close>

record 'p nav_state =
  nv_step :: 'p
  nv_max :: nat

definition nav_start :: "'p \<Rightarrow> 'p nav_state" where
  "nav_start p = \<lparr> nv_step = p, nv_max = 0 \<rparr>"

definition nav_goToStep :: "'p list \<Rightarrow> nat \<Rightarrow> 'p nav_state \<Rightarrow> 'p nav_state" where
  "nav_goToStep steps idx n = n\<lparr> nv_step := steps ! idx, nv_max := max (nv_max n) idx \<rparr>"

definition nav_next :: "'p list \<Rightarrow> bool \<Rightarrow> 'p nav_state \<Rightarrow> 'p nav_state" where
  "nav_next steps ok n =
     (let i = index_of (nv_step n) steps in
      if int (length steps) - 1 \<le> i then n
      else if ok then nav_goToStep steps (nat (i + 1)) n else n)"

definition nav_prev :: "'p list \<Rightarrow> 'p nav_state \<Rightarrow> 'p nav_state" where
  "nav_prev steps n =
     (let i = index_of (nv_step n) steps in if 0 < i then nav_goToStep steps (nat (i - 1)) n else n)"

definition nav_stepClick :: "'p list \<Rightarrow> nat \<Rightarrow> 'p nav_state \<Rightarrow> 'p nav_state" where
  "nav_stepClick steps idx n = (if idx \<le> nv_max n then n\<lparr> nv_step := steps ! idx \<rparr> else n)"

definition nav_click :: "'p list \<Rightarrow> nat \<Rightarrow> 'p nav_state \<Rightarrow> 'p nav_state" where
  "nav_click steps idx n =
     indicator_click (nav_stepClick steps) (length steps) (index_of (nv_step n) steps) idx n"

locale nav_wizard =
  fixes stps :: "'p list"
    and nav :: "'s \<Rightarrow> 'p nav_state"
    and ok :: "'p \<Rightarrow> 's \<Rightarrow> bool"
    and gate :: "'p \<Rightarrow> 's \<Rightarrow> bool"
    and nxt :: "'s \<Rightarrow> 's"
    and prev :: "'s \<Rightarrow> 's"
    and jump :: "nat \<Rightarrow> 's \<Rightarrow> 's"
  assumes stps_distinct: "distinct stps"
    and ok_gate: "ok p s \<Longrightarrow> gate p s"
    and nav_of_nxt: "nav (nxt s) = nav_next stps (ok (nv_step (nav s)) s) (nav s)" "gate p (nxt s) = gate p s"
    and nav_of_prev: "nav (prev s) = nav_prev stps (nav s)" "gate p (prev s) = gate p s"
    and nav_of_jump: "nav (jump j s) = nav_click stps j (nav s)" "gate p (jump j s) = gate p s"

sublocale nav_wizard \<subseteq> sw: step_wizard "\<lambda>_. stps" "\<lambda>s. nv_step (nav s)" gate nxt prev jump
proof
  fix i s assume i: "i < length stps" "nv_step (nav s) = stps ! i"
  have ix: "index_of (nv_step (nav s)) stps = int i" using i stps_distinct by (simp add: index_of_nth)
  show "nv_step (nav (nxt s)) = nv_step (nav s) \<or>
      gate (nv_step (nav s)) s \<and> Suc i < length stps \<and> nv_step (nav (nxt s)) = stps ! Suc i"
  proof (cases "Suc i < length stps \<and> ok (nv_step (nav s)) s")
    case True
    then have "nat (1 + int i) = Suc i" by simp
    then show ?thesis
      using True ok_gate[of "nv_step (nav s)" s] ix by (simp add: nav_of_nxt nav_next_def nav_goToStep_def Let_def add.commute)
  qed (auto simp: nav_of_nxt nav_next_def Let_def ix)
  show "nv_step (nav (prev s)) = stps ! (i - 1)"
  proof (cases i)
    case (Suc k)
    then show ?thesis using ix by (simp add: nav_of_prev nav_prev_def nav_goToStep_def Let_def)
  qed (use i ix in \<open>simp add: nav_of_prev nav_prev_def Let_def\<close>)
  fix j
  show "nv_step (nav (jump j s)) = nv_step (nav s) \<or> j \<le> i \<and> nv_step (nav (jump j s)) = stps ! j"
    using ix by (auto simp: nav_of_jump nav_click_def indicator_click_def nav_stepClick_def isReachable_def)
qed (simp_all add: stps_distinct nav_of_nxt nav_of_prev nav_of_jump)

end
