(* ===== verification/Registration_Wizard.thy ===== *)
theory Registration_Wizard
  imports Registration Step_Wizard Form
begin

text \<open>
  The registration wizard (modules/registration/components): RegisterForm.tsx with
  its steps, the inputs of the event, category, team, personal and documents
  steps, the registration window, the duplicate question and what follows a
  successful submit. A wizard state is one render of the component: its React
  state and the form's values. What the component reads from outside is in the
  record \<^verbatim>\<open>wizard_env\<close>: the mode, the answered lists, the date parser and the clock.
\<close>

datatype base_step = S_event | S_category | S_team | S_personal | S_documents | S_review

definition BASE_STEPS :: "bool \<Rightarrow> base_step list" where
  "BASE_STEPS isLeader =
     (if isLeader then [S_event, S_personal, S_documents, S_review]
      else [S_event, S_category, S_personal, S_documents, S_review])"

text \<open>Calendar dates as year, month and day.\<close>

type_synonym ymd = "int \<times> int \<times> int"

record wizard_env =
  we_leader :: bool
  we_categories :: "js \<Rightarrow> js \<Rightarrow> js list"
  we_eligible :: "js \<Rightarrow> js \<Rightarrow> js list"
  we_events :: "js list"
  we_ymd :: "string \<Rightarrow> ymd option"
  we_today :: ymd
  we_user :: js

record wizard =
  wz_form :: form_values
  wz_step :: base_step
  wz_max :: nat
  wz_consent :: bool
  wz_success :: bool
  wz_ref :: string
  wz_window :: bool
  wz_dup :: bool
  wz_team :: js
  wz_member :: bool
  wz_roster :: bool
  wz_errors :: "(string \<times> string) list"

definition register_defaults :: form_values where
  "register_defaults =
     [(''eventType'', JNull), (''khFamilyName'', JStr []), (''khGivenName'', JStr []), (''enFamilyName'', JStr []),
      (''enGivenName'', JStr []), (''gender'', JStr ''MALE''), (''dateOfBirth'', JStr []),
      (''nationality'', JStr ''Cambodian''), (''phone'', JStr []), (''idDocumentType'', JStr ''OTHER''),
      (''address'', JStr []), (''role'', JStr ''athlete''), (''eventId'', JNull), (''organizationId'', JNull),
      (''sportId'', JNull), (''categoryId'', JNull), (''teamId'', JNull), (''leaderRole'', JStr []),
      (''photoPath'', JNull), (''birthCertificatePath'', JNull), (''nationalIdPath'', JNull), (''passportPath'', JNull),
      (''_uploadPhoto'', JBool False), (''_uploadId'', JBool False), (''_uploadBirth'', JBool False),
      (''_uploadPassport'', JBool False)]"

definition wizard_start :: wizard where
  "wizard_start = \<lparr> wz_form = register_defaults, wz_step = S_event, wz_max = 0, wz_consent = False,
     wz_success = False, wz_ref = [], wz_window = False, wz_dup = False, wz_team = JNull,
     wz_member = False, wz_roster = True, wz_errors = [] \<rparr>"

text \<open>The mount effects: the role of the mode, the organization of an organization user.\<close>

definition is_org_user :: "js \<Rightarrow> bool" where
  "is_org_user user \<longleftrightarrow> js_get ''role'' user = JStr ''organization'' \<and> truthy (js_get ''org_id'' user)"

definition init_effect :: "wizard_env \<Rightarrow> wizard \<Rightarrow> wizard" where
  "init_effect env s =
     (let f1 = (if we_leader env then setValue ''role'' (JStr ''leader'') (wz_form s) else wz_form s)
      in s \<lparr> wz_form :=
        (if is_org_user (we_user env)
         then setValue ''organizationId'' (JStr (js_string (js_get ''org_id'' (we_user env)))) f1 else f1) \<rparr>)"

section \<open>Which steps\<close>

text \<open>The lists are asked for only once both keys are chosen.\<close>

definition categories_of :: "wizard_env \<Rightarrow> form_values \<Rightarrow> js list" where
  "categories_of env f =
     (if truthy (getValue ''eventId'' f) \<and> truthy (getValue ''sportId'' f)
      then we_categories env (getValue ''eventId'' f) (getValue ''sportId'' f) else [])"

definition eligible_of :: "wizard_env \<Rightarrow> form_values \<Rightarrow> js list" where
  "eligible_of env f =
     (if truthy (getValue ''eventId'' f) \<and> truthy (getValue ''organizationId'' f)
      then we_eligible env (getValue ''eventId'' f) (getValue ''organizationId'' f) else [])"

definition selectedCategory :: "wizard_env \<Rightarrow> form_values \<Rightarrow> js" where
  "selectedCategory env f =
     or_else (find (\<lambda>c. same_number (js_get ''id'' c) (js_to_number (getValue ''categoryId'' f))) (categories_of env f)) JUndef"

definition categoryIsTeam :: "wizard_env \<Rightarrow> form_values \<Rightarrow> bool" where
  "categoryIsTeam env f = js_gt (or_nullish (js_get ''team_size_max'' (selectedCategory env f)) (JInt 1)) 1"

definition quota :: "wizard_env \<Rightarrow> form_values \<Rightarrow> (js \<times> js) option" where
  "quota env f =
     (case find (\<lambda>c. same_number (js_get ''sports_id'' c) (js_to_number (getValue ''sportId'' f))) (eligible_of env f) of
        None \<Rightarrow> None
      | Some sp \<Rightarrow>
          if is_nullish (js_get ''quota_athletes_per_org'' sp) then None
          else Some (js_get ''athletes_used'' sp, js_get ''quota_athletes_per_org'' sp))"

definition FORM_STEPS :: "wizard_env \<Rightarrow> wizard \<Rightarrow> base_step list" where
  "FORM_STEPS env s =
     (if we_leader env then BASE_STEPS True
      else if categoryIsTeam env (wz_form s)
      then [S_event, S_category, S_team, S_personal, S_documents, S_review]
      else BASE_STEPS False)"

definition stepIndex :: "wizard_env \<Rightarrow> wizard \<Rightarrow> int" where
  "stepIndex env s = index_of (wz_step s) (FORM_STEPS env s)"

section \<open>Validating a step\<close>

text \<open>Under eighteen on the day, from the calendar fields; an unreadable date has no age.\<close>

definition isUnder18 :: "wizard_env \<Rightarrow> js \<Rightarrow> bool" where
  "isUnder18 env v =
     (if \<not> truthy v then False
      else (case we_ymd env (js_string v) of
              None \<Rightarrow> False
            | Some (y, m, d) \<Rightarrow>
                (case we_today env of (ty, tm, td) \<Rightarrow>
                   (let age = ty - y; mm = tm - m
                    in (if mm < 0 \<or> mm = 0 \<and> td < d then age - 1 else age) < 18))))"

definition step_fields :: "base_step \<Rightarrow> form_values \<Rightarrow> string list" where
  "step_fields st f =
     (case st of
        S_event \<Rightarrow> [''eventType'', ''eventId'', ''organizationId'', ''sportId'']
      | S_category \<Rightarrow> [''categoryId'']
      | S_personal \<Rightarrow>
          [''khFamilyName'', ''khGivenName'', ''enFamilyName'', ''enGivenName'', ''gender'', ''dateOfBirth'',
           ''phone'', ''idDocumentType'', ''role'', ''nationality''] @
          (if getValue ''role'' f = JStr ''leader'' then [''leaderRole''] else [])
      | _ \<Rightarrow> [])"

definition documents_missing :: "wizard_env \<Rightarrow> form_values \<Rightarrow> string list" where
  "documents_missing env f =
     (if truthy (getValue ''photoPath'' f) then [] else [''photoPath'']) @
     (if isUnder18 env (getValue ''dateOfBirth'' f)
      then (if truthy (getValue ''birthCertificatePath'' f) then [] else [''birthCertificatePath''])
      else if \<not> truthy (getValue ''nationalIdPath'' f) \<and> \<not> truthy (getValue ''passportPath'' f)
      then [''nationalIdPath''] else [])"

definition setError :: "string \<Rightarrow> string \<Rightarrow> wizard \<Rightarrow> wizard" where
  "setError field msg s = s \<lparr> wz_errors := AList.update field msg (wz_errors s) \<rparr>"

section \<open>Moving\<close>

definition goToStep :: "wizard_env \<Rightarrow> nat \<Rightarrow> wizard \<Rightarrow> wizard" where
  "goToStep env idx s = s \<lparr> wz_step := FORM_STEPS env s ! idx, wz_max := max (wz_max s) idx \<rparr>"

definition handleNext :: "(form_values \<Rightarrow> string list \<Rightarrow> bool) \<Rightarrow> wizard_env \<Rightarrow> wizard \<Rightarrow> wizard" where
  "handleNext trigger env s =
     (if wz_step s = S_team \<and> \<not> truthy (wz_team s) then setError ''root'' ''team.required'' s
      else if wz_step s = S_team \<and> \<not> wz_roster s then setError ''root'' ''team.minNotReached'' s
      else
        let fs = step_fields (wz_step s) (wz_form s);
            valid0 = (if fs = [] then True else trigger (wz_form s) fs);
            missing = documents_missing env (wz_form s);
            valid = (if wz_step s = S_documents then missing = [] else valid0);
            s' = (if wz_step s = S_documents then fold (\<lambda>k. setError k ''required'') missing s else s)
        in if valid \<and> stepIndex env s < int (length (FORM_STEPS env s)) - 1
           then goToStep env (nat (stepIndex env s + 1)) s' else s')"

definition handleBack :: "wizard_env \<Rightarrow> wizard \<Rightarrow> wizard" where
  "handleBack env s = (if stepIndex env s > 0 then goToStep env (nat (stepIndex env s - 1)) s else s)"

definition handleStepClick :: "wizard_env \<Rightarrow> nat \<Rightarrow> wizard \<Rightarrow> wizard" where
  "handleStepClick env idx s = (if idx \<le> wz_max s then s \<lparr> wz_step := FORM_STEPS env s ! idx \<rparr> else s)"

definition reg_click :: "wizard_env \<Rightarrow> nat \<Rightarrow> wizard \<Rightarrow> wizard" where
  "reg_click env idx s =
     indicator_click (handleStepClick env) (length (FORM_STEPS env s)) (stepIndex env s) idx s"

definition handleEditStep :: "wizard_env \<Rightarrow> base_step \<Rightarrow> wizard \<Rightarrow> wizard" where
  "handleEditStep env st s =
     (let idx = index_of st (FORM_STEPS env s) in if idx \<ge> 0 then handleStepClick env (nat idx) s else s)"

definition handleEditMember :: "wizard \<Rightarrow> wizard" where
  "handleEditMember s = s \<lparr> wz_member := False, wz_step := S_personal \<rparr>"

definition onAddMember :: "wizard_env \<Rightarrow> wizard \<Rightarrow> wizard" where
  "onAddMember env s =
     (let s1 = s \<lparr> wz_member := False \<rparr>; idx = index_of S_personal (FORM_STEPS env s1)
      in if idx \<ge> 0 then goToStep env (nat idx) s1 else s1)"

section \<open>Inputs of the event, category and team steps\<close>

definition choose_eventType :: "js \<Rightarrow> wizard \<Rightarrow> wizard" where
  "choose_eventType v s =
     s \<lparr> wz_form := setValues [(''eventType'', v), (''eventId'', JNull), (''sportId'', JNull), (''categoryId'', JNull)]
          (wz_form s) \<rparr>"

text \<open>The event list is disabled without a type.\<close>

definition choose_event :: "js \<Rightarrow> wizard \<Rightarrow> wizard" where
  "choose_event v s =
     (if truthy (getValue ''eventType'' (wz_form s))
      then s \<lparr> wz_form := setValues [(''eventId'', JNum (js_to_number v)), (''sportId'', JNull), (''categoryId'', JNull)]
                 (wz_form s) \<rparr>
      else s)"

text \<open>Shown to administrators only.\<close>

definition is_admin_user :: "js \<Rightarrow> bool" where
  "is_admin_user user \<longleftrightarrow> js_get ''role'' user \<in> {JStr ''admin'', JStr ''super_admin''}"

definition choose_organization :: "wizard_env \<Rightarrow> js \<Rightarrow> wizard \<Rightarrow> wizard" where
  "choose_organization env v s =
     (if is_admin_user (we_user env)
      then s \<lparr> wz_form := setValues [(''organizationId'', v), (''sportId'', JNull), (''categoryId'', JNull)] (wz_form s) \<rparr>
      else s)"

definition choose_sport :: "js \<Rightarrow> wizard \<Rightarrow> wizard" where
  "choose_sport v s =
     (if truthy (getValue ''eventId'' (wz_form s)) \<and> truthy (getValue ''organizationId'' (wz_form s))
      then s \<lparr> wz_form := setValues [(''sportId'', if truthy v then JNum (js_to_number v) else JNull), (''categoryId'', JNull)]
                 (wz_form s) \<rparr>
      else s)"

definition choose_category :: "js \<Rightarrow> wizard \<Rightarrow> wizard" where
  "choose_category v s = s \<lparr> wz_form := setValue ''categoryId'' (JNum (js_to_number v)) (wz_form s) \<rparr>"

text \<open>Choosing a team writes its id into the form; choosing it again clears both.\<close>

definition sync_team :: "js \<Rightarrow> wizard \<Rightarrow> wizard" where
  "sync_team team s =
     s \<lparr> wz_team := team,
         wz_form := setValue ''teamId'' (if truthy team then js_get ''id'' team else JNull) (wz_form s) \<rparr>"

definition pick_team :: "js \<Rightarrow> wizard \<Rightarrow> wizard" where
  "pick_team team s =
     sync_team (if js_get ''id'' (wz_team s) = js_get ''id'' team \<and> truthy (wz_team s) then JNull else team) s"

text \<open>A new team: a blank name sends nothing.\<close>

definition effectiveOrgId :: "js \<Rightarrow> js \<Rightarrow> js" where
  "effectiveOrgId user orgId =
     (if is_org_user user then JNum (js_to_number (js_get ''org_id'' user)) else orgId)"

definition create_team_request :: "js \<Rightarrow> form_values \<Rightarrow> string \<Rightarrow> request option" where
  "create_team_request user f teamName =
     (if trim teamName = [] then None
      else Some (body_req ''post'' ep_teams (JObj
        [(''event_id'', JNum (js_to_number (getValue ''eventId'' f))),
         (''sport_id'', JNum (js_to_number (getValue ''sportId'' f))),
         (''org_id'', effectiveOrgId user (JNum (js_to_number (getValue ''organizationId'' f)))),
         (''category_id'', if truthy (getValue ''categoryId'' f)
                           then JNum (js_to_number (getValue ''categoryId'' f)) else JUndef),
         (''name'', JStr (trim teamName))])))"

definition handleCreate :: "backend \<Rightarrow> js \<Rightarrow> string \<Rightarrow> wizard \<Rightarrow> wizard" where
  "handleCreate srv user teamName s =
     (case create_team_request user (wz_form s) teamName of
        None \<Rightarrow> s
      | Some rq \<Rightarrow> (case srv rq of Inl _ \<Rightarrow> s | Inr team \<Rightarrow> sync_team team s))"

section \<open>The team adapter and the roster\<close>

definition team_list :: "js \<Rightarrow> js \<Rightarrow> request" where
  "team_list event_id organization_id =
     get_req ep_teams ((if truthy event_id then [(''event_id'', event_id)] else []) @
       (if truthy organization_id then [(''organization_id'', organization_id)] else []))"

definition team_getById :: "int \<Rightarrow> request" where "team_getById i = get_req (ep_team i) []"
definition team_addMember :: "int \<Rightarrow> int \<Rightarrow> request" where
  "team_addMember t e = body_req ''post'' (ep_team_members t) (JObj [(''enroll_id'', JInt e)])"
definition team_removeMember :: "int \<Rightarrow> int \<Rightarrow> request" where
  "team_removeMember t e = body_req ''delete'' (ep_team_members t @ ''/'' @ show_int e) JUndef"
definition team_delete :: "int \<Rightarrow> request" where "team_delete t = body_req ''delete'' (ep_team t) JUndef"

definition roster_canSubmit :: "js \<Rightarrow> js \<Rightarrow> bool" where
  "roster_canSubmit teamSizeMin member_count \<longleftrightarrow> is_nullish teamSizeMin \<or> js_ge member_count teamSizeMin"

definition roster_isFull :: "js \<Rightarrow> js \<Rightarrow> bool" where
  "roster_isFull teamSizeMax member_count \<longleftrightarrow> \<not> is_nullish teamSizeMax \<and> js_ge member_count teamSizeMax"

section \<open>The registration window\<close>

datatype window_error = OpensOn js | ClosedOn js | WindowClosed

definition checkWindow :: "js \<Rightarrow> (js_error, js) result \<Rightarrow> string \<Rightarrow> window_error option" where
  "checkWindow eventId answer today =
     (if \<not> truthy eventId then None
      else (case answer of
              Inl _ \<Rightarrow> None
            | Inr event \<Rightarrow>
                if js_get ''registration_is_open'' event = JBool False then
                  (let opens = js_get ''registration_open_date'' event; closes = js_get ''registration_close_date'' event
                   in Some (if truthy opens \<and> today < js_str opens then OpensOn opens
                            else if truthy closes \<and> js_str closes < today then ClosedOn closes
                            else WindowClosed))
                else None))"

definition next_enabled :: "wizard \<Rightarrow> bool" where
  "next_enabled s \<longleftrightarrow> wz_step s \<noteq> S_review \<and> \<not> wz_window s \<and> (wz_step s \<noteq> S_team \<or> wz_roster s)"

definition submit_enabled :: "bool \<Rightarrow> wizard \<Rightarrow> bool" where
  "submit_enabled isPending s \<longleftrightarrow> wz_step s = S_review \<and> \<not> isPending \<and> \<not> wz_window s"

section \<open>Submitting\<close>

text \<open>With a chosen team the wizard goes back to the team, otherwise it shows the success page.\<close>

definition refNo_of :: "int \<Rightarrow> string" where
  "refNo_of enrollId = ''REG-'' @ pad_start 6 (CHR ''0'') (show_int enrollId)"

definition handleRegistrationSuccess :: "int \<Rightarrow> wizard \<Rightarrow> wizard" where
  "handleRegistrationSuccess enrollId s =
     (if truthy (wz_team s)
      then s \<lparr> wz_ref := refNo_of enrollId, wz_member := True, wz_step := S_team \<rparr>
      else s \<lparr> wz_ref := refNo_of enrollId, wz_success := True \<rparr>)"

definition clear_draft_effect :: "string \<Rightarrow> wizard \<Rightarrow> storage \<Rightarrow> storage" where
  "clear_draft_effect key s st = (if wz_success s \<or> wz_member s then clearDraft key st else st)"

definition handleRegisterAnother :: "wizard_env \<Rightarrow> wizard \<Rightarrow> wizard" where
  "handleRegisterAnother env s =
     (let f = wz_form s;
          s1 = s \<lparr> wz_form := [(''eventType'', getValue ''eventType'' f), (''eventId'', getValue ''eventId'' f),
            (''organizationId'', getValue ''organizationId'' f), (''sportId'', getValue ''sportId'' f),
            (''categoryId'', getValue ''categoryId'' f), (''role'', getValue ''role'' f),
            (''teamId'', or_nullish (js_get ''id'' (wz_team s)) JNull)] \<rparr>
      in s1 \<lparr> wz_consent := False, wz_success := False, wz_step := S_personal,
              wz_max := nat (index_of S_personal (FORM_STEPS env s)) \<rparr>)"

text \<open>The answer of the backend or its error, as it reaches the form.\<close>

definition settle_submit :: "bool \<Rightarrow> (js, int) result \<Rightarrow> wizard \<Rightarrow> wizard" where
  "settle_submit has_user answer s =
     (if \<not> has_user then setError ''root'' ''User not authenticated. Please login first.'' s
      else (case answer of
              Inr enrollId \<Rightarrow> handleRegistrationSuccess enrollId s
            | Inl body \<Rightarrow>
                (case register_on_error True body of
                   Inl _ \<Rightarrow> s
                 | Inr effs \<Rightarrow>
                     fold (\<lambda>e t. case e of
                             AskDuplicate \<Rightarrow> t \<lparr> wz_dup := True \<rparr>
                           | FieldError k m \<Rightarrow> setError (js_string k) (js_string m) t
                           | RootError m \<Rightarrow> setError ''root'' (js_string m) t
                           | LocalizedRoot c _ \<Rightarrow> setError ''root'' c t) effs s)))"

text \<open>A submit validates the whole schema first; the payload is that of the validated data.\<close>

definition submit_wizard where
  "submit_wizard parse date_ms now user (send :: js \<Rightarrow> (js, int) result) s =
     (case submit_values parse (registerSchema date_ms now) (wz_form s) of
        None \<Rightarrow> s
      | Some d \<Rightarrow>
          settle_submit (truthy (js_get ''id'' user)) (send (formDataToPayload d (js_string (js_get ''id'' user)))) s)"

text \<open>The answer to the duplicate question.\<close>

definition answer_duplicate where
  "answer_duplicate parse date_ms now user send ok s =
     (let s1 = s \<lparr> wz_dup := False, wz_form := setValue ''force'' (JBool ok) (wz_form s) \<rparr>
      in if ok then submit_wizard parse date_ms now user send s1 else s1)"

lemmas wizard_defs = goToStep_def setError_def handleStepClick_def handleEditMember_def choose_eventType_def
  choose_event_def choose_organization_def choose_sport_def choose_category_def sync_team_def

section \<open>The wizard as a step wizard\<close>

text \<open>What must hold to leave a step.\<close>

definition reg_gate :: "(string \<Rightarrow> js \<Rightarrow> bool) \<Rightarrow> wizard_env \<Rightarrow> base_step \<Rightarrow> wizard \<Rightarrow> bool" where
  "reg_gate field_ok env p s =
     (case p of
        S_team \<Rightarrow> truthy (wz_team s) \<and> wz_roster s
      | S_documents \<Rightarrow> documents_missing env (wz_form s) = []
      | _ \<Rightarrow> list_all (\<lambda>k. field_ok k (getValue k (wz_form s))) (step_fields p (wz_form s)))"

lemma FORM_STEPS_distinct: "distinct (FORM_STEPS env s)"
  by (simp add: FORM_STEPS_def BASE_STEPS_def)

lemma FORM_STEPS_form: "wz_form t = wz_form s \<Longrightarrow> FORM_STEPS env t = FORM_STEPS env s"
  by (simp add: FORM_STEPS_def)

lemma reg_gate_parts:
  "wz_form t = wz_form s \<Longrightarrow> wz_team t = wz_team s \<Longrightarrow> wz_roster t = wz_roster s \<Longrightarrow>
     reg_gate fo env p t = reg_gate fo env p s"
  by (simp add: reg_gate_def split: base_step.split)

lemma setErrors_rest:
  "wz_form (fold (\<lambda>k. setError k m) ks s) = wz_form s \<and> wz_team (fold (\<lambda>k. setError k m) ks s) = wz_team s \<and>
   wz_roster (fold (\<lambda>k. setError k m) ks s) = wz_roster s \<and> wz_step (fold (\<lambda>k. setError k m) ks s) = wz_step s \<and>
   wz_max (fold (\<lambda>k. setError k m) ks s) = wz_max s"
  by (induction ks arbitrary: s) (simp_all add: setError_def)

lemma handleNext_rest:
  "wz_form (handleNext trig env s) = wz_form s" "wz_team (handleNext trig env s) = wz_team s"
  "wz_roster (handleNext trig env s) = wz_roster s"
  by (simp_all add: handleNext_def goToStep_def setError_def setErrors_rest Let_def)

lemma moves_rest:
  "wz_form (handleBack env s) = wz_form s" "wz_team (handleBack env s) = wz_team s"
  "wz_roster (handleBack env s) = wz_roster s"
  "wz_form (reg_click env j s) = wz_form s" "wz_team (reg_click env j s) = wz_team s"
  "wz_roster (reg_click env j s) = wz_roster s"
  by (simp_all add: handleBack_def reg_click_def indicator_click_def wizard_defs)

lemma stepIndex_nth: "i < length (FORM_STEPS env s) \<Longrightarrow> wz_step s = FORM_STEPS env s ! i \<Longrightarrow> stepIndex env s = int i"
  by (simp add: stepIndex_def index_of_nth FORM_STEPS_distinct)

lemmas reg_moves_keep =
  FORM_STEPS_form[OF handleNext_rest(1)] FORM_STEPS_form[OF moves_rest(1)] FORM_STEPS_form[OF moves_rest(4)]
  reg_gate_parts[OF handleNext_rest] reg_gate_parts[OF moves_rest(1-3)] reg_gate_parts[OF moves_rest(4-6)]

sublocale form_trigger \<subseteq> rw: step_wizard "FORM_STEPS env" wz_step "reg_gate field_ok env"
    "handleNext trigger env" "handleBack env" "reg_click env" for env
proof
  fix s i
  assume i: "i < length (FORM_STEPS env s)" "wz_step s = FORM_STEPS env s ! i"
  note ix = stepIndex_nth[OF i]
  have adv: "Suc i < length (FORM_STEPS env s) \<and> wz_step (handleNext trigger env s) = FORM_STEPS env s ! Suc i"
    if "wz_step (handleNext trigger env s) \<noteq> wz_step s"
    using that ix
    by (auto simp: handleNext_def goToStep_def setError_def setErrors_rest Let_def
        FORM_STEPS_form[of "fold _ _ s" s] nat_add_distrib split: if_splits)
  have "reg_gate field_ok env (wz_step s) s" if "wz_step (handleNext trigger env s) \<noteq> wz_step s"
  proof (cases "wz_step s = S_team \<or> wz_step s = S_documents")
    case True
    then show ?thesis using that
      by (auto simp: reg_gate_def handleNext_def setError_def goToStep_def setErrors_rest
          Let_def split: if_splits)
  next
    case False
    then have "step_fields (wz_step s) (wz_form s) = [] \<or> trigger (wz_form s) (step_fields (wz_step s) (wz_form s))"
      using that by (auto simp: handleNext_def Let_def split: if_splits)
    then have "list_all (\<lambda>k. field_ok k (getValue k (wz_form s))) (step_fields (wz_step s) (wz_form s))"
      using trigger_all by (auto simp: list_all_iff)
    then show ?thesis using False by (cases "wz_step s") (simp_all add: reg_gate_def)
  qed
  then show "wz_step (handleNext trigger env s) = wz_step s \<or>
      reg_gate field_ok env (wz_step s) s \<and> Suc i < length (FORM_STEPS env s) \<and>
      wz_step (handleNext trigger env s) = FORM_STEPS env s ! Suc i" using adv by blast
  show "wz_step (handleBack env s) = FORM_STEPS env s ! (i - 1)"
    using i ix by (cases i) (auto simp: handleBack_def goToStep_def)
  show "wz_step (reg_click env j s) = wz_step s \<or> j \<le> i \<and> wz_step (reg_click env j s) = FORM_STEPS env s ! j" for j
    using ix by (auto simp: reg_click_def indicator_click_def isReachable_def handleStepClick_def)
qed (simp_all add: FORM_STEPS_distinct reg_moves_keep)

section \<open>What a user can do\<close>

text \<open>
  One user action, with the controls disabled as the pages disable them; the
  success page offers another registration only, and the question about a duplicate is a modal
  dialog: while it is open only its answer counts. A window check is answered by \<^verbatim>\<open>Op_window\<close>. The
  server answers a submit through \<^verbatim>\<open>send\<close>. The actions run one after the other: nothing is clicked
  while a submit is pending. The lists of categories and eligible sports are those already answered.
\<close>

type_synonym sender = "js \<Rightarrow> (js, int) result"

datatype reg_op =
    Op_next
  | Op_back
  | Op_click nat
  | Op_edit_step base_step
  | Op_event_type string
  | Op_event js
  | Op_organization string
  | Op_sport js
  | Op_category js
  | Op_pick_team js
  | Op_create_team backend string
  | Op_add_member
  | Op_edit_member
  | Op_personal string js
  | Op_document string js
  | Op_consent
  | Op_window "(js_error, js) result" string
  | Op_submit sender
  | Op_duplicate sender bool
  | Op_another

text \<open>The options the selects list.\<close>

definition event_options :: "wizard_env \<Rightarrow> form_values \<Rightarrow> js list" where
  "event_options env f =
     (if truthy (getValue ''eventType'' f)
      then map (js_get ''id'') (filter (\<lambda>e. js_get ''type'' e = getValue ''eventType'' f) (we_events env)) else [])"

definition sport_options :: "wizard_env \<Rightarrow> form_values \<Rightarrow> js list" where
  "sport_options env f = map (js_get ''sports_id'') (eligible_of env f)"

definition category_options :: "wizard_env \<Rightarrow> form_values \<Rightarrow> js list" where
  "category_options env f = map (js_get ''id'') (categories_of env f)"

definition personal_inputs :: "string list" where
  "personal_inputs =
     [''khFamilyName'', ''khGivenName'', ''enFamilyName'', ''enGivenName'', ''gender'', ''dateOfBirth'',
      ''phone'', ''nationality'', ''idDocumentType'', ''address'']"

definition document_inputs :: "wizard_env \<Rightarrow> wizard \<Rightarrow> string list" where
  "document_inputs env s =
     [''photoPath'', ''nationalIdPath''] @
     (if isUnder18 env (getValue ''dateOfBirth'' (wz_form s)) then [''birthCertificatePath''] else [])"

definition enter :: "string \<Rightarrow> js \<Rightarrow> wizard \<Rightarrow> wizard" where
  "enter k v s = s \<lparr> wz_form := setValue k v (wz_form s) \<rparr>"

fun page_op :: "(form_values \<Rightarrow> string list \<Rightarrow> bool) \<Rightarrow> parser \<Rightarrow> (string \<Rightarrow> rat option) \<Rightarrow> rat \<Rightarrow> wizard_env \<Rightarrow>
    reg_op \<Rightarrow> wizard \<Rightarrow> wizard" where
  "page_op trig parse date_ms now env Op_next s = (if next_enabled s then handleNext trig env s else s)"
| "page_op trig parse date_ms now env Op_back s = handleBack env s"
| "page_op trig parse date_ms now env (Op_click j) s = reg_click env j s"
| "page_op trig parse date_ms now env (Op_edit_step st) s =
     (if wz_step s = S_review \<and> st \<in> {S_event, S_personal, S_documents} then handleEditStep env st s else s)"
| "page_op trig parse date_ms now env (Op_event_type v) s =
     (if wz_step s = S_event then choose_eventType (JStr v) s else s)"
| "page_op trig parse date_ms now env (Op_event v) s =
     (if wz_step s = S_event \<and> v \<in> set (event_options env (wz_form s)) then choose_event v s else s)"
| "page_op trig parse date_ms now env (Op_organization v) s =
     (if wz_step s = S_event then choose_organization env (JStr v) s else s)"
| "page_op trig parse date_ms now env (Op_sport v) s =
     (if wz_step s = S_event \<and> v \<in> insert JNull (set (sport_options env (wz_form s))) then choose_sport v s else s)"
| "page_op trig parse date_ms now env (Op_category v) s =
     (if wz_step s = S_category \<and> v \<in> set (category_options env (wz_form s)) then choose_category v s else s)"
| "page_op trig parse date_ms now env (Op_pick_team team) s = (if wz_step s = S_team then pick_team team s else s)"
| "page_op trig parse date_ms now env (Op_create_team srv nm) s =
     (if wz_step s = S_team then handleCreate srv (we_user env) nm s else s)"
| "page_op trig parse date_ms now env Op_add_member s =
     (if wz_step s = S_team \<and> truthy (wz_team s) then onAddMember env s else s)"
| "page_op trig parse date_ms now env Op_edit_member s =
     (if wz_step s = S_team \<and> truthy (wz_team s) then handleEditMember s else s)"
| "page_op trig parse date_ms now env (Op_personal k v) s =
     (if wz_step s = S_personal \<and> k \<in> set personal_inputs then enter k v s else s)"
| "page_op trig parse date_ms now env (Op_document k v) s =
     (if wz_step s = S_documents \<and> k \<in> set (document_inputs env s) then enter k (js_or v JNull) s else s)"
| "page_op trig parse date_ms now env Op_consent s =
     (if wz_step s = S_review then s \<lparr> wz_consent := \<not> wz_consent s \<rparr> else s)"
| "page_op trig parse date_ms now env (Op_window answer today) s =
     s \<lparr> wz_window := (checkWindow (getValue ''eventId'' (wz_form s)) answer today \<noteq> None) \<rparr>"
| "page_op trig parse date_ms now env (Op_submit send) s =
     (if submit_enabled False s then submit_wizard parse date_ms now (we_user env) send s else s)"
| "page_op trig parse date_ms now env (Op_duplicate send ok) s =
     (if wz_dup s then answer_duplicate parse date_ms now (we_user env) send ok s else s)"
| "page_op trig parse date_ms now env Op_another s = s"

definition reg_step where
  "reg_step trig parse date_ms now env op s =
     (if wz_success s then (case op of Op_another \<Rightarrow> handleRegisterAnother env s | _ \<Rightarrow> s)
      else if wz_dup s then
        (case op of
           Op_duplicate send ok \<Rightarrow> page_op trig parse date_ms now env op s
         | Op_window answer today \<Rightarrow> page_op trig parse date_ms now env op s
         | _ \<Rightarrow> s)
      else page_op trig parse date_ms now env op s)"

definition reg_run where
  "reg_run trig parse date_ms now env ops s = foldl (\<lambda>t op. reg_step trig parse date_ms now env op t) s ops"

text \<open>The invariant: on a step, everything before it is valid; after adding a member of a team the
  chosen category does not have, the wizard shows a team step that is not in its list, with every
  step valid.\<close>

definition reg_on :: "(string \<Rightarrow> js \<Rightarrow> bool) \<Rightarrow> wizard_env \<Rightarrow> nat \<Rightarrow> wizard \<Rightarrow> bool" where
  "reg_on fo env i s \<longleftrightarrow> i < length (FORM_STEPS env s) \<and> wz_step s = FORM_STEPS env s ! i \<and>
     (\<forall>j < i. reg_gate fo env (FORM_STEPS env s ! j) s)"

definition reg_inv :: "(string \<Rightarrow> js \<Rightarrow> bool) \<Rightarrow> wizard_env \<Rightarrow> wizard \<Rightarrow> bool" where
  "reg_inv fo env s \<longleftrightarrow>
     wz_roster s \<and> (wz_success s \<longrightarrow> wz_step s = S_review) \<and>
     ((\<exists>i. reg_on fo env i s) \<or>
      wz_step s = S_team \<and> S_team \<notin> set (FORM_STEPS env s) \<and> (\<forall>p \<in> set (FORM_STEPS env s). reg_gate fo env p s))"

lemma FORM_STEPS_values:
  "(\<And>k. k \<in> {''eventId'', ''sportId'', ''categoryId''} \<Longrightarrow> getValue k (wz_form t) = getValue k (wz_form s)) \<Longrightarrow>
     FORM_STEPS env t = FORM_STEPS env s"
  by (simp add: FORM_STEPS_def categoryIsTeam_def selectedCategory_def categories_of_def)

lemma reg_on_event: "wz_step t = S_event \<Longrightarrow> reg_on fo env 0 t"
  by (simp add: reg_on_def FORM_STEPS_def BASE_STEPS_def)

lemma reg_on_keep:
  "reg_on fo env i s \<Longrightarrow> wz_step t = wz_step s \<Longrightarrow> FORM_STEPS env t = FORM_STEPS env s \<Longrightarrow>
     (\<And>j. j < i \<Longrightarrow> reg_gate fo env (FORM_STEPS env s ! j) s \<Longrightarrow> reg_gate fo env (FORM_STEPS env s ! j) t) \<Longrightarrow>
     reg_on fo env i t"
  by (simp add: reg_on_def)

lemma steps_before:
  assumes "reg_on fo env i s" "j < i"
  shows "wz_step s = S_team \<Longrightarrow> FORM_STEPS env s ! j \<in> {S_event, S_category}"
    and "wz_step s = S_personal \<Longrightarrow> FORM_STEPS env s ! j \<in> {S_event, S_category, S_team}"
    and "wz_step s = S_documents \<Longrightarrow> FORM_STEPS env s ! j \<in> {S_event, S_category, S_team, S_personal}"
  using assms
  by (auto simp: reg_on_def FORM_STEPS_def BASE_STEPS_def less_Suc_eq numeral_eq_Suc split: if_splits)

lemma reg_gate_enter:
  "p \<in> {S_event, S_category, S_team} \<Longrightarrow> k \<in> set personal_inputs \<Longrightarrow> reg_gate fo env p (enter k v s) = reg_gate fo env p s"
  "p \<in> {S_event, S_category, S_team, S_personal} \<Longrightarrow> k \<in> {''photoPath'', ''nationalIdPath'', ''birthCertificatePath''} \<Longrightarrow>
     reg_gate fo env p (enter k v s) = reg_gate fo env p s"
  by (auto simp: reg_gate_def enter_def personal_inputs_def step_fields_def)

lemma FORM_STEPS_enter:
  "k \<in> set personal_inputs \<union> {''photoPath'', ''nationalIdPath'', ''birthCertificatePath''} \<Longrightarrow>
     FORM_STEPS env (enter k v s) = FORM_STEPS env s"
  by (rule FORM_STEPS_values) (auto simp: enter_def personal_inputs_def)

lemma sync_team_keeps:
  "FORM_STEPS env (sync_team team s) = FORM_STEPS env s"
  "p \<noteq> S_team \<Longrightarrow> reg_gate fo env p (sync_team team s) = reg_gate fo env p s"
  by (rule FORM_STEPS_values, auto simp: sync_team_def reg_gate_def step_fields_def documents_missing_def isUnder18_def
      split: base_step.split)

lemma reg_inv_event: "reg_inv fo env s \<Longrightarrow> wz_step s = S_event \<Longrightarrow> wz_step t = S_event \<Longrightarrow> wz_roster t = wz_roster s \<Longrightarrow>
    wz_success t = wz_success s \<Longrightarrow> reg_inv fo env t"
  using reg_on_event[of t fo env] by (auto simp: reg_inv_def)

lemma reg_inv_same:
  assumes "reg_inv fo env s" "wz_form t = wz_form s" "wz_team t = wz_team s" "wz_roster t = wz_roster s"
    "wz_step t = wz_step s" "wz_success t \<longrightarrow> wz_step s = S_review"
  shows "reg_inv fo env t"
  using assms by (simp add: reg_inv_def reg_on_def FORM_STEPS_form[of t s] reg_gate_parts[of t s])

lemma reg_inv_category:
  assumes "reg_inv fo env s" "wz_step s = S_category"
  shows "reg_inv fo env (choose_category v s)"
proof -
  let ?t = "choose_category v s"
  obtain i where i: "reg_on fo env i s" using assms by (auto simp: reg_inv_def)
  have l: "\<not> we_leader env" using i assms(2) by (auto simp: reg_on_def FORM_STEPS_def BASE_STEPS_def nth_Cons' split: if_splits)
  have hd: "1 < length (FORM_STEPS env u) \<and> FORM_STEPS env u ! 0 = S_event \<and> FORM_STEPS env u ! 1 = S_category" for u
    using l by (simp add: FORM_STEPS_def BASE_STEPS_def)
  then have "i = 1" using i assms(2) FORM_STEPS_distinct[of env s]
    by (metis nth_eq_iff_index_eq reg_on_def)
  then have "reg_gate fo env S_event s" using i hd[of s] by (auto simp: reg_on_def)
  then have "reg_gate fo env S_event ?t" by (auto simp: reg_gate_def step_fields_def choose_category_def)
  moreover have "wz_step ?t = S_category" using assms(2) by (simp add: choose_category_def)
  ultimately have "reg_on fo env 1 ?t" using hd[of ?t] by (auto simp: reg_on_def)
  then show ?thesis using assms by (auto simp: reg_inv_def choose_category_def)
qed

lemma reg_inv_sync_team:
  assumes "reg_inv fo env s" "wz_step s = S_team"
  shows "reg_inv fo env (sync_team team s)"
proof -
  let ?t = "sync_team team s"
  have r: "wz_step ?t = S_team" "wz_roster ?t = wz_roster s" "wz_success ?t = wz_success s"
    using assms(2) by (simp_all add: sync_team_def)
  consider i where "reg_on fo env i s"
    | "S_team \<notin> set (FORM_STEPS env s)" "\<forall>p \<in> set (FORM_STEPS env s). reg_gate fo env p s"
    using assms by (auto simp: reg_inv_def)
  then show ?thesis
  proof cases
    case 1
    have "FORM_STEPS env s ! j \<noteq> S_team" if "j < i" for j
      using steps_before(1)[OF 1 that assms(2)] by auto
    then have "reg_on fo env i ?t"
      using r(1) assms(2) by (intro reg_on_keep[OF 1]) (simp_all add: sync_team_keeps)
    then show ?thesis using assms r by (auto simp: reg_inv_def)
  next
    case 2
    then have "\<forall>p \<in> set (FORM_STEPS env ?t). reg_gate fo env p ?t"
      using sync_team_keeps by metis
    then show ?thesis using assms(1) r 2(1) assms(2) by (auto simp: reg_inv_def sync_team_keeps(1))
  qed
qed

lemma reg_inv_enter:
  assumes "reg_inv fo env s"
    and "wz_step s = S_personal \<and> k \<in> set personal_inputs \<or>
         wz_step s = S_documents \<and> k \<in> {''photoPath'', ''nationalIdPath'', ''birthCertificatePath''}"
  shows "reg_inv fo env (enter k v s)"
proof -
  let ?t = "enter k v s"
  have r: "wz_step ?t = wz_step s" "wz_roster ?t = wz_roster s" "wz_success ?t = wz_success s"
    by (simp_all add: enter_def)
  obtain i where i: "reg_on fo env i s" using assms by (auto simp: reg_inv_def)
  have f: "FORM_STEPS env ?t = FORM_STEPS env s" using assms(2) FORM_STEPS_enter[of k] by blast
  have "reg_on fo env i ?t"
    using assms(2) steps_before(2,3)[OF i] reg_gate_enter[of _ k fo env v s]
    by (intro reg_on_keep[OF i r(1) f]) blast
  then show ?thesis using assms r by (auto simp: reg_inv_def)
qed

lemma add_member_on:
  assumes "reg_inv fo env s" "wz_step s = S_team" "truthy (wz_team s)"
    and "wz_form t = wz_form s" "wz_team t = wz_team s" "wz_roster t = wz_roster s" "wz_step t = S_personal"
  shows "\<exists>i. reg_on fo env i t"
proof -
  obtain i where i: "i < length (FORM_STEPS env s)" "FORM_STEPS env s ! i = S_personal"
    by (metis in_set_conv_nth FORM_STEPS_def BASE_STEPS_def list.set_intros)
  have g: "reg_gate fo env S_team s" using assms(1,3) by (simp add: reg_gate_def reg_inv_def)
  have "reg_gate fo env (FORM_STEPS env s ! j) s" if j: "j < i" for j
  proof -
    consider k where "reg_on fo env k s" | "\<forall>p \<in> set (FORM_STEPS env s). reg_gate fo env p s"
      using assms(1) by (auto simp: reg_inv_def)
    then show ?thesis
    proof cases
      case 1
      have "j < k \<or> FORM_STEPS env s ! j = S_team"
        using 1 i j assms(2)
        by (auto simp: reg_on_def FORM_STEPS_def BASE_STEPS_def less_Suc_eq numeral_eq_Suc split: if_splits)
      then show ?thesis using 1 g by (auto simp: reg_on_def)
    next
      case 2
      then show ?thesis using i(1) j by simp
    qed
  qed
  then have "reg_on fo env i t"
    using i assms(4-7) by (simp add: reg_on_def FORM_STEPS_form[of t s] reg_gate_parts[of t s])
  then show ?thesis ..
qed

lemma review_gates:
  assumes "reg_inv fo env s" "wz_step s = S_review"
  shows "\<forall>p \<in> set (FORM_STEPS env s). reg_gate fo env p s"
proof -
  obtain i where i: "reg_on fo env i s" using assms by (auto simp: reg_inv_def)
  have "reg_gate fo env S_review s" by (simp add: reg_gate_def step_fields_def)
  moreover have "FORM_STEPS env s ! j = S_review" if "i \<le> j" "j < length (FORM_STEPS env s)" for j
  proof -
    let ?l = "length (FORM_STEPS env s) - 1"
    have l: "FORM_STEPS env s ! ?l = S_review" "?l < length (FORM_STEPS env s)"
      by (simp_all add: FORM_STEPS_def BASE_STEPS_def)
    have ii: "i < length (FORM_STEPS env s)" "FORM_STEPS env s ! i = S_review"
      using i assms(2) by (simp_all add: reg_on_def)
    have "i = ?l"
      by (rule iffD1[OF nth_eq_iff_index_eq[OF FORM_STEPS_distinct[of env s] ii(1) l(2)]]) (simp only: ii l)
    then have "j = ?l" using that by simp
    then show ?thesis using l(1) by simp
  qed
  ultimately have "reg_gate fo env (FORM_STEPS env s ! j) s" if "j < length (FORM_STEPS env s)" for j
    using i that by (cases "j < i") (auto simp: reg_on_def)
  then show ?thesis by (auto simp: in_set_conv_nth)
qed

lemma reg_on_from_gates:
  assumes "\<forall>p \<in> set (FORM_STEPS env t). p \<noteq> S_review \<longrightarrow> p \<noteq> wz_step t \<longrightarrow>
      index_of p (FORM_STEPS env t) < index_of (wz_step t) (FORM_STEPS env t) \<longrightarrow> reg_gate fo env p t"
    and "wz_step t \<in> set (FORM_STEPS env t)"
  shows "\<exists>i. reg_on fo env i t"
proof -
  let ?xs = "FORM_STEPS env t"
  obtain i where i: "i < length ?xs" "?xs ! i = wz_step t" using assms(2) by (auto simp: in_set_conv_nth)
  have "reg_gate fo env (?xs ! j) t" if j: "j < i" for j
  proof (cases "?xs ! j = S_review")
    case True
    then show ?thesis by (simp add: reg_gate_def step_fields_def)
  next
    case False
    have "index_of (?xs ! j) ?xs = int j" "index_of (wz_step t) ?xs = int i"
      using i j by (auto simp: i(2)[symmetric] index_of_nth FORM_STEPS_distinct)
    moreover have "?xs ! j \<noteq> wz_step t" using i j FORM_STEPS_distinct[of env t]
      by (metis less_trans nat_neq_iff nth_eq_iff_index_eq)
    ultimately show ?thesis using assms(1) False i(1) j by simp
  qed
  then show ?thesis using i by (auto simp: reg_on_def)
qed

lemma settle_submit_rest:
  "wz_form (settle_submit h a s) = wz_form s \<and> wz_team (settle_submit h a s) = wz_team s \<and>
   wz_roster (settle_submit h a s) = wz_roster s \<and>
   (wz_step (settle_submit h a s) = wz_step s \<or> wz_step (settle_submit h a s) = S_team \<and> truthy (wz_team s)) \<and>
   (wz_success (settle_submit h a s) \<longrightarrow> wz_success s \<or> wz_step (settle_submit h a s) = wz_step s)"
proof -
  have f: "wz_form (fold g es t) = wz_form t \<and> wz_team (fold g es t) = wz_team t \<and> wz_roster (fold g es t) = wz_roster t \<and>
      wz_step (fold g es t) = wz_step t \<and> wz_success (fold g es t) = wz_success t"
    if "g = (\<lambda>e t. case e of AskDuplicate \<Rightarrow> t \<lparr> wz_dup := True \<rparr>
                           | FieldError k m \<Rightarrow> setError (js_string k) (js_string m) t
                           | RootError m \<Rightarrow> setError ''root'' (js_string m) t
                           | LocalizedRoot c _ \<Rightarrow> setError ''root'' c t)" for g es t
    by (induction es arbitrary: t) (auto simp: that setError_def split: form_effect.splits)
  show ?thesis
    by (simp add: settle_submit_def setError_def handleRegistrationSuccess_def f[OF refl] split: sum.split)
qed

lemma reg_inv_settle:
  assumes "reg_inv fo env s" "wz_step s = S_review" "\<not> wz_success s"
  shows "reg_inv fo env (settle_submit h a s)"
proof -
  let ?t = "settle_submit h a s"
  note r = settle_submit_rest[of h a s]
  have g: "\<forall>p \<in> set (FORM_STEPS env ?t). reg_gate fo env p ?t"
    using review_gates[OF assms(1,2)] r by (simp add: FORM_STEPS_form[of ?t s] reg_gate_parts[of ?t s])
  show ?thesis
  proof (cases "wz_step ?t = wz_step s")
    case True
    then show ?thesis using r assms by (intro reg_inv_same[OF assms(1)]) auto
  next
    case False
    then have t: "wz_step ?t = S_team" "\<not> wz_success ?t"
      using r assms by (auto simp: reg_inv_def)
    then show ?thesis
      using g reg_on_from_gates[of env ?t fo] r assms(1) by (cases "S_team \<in> set (FORM_STEPS env ?t)") (auto simp: reg_inv_def)
  qed
qed

lemma reg_inv_force:
  assumes "reg_inv fo env s" "wz_step s = S_review"
  shows "reg_inv fo env (s \<lparr> wz_dup := b, wz_form := setValue ''force'' v (wz_form s) \<rparr>)"
proof -
  let ?t = "s \<lparr> wz_dup := b, wz_form := setValue ''force'' v (wz_form s) \<rparr>"
  obtain i where i: "reg_on fo env i s" using assms by (auto simp: reg_inv_def)
  have "reg_gate fo env p ?t = reg_gate fo env p s" for p
    by (auto simp: reg_gate_def step_fields_def documents_missing_def isUnder18_def split: base_step.split)
  moreover have "FORM_STEPS env ?t = FORM_STEPS env s" by (rule FORM_STEPS_values) auto
  ultimately have "reg_on fo env i ?t" by (intro reg_on_keep[OF i]) simp_all
  then show ?thesis using assms by (auto simp: reg_inv_def)
qed

lemma reg_inv_submit:
  assumes "reg_inv fo env s" "wz_step s = S_review" "\<not> wz_success s"
  shows "reg_inv fo env (submit_wizard parse date_ms now user send s)"
  using assms reg_inv_settle[OF assms] by (simp add: submit_wizard_def split: option.split)

lemma reg_inv_another:
  assumes "reg_inv fo env s" "wz_success s"
  shows "reg_inv fo env (handleRegisterAnother env s)"
proof -
  let ?t = "handleRegisterAnother env s"
  have rv: "wz_step s = S_review" using assms by (simp add: reg_inv_def)
  have v: "getValue k (wz_form ?t) = getValue k (wz_form s)"
    if "k \<in> {''eventType'', ''eventId'', ''organizationId'', ''sportId'', ''categoryId'', ''role''}" for k
    using that by (auto simp: handleRegisterAnother_def Let_def)
  have f: "FORM_STEPS env ?t = FORM_STEPS env s" by (rule FORM_STEPS_values) (use v in auto)
  have t: "wz_step ?t = S_personal" "wz_team ?t = wz_team s" "wz_roster ?t = wz_roster s" "\<not> wz_success ?t"
    by (simp_all add: handleRegisterAnother_def Let_def)
  have g: "reg_gate fo env p ?t = reg_gate fo env p s" if "p \<in> {S_event, S_category, S_team}" for p
    using that t by (auto simp: reg_gate_def step_fields_def v)
  have "\<exists>i. reg_on fo env i ?t"
  proof (rule reg_on_from_gates)
    show "wz_step ?t \<in> set (FORM_STEPS env ?t)" unfolding t by (simp add: FORM_STEPS_def BASE_STEPS_def)
    show "\<forall>p \<in> set (FORM_STEPS env ?t). p \<noteq> S_review \<longrightarrow> p \<noteq> wz_step ?t \<longrightarrow>
        index_of p (FORM_STEPS env ?t) < index_of (wz_step ?t) (FORM_STEPS env ?t) \<longrightarrow> reg_gate fo env p ?t"
    proof (intro ballI impI)
      fix p assume p: "p \<in> set (FORM_STEPS env ?t)"
          "index_of p (FORM_STEPS env ?t) < index_of (wz_step ?t) (FORM_STEPS env ?t)"
      have "p \<in> {S_event, S_category, S_team}"
        using p t by (cases p) (auto simp: FORM_STEPS_def BASE_STEPS_def split: if_splits)
      then show "reg_gate fo env p ?t" using g p(1) review_gates[OF assms(1) rv] by (simp add: f)
    qed
  qed
  then show ?thesis using t assms(1) by (simp add: reg_inv_def)
qed

context form_trigger
begin

lemma rw_on: "rw.on env i s \<longleftrightarrow> reg_on field_ok env i s"
  by (simp add: rw.on_def reg_on_def)

lemma lost_moves:
  assumes "wz_step s = S_team" "S_team \<notin> set (FORM_STEPS env s)"
  shows "handleBack env s = s" "reg_click env j s = s"
    "wz_step (handleNext trigger env s) = S_team \<or> wz_step (handleNext trigger env s) = S_event"
  using assms
  by (auto simp: handleBack_def reg_click_def indicator_click_def isReachable_def stepIndex_def handleNext_def
      goToStep_def setError_def Let_def FORM_STEPS_def BASE_STEPS_def step_fields_def)

lemma reg_inv_moves:
  assumes "reg_inv field_ok env s" "\<not> wz_success s"
  shows "reg_inv field_ok env (handleNext trigger env s)" "reg_inv field_ok env (handleBack env s)"
    "reg_inv field_ok env (reg_click env j s)"
proof -
  have ns: "\<not> wz_success (handleNext trigger env s)" "\<not> wz_success (handleBack env s)" "\<not> wz_success (reg_click env j s)"
  proof -
    have "wz_success (fold (\<lambda>k. setError k m) ks t) = wz_success t" for ks m t
      by (induction ks arbitrary: t) (simp_all add: setError_def)
    then show "\<not> wz_success (handleNext trigger env s)" "\<not> wz_success (handleBack env s)"
      "\<not> wz_success (reg_click env j s)"
      using assms(2)
      by (auto simp: handleNext_def handleBack_def reg_click_def indicator_click_def wizard_defs Let_def)
  qed
  consider i where "rw.on env i s" |
    "wz_step s = S_team" "S_team \<notin> set (FORM_STEPS env s)" "\<forall>p \<in> set (FORM_STEPS env s). reg_gate field_ok env p s"
    using assms(1) by (auto simp: reg_inv_def rw_on)
  then have "(\<exists>i. reg_on field_ok env i t) \<or>
      wz_step t = S_team \<and> S_team \<notin> set (FORM_STEPS env t) \<and> (\<forall>p \<in> set (FORM_STEPS env t). reg_gate field_ok env p t)"
    if "t \<in> {handleNext trigger env s, handleBack env s, reg_click env j s}" for t
  proof cases
    case 1
    show ?thesis using that rw.on_nxt[OF 1] rw.on_prev[OF 1] rw.on_jump[OF 1, of j] by (auto simp: rw_on)
  next
    case 2
    show ?thesis
    proof (cases "t = handleNext trigger env s")
      case True
      then show ?thesis using lost_moves(3)[OF 2(1,2)] reg_on_event 2 by (auto simp: reg_moves_keep)
    next
      case False
      then show ?thesis using that lost_moves(1,2)[OF 2(1,2)] 2 by auto
    qed
  qed
  then show "reg_inv field_ok env (handleNext trigger env s)" "reg_inv field_ok env (handleBack env s)"
    "reg_inv field_ok env (reg_click env j s)"
    using assms ns by (simp_all add: reg_inv_def handleNext_rest moves_rest)
qed

end

lemma reg_inv_edit_step:
  assumes "reg_inv fo env s" "wz_step s = S_review" "\<not> wz_success s"
  shows "reg_inv fo env (handleEditStep env st s)"
proof (cases "handleEditStep env st s = s")
  case False
  let ?t = "handleEditStep env st s"
  have p: "st \<in> set (FORM_STEPS env s)" using False
    by (rule contrapos_np) (simp add: handleEditStep_def)
  have t: "?t = s \<lparr> wz_step := st \<rparr>"
    using False index_of_present[OF p] by (auto simp: handleEditStep_def handleStepClick_def Let_def split: if_splits)
  have f: "FORM_STEPS env ?t = FORM_STEPS env s" and g: "reg_gate fo env q ?t = reg_gate fo env q s" for q
    by (rule FORM_STEPS_form, simp add: t) (rule reg_gate_parts, simp_all add: t)
  have "\<exists>i. reg_on fo env i ?t"
  proof (rule reg_on_from_gates)
    show "wz_step ?t \<in> set (FORM_STEPS env ?t)" unfolding f using p t by simp
  qed (use review_gates[OF assms(1,2)] in \<open>simp add: f g\<close>)
  then show ?thesis using assms t by (auto simp: reg_inv_def)
qed (use assms in simp)

lemma reg_inv_add_member:
  assumes "reg_inv fo env s" "wz_step s = S_team" "truthy (wz_team s)"
  shows "reg_inv fo env (onAddMember env s)" "reg_inv fo env (handleEditMember s)"
proof -
  have p: "0 \<le> index_of S_personal (FORM_STEPS env t)" "FORM_STEPS env t ! nat (index_of S_personal (FORM_STEPS env t)) = S_personal" for t
    using index_of_present[of S_personal "FORM_STEPS env t"] by (simp_all add: FORM_STEPS_def BASE_STEPS_def)
  have a: "wz_step (onAddMember env s) = S_personal" "wz_form (onAddMember env s) = wz_form s"
      "wz_team (onAddMember env s) = wz_team s" "wz_roster (onAddMember env s) = wz_roster s"
      "wz_success (onAddMember env s) = wz_success s"
    using p by (simp_all add: onAddMember_def goToStep_def Let_def FORM_STEPS_form[of "s \<lparr> wz_member := False \<rparr>" s])
  show "reg_inv fo env (onAddMember env s)"
    using add_member_on[OF assms a(2-4,1)] assms(1,2) a by (auto simp: reg_inv_def)
  have "\<exists>i. reg_on fo env i (handleEditMember s)"
    by (rule add_member_on[OF assms]) (simp_all add: handleEditMember_def)
  then show "reg_inv fo env (handleEditMember s)"
    using assms(1,2) by (auto simp: reg_inv_def handleEditMember_def)
qed

lemma document_inputs_set: "set (document_inputs env s) \<subseteq> {''photoPath'', ''nationalIdPath'', ''birthCertificatePath''}"
  by (auto simp: document_inputs_def)

context form_trigger
begin

lemma reg_inv_page:
  assumes "reg_inv field_ok env s" "\<not> wz_success s" and dup: "wz_dup s \<longrightarrow> wz_step s = S_review"
  shows "reg_inv field_ok env (page_op trigger parse date_ms now env op s)"
proof (cases op)
  case (Op_document k v)
  then show ?thesis using assms reg_inv_enter[OF assms(1), of k] document_inputs_set[of env s] by auto
next
  case (Op_submit send)
  then show ?thesis using assms reg_inv_submit by (auto simp: submit_enabled_def)
next
  case (Op_duplicate send ok)
  let ?s1 = "s \<lparr> wz_dup := False, wz_form := setValue ''force'' (JBool ok) (wz_form s) \<rparr>"
  show ?thesis
  proof (cases "wz_dup s")
    case True
    then have "wz_step s = S_review" using dup by simp
    moreover from this have "reg_inv field_ok env ?s1" using reg_inv_force[OF assms(1)] by simp
    ultimately show ?thesis using reg_inv_submit[of field_ok env ?s1] True assms(2) Op_duplicate
      by (cases ok) (simp_all add: answer_duplicate_def Let_def)
  qed (use assms Op_duplicate in auto)
next
  case (Op_create_team srv nm)
  then show ?thesis using assms reg_inv_sync_team by (auto simp: handleCreate_def split: option.split sum.split)
next
  case Op_consent
  then show ?thesis using reg_inv_same[OF assms(1), of "s \<lparr> wz_consent := \<not> wz_consent s \<rparr>"] assms by simp
next
  case (Op_window answer today)
  let ?b = "checkWindow (getValue ''eventId'' (wz_form s)) answer today \<noteq> None"
  show ?thesis using reg_inv_same[OF assms(1), of "s \<lparr> wz_window := ?b \<rparr>"] assms Op_window by simp
next
  case (Op_event_type v)
  then show ?thesis using assms reg_inv_event[OF assms(1)] by (simp add: choose_eventType_def)
next
  case (Op_event v)
  then show ?thesis using assms reg_inv_event[OF assms(1)] by (simp add: choose_event_def)
next
  case (Op_organization v)
  then show ?thesis using assms reg_inv_event[OF assms(1)] by (simp add: choose_organization_def)
next
  case (Op_sport v)
  then show ?thesis using assms reg_inv_event[OF assms(1)] by (simp add: choose_sport_def)
qed (use assms reg_inv_moves reg_inv_edit_step reg_inv_category reg_inv_add_member reg_inv_enter reg_inv_sync_team
      in \<open>auto simp: pick_team_def\<close>)

end

lemma reg_inv_start: "wz_step s = S_event \<Longrightarrow> wz_roster s \<Longrightarrow> \<not> wz_success s \<Longrightarrow> reg_inv fo env s"
  using reg_on_event[of s fo env] by (auto simp: reg_inv_def)

section \<open>Leaders\<close>

context zod_parser
begin

lemma leader_form_rejected:
  assumes "js_get ''role'' v = JStr ''leader''" "\<not> truthy (js_get ''leaderRole'' v)"
  shows "parse (registerSchema date_ms now) v \<noteq> Inr w"
proof
  assume a: "parse (registerSchema date_ms now) v = Inr w"
  have o1: "parse (ZObject False (register_fields date_ms now)) v = Inr w"
    using a by (auto simp: registerSchema_def parse_refinements)
  note f = register_field[OF o1, unfolded register_fields_def]
  have "js_get ''role'' w = JStr (to_lower ''leader'')"
    using f[of "''role''"] assms(1) by (auto simp: p_pipe p_enum p_string)
  moreover have "to_lower ''leader'' = ''leader''" by code_simp
  moreover have "js_get ''leaderRole'' w = js_get ''leaderRole'' v"
    using f[of "''leaderRole''"] by (auto simp: p_refine1 p_optional p_string split: if_splits)
  ultimately show False
    using register_accepted[OF a] assms(2) by (auto simp: valid_registration_def nonempty_str_def)
qed

end

text \<open>No input of the wizard writes the leader role.\<close>

definition leader_form :: "wizard \<Rightarrow> bool" where
  "leader_form s \<longleftrightarrow> getValue ''role'' (wz_form s) = JStr ''leader'' \<and> \<not> truthy (getValue ''leaderRole'' (wz_form s))"

definition nothing_sent :: "wizard \<Rightarrow> bool" where
  "nothing_sent s \<longleftrightarrow> \<not> wz_success s \<and> \<not> wz_member s \<and> wz_ref s = []"

lemma leader_submit:
  assumes "zod_parser parse" "leader_form s"
  shows "submit_wizard parse date_ms now user send s = s"
  using zod_parser.leader_form_rejected[OF assms(1), of "JObj (wz_form s)" date_ms now] assms(2)
  by (auto simp: submit_wizard_def submit_values_def leader_form_def getValue_def split: sum.split)

lemma moves_sent:
  "nothing_sent (handleNext trig env s) = nothing_sent s" "nothing_sent (handleBack env s) = nothing_sent s"
  "nothing_sent (handleStepClick env j s) = nothing_sent s" "nothing_sent (reg_click env j s) = nothing_sent s"
  "nothing_sent (handleEditStep env st s) = nothing_sent s" "nothing_sent s \<Longrightarrow> nothing_sent (onAddMember env s)"
  "nothing_sent s \<Longrightarrow> nothing_sent (handleEditMember s)"
proof -
  have f: "nothing_sent (fold (\<lambda>k. setError k m) ks t) = nothing_sent t" for ks m t
    by (induction ks arbitrary: t) (simp_all add: setError_def nothing_sent_def)
  show "nothing_sent (handleNext trig env s) = nothing_sent s"
    using f[of "''required''" "documents_missing env (wz_form s)" s]
    by (auto simp: handleNext_def goToStep_def Let_def nothing_sent_def setError_def)
qed (auto simp: nothing_sent_def handleBack_def goToStep_def handleStepClick_def reg_click_def indicator_click_def
    handleEditStep_def onAddMember_def handleEditMember_def Let_def)

lemma moves_form:
  "wz_form (handleStepClick env j s) = wz_form s" "wz_form (handleEditStep env st s) = wz_form s"
  "wz_form (onAddMember env s) = wz_form s" "wz_form (handleEditMember s) = wz_form s"
  by (simp_all add: handleStepClick_def handleEditStep_def onAddMember_def handleEditMember_def goToStep_def Let_def)

lemma setValues_simps: "setValues [] f = f" "setValues ((k, v) # kvs) f = setValues kvs (setValue k v f)"
  by (simp_all add: setValues_def)

lemma leader_form_force:
  "leader_form (s \<lparr> wz_dup := b, wz_form := setValue ''force'' v (wz_form s) \<rparr>) = leader_form s"
  by (simp add: leader_form_def)

lemma leader_page:
  assumes "zod_parser parse" "leader_form s" "nothing_sent s"
  shows "leader_form (page_op trig parse date_ms now env op s) \<and> nothing_sent (page_op trig parse date_ms now env op s)"
proof (cases op)
  case (Op_duplicate send ok)
  let ?s1 = "s \<lparr> wz_dup := False, wz_form := setValue ''force'' (JBool ok) (wz_form s) \<rparr>"
  have "submit_wizard parse date_ms now u send ?s1 = ?s1" for u
    using leader_submit[OF assms(1)] assms(2) by (simp add: leader_form_force)
  then show ?thesis using assms Op_duplicate
    by (cases ok) (auto simp: answer_duplicate_def Let_def leader_form_force nothing_sent_def)
next
  case (Op_submit send)
  then show ?thesis using assms leader_submit[OF assms(1,2)] by simp
next
  case (Op_personal k v)
  then show ?thesis using assms by (auto simp: enter_def leader_form_def nothing_sent_def personal_inputs_def)
next
  case (Op_document k v)
  then show ?thesis using assms document_inputs_set[of env s]
    by (auto simp: enter_def leader_form_def nothing_sent_def)
next
  case (Op_create_team srv nm)
  then show ?thesis using assms
    by (auto simp: handleCreate_def sync_team_def leader_form_def nothing_sent_def split: option.split sum.split)
qed (use assms in \<open>simp_all add: moves_sent leader_form_def moves_form handleNext_rest moves_rest\<close>,
     (auto simp: nothing_sent_def wizard_defs setValues_simps pick_team_def)[8])

lemma leader_step:
  assumes "zod_parser parse" "leader_form s" "nothing_sent s"
  shows "leader_form (reg_step trig parse date_ms now env op s) \<and> nothing_sent (reg_step trig parse date_ms now env op s)"
proof -
  have "\<not> wz_success s" using assms(3) by (simp add: nothing_sent_def)
  then show ?thesis using leader_page[OF assms] assms(2,3) by (cases op) (simp_all add: reg_step_def del: page_op.simps)
qed

lemma reg_run_simps:
  "reg_run trig parse date_ms now env [] s = s"
  "reg_run trig parse date_ms now env (op # ops) s = reg_run trig parse date_ms now env ops (reg_step trig parse date_ms now env op s)"
  by (simp_all add: reg_run_def)

text \<open>The leader wizard registers nobody: whatever the user does, with whatever answers of the
  server, no submit is ever accepted, no member is added and no reference number appears, because no
  input writes the leader role the schema requires of a leader.\<close>

theorem leader_wizard_never_registers:
  assumes "zod_parser parse" "we_leader env"
  shows "nothing_sent (reg_run trig parse date_ms now env ops (init_effect env wizard_start))"
proof -
  have "leader_form (init_effect env wizard_start)" "nothing_sent (init_effect env wizard_start)"
    using assms(2) by (auto simp: leader_form_def nothing_sent_def init_effect_def wizard_start_def register_defaults_def Let_def)
  moreover have "leader_form s \<Longrightarrow> nothing_sent s \<Longrightarrow> nothing_sent (reg_run trig parse date_ms now env ops s)" for s
  proof (induction ops arbitrary: s)
    case (Cons op ops)
    then show ?case using leader_step[OF assms(1)] by (simp add: reg_run_simps)
  qed (simp add: reg_run_simps)
  ultimately show ?thesis by blast
qed

definition leader_env :: wizard_env where
  "leader_env = \<lparr> we_leader = True, we_categories = (\<lambda>_ _. []), we_eligible = (\<lambda>_ _. []), we_events = [],
     we_ymd = (\<lambda>_. None), we_today = (2025, 1, 1), we_user = JNull \<rparr>"

lemma leader_wizard_never_registers_witness:
  "nothing_sent (reg_run (\<lambda>_ _. True) zparse (\<lambda>_. Some 0) 1 leader_env
     [Op_next, Op_personal ''phone'' (JStr ''012345678''), Op_next, Op_next, Op_submit (\<lambda>_. Inr 7)]
     (init_effect leader_env wizard_start))"
  by (rule leader_wizard_never_registers[OF zp.zod_parser_axioms]) (simp add: leader_env_def)

section \<open>Review\<close>

text \<open>What only a submit changes: the open question, the success page and the reference number.\<close>

definition outcome :: "wizard \<Rightarrow> bool \<times> bool \<times> string" where
  "outcome s = (wz_dup s, wz_success s, wz_ref s)"

lemma outcome_moves:
  "outcome (handleNext trig env s) = outcome s" "outcome (handleBack env s) = outcome s"
  "outcome (handleStepClick env j s) = outcome s" "outcome (reg_click env j s) = outcome s"
  "outcome (handleEditStep env st s) = outcome s" "outcome (onAddMember env s) = outcome s"
  "outcome (handleEditMember s) = outcome s" "outcome (sync_team team s) = outcome s"
proof -
  have f: "outcome (fold (\<lambda>k. setError k m) ks t) = outcome t" for ks m t
    by (induction ks arbitrary: t) (simp_all add: setError_def outcome_def)
  show "outcome (handleNext trig env s) = outcome s"
    using f[of "''required''" "documents_missing env (wz_form s)" s]
    by (auto simp: handleNext_def goToStep_def Let_def outcome_def setError_def)
qed (auto simp: outcome_def handleBack_def goToStep_def handleStepClick_def reg_click_def indicator_click_def
    handleEditStep_def onAddMember_def handleEditMember_def sync_team_def Let_def)

lemma outcome_page:
  assumes "\<forall>send. op \<noteq> Op_submit send" "\<forall>send ok. op \<noteq> Op_duplicate send ok"
  shows "outcome (page_op trig parse date_ms now env op s) = outcome s"
proof (cases op)
  case (Op_create_team srv nm)
  then show ?thesis by (auto simp: handleCreate_def outcome_moves split: option.split sum.split)
qed (use assms in \<open>simp_all add: outcome_moves pick_team_def\<close>, (simp_all add: outcome_def wizard_defs enter_def)?)

lemma settle_dup:
  "wz_step s = S_review \<Longrightarrow> \<not> wz_dup s \<Longrightarrow> \<not> wz_success s \<Longrightarrow> wz_dup (settle_submit h a s) \<Longrightarrow>
     wz_step (settle_submit h a s) = S_review \<and> \<not> wz_success (settle_submit h a s)"
proof -
  have f: "wz_step (fold g es u) = wz_step u \<and> wz_success (fold g es u) = wz_success u"
    if "g = (\<lambda>e t. case e of AskDuplicate \<Rightarrow> t \<lparr> wz_dup := True \<rparr>
                           | FieldError k m \<Rightarrow> setError (js_string k) (js_string m) t
                           | RootError m \<Rightarrow> setError ''root'' (js_string m) t
                           | LocalizedRoot c _ \<Rightarrow> setError ''root'' c t)" for g es u
    by (induction es arbitrary: u) (auto simp: that setError_def split: form_effect.splits)
  show "wz_step s = S_review \<Longrightarrow> \<not> wz_dup s \<Longrightarrow> \<not> wz_success s \<Longrightarrow> wz_dup (settle_submit h a s) \<Longrightarrow>
     wz_step (settle_submit h a s) = S_review \<and> \<not> wz_success (settle_submit h a s)"
    by (auto simp: settle_submit_def setError_def handleRegistrationSuccess_def f[OF refl] split: sum.splits if_splits)
qed

lemma submit_dup:
  "wz_step s = S_review \<Longrightarrow> \<not> wz_dup s \<Longrightarrow> \<not> wz_success s \<Longrightarrow> wz_dup (submit_wizard parse date_ms now user send s) \<Longrightarrow>
     wz_step (submit_wizard parse date_ms now user send s) = S_review \<and> \<not> wz_success (submit_wizard parse date_ms now user send s)"
  by (auto simp: submit_wizard_def settle_dup split: option.splits)

text \<open>The question is only open on the review step.\<close>

definition dup_ok :: "wizard \<Rightarrow> bool" where
  "dup_ok s \<longleftrightarrow> (wz_dup s \<longrightarrow> wz_step s = S_review \<and> \<not> wz_success s)"

lemma dup_on_review:
  assumes "dup_ok s"
  shows "dup_ok (reg_step trig parse date_ms now env op s)"
proof (cases "wz_success s")
  case True
  then show ?thesis using assms
    by (auto simp: dup_ok_def reg_step_def handleRegisterAnother_def Let_def split: reg_op.split)
next
  case False
  note ns = False
  show ?thesis
  proof (cases "wz_dup s")
    case True
    then have r: "wz_step s = S_review" using assms by (simp add: dup_ok_def)
    let ?s1 = "\<lambda>b. s \<lparr> wz_dup := False, wz_form := setValue ''force'' (JBool b) (wz_form s) \<rparr>"
    show ?thesis
    proof (cases op)
      case (Op_duplicate send ok)
      then show ?thesis using True ns r submit_dup[of "?s1 ok" parse date_ms now "we_user env" send]
        by (auto simp: dup_ok_def reg_step_def answer_duplicate_def Let_def)
    qed (use True ns r in \<open>simp_all add: dup_ok_def reg_step_def\<close>)
  next
    case False
    note nd = False
    show ?thesis
    proof (cases op)
      case (Op_submit send)
      then show ?thesis using nd ns submit_dup[of s parse date_ms now "we_user env" send]
        by (auto simp: dup_ok_def reg_step_def submit_enabled_def)
    qed (use nd ns outcome_page[of op trig parse date_ms now env s] in
        \<open>simp_all add: dup_ok_def reg_step_def outcome_def del: page_op.simps\<close>, simp_all add: dup_ok_def)
  qed
qed

lemma reg_inv_step:
  assumes "form_trigger trig fo" "reg_inv fo env s" and d: "dup_ok s"
  shows "reg_inv fo env (reg_step trig parse date_ms now env op s)"
proof (cases "wz_success s")
  case True
  then show ?thesis using assms(2) reg_inv_another[OF assms(2)] by (simp add: reg_step_def split: reg_op.split)
next
  case False
  then show ?thesis using form_trigger.reg_inv_page[OF assms(1,2) False] d assms(2)
    by (cases op) (simp_all add: dup_ok_def reg_step_def del: page_op.simps)
qed

lemma reg_inv_dup_run:
  assumes "form_trigger trig fo" "reg_inv fo env s" "dup_ok s"
  shows "reg_inv fo env (reg_run trig parse date_ms now env ops s) \<and> dup_ok (reg_run trig parse date_ms now env ops s)"
  using assms(2,3)
proof (induction ops arbitrary: s)
  case (Cons op ops)
  then show ?case using reg_inv_step[OF assms(1)] dup_on_review[OF Cons.prems(2)] by (simp add: reg_run_simps)
qed (simp add: reg_run_simps)

definition opened :: "wizard_env \<Rightarrow> form_values \<Rightarrow> wizard" where
  "opened env draft = init_effect env (wizard_start \<lparr> wz_form := draft \<rparr>)"

lemma opened_inv: "reg_inv fo env (opened env draft)"
  by (rule reg_inv_start) (simp_all add: opened_def init_effect_def wizard_start_def Let_def)

lemma opened_run:
  assumes "form_trigger trig fo" "t = reg_run trig parse date_ms now env ops (opened env draft)"
  shows "reg_inv fo env t" "dup_ok t"
proof -
  have "dup_ok (opened env draft)" by (simp add: dup_ok_def opened_def init_effect_def wizard_start_def Let_def)
  then show "reg_inv fo env t" "dup_ok t"
    using reg_inv_dup_run[OF assms(1) opened_inv] assms(2) by simp_all
qed

definition register_ok :: "parser \<Rightarrow> (string \<Rightarrow> rat option) \<Rightarrow> rat \<Rightarrow> string \<Rightarrow> js \<Rightarrow> bool" where
  "register_ok parse date_ms now = schema_field_ok parse (register_fields date_ms now)"

definition documents_complete :: "wizard_env \<Rightarrow> form_values \<Rightarrow> bool" where
  "documents_complete env f \<longleftrightarrow>
     truthy (getValue ''photoPath'' f) \<and>
     (if isUnder18 env (getValue ''dateOfBirth'' f) then truthy (getValue ''birthCertificatePath'' f)
      else truthy (getValue ''nationalIdPath'' f) \<or> truthy (getValue ''passportPath'' f))"

lemma documents_missing_iff: "documents_missing env f = [] \<longleftrightarrow> documents_complete env f"
  by (auto simp: documents_missing_def documents_complete_def)





definition adult_env :: wizard_env where
  "adult_env = \<lparr> we_leader = False, we_categories = (\<lambda>_ _. []), we_eligible = (\<lambda>_ _. []), we_events = [],
     we_ymd = (\<lambda>_. Some (2000, 1, 2)), we_today = (2025, 1, 1), we_user = JObj [(''id'', JStr ''u1'')] \<rparr>"

definition adult_draft :: form_values where
  "adult_draft = [(''eventType'', JStr ''NATIONAL''), (''eventId'', JInt 3), (''organizationId'', JStr ''12''),
     (''sportId'', JInt 4), (''categoryId'', JInt 9), (''khFamilyName'', JStr ''Sok''), (''khGivenName'', JStr ''Dara''),
     (''enFamilyName'', JStr ''Sok''), (''enGivenName'', JStr ''Dara''), (''gender'', JStr ''male''),
     (''dateOfBirth'', JStr ''2000-01-02''), (''nationality'', JStr ''Cambodian''), (''phone'', JStr ''012345678''),
     (''idDocumentType'', JStr ''PASSPORT''), (''role'', JStr ''athlete''), (''photoPath'', JStr ''/api/files/1''),
     (''nationalIdPath'', JStr ''/api/files/2'')]"

definition adult_trigger :: "form_values \<Rightarrow> string list \<Rightarrow> bool" where
  "adult_trigger = field_trigger zparse (register_fields (\<lambda>_. Some 0) 1)"

definition adult_review :: wizard where
  "adult_review = reg_run adult_trigger zparse (\<lambda>_. Some 0) 1 adult_env [Op_next, Op_next, Op_next, Op_next]
     (opened adult_env adult_draft)"

lemma adult_trigger_ok: "form_trigger adult_trigger (register_ok zparse (\<lambda>_. Some 0) 1)"
  unfolding adult_trigger_def register_ok_def by (rule ft.form_trigger_axioms)

lemma adult_fields: "adult_trigger adult_draft (step_fields p adult_draft)"
  by (cases p) (simp_all only: step_fields_def base_step.case, code_simp+)

lemma adult_complete: "documents_complete adult_env adult_draft"
  by code_simp

lemma adult_steps: "wz_form s = adult_draft \<Longrightarrow> FORM_STEPS adult_env s = [S_event, S_category, S_personal, S_documents, S_review]"
proof -
  have "\<not> categoryIsTeam adult_env adult_draft" "\<not> we_leader adult_env" by code_simp+
  then show "wz_form s = adult_draft \<Longrightarrow> ?thesis" by (simp add: FORM_STEPS_def BASE_STEPS_def)
qed

lemma adult_next:
  assumes "wz_form s = adult_draft" "\<not> wz_success s" "\<not> wz_window s" "\<not> wz_dup s" "wz_step s \<noteq> S_team" "wz_step s \<noteq> S_review"
  shows "reg_step adult_trigger parse date_ms now adult_env Op_next s = goToStep adult_env (nat (stepIndex adult_env s + 1)) s"
  using assms adult_fields[of "wz_step s"] adult_complete[folded documents_missing_iff]
  by (cases "wz_step s")
    (simp_all add: reg_step_def next_enabled_def handleNext_def stepIndex_def adult_steps Let_def)

lemma adult_at_review: "wz_step adult_review = S_review"
proof -
  have "wz_form (opened adult_env adult_draft) = adult_draft \<and> wz_step (opened adult_env adult_draft) = S_event \<and>
      \<not> wz_success (opened adult_env adult_draft) \<and> \<not> wz_window (opened adult_env adult_draft) \<and>
      \<not> wz_dup (opened adult_env adult_draft)"
    by (simp add: opened_def init_effect_def wizard_start_def adult_env_def is_org_user_def or_else_def)
  then show ?thesis
    by (simp add: adult_review_def reg_run_simps adult_next goToStep_def stepIndex_def adult_steps)
qed


section \<open>An accepted registration\<close>

lemma settle_changes:
  assumes "settle_submit h a s = t" "\<not> wz_success s" "wz_success t \<or> wz_ref t \<noteq> wz_ref s"
  shows "h \<and> (\<exists>i. a = Inr i \<and> t = handleRegistrationSuccess i s)"
proof -
  have f: "wz_success (fold g es u) = wz_success u \<and> wz_ref (fold g es u) = wz_ref u"
    if "g = (\<lambda>e t. case e of AskDuplicate \<Rightarrow> t \<lparr> wz_dup := True \<rparr>
                           | FieldError k m \<Rightarrow> setError (js_string k) (js_string m) t
                           | RootError m \<Rightarrow> setError ''root'' (js_string m) t
                           | LocalizedRoot c _ \<Rightarrow> setError ''root'' c t)" for g es u
    by (induction es arbitrary: u) (auto simp: that setError_def split: form_effect.splits)
  have h using assms by (rule_tac ccontr) (auto simp: settle_submit_def setError_def)
  moreover have "\<exists>i. a = Inr i"
  proof (cases a)
    case (Inl body)
    then show ?thesis using assms \<open>h\<close> f[OF refl]
      by (cases "register_on_error True body") (auto simp: settle_submit_def)
  qed simp
  ultimately show ?thesis using assms(1) by (auto simp: settle_submit_def)
qed

lemma submit_accepted:
  assumes "zod_parser parse" "reg_inv fo env s" "wz_step s = S_review" "\<not> wz_success s"
    and "wz_success (submit_wizard parse date_ms now user send s) \<or> wz_ref (submit_wizard parse date_ms now user send s) \<noteq> wz_ref s"
  shows "\<exists>d i. parse (registerSchema date_ms now) (JObj (wz_form s)) = Inr d \<and> valid_registration date_ms now d \<and>
    truthy (js_get ''id'' user) \<and> send (formDataToPayload d (js_string (js_get ''id'' user))) = Inr i \<and>
    documents_complete env (wz_form s) \<and>
    submit_wizard parse date_ms now user send s = handleRegistrationSuccess i s"
proof -
  let ?t = "submit_wizard parse date_ms now user send s"
  obtain d where d: "parse (registerSchema date_ms now) (JObj (wz_form s)) = Inr d"
    using assms(4,5) by (cases "parse (registerSchema date_ms now) (JObj (wz_form s))")
      (auto simp: submit_wizard_def submit_values_def)
  let ?a = "send (formDataToPayload d (js_string (js_get ''id'' user)))"
  have "settle_submit (truthy (js_get ''id'' user)) ?a s = ?t"
    using d by (simp add: submit_wizard_def submit_values_def)
  from settle_changes[OF this assms(4,5)] obtain i where
    i: "truthy (js_get ''id'' user)" "?a = Inr i" "?t = handleRegistrationSuccess i s" by blast
  have dc: "documents_complete env (wz_form s)"
    using review_gates[OF assms(2,3)] by (auto simp: reg_gate_def documents_missing_iff FORM_STEPS_def BASE_STEPS_def split: if_splits)
  show ?thesis using d zod_parser.register_accepted[OF assms(1) d] i dc by blast
qed

lemma success_effects:
  "wz_ref (handleRegistrationSuccess i s) = refNo_of i \<and>
   (if truthy (wz_team s) then wz_step (handleRegistrationSuccess i s) = S_team \<and> wz_member (handleRegistrationSuccess i s)
    else wz_success (handleRegistrationSuccess i s))"
  by (simp add: handleRegistrationSuccess_def)

lemma documents_force: "documents_complete env (setValue ''force'' v f) = documents_complete env f"
  by (simp add: documents_complete_def isUnder18_def)

lemma accepted_ops:
  assumes "dup_ok t" "\<not> wz_success t"
    and "t' = reg_step trig parse date_ms now env op t" "wz_success t' \<or> wz_ref t' \<noteq> wz_ref t"
  obtains (submit) send where "op = Op_submit send" "\<not> wz_dup t" "submit_enabled False t"
      "t' = submit_wizard parse date_ms now (we_user env) send t"
    | (duplicate) send where "op = Op_duplicate send True" "wz_dup t" "wz_step t = S_review"
      "t' = submit_wizard parse date_ms now (we_user env) send
        (t \<lparr> wz_dup := False, wz_form := setValue ''force'' (JBool True) (wz_form t) \<rparr>)"
proof -
  have "(\<exists>send. op = Op_submit send) \<or> (\<exists>send ok. op = Op_duplicate send ok)"
  proof (rule ccontr)
    assume n: "\<not> ?thesis"
    then have "outcome t' = outcome t"
      using assms(2,3) outcome_page[of op trig parse date_ms now env t]
      by (cases op) (simp_all add: reg_step_def split: if_splits)
    then show False using assms(2,4) by (simp add: outcome_def)
  qed
  then show thesis
  proof (elim disjE exE)
    fix send assume op: "op = Op_submit send"
    have "\<not> wz_dup t \<and> submit_enabled False t"
    proof (rule ccontr)
      assume "\<not> (\<not> wz_dup t \<and> submit_enabled False t)"
      then have "t' = t" using assms(2,3) op by (auto simp: reg_step_def)
      then show False using assms(2,4) by simp
    qed
    then have "\<not> wz_dup t" "submit_enabled False t" by simp_all
    then show thesis using assms(2,3) op submit by (simp add: reg_step_def)
  next
    fix send ok assume op: "op = Op_duplicate send ok"
    have d: "wz_dup t"
    proof (rule ccontr)
      assume "\<not> wz_dup t"
      then have "t' = t" using assms(2,3) op by (simp add: reg_step_def)
      then show False using assms(2,4) by simp
    qed
    then have "wz_step t = S_review" using assms(1) by (simp add: dup_ok_def)
    moreover have ok
    proof (rule ccontr)
      assume "\<not> ok"
      then have "wz_success t' = wz_success t \<and> wz_ref t' = wz_ref t"
        using assms(2,3) op d by (simp add: reg_step_def answer_duplicate_def)
      then show False using assms(2,4) by simp
    qed
    ultimately show thesis using assms(2,3) op d duplicate by (simp add: reg_step_def answer_duplicate_def Let_def)
  qed
qed

text \<open>C16. A registration that is accepted, in any reachable state of the wizard and by whatever action.
  Only two actions get one accepted: the submit button, and the confirmation of the question about a
  duplicate, which sends the same form with the override set. Either way the review step was shown, the
  form that was sent passed the whole schema, the request was the payload of the validated data under the
  signed-in user's id, the documents the age asks for were there, and the reference number is that of
  the answered enrolment; with a chosen team the wizard returns to the team, otherwise it shows the
  success page. The button needs in addition that no closed registration window is shown; the
  confirmation does not look at the window.\<close>

theorem accepted_submit:
  assumes "zod_parser parse" "form_trigger trig (register_ok parse date_ms now)"
    and "t = reg_run trig parse date_ms now env ops (opened env draft)" "\<not> wz_success t"
    and "t' = reg_step trig parse date_ms now env op t" "wz_success t' \<or> wz_ref t' \<noteq> wz_ref t"
  shows "\<exists>send f d i.
    (op = Op_submit send \<and> f = wz_form t \<and> \<not> wz_dup t \<and> \<not> wz_window t \<or>
     op = Op_duplicate send True \<and> f = setValue ''force'' (JBool True) (wz_form t) \<and> wz_dup t) \<and>
    wz_step t = S_review \<and>
    parse (registerSchema date_ms now) (JObj f) = Inr d \<and> valid_registration date_ms now d \<and>
    truthy (js_get ''id'' (we_user env)) \<and>
    send (formDataToPayload d (js_string (js_get ''id'' (we_user env)))) = Inr i \<and>
    documents_complete env (wz_form t) \<and> wz_ref t' = refNo_of i \<and>
    (if truthy (wz_team t) then wz_step t' = S_team \<and> wz_member t' else wz_success t')"
proof -
  note inv = opened_run[OF assms(2,3)]
  from inv(2) assms(4-6) show ?thesis
  proof (cases rule: accepted_ops)
    case (submit send)
    then have e: "wz_step t = S_review" "\<not> wz_window t" by (simp_all add: submit_enabled_def)
    from submit_accepted[OF assms(1) inv(1) e(1) assms(4) assms(6)[unfolded submit(4)]]
    show ?thesis using submit e success_effects[of _ t] by metis
  next
    case (duplicate send)
    let ?s1 = "t \<lparr> wz_dup := False, wz_form := setValue ''force'' (JBool True) (wz_form t) \<rparr>"
    have "reg_inv (register_ok parse date_ms now) env ?s1" using reg_inv_force[OF inv(1) duplicate(3)] .
    moreover have "wz_step ?s1 = S_review" "\<not> wz_success ?s1" using duplicate(3) assms(4) by simp_all
    ultimately obtain d i where "parse (registerSchema date_ms now) (JObj (wz_form ?s1)) = Inr d"
        "valid_registration date_ms now d" "truthy (js_get ''id'' (we_user env))"
        "send (formDataToPayload d (js_string (js_get ''id'' (we_user env)))) = Inr i"
        "documents_complete env (wz_form ?s1)" "t' = handleRegistrationSuccess i ?s1"
      using submit_accepted[OF assms(1), of "register_ok parse date_ms now" env ?s1 date_ms now "we_user env" send] assms(6)
      unfolding duplicate(4) by auto
    then show ?thesis using duplicate success_effects[of i ?s1]
      by (intro exI[of _ send] exI[of _ "wz_form ?s1"] exI[of _ d] exI[of _ i]) (simp add: documents_force)
  qed
qed

text \<open>A window check that answered closed holds the button and Next back until another one answers.\<close>

lemma closed_window_holds:
  assumes "\<not> wz_success s" "checkWindow (getValue ''eventId'' (wz_form s)) answer today \<noteq> None"
  shows "\<not> submit_enabled p (reg_step trig parse date_ms now env (Op_window answer today) s)"
    and "\<not> next_enabled (reg_step trig parse date_ms now env (Op_window answer today) s)"
  using assms by (simp_all add: reg_step_def submit_enabled_def next_enabled_def)

text \<open>A check that failed, or has not answered yet, holds nothing back.\<close>

lemma failed_check_passes: "checkWindow e (Inl err) today = None" "\<not> wz_window wizard_start"
  by (simp_all add: checkWindow_def wizard_start_def)

lemma adult_review_state:
  "wz_form adult_review = adult_draft \<and> \<not> wz_success adult_review \<and> \<not> wz_window adult_review \<and>
      wz_ref adult_review = [] \<and> \<not> truthy (wz_team adult_review) \<and> \<not> wz_dup adult_review"
proof -
  have "wz_form (opened adult_env adult_draft) = adult_draft \<and> wz_step (opened adult_env adult_draft) = S_event \<and>
      \<not> wz_success (opened adult_env adult_draft) \<and> \<not> wz_window (opened adult_env adult_draft) \<and>
      wz_ref (opened adult_env adult_draft) = [] \<and> wz_team (opened adult_env adult_draft) = JNull \<and>
      \<not> wz_dup (opened adult_env adult_draft)"
    by (simp add: opened_def init_effect_def wizard_start_def adult_env_def is_org_user_def or_else_def)
  then show ?thesis by (simp add: adult_review_def reg_run_simps adult_next goToStep_def stepIndex_def adult_steps)
qed

lemma adult_submit:
  "wz_ref (reg_step adult_trigger zparse (\<lambda>_. Some 0) 1 adult_env (Op_submit (\<lambda>_. Inr 42)) adult_review) = ''REG-000042'' \<and>
   \<not> wz_success adult_review \<and> wz_ref adult_review = []"
proof -
  note st = adult_review_state
  have "\<not> Option.is_none (submit_values zparse (registerSchema (\<lambda>_. Some 0) 1) adult_draft)" by code_simp
  then obtain d where "submit_values zparse (registerSchema (\<lambda>_. Some 0) 1) adult_draft = Some d"
    by (auto simp: Option.is_none_def)
  moreover have "refNo_of 42 = ''REG-000042''" by code_simp
  ultimately show ?thesis
    using st adult_at_review
    by (simp add: reg_step_def submit_enabled_def submit_wizard_def settle_submit_def handleRegistrationSuccess_def
        adult_env_def or_else_def)
qed

lemma accepted_submit_witness:
  "\<exists>d. zparse (registerSchema (\<lambda>_. Some 0) 1) (JObj (wz_form adult_review)) = Inr d"
  using accepted_submit[OF zp.zod_parser_axioms adult_trigger_ok adult_review_def conjunct1[OF conjunct2[OF adult_submit]] refl,
      of "Op_submit (\<lambda>_. Inr 42)"] adult_submit by auto

end
