(* ===== verification/Registration_Selection.thy ===== *)
theory Registration_Selection
  imports Registration_Wizard "HOL-Library.Product_Lexorder"
begin

text \<open>
  What the registration wizard guarantees about its selections: the chosen event,
  sport and category always belong together, the age rule is the calendar rule,
  the registration window, and the facts behind the open points of the team flow.
\<close>

section \<open>Age\<close>

text \<open>The age rule: a readable date of birth counts as under eighteen exactly when the eighteenth
  birthday is after today, in calendar order; an empty or unreadable date does not.\<close>

theorem isUnder18_calendar:
  "isUnder18 env v \<longleftrightarrow>
     truthy v \<and> (\<exists>y m d. we_ymd env (js_string v) = Some (y, m, d) \<and> we_today env < (y + 18, m, d))"
  by (cases "we_today env") (auto simp: isUnder18_def Let_def split: option.split)

section \<open>The registration window\<close>

text \<open>The window: an error is shown exactly when an event is chosen and the server says its
  registration is not open, with the date it opens or closed on when that date explains it; while it
  is shown neither Next nor Submit is enabled, and without it Submit needs only the review step and
  no pending request.\<close>

theorem registration_window:
  "(checkWindow eventId answer today = None \<longleftrightarrow>
      \<not> (truthy eventId \<and> (\<exists>ev. answer = Inr ev \<and> js_get ''registration_is_open'' ev = JBool False))) \<and>
   (\<forall>d. checkWindow eventId answer today = Some (OpensOn d) \<longrightarrow> truthy d \<and> today < js_str d) \<and>
   (\<forall>d. checkWindow eventId answer today = Some (ClosedOn d) \<longrightarrow> truthy d \<and> js_str d < today) \<and>
   (let s' = s \<lparr> wz_window := checkWindow eventId answer today \<noteq> None \<rparr>
    in (checkWindow eventId answer today \<noteq> None \<longrightarrow> \<not> next_enabled s' \<and> \<not> submit_enabled p s') \<and>
       (checkWindow eventId answer today = None \<longrightarrow> (submit_enabled p s' \<longleftrightarrow> wz_step s = S_review \<and> \<not> p)))"
  by (cases answer) (auto simp: checkWindow_def Let_def next_enabled_def submit_enabled_def split: if_splits)

lemma registration_window_witness:
  "checkWindow (JInt 3) (Inr (JObj [(''registration_is_open'', JBool False)])) ''2025-01-01'' \<noteq> None"
  using registration_window[of "JInt 3" "Inr (JObj [(''registration_is_open'', JBool False)])" "''2025-01-01''" wizard_start True]
  by (simp add: or_else_def)

section \<open>Selections that belong together\<close>

text \<open>The lists carry numeric ids.\<close>

definition numeric_ids :: "wizard_env \<Rightarrow> bool" where
  "numeric_ids env \<longleftrightarrow>
     (\<forall>e \<in> set (we_events env). \<exists>r. js_get ''id'' e = JNum (Fin r)) \<and>
     (\<forall>e og. \<forall>sp \<in> set (we_eligible env e og). \<exists>r. js_get ''sports_id'' sp = JNum (Fin r)) \<and>
     (\<forall>e sp. \<forall>c \<in> set (we_categories env e sp). \<exists>r. js_get ''id'' c = JNum (Fin r))"

definition selection_ok :: "wizard_env \<Rightarrow> form_values \<Rightarrow> bool" where
  "selection_ok env f \<longleftrightarrow>
     (getValue ''eventId'' f = JNull \<or> getValue ''eventId'' f \<in> set (event_options env f)) \<and>
     (getValue ''sportId'' f = JNull \<or> getValue ''sportId'' f \<in> set (sport_options env f)) \<and>
     (getValue ''categoryId'' f = JNull \<or> getValue ''categoryId'' f \<in> set (category_options env f))"

lemmas option_defs = event_options_def sport_options_def category_options_def eligible_of_def categories_of_def

lemma options_cong:
  assumes "\<And>k. k \<in> {''eventType'', ''eventId'', ''organizationId'', ''sportId'', ''categoryId''} \<Longrightarrow> getValue k g = getValue k f"
  shows "selection_ok env g = selection_ok env f"
  using assms by (simp add: selection_ok_def option_defs)

lemma selection_same: "wz_form t = wz_form s \<Longrightarrow> selection_ok env (wz_form t) = selection_ok env (wz_form s)"
  by simp

lemma numeric_option:
  "numeric_ids env \<Longrightarrow> v \<in> set (event_options env f) \<union> set (sport_options env f) \<union> set (category_options env f) \<Longrightarrow>
     \<exists>r. v = JNum (Fin r)"
  by (auto simp: numeric_ids_def option_defs split: if_splits)

lemma selection_event:
  assumes "numeric_ids env" "v \<in> set (event_options env (wz_form s))"
  shows "selection_ok env (wz_form (choose_event v s))"
proof -
  have t: "truthy (getValue ''eventType'' (wz_form s))" using assms(2) by (auto simp: event_options_def split: if_splits)
  obtain r where r: "v = JNum (Fin r)" using numeric_option[OF assms(1)] assms(2) by blast
  let ?g = "wz_form (choose_event v s)"
  have g: "getValue ''eventId'' ?g = v" "getValue ''sportId'' ?g = JNull" "getValue ''categoryId'' ?g = JNull"
      "getValue ''eventType'' ?g = getValue ''eventType'' (wz_form s)"
    using t r by (simp_all add: choose_event_def setValues_simps)
  have "event_options env ?g = event_options env (wz_form s)" using g(4) by (simp add: event_options_def)
  then show ?thesis using g assms(2) by (simp add: selection_ok_def)
qed

lemma selection_sport:
  assumes "numeric_ids env" "selection_ok env (wz_form s)" "v \<in> insert JNull (set (sport_options env (wz_form s)))"
  shows "selection_ok env (wz_form (choose_sport v s))"
proof (cases "truthy (getValue ''eventId'' (wz_form s)) \<and> truthy (getValue ''organizationId'' (wz_form s))")
  case True
  let ?g = "wz_form (choose_sport v s)"
  have g: "getValue ''sportId'' ?g = (if truthy v then JNum (js_to_number v) else JNull)" "getValue ''categoryId'' ?g = JNull"
      "getValue k ?g = getValue k (wz_form s)" if "k \<in> {''eventType'', ''eventId'', ''organizationId''}" for k
    using True that by (auto simp: choose_sport_def setValues_simps)
  have o: "event_options env ?g = event_options env (wz_form s)" "sport_options env ?g = sport_options env (wz_form s)"
    using g(3) by (simp_all add: option_defs)
  have "v = JNull \<or> (\<exists>r. v = JNum (Fin r))" using numeric_option[OF assms(1)] assms(3) by blast
  then have "getValue ''sportId'' ?g = JNull \<or> getValue ''sportId'' ?g \<in> set (sport_options env ?g)"
    using g(1)[of "''eventId''"] assms(3) o(2) by auto
  moreover have "getValue ''eventId'' ?g = getValue ''eventId'' (wz_form s)" using g(3) by simp
  ultimately show ?thesis using assms(2) o(1) g(2)[of "''eventId''"] by (auto simp: selection_ok_def)
qed (use assms(2) in \<open>auto simp: choose_sport_def\<close>)

lemma selection_category:
  assumes "numeric_ids env" "selection_ok env (wz_form s)" "v \<in> set (category_options env (wz_form s))"
  shows "selection_ok env (wz_form (choose_category v s))"
proof -
  obtain r where r: "v = JNum (Fin r)" using numeric_option[OF assms(1)] assms(3) by blast
  then show ?thesis using assms(2,3) by (auto simp: selection_ok_def choose_category_def option_defs)
qed

lemma selection_organization:
  "selection_ok env (wz_form s) \<Longrightarrow> selection_ok env (wz_form (choose_organization env v s))"
  by (auto simp: selection_ok_def choose_organization_def setValues_simps event_options_def)

lemma selection_event_type: "selection_ok env (wz_form (choose_eventType v s))"
  by (simp add: selection_ok_def choose_eventType_def setValues_simps)

lemma submit_form: "wz_form (submit_wizard parse date_ms now user send s) = wz_form s"
  using settle_submit_rest by (simp add: submit_wizard_def split: option.split)

lemma selection_enter:
  "k \<notin> {''eventType'', ''eventId'', ''organizationId'', ''sportId'', ''categoryId''} \<Longrightarrow>
     selection_ok env (setValue k v f) = selection_ok env f"
  by (rule options_cong) auto

lemma selection_page:
  assumes "numeric_ids env" "selection_ok env (wz_form s)"
  shows "selection_ok env (wz_form (page_op trig parse date_ms now env op s))"
proof (cases op)
  case (Op_document k v)
  then show ?thesis using assms document_inputs_set[of env s] by (auto simp: enter_def selection_enter)
next
  case (Op_personal k v)
  then show ?thesis using assms by (auto simp: enter_def selection_enter personal_inputs_def)
next
  case (Op_create_team srv nm)
  then show ?thesis using assms
    by (auto simp: handleCreate_def sync_team_def selection_enter split: option.split sum.split)
next
  case (Op_pick_team team)
  then show ?thesis using assms by (auto simp: pick_team_def sync_team_def selection_enter)
next
  case (Op_duplicate send ok)
  then show ?thesis using assms by (auto simp: answer_duplicate_def Let_def submit_form selection_enter)
qed (use assms selection_event[OF assms(1)] selection_sport[OF assms] selection_category[OF assms] in
  \<open>simp_all add: handleNext_rest moves_rest moves_form selection_organization selection_event_type submit_form\<close>)

lemma selection_another:
  "selection_ok env (wz_form (handleRegisterAnother env s)) = selection_ok env (wz_form s)"
  by (rule options_cong) (auto simp: handleRegisterAnother_def Let_def)

text \<open>The selections always belong together: from the empty form, after any actions, the chosen
  event is one of the chosen type, the chosen sport is eligible for that event and organization, and
  the chosen category belongs to that event and sport; an earlier choice that changes clears the
  later ones.\<close>

theorem selections_belong_together:
  assumes "numeric_ids env" "t = reg_run trig parse date_ms now env ops (opened env register_defaults)"
  shows "selection_ok env (wz_form t)"
proof -
  have "selection_ok env (wz_form (opened env register_defaults))"
    by (auto simp: selection_ok_def opened_def init_effect_def register_defaults_def Let_def)
  moreover have "selection_ok env (wz_form s) \<Longrightarrow> selection_ok env (wz_form (reg_run trig parse date_ms now env ops s))" for s
  proof (induction ops arbitrary: s)
    case (Cons op ops)
    have "selection_ok env (wz_form (reg_step trig parse date_ms now env op s))"
      using Cons.prems selection_page[OF assms(1)] selection_another
      by (cases op) (simp_all add: reg_step_def del: page_op.simps)
    then show ?case using Cons.IH by (simp add: reg_run_simps)
  qed (simp add: reg_run_simps)
  ultimately show ?thesis using assms(2) by blast
qed

definition one_event_env :: wizard_env where
  "one_event_env = adult_env \<lparr> we_events := [JObj [(''id'', JInt 3), (''type'', JStr ''NATIONAL'')]] \<rparr>"

lemma selections_belong_together_witness:
  "selection_ok one_event_env (wz_form (reg_run (\<lambda>_ _. True) zparse (\<lambda>_. Some 0) 1 one_event_env
     [Op_event_type ''NATIONAL'', Op_event (JInt 3)] (opened one_event_env register_defaults)))"
  by (rule selections_belong_together[OF _ refl]) (simp add: numeric_ids_def one_event_env_def adult_env_def or_else_def)

section \<open>Open points of the team flow\<close>

text \<open>The chosen team and its id in the form survive a change of the category, the sport or the event.\<close>

lemma team_survives_new_selection:
  "wz_team (choose_category v s) = wz_team s" "wz_team (choose_sport v s) = wz_team s"
  "wz_team (choose_event v s) = wz_team s" "wz_team (choose_eventType v s) = wz_team s"
  "getValue ''teamId'' (wz_form (choose_category v s)) = getValue ''teamId'' (wz_form s)"
  "getValue ''teamId'' (wz_form (choose_eventType v s)) = getValue ''teamId'' (wz_form s)"
  by (simp_all add: wizard_defs setValues_simps)

text \<open>After a member of a team is registered, the form keeps every value, the override of the
  duplicate warning included, for the next member.\<close>

lemma member_form_kept: "wz_form (handleRegistrationSuccess i s) = wz_form s"
  by (simp add: handleRegistrationSuccess_def)

text \<open>The consent of the review step is not needed to submit.\<close>

lemma submit_without_consent: "submit_enabled p (s \<lparr> wz_consent := b \<rparr>) = submit_enabled p s"
  by (simp add: submit_enabled_def)

text \<open>The roster's minimum never stops Next: nothing changes the validity the wizard keeps.\<close>

lemma roster_never_stops:
  "wz_roster (page_op trig parse date_ms now env op s) = wz_roster s"
proof -
  have r: "wz_roster (submit_wizard parse date_ms now u send t) = wz_roster t" for u send t
    using settle_submit_rest by (simp add: submit_wizard_def split: option.split)
  show ?thesis
    by (cases op) (auto simp: handleNext_rest moves_rest r wizard_defs handleEditStep_def onAddMember_def Let_def
        pick_team_def handleCreate_def enter_def answer_duplicate_def split: option.split sum.split)
qed

text \<open>
  The lists are fetched late: with a restored draft the steps can be walked before the categories are
  answered. Then no team is asked for, and when the list arrives the wizard is past the team step.
\<close>

definition late_env :: wizard_env where
  "late_env = adult_env \<lparr> we_categories := (\<lambda>_ _. [JObj [(''id'', JInt 9), (''team_size_max'', JInt 5)]]) \<rparr>"

lemma late_categories_skip_team:
  "wz_step adult_review = S_review \<and> S_team \<notin> set (FORM_STEPS adult_env adult_review) \<and>
   S_team \<in> set (FORM_STEPS late_env adult_review) \<and> \<not> truthy (wz_team adult_review) \<and> submit_enabled False adult_review"
proof -
  have f: "wz_form adult_review = adult_draft" "\<not> wz_window adult_review" "\<not> truthy (wz_team adult_review)"
    using adult_review_state by simp_all
  have "categoryIsTeam late_env adult_draft" "\<not> we_leader late_env" by code_simp+
  then show ?thesis using f adult_at_review adult_steps[OF f(1)]
    by (simp add: FORM_STEPS_def submit_enabled_def)
qed

end
