(* ===== verification/Open_Survey_Fields.thy ===== *)
theory Open_Survey_Fields
  imports Form Http Js_Array
begin

text \<open>
  The producer side of the open survey, modules/opensurvey/schema/openSurveyField.schema.ts
  and the admin components OpenSurveyFieldBuilder, OpenSurveyFieldDialog and
  OpenSurveyFieldOptionsEditor: the field vocabulary, the builder's form schema,
  the codec between the form's options and the stored dictionary, the two DTOs,
  the dialog's save, and the move of a field up or down. A value of the form and
  a field from the server are untyped JSON.
\<close>

section \<open>Vocabulary\<close>

definition OPEN_SURVEY_FIELD_TYPES :: "string list" where
  "OPEN_SURVEY_FIELD_TYPES = [''text'', ''number'', ''select'', ''radio'', ''checkbox'']"

definition isChoiceFieldType :: "string \<Rightarrow> bool" where
  "isChoiceFieldType t \<longleftrightarrow> t \<in> set [''select'', ''radio'', ''checkbox'']"

definition openSurveyFieldDefSchema :: schema where
  "openSurveyFieldDefSchema = ZObject False
     [(''id'', znum), (''event_id'', znum), (''label_kh'', zstr), (''label_en'', znullable_optional zstr),
      (''field_type'', zstr), (''options'', ZNullable (ZRecord ZUnknown)), (''required'', ZBoolean),
      (''sort_order'', znum), (''active'', ZBoolean), (''created_at'', znullable_optional zstr)]"

definition openSurveyFieldDefListSchema :: schema where
  "openSurveyFieldDefListSchema = ZObject False
     [(''data'', ZArray openSurveyFieldDefSchema), (''count'', ZOptional znum)]"

section \<open>The builder's form schema\<close>

record field_messages =
  labelKhRequired :: string
  optionsRequired :: string
  optionEmpty :: string
  optionDuplicate :: string
  optionComma :: string

definition optionInputSchema :: schema where
  "optionInputSchema = ZObject False [(''value'', zstr), (''label'', zstr)]"

definition option_value :: "js \<Rightarrow> string" where
  "option_value item = trim (js_str (js_get ''value'' item))"

fun option_issues :: "field_messages \<Rightarrow> nat \<Rightarrow> string list \<Rightarrow> js list \<Rightarrow> issue list" where
  "option_issues m i seen [] = []"
| "option_issues m i seen (item # items) =
     (let value = option_value item; path = [''options'', show_nat i, ''value''] in
      if value = [] then (path, optionEmpty m) # option_issues m (Suc i) seen items
      else (if CHR '','' \<in> set value then [(path, optionComma m)] else []) @
           (if value \<in> set seen then [(path, optionDuplicate m)] else []) @
           option_issues m (Suc i) (value # seen) items)"

definition field_issues :: "field_messages \<Rightarrow> js \<Rightarrow> issue list" where
  "field_issues m values =
     (if \<not> isChoiceFieldType (js_str (js_get ''field_type'' values)) then []
      else if js_list (js_get ''options'' values) = [] then [([''options''], optionsRequired m)]
      else option_issues m 0 [] (js_list (js_get ''options'' values)))"

definition field_form_fields :: "(string \<times> schema) list" where
  "field_form_fields =
     [(''label_kh'', ZString [Trim, MinLen 1]), (''label_en'', ZString [Trim]),
      (''field_type'', ZEnum OPEN_SURVEY_FIELD_TYPES), (''options'', ZArray optionInputSchema),
      (''required'', ZBoolean), (''active'', ZBoolean), (''sort_order'', zint)]"

definition buildOpenSurveyFieldFormSchema :: "field_messages \<Rightarrow> schema" where
  "buildOpenSurveyFieldFormSchema m = ZRefine (ZObject False field_form_fields) (field_issues m)"

section \<open>The options codec\<close>

definition option_js :: "string \<Rightarrow> string \<Rightarrow> js" where
  "option_js v l = JObj [(''value'', JStr v), (''label'', JStr l)]"

definition choice_to_input :: "js \<Rightarrow> js option" where
  "choice_to_input item =
     (case item of
        JStr s \<Rightarrow> Some (option_js s s)
      | JObj _ \<Rightarrow>
          (case js_get ''value'' item of
             JStr v \<Rightarrow>
               if v = [] then None
               else Some (option_js v
                 (case js_get ''label'' item of JStr l \<Rightarrow> if l \<noteq> [] then l else v | _ \<Rightarrow> v))
           | _ \<Rightarrow> None)
      | _ \<Rightarrow> None)"

fun is_str :: "js \<Rightarrow> bool" where
  "is_str (JStr _) = True"
| "is_str _ = False"

definition fieldOptionsToInputs :: "js \<Rightarrow> js list" where
  "fieldOptionsToInputs options =
     (if \<not> truthy options then []
      else (case js_get ''choices'' options of
              JArr items \<Rightarrow> List.map_filter choice_to_input items
            | _ \<Rightarrow> map (\<lambda>e. option_js (fst e) (js_str (snd e)))
                   (filter (\<lambda>e. is_str (snd e)) (spread_fields options))))"

definition stored_option :: "js \<Rightarrow> js" where
  "stored_option item =
     (let label = trim (js_str (js_get ''label'' item))
      in option_js (option_value item) (if label \<noteq> [] then label else option_value item))"

definition inputsToFieldOptions :: "js list \<Rightarrow> js" where
  "inputsToFieldOptions items = JObj [(''choices'', JArr (map stored_option items))]"

section \<open>Mappers\<close>

definition normalizeFieldType :: "string \<Rightarrow> string" where
  "normalizeFieldType fieldType =
     (let normalized = to_lower (trim fieldType) in
      if normalized = ''dropdown'' then ''select''
      else if normalized \<in> set OPEN_SURVEY_FIELD_TYPES then normalized
      else ''text'')"

definition fieldToFormValues :: "js option \<Rightarrow> js \<Rightarrow> js" where
  "fieldToFormValues field nextSortOrder =
     (case field of
        None \<Rightarrow> JObj
          [(''label_kh'', JStr []), (''label_en'', JStr []), (''field_type'', JStr ''text''),
           (''options'', JArr []), (''required'', JBool True), (''active'', JBool True),
           (''sort_order'', nextSortOrder)]
      | Some f \<Rightarrow> JObj
          [(''label_kh'', js_get ''label_kh'' f), (''label_en'', or_nullish (js_get ''label_en'' f) (JStr [])),
           (''field_type'', JStr (normalizeFieldType (js_str (js_get ''field_type'' f)))),
           (''options'', JArr (fieldOptionsToInputs (js_get ''options'' f))),
           (''required'', js_get ''required'' f), (''active'', js_get ''active'' f),
           (''sort_order'', js_get ''sort_order'' f)])"

definition dto_label_en :: "js \<Rightarrow> js" where
  "dto_label_en values =
     (let l = trim (js_str (js_get ''label_en'' values)) in if l \<noteq> [] then JStr l else JNull)"

definition dto_options :: "js \<Rightarrow> js" where
  "dto_options values =
     (if isChoiceFieldType (js_str (js_get ''field_type'' values))
      then inputsToFieldOptions (js_list (js_get ''options'' values)) else JNull)"

definition formValuesToCreateDto :: "js \<Rightarrow> js" where
  "formValuesToCreateDto values = JObj
     [(''label_kh'', JStr (trim (js_str (js_get ''label_kh'' values)))),
      (''label_en'', dto_label_en values), (''field_type'', js_get ''field_type'' values),
      (''options'', dto_options values), (''required'', js_get ''required'' values),
      (''sort_order'', js_get ''sort_order'' values)]"

definition formValuesToUpdateDto :: "js \<Rightarrow> js" where
  "formValuesToUpdateDto values = JObj
     [(''label_kh'', JStr (trim (js_str (js_get ''label_kh'' values)))),
      (''label_en'', dto_label_en values), (''field_type'', js_get ''field_type'' values),
      (''options'', dto_options values), (''required'', js_get ''required'' values),
      (''active'', js_get ''active'' values), (''sort_order'', js_get ''sort_order'' values)]"

section \<open>The dialog\<close>

record field_form_errors =
  fe_labelKh :: "string option"
  fe_options :: "string option"
  fe_optionValues :: "(string \<times> string) list"

definition no_field_errors :: field_form_errors where
  "no_field_errors = \<lparr> fe_labelKh = None, fe_options = None, fe_optionValues = [] \<rparr>"

text \<open>The first message of a place wins; a row is addressed by its printed index.\<close>

definition keep_first :: "string option \<Rightarrow> string \<Rightarrow> string option" where
  "keep_first old msg = (case old of None \<Rightarrow> Some msg | Some x \<Rightarrow> Some x)"

definition add_field_error :: "issue \<Rightarrow> field_form_errors \<Rightarrow> field_form_errors" where
  "add_field_error issue e =
     (let (path, message) = issue in
      (case path of
         p0 # rest \<Rightarrow>
           if p0 = ''label_kh'' then e\<lparr> fe_labelKh := keep_first (fe_labelKh e) message \<rparr>
           else if p0 = ''options'' then
             (case rest of
                index # leaf # _ \<Rightarrow>
                  if all_digits index \<and> leaf = ''value''
                  then (if map_of (fe_optionValues e) index = None
                        then e\<lparr> fe_optionValues := (index, message) # fe_optionValues e \<rparr> else e)
                  else e\<lparr> fe_options := keep_first (fe_options e) message \<rparr>
              | _ \<Rightarrow> e\<lparr> fe_options := keep_first (fe_options e) message \<rparr>)
           else e
       | [] \<Rightarrow> e))"

definition toFieldErrors :: "issue list \<Rightarrow> field_form_errors" where
  "toFieldErrors issues = fold add_field_error issues no_field_errors"

record field_dialog =
  fd_values :: js
  fd_errors :: field_form_errors

definition dialog_open :: "js option \<Rightarrow> js \<Rightarrow> field_dialog" where
  "dialog_open field nextSortOrder =
     \<lparr> fd_values = fieldToFormValues field nextSortOrder, fd_errors = no_field_errors \<rparr>"

definition patch_values :: "js \<Rightarrow> field_dialog \<Rightarrow> field_dialog" where
  "patch_values next d = d\<lparr> fd_values := js_merge (fd_values d) next \<rparr>"

definition setType :: "string \<Rightarrow> field_dialog \<Rightarrow> field_dialog" where
  "setType next d = patch_values (JObj
     [(''field_type'', JStr next),
      (''options'', if isChoiceFieldType next then js_get ''options'' (fd_values d) else JArr [])]) d"

definition setOptions :: "js list \<Rightarrow> field_dialog \<Rightarrow> field_dialog" where
  "setOptions items d = patch_values (JObj [(''options'', JArr items)]) d"

text \<open>The rows of the options editor.\<close>

definition setRow :: "nat \<Rightarrow> js \<Rightarrow> js list \<Rightarrow> js list" where
  "setRow index patch items =
     map (\<lambda>(i, option). if i = index then js_merge option patch else option) (enumerate 0 items)"

definition removeRow :: "nat \<Rightarrow> js list \<Rightarrow> js list" where
  "removeRow index items = map snd (filter (\<lambda>(i, _). i \<noteq> index) (enumerate 0 items))"

definition addRow :: "js list \<Rightarrow> js list" where
  "addRow items = items @ [option_js [] []]"

text \<open>Save sends one mutation, the update of the edited field or a new one, or shows the errors.\<close>

datatype field_mutation = UpdateField js js | CreateField js

definition handleSave :: "parser \<Rightarrow> field_messages \<Rightarrow> js option \<Rightarrow> field_dialog \<Rightarrow> field_dialog \<times> field_mutation option" where
  "handleSave parse m field d =
     (case parse (buildOpenSurveyFieldFormSchema m) (fd_values d) of
        Inl issues \<Rightarrow> (d\<lparr> fd_errors := toFieldErrors issues \<rparr>, None)
      | Inr w \<Rightarrow>
          (d\<lparr> fd_errors := no_field_errors \<rparr>,
           Some (case field of
                   Some f \<Rightarrow> UpdateField (js_get ''id'' f) (formValuesToUpdateDto w)
                 | None \<Rightarrow> CreateField (formValuesToCreateDto w))))"

section \<open>The builder page\<close>

definition nextSortOrder :: "js list \<Rightarrow> js" where
  "nextSortOrder flds =
     (if flds = [] then JInt 0
      else JNum (Fin (Max (set (map (\<lambda>f. js_rat (js_get ''sort_order'' f)) flds)) + 1)))"

text \<open>Moving a field up or down renumbers all of them and sends the positions that changed.\<close>

definition swap_at :: "nat \<Rightarrow> nat \<Rightarrow> 'a list \<Rightarrow> 'a list" where
  "swap_at i j xs = xs[i := xs ! j, j := xs ! i]"

definition renumbered :: "js list \<Rightarrow> (js \<times> nat) list" where
  "renumbered reordered = map (\<lambda>(i, field). (js_get ''id'' field, i)) (enumerate 0 reordered)"

definition order_changed :: "js list \<Rightarrow> js \<times> nat \<Rightarrow> bool" where
  "order_changed flds item =
     (case find (\<lambda>field. js_get ''id'' field = fst item) flds of
        Some original \<Rightarrow> js_get ''sort_order'' original \<noteq> JInt (int (snd item))
      | None \<Rightarrow> False)"

definition handleMove :: "js list \<Rightarrow> nat \<Rightarrow> int \<Rightarrow> (js \<times> nat) list" where
  "handleMove flds index direction =
     (let target = int index + direction in
      if target < 0 \<or> int (length flds) \<le> target then []
      else filter (order_changed flds) (renumbered (swap_at index (nat target) flds)))"

section \<open>Lemmas\<close>

text \<open>Option values that survive the encoding of a multiple choice.\<close>

definition encodable :: "string list \<Rightarrow> bool" where
  "encodable vs \<longleftrightarrow> distinct vs \<and> list_all (\<lambda>v. v \<noteq> [] \<and> trim v = v \<and> CHR '','' \<notin> set v) vs"

lemma option_issues_Nil:
  "option_issues m i seen items = [] \<longleftrightarrow>
     encodable (map option_value items) \<and> set (map option_value items) \<inter> set seen = {}"
proof (induction items arbitrary: i seen)
  case (Cons item items)
  have t: "trim (option_value item) = option_value item" by (simp add: option_value_def)
  show ?case using t by (auto simp: encodable_def Let_def Cons.IH)
qed (simp add: encodable_def)

lemma option_js_get [simp]:
  "js_get ''value'' (option_js v l) = JStr v" "js_get ''label'' (option_js v l) = JStr l"
  by (simp_all add: option_js_def or_else_def)

lemma stored_option_value [simp]: "js_get ''value'' (stored_option item) = JStr (option_value item)"
  by (simp add: stored_option_def Let_def)

lemma stored_option_again:
  assumes "option_value item \<noteq> []"
  shows "choice_to_input (stored_option item) = Some (stored_option item)"
  using assms by (simp add: choice_to_input_def stored_option_def Let_def option_js_def or_else_def)

lemma map_filter_id: "(\<And>x. x \<in> set xs \<Longrightarrow> f x = Some x) \<Longrightarrow> List.map_filter f xs = xs"
  by (induction xs) (auto simp: map_filter_simps)

lemma stored_options_read_back:
  assumes "encodable (map option_value items)"
  shows "fieldOptionsToInputs (inputsToFieldOptions items) = map stored_option items"
proof -
  have "List.map_filter choice_to_input (map stored_option items) = map stored_option items"
    using assms by (intro map_filter_id) (auto simp: encodable_def list_all_iff stored_option_again)
  then show ?thesis by (simp add: fieldOptionsToInputs_def inputsToFieldOptions_def or_else_def)
qed

lemma choice_types: "isChoiceFieldType t \<longleftrightarrow> t = ''select'' \<or> t = ''radio'' \<or> t = ''checkbox''"
  by (simp add: isChoiceFieldType_def)

lemma field_form_distinct: "distinct (map fst field_form_fields)"
  by (simp add: field_form_fields_def)

lemma field_form_accepted:
  assumes "zod_parser parse" "parse (buildOpenSurveyFieldFormSchema m) v = Inr w"
  shows "\<exists>t. js_get ''field_type'' w = JStr t \<and> t \<in> set OPEN_SURVEY_FIELD_TYPES \<and>
    (isChoiceFieldType t \<longrightarrow> js_list (js_get ''options'' w) \<noteq> [] \<and>
       encodable (map option_value (js_list (js_get ''options'' w))))"
proof -
  note zod = zod_parser.p_refine[OF assms(1)] zod_parser.p_enum[OF assms(1)]
  have o1: "parse (ZObject False field_form_fields) v = Inr w" and i: "field_issues m w = []"
    using assms(2) by (auto simp: buildOpenSurveyFieldFormSchema_def zod)
  have "parse (ZEnum OPEN_SURVEY_FIELD_TYPES) (js_get ''field_type'' v) = Inr (js_get ''field_type'' w)"
    by (rule zod_parser.object_get[OF assms(1) o1 field_form_distinct]) (simp add: field_form_fields_def)
  then obtain t where t: "js_get ''field_type'' w = JStr t" "t \<in> set OPEN_SURVEY_FIELD_TYPES"
    by (auto simp: zod)
  show ?thesis
    using i t by (intro exI[of _ t]) (auto simp: field_issues_def option_issues_Nil split: if_splits)
qed

end
