(* ===== verification/Open_Survey.thy ===== *)
theory Open_Survey
  imports Open_Survey_Fields Query_Cache
begin

text \<open>
  The consumer side of the open survey, modules/opensurvey: the schemas of the
  server answers, the form built from the fields, the order of the fields, the
  controls they are rendered with, the encoding of a multiple choice in one
  string, the adapter, the hooks and the page.
\<close>

section \<open>Schemas\<close>

definition openSurveyEventSchema :: schema where
  "openSurveyEventSchema = ZObject False
     [(''id'', znum), (''name_kh'', zstr), (''type'', znullable_optional zstr),
      (''survey_open_is_open'', znullable_optional ZBoolean)]"

definition openSurveyEventListResponseSchema :: schema where
  "openSurveyEventListResponseSchema = ZObject False [(''data'', ZArray openSurveyEventSchema)]"

definition openSurveyFieldSchema :: schema where
  "openSurveyFieldSchema = ZObject False
     [(''id'', znum), (''field_id'', znum), (''organization_id'', znum), (''value'', ZNullable zstr),
      (''field_type'', zstr), (''label_kh'', zstr), (''label_en'', znullable_optional zstr),
      (''created_at'', znullable_optional zstr), (''updated_at'', znullable_optional zstr),
      (''options'', ZNullable (ZRecord ZUnknown)), (''required'', ZBoolean), (''sort_order'', znum)]"

definition openSurveyFillViewSchema :: schema where
  "openSurveyFillViewSchema = ZObject False
     [(''data'', ZArray openSurveyFieldSchema), (''count'', ZOptional znum)]"

definition openSurveyResponseSchema :: schema where
  "openSurveyResponseSchema = ZObject False
     [(''id'', znum), (''field_id'', znum), (''organization_id'', znum), (''value'', ZNullable zstr),
      (''created_at'', znullable_optional zstr), (''updated_at'', znullable_optional zstr)]"

definition openSurveyResponseListSchema :: schema where
  "openSurveyResponseListSchema = ZArray openSurveyResponseSchema"

section \<open>Rendering helpers\<close>

datatype choice_control = SelectControl | RadioControl | CheckboxControl

definition choiceControlFor :: "string \<Rightarrow> choice_control option" where
  "choiceControlFor fieldType =
     (let t = to_lower (trim fieldType) in
      if t = ''select'' \<or> t = ''dropdown'' then Some SelectControl
      else if t = ''radio'' then Some RadioControl
      else if t = ''checkbox'' then Some CheckboxControl
      else None)"

definition htmlInputType :: "string \<Rightarrow> string" where
  "htmlInputType fieldType = (if to_lower (trim fieldType) = ''number'' then ''number'' else ''text'')"

definition parseCheckboxSelection :: "string \<Rightarrow> string list" where
  "parseCheckboxSelection value = filter (\<lambda>part. part \<noteq> []) (map trim (split_on (CHR '','') value))"

definition joinCheckboxSelection :: "string list \<Rightarrow> string" where
  "joinCheckboxSelection values = join_with '','' values"

definition resolveFieldLabel :: "js \<Rightarrow> string" where
  "resolveFieldLabel field =
     (if truthy (js_get ''label_kh'' field) then js_str (js_get ''label_kh'' field)
      else js_str (js_get ''label_en'' field))"

definition choice_option :: "js \<Rightarrow> js option" where
  "choice_option item =
     (case item of
        JStr s \<Rightarrow> Some (option_js s s)
      | JObj _ \<Rightarrow>
          (case js_get ''value'' item of
             JStr v \<Rightarrow>
               if v = [] then None
               else Some (option_js v (case js_get ''label'' item of JStr l \<Rightarrow> l | _ \<Rightarrow> v))
           | _ \<Rightarrow> None)
      | _ \<Rightarrow> None)"

definition extractFieldOptions :: "js \<Rightarrow> js list option" where
  "extractFieldOptions field =
     (let options = js_get ''options'' field in
      if \<not> truthy options then None
      else (case js_get ''choices'' options of
              JArr items \<Rightarrow>
                let res = List.map_filter choice_option items in if res \<noteq> [] then Some res else None
            | _ \<Rightarrow>
                let entries = filter (\<lambda>e. is_str (snd e)) (spread_fields options)
                in if entries \<noteq> [] then Some (map (\<lambda>e. option_js (fst e) (js_str (snd e))) entries) else None))"

section \<open>The form\<close>

record survey_messages =
  required_msg :: string
  selectOne :: string
  selectAtLeastOne :: string

definition answer_key :: "js \<Rightarrow> string" where
  "answer_key field = js_string (js_get ''field_id'' field)"

definition answer_message :: "survey_messages \<Rightarrow> js \<Rightarrow> string" where
  "answer_message m field =
     (let control = choiceControlFor (js_str (js_get ''field_type'' field)) in
      if control = Some CheckboxControl then selectAtLeastOne m
      else if control \<noteq> None then selectOne m
      else required_msg m)"

text \<open>The message of the check is attached to the issue by the library; it does not change which
  values are accepted.\<close>

definition answer_schema :: "js \<Rightarrow> schema" where
  "answer_schema field =
     (if truthy (js_get ''required'' field) then ZString [Trim, MinLen 1] else ZString [])"

definition answer_shape :: "js list \<Rightarrow> (string \<times> schema) list" where
  "answer_shape flds = fold (\<lambda>field. AList.update (answer_key field) (answer_schema field)) flds []"

definition buildOpenSurveyFormSchema :: "js list \<Rightarrow> schema" where
  "buildOpenSurveyFormSchema flds = ZObject False [(''responses'', ZObject False (answer_shape flds))]"

definition fieldsToDefaults :: "js list \<Rightarrow> js" where
  "fieldsToDefaults flds =
     JObj [(''responses'', JObj (fold (\<lambda>field. AList.update (answer_key field)
              (or_nullish (js_get ''value'' field) (JStr []))) flds []))]"

definition payload_answer :: "js \<Rightarrow> js \<Rightarrow> js" where
  "payload_answer values field =
     (let raw = js_get (answer_key field) (js_get ''responses'' values)
      in if raw = JUndef then JNull else raw)"

record submit_payload =
  pl_eventId :: int
  pl_organizationId :: "int option"
  pl_responses :: "(string \<times> js) list"

definition formValuesToPayload :: "js \<Rightarrow> js list \<Rightarrow> int \<Rightarrow> int option \<Rightarrow> submit_payload" where
  "formValuesToPayload values flds eventId organizationId =
     \<lparr> pl_eventId = eventId, pl_organizationId = organizationId,
       pl_responses = fold (\<lambda>field. AList.update (answer_key field) (payload_answer values field)) flds [] \<rparr>"

definition sortOpenSurveyFields :: "js list \<Rightarrow> js list" where
  "sortOpenSurveyFields flds =
     js_sort (cmp_then (by_num (js_get ''sort_order'')) (by_num (js_get ''field_id''))) flds"

section \<open>The controls\<close>

datatype control =
    ReadOnlyInput string
  | SelectField "js list"
  | RadioField "js list"
  | CheckboxField "js list"
  | TextInputField string

definition field_input :: "js \<Rightarrow> bool \<Rightarrow> string \<Rightarrow> control" where
  "field_input field readOnly value =
     (if readOnly then ReadOnlyInput value
      else (case (choiceControlFor (js_str (js_get ''field_type'' field)), extractFieldOptions field) of
              (Some SelectControl, Some opts) \<Rightarrow> SelectField opts
            | (Some RadioControl, Some opts) \<Rightarrow> RadioField opts
            | (Some CheckboxControl, Some opts) \<Rightarrow> CheckboxField opts
            | _ \<Rightarrow> TextInputField (htmlInputType (js_str (js_get ''field_type'' field)))))"

definition asString :: "js \<Rightarrow> string" where
  "asString value = js_str value"

text \<open>What the checkbox group writes when one box changes.\<close>

definition toggle :: "js list \<Rightarrow> js \<Rightarrow> string \<Rightarrow> bool \<Rightarrow> string" where
  "toggle opts current value checked =
     (let selected = parseCheckboxSelection (asString current);
          selected' = (if checked then value # selected else filter (\<lambda>v. v \<noteq> value) selected);
          ordered = filter (\<lambda>v. v \<in> set selected') (map (\<lambda>o1. js_str (js_get ''value'' o1)) opts)
      in joinCheckboxSelection ordered)"

section \<open>Requests and adapter\<close>

definition apiGetEvents :: request where
  "apiGetEvents = get_req (api_v1 ''events?skip=0&limit=100'') [(''survey_open_open'', JBool True)]"

definition apiGetFillView :: "int \<Rightarrow> int option \<Rightarrow> request" where
  "apiGetFillView eventId organizationId = get_req (openSurvey_responses eventId organizationId) []"

definition apiSubmitResponses :: "int \<Rightarrow> (string \<times> js) list \<Rightarrow> int option \<Rightarrow> request" where
  "apiSubmitResponses eventId responses organizationId =
     body_req ''post'' (openSurvey_responses eventId organizationId) (JObj [(''responses'', JObj responses)])"

definition apiListFields :: "int \<Rightarrow> bool \<Rightarrow> request" where
  "apiListFields eventId includeInactive = get_req (openSurvey_fields eventId includeInactive) []"

definition apiCreateField :: "int \<Rightarrow> js \<Rightarrow> request" where
  "apiCreateField eventId dto = body_req ''post'' (openSurvey_createField eventId) dto"

definition apiUpdateField :: "int \<Rightarrow> js \<Rightarrow> request" where
  "apiUpdateField fieldId dto = body_req ''patch'' (openSurvey_field fieldId) dto"

definition apiDeactivateField :: "int \<Rightarrow> request" where
  "apiDeactivateField fieldId = body_req ''delete'' (openSurvey_field fieldId) JUndef"

definition os_fetchEvents :: "parser \<Rightarrow> backend \<Rightarrow> js list" where
  "os_fetchEvents parse srv =
     (case parsed_call parse srv openSurveyEventListResponseSchema apiGetEvents of
        Inl _ \<Rightarrow> []
      | Inr w \<Rightarrow> filter (\<lambda>e. js_get ''survey_open_is_open'' e \<noteq> JBool False) (js_list (js_get ''data'' w)))"

definition getFillView :: "parser \<Rightarrow> backend \<Rightarrow> int \<Rightarrow> int option \<Rightarrow> js list" where
  "getFillView parse srv eventId organizationId =
     (case parsed_call parse srv openSurveyFillViewSchema (apiGetFillView eventId organizationId) of
        Inl _ \<Rightarrow> []
      | Inr w \<Rightarrow> sortOpenSurveyFields (js_list (js_get ''data'' w)))"

definition submitResponses :: "parser \<Rightarrow> backend \<Rightarrow> submit_payload \<Rightarrow> (js_error, js) result" where
  "submitResponses parse srv payload =
     parsed_call parse srv openSurveyResponseListSchema
       (apiSubmitResponses (pl_eventId payload) (pl_responses payload) (pl_organizationId payload))"

definition listFields :: "parser \<Rightarrow> backend \<Rightarrow> int \<Rightarrow> bool \<Rightarrow> (js_error, js) result" where
  "listFields parse srv eventId includeInactive =
     map_r (js_get ''data'') (parsed_call parse srv openSurveyFieldDefListSchema (apiListFields eventId includeInactive))"

definition createField :: "parser \<Rightarrow> backend \<Rightarrow> int \<Rightarrow> js \<Rightarrow> (js_error, js) result" where
  "createField parse srv eventId dto = parsed_call parse srv openSurveyFieldDefSchema (apiCreateField eventId dto)"

definition updateField :: "parser \<Rightarrow> backend \<Rightarrow> int \<Rightarrow> js \<Rightarrow> (js_error, js) result" where
  "updateField parse srv fieldId dto = parsed_call parse srv openSurveyFieldDefSchema (apiUpdateField fieldId dto)"

definition deactivateField :: "parser \<Rightarrow> backend \<Rightarrow> int \<Rightarrow> (js_error, js) result" where
  "deactivateField parse srv fieldId = parsed_call parse srv openSurveyFieldDefSchema (apiDeactivateField fieldId)"

text \<open>All position updates are sent; the errors of those that fail, none when the whole move is saved.\<close>

definition reorder_requests :: "(js \<times> nat) list \<Rightarrow> request list" where
  "reorder_requests items =
     map (\<lambda>(fieldId, sortOrder).
       apiUpdateField \<lfloor>js_rat fieldId\<rfloor> (JObj [(''sort_order'', JInt (int sortOrder))])) items"

definition reorderFields :: "backend \<Rightarrow> (js \<times> nat) list \<Rightarrow> js_error list" where
  "reorderFields srv items =
     List.map_filter (\<lambda>rq. case srv rq of Inl e \<Rightarrow> Some e | Inr _ \<Rightarrow> None) (reorder_requests items)"

section \<open>Hooks\<close>

definition isPhaseClosedError :: "js_error option \<Rightarrow> bool" where
  "isPhaseClosedError e = (case e of Some (AxiosError s _ _) \<Rightarrow> s = Some 403 | _ \<Rightarrow> False)"

definition submit_meta :: mutation_meta where
  "submit_meta = \<lparr> suppressErrorToast = False, errorMessage_meta = None, successMessage = None,
                   skipDashboardInvalidation = False \<rparr>"

definition submit_onError :: "js_error \<Rightarrow> toast list" where
  "submit_onError e =
     [ErrorToast (if isPhaseClosedError (Some e) then ''messages.phaseClosed'' else ''messages.submitError'')]"

definition submit_onSuccess :: "submit_payload \<Rightarrow> toast list \<times> qkey list" where
  "submit_onSuccess payload =
     ([SuccessToast ''messages.submitSuccess''],
      [k_openSurvey_fillView (pl_eventId payload) (pl_organizationId payload)])"

text \<open>The toasts and invalidations of one settled submit, those of the shared mutation cache first.\<close>

definition submit_settled :: "string \<Rightarrow> submit_payload \<Rightarrow> (js_error, js) result \<Rightarrow> toast list \<times> qkey list" where
  "submit_settled fallback payload r =
     (case r of
        Inl e \<Rightarrow> (on_mutation_error fallback submit_meta @ submit_onError e, [])
      | Inr _ \<Rightarrow>
          (fst (on_mutation_success submit_meta) @ fst (submit_onSuccess payload),
           snd (on_mutation_success submit_meta) @ snd (submit_onSuccess payload)))"

definition field_meta :: "string option \<Rightarrow> string \<Rightarrow> mutation_meta" where
  "field_meta success err = \<lparr> suppressErrorToast = False, errorMessage_meta = Some err, successMessage = success,
                              skipDashboardInvalidation = False \<rparr>"

definition create_meta :: mutation_meta where "create_meta = field_meta (Some ''createSuccess'') ''saveError''"
definition update_meta :: mutation_meta where "update_meta = field_meta (Some ''updateSuccess'') ''saveError''"
definition deactivate_meta :: mutation_meta where "deactivate_meta = field_meta (Some ''deleteSuccess'') ''saveError''"
definition reorder_meta :: mutation_meta where "reorder_meta = field_meta None ''reorderError''"

definition fields_invalidate :: "int \<Rightarrow> qkey list" where
  "fields_invalidate eventId = [k_openSurvey_fieldsAll eventId]"

definition useOpenSurvey_key :: "int option \<Rightarrow> int option \<Rightarrow> qkey" where
  "useOpenSurvey_key eventId organizationId = k_openSurvey_fillView (or_else eventId 0) organizationId"

definition useOpenSurvey_enabled :: "int option \<Rightarrow> bool" where
  "useOpenSurvey_enabled eventId \<longleftrightarrow> eventId \<noteq> None"

definition useOpenSurveyFields_key :: "int option \<Rightarrow> bool \<Rightarrow> qkey" where
  "useOpenSurveyFields_key eventId includeInactive = k_openSurvey_fields (or_else eventId 0) includeInactive"

section \<open>The page\<close>

text \<open>
  The page holds the chosen event and the success screen; the form below it
  holds the outcome of its last submit and lives as long as it is mounted: it
  is unmounted by the success screen and while the fields of a newly chosen event
  load, and stays mounted when they are cached. A settled submit reaches the callback
  that shows the success screen only while the form that sent it is mounted.
\<close>

record os_page =
  pg_eventId :: "int option"
  pg_success :: bool
  pg_error :: "js_error option"
  pg_pending :: "submit_payload option"

definition page_start :: os_page where
  "page_start = \<lparr> pg_eventId = None, pg_success = False, pg_error = None, pg_pending = None \<rparr>"

record os_env =
  os_parse :: parser
  os_org :: "int option"
  os_fields :: "int \<Rightarrow> js list"

definition organizationId_of :: "js \<Rightarrow> js \<Rightarrow> js" where
  "organizationId_of organization_id org_id = or_nullish (or_nullish organization_id org_id) JUndef"

datatype os_op =
    ChooseEvent int bool
  | PressSubmit form_values
  | Settled "(js_error, js) result"
  | FillAnother

definition phaseClosed :: "os_page \<Rightarrow> bool" where
  "phaseClosed p = isPhaseClosedError (pg_error p)"

definition submit_disabled :: "os_page \<Rightarrow> bool" where
  "submit_disabled p \<longleftrightarrow> phaseClosed p \<or> pg_pending p \<noteq> None"

definition os_choose_event :: "int \<Rightarrow> bool \<Rightarrow> os_page \<Rightarrow> os_page" where
  "os_choose_event e cached p =
     (if pg_success p then p
      else if cached \<and> pg_eventId p \<noteq> None then p\<lparr> pg_eventId := Some e \<rparr>
      else p\<lparr> pg_eventId := Some e, pg_error := None, pg_pending := None \<rparr>)"

text \<open>A submit of the mounted form; an accepted one clears the last outcome and sends one payload.\<close>

definition press_submit :: "os_env \<Rightarrow> form_values \<Rightarrow> os_page \<Rightarrow> os_page" where
  "press_submit env values p =
     (case pg_eventId p of
        None \<Rightarrow> p
      | Some e \<Rightarrow>
          if pg_success p \<or> submit_disabled p \<or> os_fields env e = [] then p
          else (case submit_values (os_parse env) (buildOpenSurveyFormSchema (os_fields env e)) values of
                  None \<Rightarrow> p
                | Some d \<Rightarrow>
                    p\<lparr> pg_error := None,
                       pg_pending := Some (formValuesToPayload d (os_fields env e) e (os_org env)) \<rparr>))"

definition settle :: "(js_error, js) result \<Rightarrow> os_page \<Rightarrow> os_page" where
  "settle r p =
     (if pg_pending p = None then p
      else (case r of
              Inl e \<Rightarrow> p\<lparr> pg_error := Some e, pg_pending := None \<rparr>
            | Inr _ \<Rightarrow> p\<lparr> pg_success := True, pg_pending := None \<rparr>))"

definition fill_another :: "os_page \<Rightarrow> os_page" where
  "fill_another p = (if pg_success p then p\<lparr> pg_success := False, pg_error := None, pg_pending := None \<rparr> else p)"

fun os_step :: "os_env \<Rightarrow> os_op \<Rightarrow> os_page \<Rightarrow> os_page" where
  "os_step env (ChooseEvent e cached) p = os_choose_event e cached p"
| "os_step env (PressSubmit values) p = press_submit env values p"
| "os_step env (Settled r) p = settle r p"
| "os_step env FillAnother p = fill_another p"

definition os_run :: "os_env \<Rightarrow> os_op list \<Rightarrow> os_page" where
  "os_run env ops = fold (os_step env) ops page_start"

section \<open>A field the builder saves, as the organization sees it\<close>

lemma stored_option_rendered:
  assumes "option_value item \<noteq> []"
  shows "choice_option (stored_option item) = Some (stored_option item)"
  using assms by (simp add: choice_option_def stored_option_def Let_def option_js_def or_else_def)

lemma stored_options_extracted:
  assumes "encodable (map option_value items)" "items \<noteq> []"
    "js_get ''options'' field = inputsToFieldOptions items"
  shows "extractFieldOptions field = Some (map stored_option items)"
proof -
  have "List.map_filter choice_option (map stored_option items) = map stored_option items"
    using assms(1) by (intro map_filter_id) (auto simp: encodable_def list_all_iff stored_option_rendered)
  then show ?thesis using assms(2,3) by (simp add: extractFieldOptions_def inputsToFieldOptions_def Let_def or_else_def)
qed

lemma field_types_fixed:
  "t \<in> set OPEN_SURVEY_FIELD_TYPES \<Longrightarrow> to_lower (trim t) = t \<and> normalizeFieldType t = t"
  unfolding OPEN_SURVEY_FIELD_TYPES_def set_simps
  by (elim insertE emptyE; simp only:) (code_simp)+

lemma choice_control_types:
  "choiceControlFor ''select'' = Some SelectControl" "choiceControlFor ''radio'' = Some RadioControl"
  "choiceControlFor ''checkbox'' = Some CheckboxControl" "choiceControlFor ''text'' = None"
  "choiceControlFor ''number'' = None" "htmlInputType ''number'' = ''number''" "htmlInputType ''text'' = ''text''"
  "htmlInputType ''select'' = ''text''"
  by code_simp+

definition control_of_type :: "string \<Rightarrow> js list \<Rightarrow> control" where
  "control_of_type t opts =
     (if t = ''select'' then SelectField opts
      else if t = ''radio'' then RadioField opts
      else if t = ''checkbox'' then CheckboxField opts
      else TextInputField t)"

text \<open>C17. What the builder saves is what the organization is shown: if the builder's form accepts
  its values as w, then for every field with the type and options of the DTO made from w, the
  fill form renders the control of exactly that type, with exactly the options of the
  form (trimmed, an empty label replaced by its value), whose values are distinct,
  not empty and free of the comma the multiple choice is joined with; and editing that
  field again shows the same type and the same options.\<close>

theorem builder_matches_renderer:
  assumes "zod_parser parse"
    and "parse (buildOpenSurveyFieldFormSchema m) v = Inr w"
    and "js_get ''field_type'' field = js_get ''field_type'' (formValuesToCreateDto w)"
    and "js_get ''options'' field = js_get ''options'' (formValuesToCreateDto w)"
  shows "\<exists>t opts. js_get ''field_type'' w = JStr t
    \<and> opts = (if isChoiceFieldType t then map stored_option (js_list (js_get ''options'' w)) else [])
    \<and> field_input field False value = control_of_type t opts
    \<and> encodable (map (\<lambda>o1. js_str (js_get ''value'' o1)) opts)
    \<and> js_get ''field_type'' (fieldToFormValues (Some field) n) = JStr t
    \<and> js_get ''options'' (fieldToFormValues (Some field) n) = JArr opts"
proof -
  obtain t where t: "js_get ''field_type'' w = JStr t" "t \<in> set OPEN_SURVEY_FIELD_TYPES"
    and c: "isChoiceFieldType t \<Longrightarrow> js_list (js_get ''options'' w) \<noteq> []"
      "isChoiceFieldType t \<Longrightarrow> encodable (map option_value (js_list (js_get ''options'' w)))"
    using field_form_accepted[OF assms(1,2)] by blast
  define items where "items = js_list (js_get ''options'' w)"
  have ft: "js_get ''field_type'' field = JStr t" and
    op: "js_get ''options'' field = (if isChoiceFieldType t then inputsToFieldOptions items else JNull)"
    using assms(3,4) t(1) by (simp_all add: formValuesToCreateDto_def dto_options_def items_def or_else_def)
  define opts where "opts = (if isChoiceFieldType t then map stored_option items else [])"
  have enc: "encodable (map (\<lambda>o1. js_str (js_get ''value'' o1)) opts)"
    using c by (auto simp: opts_def items_def comp_def encodable_def)
  have shown: "js_get ''field_type'' (fieldToFormValues (Some field) n) = JStr t"
    using ft field_types_fixed[OF t(2)] by (simp add: fieldToFormValues_def or_else_def)
  have rows: "js_get ''options'' (fieldToFormValues (Some field) n) = JArr opts"
    using op c stored_options_read_back[of items]
    by (auto simp: fieldToFormValues_def or_else_def opts_def items_def fieldOptionsToInputs_def[of JNull])
  have ex: "extractFieldOptions field = (if isChoiceFieldType t then Some opts else None)"
  proof (cases "isChoiceFieldType t")
    case True
    then show ?thesis using op c stored_options_extracted[of items field] by (simp add: opts_def items_def)
  next
    case False
    then show ?thesis using op by (simp add: extractFieldOptions_def)
  qed
  have "field_input field False value = control_of_type t opts"
    using t(2) unfolding OPEN_SURVEY_FIELD_TYPES_def set_simps
    by (elim insertE emptyE)
       (simp_all add: field_input_def ex ft choice_control_types choice_types control_of_type_def)
  with t(1) enc shown rows show ?thesis unfolding opts_def items_def by blast
qed

definition sample_builder_form :: js where
  "sample_builder_form = JObj
     [(''label_kh'', JStr '' Size ''), (''label_en'', JStr []), (''field_type'', JStr ''checkbox''),
      (''options'', JArr [option_js '' S '' [], option_js ''M'' ''Medium'']), (''required'', JBool True),
      (''active'', JBool True), (''sort_order'', JInt 2)]"

definition sample_messages :: field_messages where
  "sample_messages = \<lparr> labelKhRequired = ''a'', optionsRequired = ''b'', optionEmpty = ''c'',
     optionDuplicate = ''d'', optionComma = ''e'' \<rparr>"

definition parsed_builder_form :: js where
  "parsed_builder_form = (case zparse (buildOpenSurveyFieldFormSchema sample_messages) sample_builder_form of
     Inr w \<Rightarrow> w | Inl _ \<Rightarrow> JNull)"

lemma sample_builder_accepted:
  "zparse (buildOpenSurveyFieldFormSchema sample_messages) sample_builder_form = Inr parsed_builder_form"
  by code_simp

lemma builder_matches_renderer_witness:
  "\<exists>t opts. js_get ''field_type'' parsed_builder_form = JStr t
    \<and> opts = (if isChoiceFieldType t then map stored_option (js_list (js_get ''options'' parsed_builder_form)) else [])
    \<and> field_input (formValuesToCreateDto parsed_builder_form) False [] = control_of_type t opts
    \<and> encodable (map (\<lambda>o1. js_str (js_get ''value'' o1)) opts)
    \<and> js_get ''field_type'' (fieldToFormValues (Some (formValuesToCreateDto parsed_builder_form)) JNull) = JStr t
    \<and> js_get ''options'' (fieldToFormValues (Some (formValuesToCreateDto parsed_builder_form)) JNull) = JArr opts"
  by (rule builder_matches_renderer[OF zp.zod_parser_axioms sample_builder_accepted]) simp_all

text \<open>The two readings of a field type agree: whatever free-form type the server sends,
  the builder's normalised type is one of the five it offers, is a fixed point, and
  makes the fill form choose the same control and the same input type as the original.\<close>

theorem normalised_type_renders_alike:
  "normalizeFieldType s \<in> set OPEN_SURVEY_FIELD_TYPES
   \<and> normalizeFieldType (normalizeFieldType s) = normalizeFieldType s
   \<and> choiceControlFor (normalizeFieldType s) = choiceControlFor s
   \<and> htmlInputType (normalizeFieldType s) = htmlInputType s"
proof -
  have range: "normalizeFieldType s \<in> set OPEN_SURVEY_FIELD_TYPES"
    by (simp add: normalizeFieldType_def Let_def OPEN_SURVEY_FIELD_TYPES_def)
  consider "to_lower (trim s) = ''dropdown''" | "to_lower (trim s) \<in> set OPEN_SURVEY_FIELD_TYPES"
    | "to_lower (trim s) \<notin> insert ''dropdown'' (set OPEN_SURVEY_FIELD_TYPES)" by blast
  then have "choiceControlFor (normalizeFieldType s) = choiceControlFor s
    \<and> htmlInputType (normalizeFieldType s) = htmlInputType s"
  proof cases
    case 1
    then show ?thesis
      by (simp add: normalizeFieldType_def choice_control_types) (simp add: choiceControlFor_def htmlInputType_def)
  next
    case 2
    then show ?thesis unfolding OPEN_SURVEY_FIELD_TYPES_def set_simps
      by (elim insertE emptyE)
         (simp_all add: normalizeFieldType_def OPEN_SURVEY_FIELD_TYPES_def choice_control_types
           choiceControlFor_def htmlInputType_def js_string_defs)
  next
    case 3
    then have n: "normalizeFieldType s = ''text''" by (simp add: normalizeFieldType_def)
    show ?thesis unfolding n choice_control_types
      using 3 by (simp add: choiceControlFor_def htmlInputType_def OPEN_SURVEY_FIELD_TYPES_def)
  qed
  with range show ?thesis using field_types_fixed by blast
qed

section \<open>Multiple choice in one string\<close>

lemma encodable_sub: "encodable vs \<Longrightarrow> encodable (filter P vs)"
  by (auto simp: encodable_def list_all_iff)

lemma checkbox_roundtrip: "encodable vs \<Longrightarrow> parseCheckboxSelection (joinCheckboxSelection vs) = vs"
proof (cases "vs = []")
  case False
  assume e: "encodable vs"
  have "split_on (CHR '','') (join_with '','' vs) = vs"
    using e False by (intro split_join) (auto simp: encodable_def list_all_iff)
  moreover have "map trim vs = vs" using e by (intro map_idI) (auto simp: encodable_def list_all_iff)
  ultimately show ?thesis using e
    by (auto simp: parseCheckboxSelection_def joinCheckboxSelection_def encodable_def list_all_iff filter_id_conv)
qed (simp add: parseCheckboxSelection_def joinCheckboxSelection_def)

text \<open>C18. The checkbox group refines a set of options: if the option values are encodable (which
  the builder enforces), then after a box is changed the stored string decodes to
  the options that were decoded before, with the changed one added or removed, in the
  order of the options and without anything that is no longer an option; and
  it is the only string the group would write for that selection.\<close>

theorem toggle_refines_selection:
  assumes "encodable (map (\<lambda>o1. js_str (js_get ''value'' o1)) opts)"
  shows "parseCheckboxSelection (toggle opts current value checked) =
      filter (\<lambda>v. if v = value then checked else v \<in> set (parseCheckboxSelection (asString current)))
        (map (\<lambda>o1. js_str (js_get ''value'' o1)) opts)
    \<and> joinCheckboxSelection (parseCheckboxSelection (toggle opts current value checked))
      = toggle opts current value checked"
proof -
  define vs where "vs = map (\<lambda>o1. js_str (js_get ''value'' o1)) opts"
  define sel where "sel = (\<lambda>v. if v = value then checked else v \<in> set (parseCheckboxSelection (asString current)))"
  have "toggle opts current value checked = joinCheckboxSelection (filter sel vs)"
    unfolding toggle_def Let_def vs_def[symmetric]
    by (intro arg_cong[where f = joinCheckboxSelection] filter_cong) (auto simp: sel_def)
  moreover have "parseCheckboxSelection (joinCheckboxSelection (filter sel vs)) = filter sel vs"
    using assms by (intro checkbox_roundtrip encodable_sub) (simp add: vs_def)
  ultimately show ?thesis unfolding vs_def sel_def by simp
qed

lemma toggle_refines_selection_witness:
  "parseCheckboxSelection (toggle [option_js ''a'' ''A'', option_js ''b'' ''B''] (JStr ''b,gone'') ''a'' True)
   = [''a'', ''b'']"
  using toggle_refines_selection[of "[option_js ''a'' ''A'', option_js ''b'' ''B'']" "JStr ''b,gone''" "''a''" True]
  by (simp add: encodable_def parseCheckboxSelection_def asString_def js_string_defs)

section \<open>Order of the fields\<close>

lemma field_order: "comparator (cmp_then (by_num f) (by_num g))"
  by (intro comparator_then comparator_by_num)

interpretation field_cmp: comparator "cmp_then (by_num f) (by_num g)" for f g
  by (rule field_order)

lemma sorted_fields:
  "sorted (map (\<lambda>f. js_rat (js_get ''sort_order'' f)) (sortOpenSurveyFields flds))"
proof -
  have "sorted_wrt (\<lambda>x y. by_num (js_get ''sort_order'') x y \<le> 0) (sortOpenSurveyFields flds)"
    unfolding sortOpenSurveyFields_def by (rule sorted_wrt_mono_rel[OF _ field_cmp.sorted_js_sort]) (rule cmp_then_le)
  then show ?thesis by (simp add: by_num_le sorted_map)
qed

lemma mset_sorted_fields [simp]: "mset (sortOpenSurveyFields flds) = mset flds"
  by (simp add: sortOpenSurveyFields_def)

text \<open>The order of a field after the position updates of a move are stored.\<close>

definition moved_order :: "(js \<times> nat) list \<Rightarrow> js \<Rightarrow> js" where
  "moved_order items field =
     (case map_of items (js_get ''id'' field) of
        Some k \<Rightarrow> JInt (int k)
      | None \<Rightarrow> js_get ''sort_order'' field)"

lemma set_swap_at: "i < length xs \<Longrightarrow> j < length xs \<Longrightarrow> set (swap_at i j xs) = set xs"
  by (simp add: swap_at_def set_swap)

lemma length_swap_at [simp]: "length (swap_at i j xs) = length xs"
  by (simp add: swap_at_def)

lemma mset_swap_at: "i < length xs \<Longrightarrow> j < length xs \<Longrightarrow> mset (swap_at i j xs) = mset xs"
  unfolding swap_at_def by (rule mset_swap)

lemma map_swap_at: "i < length xs \<Longrightarrow> j < length xs \<Longrightarrow> map f (swap_at i j xs) = swap_at i j (map f xs)"
  by (simp add: swap_at_def map_update)

lemma distinct_swap_at: "i < length xs \<Longrightarrow> j < length xs \<Longrightarrow> distinct (swap_at i j xs) = distinct xs"
  by (simp add: swap_at_def distinct_swap)

lemma renumbered_conv: "renumbered re = zip (map (js_get ''id'') re) [0..<length re]"
  by (rule nth_equalityI) (auto simp: renumbered_def nth_enumerate_eq)

lemma find_by_id:
  assumes "distinct (map (js_get ''id'') flds)" "f \<in> set flds"
  shows "find (\<lambda>g. js_get ''id'' g = js_get ''id'' f) flds = Some f"
  using assms by (induction flds) (auto simp: image_iff)

lemma map_of_renumbered:
  assumes "distinct (map (js_get ''id'') re)" "k < length re"
  shows "map_of (renumbered re) (js_get ''id'' (re ! k)) = Some k"
  unfolding renumbered_conv using assms
  by (subst map_of_eq_Some_iff) (auto simp: in_set_zip intro!: exI[of _ k])

lemma moved_order_at:
  assumes d: "distinct (map (js_get ''id'') flds)" and re: "set re = set flds" "distinct (map (js_get ''id'') re)"
    and k: "k < length re"
  shows "moved_order (filter (order_changed flds) (renumbered re)) (re ! k) = JInt (int k)"
proof -
  let ?id = "js_get ''id'' (re ! k)"
  let ?items = "filter (order_changed flds) (renumbered re)"
  note r = map_of_renumbered[OF re(2) k]
  have dk: "distinct (map fst (renumbered re))" unfolding renumbered_conv using re(2) by simp
  have "re ! k \<in> set flds" using k re(1) nth_mem by blast
  then have f: "order_changed flds (?id, k) \<longleftrightarrow> js_get ''sort_order'' (re ! k) \<noteq> JInt (int k)"
    using find_by_id[OF d] by (simp add: order_changed_def)
  have m: "map_of ?items ?id = (if order_changed flds (?id, k) then Some k else None)"
  proof (cases "order_changed flds (?id, k)")
    case True
    then have "(?id, k) \<in> set ?items" using map_of_SomeD[OF r] by simp
    moreover have "distinct (map fst ?items)" using dk by (simp add: distinct_map_filter)
    ultimately show ?thesis using True by simp
  next
    case False
    have "(?id, j) \<notin> set ?items" for j
      using False dk map_of_SomeD[OF r] by (auto dest: eq_key_imp_eq_value)
    then have "?id \<notin> fst ` set ?items" by force
    then show ?thesis using False by (simp add: map_of_eq_None_iff)
  qed
  show ?thesis unfolding moved_order_def m using f by simp
qed

text \<open>Two lists with the same elements, both strictly sorted by the same key, are equal.\<close>

lemma same_order:
  assumes "sorted (map K xs)" "sorted (map K ys)" "set xs = set ys" "distinct xs" "distinct ys"
    "inj_on K (set xs)"
  shows "xs = ys"
  using assms by (intro map_sorted_distinct_set_unique[of K]) (auto simp: distinct_map)

text \<open>C19. Moving a field reaches the organizations: whatever order the server then returns the
  fill view in, if each row carries the position its field had before or the one the
  builder sent for it, the rows the organization sees are in the order of the builder's
  list with the two neighbours swapped; and a move off either end sends nothing.\<close>

theorem move_reorders_fill_view:
  assumes "distinct (map (js_get ''id'') flds)" "distinct (map (js_get ''field_id'') rows)"
    and "index < length flds"
    and "\<forall>r \<in> set rows. \<exists>f \<in> set flds. js_get ''field_id'' r = js_get ''id'' f \<and>
           js_get ''sort_order'' r = moved_order (handleMove flds index direction) f"
  shows "(let target = int index + direction in
     if target < 0 \<or> int (length flds) \<le> target then handleMove flds index direction = []
     else map (js_get ''field_id'') (sortOpenSurveyFields rows) =
       filter (\<lambda>i. i \<in> js_get ''field_id'' ` set rows)
         (map (js_get ''id'') (swap_at index (nat target) flds)))"
proof (cases "int index + direction < 0 \<or> int (length flds) \<le> int index + direction")
  case False
  define t where "t = nat (int index + direction)"
  define re where "re = swap_at index t flds"
  let ?id = "js_get ''id''" and ?fid = "js_get ''field_id''" and ?so = "\<lambda>r. js_rat (js_get ''sort_order'' r)"
  define P where "P = (\<lambda>i. i \<in> ?fid ` set rows)"
  define K where "K = (\<lambda>i. rat_of_nat (the (map_of (renumbered re) i)))"
  have t: "t < length flds" using False by (auto simp: t_def)
  have re: "set re = set flds" "distinct (map ?id re)"
    using assms(1,3) t by (simp_all add: re_def set_swap_at map_swap_at distinct_swap_at)
  have Kk: "K (?id (re ! k)) = of_nat k" if "k < length re" for k
    using map_of_renumbered[OF re(2) that] by (simp add: K_def)
  have mK: "map K (map ?id re) = map of_nat [0..<length re]"
    by (rule nth_equalityI) (simp_all add: Kk)
  have row: "K (?fid r) = ?so r \<and> ?fid r \<in> ?id ` set re" if r: "r \<in> set rows" for r
  proof -
    obtain f where f: "f \<in> set flds" "?fid r = ?id f"
      "js_get ''sort_order'' r = moved_order (handleMove flds index direction) f" using assms(4) r by blast
    obtain k where k: "k < length re" "f = re ! k" using f(1) re(1) by (metis in_set_conv_nth)
    have "handleMove flds index direction = filter (order_changed flds) (renumbered re)"
      using False by (simp add: handleMove_def Let_def re_def t_def)
    then have "js_get ''sort_order'' r = JInt (int k)" using moved_order_at[OF assms(1) re k(1)] f(3) k(2) by simp
    then show ?thesis using Kk[OF k(1)] f k nth_mem by (auto simp: f(2))
  qed
  have "map ?fid (sortOpenSurveyFields rows) = filter P (map ?id re)"
  proof (rule same_order[of K])
    have rws: "set (sortOpenSurveyFields rows) = set rows" by (metis mset_sorted_fields set_mset_mset)
    have "map K (map ?fid (sortOpenSurveyFields rows)) = map ?so (sortOpenSurveyFields rows)"
      using row rws by simp
    then show "sorted (map K (map ?fid (sortOpenSurveyFields rows)))" using sorted_fields by metis
    have "sorted (map K (map ?id re))" unfolding mK by (simp add: sorted_map sorted_wrt_upt)
    then show "sorted (map K (filter P (map ?id re)))" by (rule sorted_filter)
    show "set (map ?fid (sortOpenSurveyFields rows)) = set (filter P (map ?id re))"
      using row rws by (auto simp: P_def)
    show "distinct (map ?fid (sortOpenSurveyFields rows))"
      using assms(2) mset_eq_imp_distinct_iff[of "map ?fid (sortOpenSurveyFields rows)" "map ?fid rows"] by simp
    show "distinct (filter P (map ?id re))" using re(2) by simp
    have "inj_on K (set (map ?id re))"
      using mK distinct_map[of K "map ?id re"] by (simp add: distinct_map)
    then show "inj_on K (set (map ?fid (sortOpenSurveyFields rows)))"
      by (rule inj_on_subset) (use row rws in auto)
  qed
  then show ?thesis using False by (simp add: Let_def t_def re_def P_def)
qed (auto simp: handleMove_def Let_def)

definition sample_defs :: "js list" where
  "sample_defs = map (\<lambda>(i, k). JObj [(''id'', JInt i), (''sort_order'', JInt k)]) [(5, 0), (7, 0), (6, 3)]"

definition sample_rows :: "js list" where
  "sample_rows = map (\<lambda>(i, k). JObj [(''field_id'', JInt i), (''sort_order'', JInt k)]) [(5, 0), (6, 1), (7, 2)]"

lemma move_reorders_fill_view_witness:
  "map (js_get ''field_id'') (sortOpenSurveyFields sample_rows) = [JInt 5, JInt 6, JInt 7]"
proof -
  have h: "\<forall>r \<in> set sample_rows. \<exists>f \<in> set sample_defs. js_get ''field_id'' r = js_get ''id'' f \<and>
           js_get ''sort_order'' r = moved_order (handleMove sample_defs 1 1) f"
    by code_simp
  have d: "distinct (map (js_get ''id'') sample_defs)" "distinct (map (js_get ''field_id'') sample_rows)"
    "1 < length sample_defs" by code_simp+
  have "filter (\<lambda>i. i \<in> js_get ''field_id'' ` set sample_rows)
         (map (js_get ''id'') (swap_at 1 (nat (int 1 + 1)) sample_defs)) = [JInt 5, JInt 6, JInt 7]"
    by code_simp
  moreover have "length sample_defs = 3" by code_simp
  ultimately show ?thesis using move_reorders_fill_view[OF d h] by (simp add: Let_def)
qed

section \<open>The fill view\<close>

text \<open>A field as the form reads it.\<close>

definition fill_field :: "js \<Rightarrow> bool" where
  "fill_field f \<longleftrightarrow>
     (\<exists>r. js_get ''id'' f = JNum (Fin r)) \<and> (\<exists>r. js_get ''field_id'' f = JNum (Fin r)) \<and>
     (\<exists>r. js_get ''sort_order'' f = JNum (Fin r)) \<and>
     (js_get ''value'' f = JNull \<or> (\<exists>s. js_get ''value'' f = JStr s)) \<and>
     (\<exists>s. js_get ''field_type'' f = JStr s) \<and> (\<exists>s. js_get ''label_kh'' f = JStr s) \<and>
     (\<exists>b. js_get ''required'' f = JBool b) \<and>
     (js_get ''options'' f = JNull \<or> (\<exists>kvs. js_get ''options'' f = JObj kvs))"

lemma fill_field_parsed:
  assumes z: "zod_parser parse" and p: "parse openSurveyFieldSchema v = Inr w"
  shows "fill_field w"
proof -
  note get = zod_parser.object_get[OF z p[unfolded openSurveyFieldSchema_def]]
  note acc = zod_parser.p_number[OF z] zod_parser.p_string[OF z] zod_parser.p_nullable[OF z]
    zod_parser.p_boolean[OF z] zod_parser.p_record[OF z]
  have "parse znum (js_get ''id'' v) = Inr (js_get ''id'' w)" by (rule get) simp_all
  moreover have "parse znum (js_get ''field_id'' v) = Inr (js_get ''field_id'' w)" by (rule get) simp_all
  moreover have "parse znum (js_get ''sort_order'' v) = Inr (js_get ''sort_order'' w)" by (rule get) simp_all
  moreover have "parse (ZNullable zstr) (js_get ''value'' v) = Inr (js_get ''value'' w)" by (rule get) simp_all
  moreover have "parse zstr (js_get ''field_type'' v) = Inr (js_get ''field_type'' w)" by (rule get) simp_all
  moreover have "parse zstr (js_get ''label_kh'' v) = Inr (js_get ''label_kh'' w)" by (rule get) simp_all
  moreover have "parse ZBoolean (js_get ''required'' v) = Inr (js_get ''required'' w)" by (rule get) simp_all
  moreover have "parse (ZNullable (ZRecord ZUnknown)) (js_get ''options'' v) = Inr (js_get ''options'' w)"
    by (rule get) simp_all
  ultimately show ?thesis unfolding fill_field_def acc by (auto split: if_splits)
qed

lemma parsed_list:
  assumes z: "zod_parser parse" and p: "parse (ZObject b fs) body = Inr w"
    and d: "distinct (map fst fs)" "map_of fs k = Some (ZArray s)" and x: "x \<in> set (js_list (js_get k w))"
  shows "\<exists>v. parse s v = Inr x"
proof -
  have "parse (ZArray s) (js_get k body) = Inr (js_get k w)" by (rule zod_parser.object_get[OF z p d])
  moreover obtain ys where "js_get k w = JArr ys" using x by (cases "js_get k w") auto
  ultimately show ?thesis using zod_parser.array_elements[OF z, of s _ "JArr ys" ys x] x by auto
qed

text \<open>C20. The fill view is well typed for every server: whatever the server answers, the fields the
  form is built from have numeric ids and positions, a text or null as value, texts as type
  and Khmer label, a boolean required flag and an object or null as options, and they
  are sorted by position; a failed or malformed answer gives no fields, never an
  exception, and the event list degrades in the same way and offers no event whose open
  survey is closed.\<close>

theorem fill_view_typed:
  assumes "zod_parser parse"
  shows "(\<forall>f \<in> set (getFillView parse srv e org). fill_field f)
    \<and> sorted (map (\<lambda>f. js_rat (js_get ''sort_order'' f)) (getFillView parse srv e org))
    \<and> (\<forall>err. srv (apiGetFillView e org) = Inl err \<longrightarrow> getFillView parse srv e org = [])
    \<and> (\<forall>ev \<in> set (os_fetchEvents parse srv). js_get ''survey_open_is_open'' ev \<noteq> JBool False)
    \<and> (\<forall>err. srv apiGetEvents = Inl err \<longrightarrow> os_fetchEvents parse srv = [])"
proof (intro conjI)
  show "\<forall>f \<in> set (getFillView parse srv e org). fill_field f"
  proof
    fix f assume f: "f \<in> set (getFillView parse srv e org)"
    then obtain w where pc: "parsed_call parse srv openSurveyFillViewSchema (apiGetFillView e org) = Inr w"
      and fw: "f \<in> set (sortOpenSurveyFields (js_list (js_get ''data'' w)))"
      by (cases "parsed_call parse srv openSurveyFillViewSchema (apiGetFillView e org)") (auto simp: getFillView_def)
    then obtain body where w: "parse openSurveyFillViewSchema body = Inr w" by (auto simp: parsed_call_Inr)
    have "f \<in> set (js_list (js_get ''data'' w))" using fw by (metis mset_sorted_fields set_mset_mset)
    then obtain v where "parse openSurveyFieldSchema v = Inr f"
      using parsed_list[OF assms w[unfolded openSurveyFillViewSchema_def], of "''data''" openSurveyFieldSchema f]
      by auto
    then show "fill_field f" by (rule fill_field_parsed[OF assms])
  qed
  show "sorted (map (\<lambda>f. js_rat (js_get ''sort_order'' f)) (getFillView parse srv e org))"
    using sorted_fields by (auto simp: getFillView_def split: sum.split)
  show "\<forall>err. srv (apiGetFillView e org) = Inl err \<longrightarrow> getFillView parse srv e org = []"
    by (simp add: getFillView_def parsed_call_def)
  show "\<forall>ev \<in> set (os_fetchEvents parse srv). js_get ''survey_open_is_open'' ev \<noteq> JBool False"
    by (auto simp: os_fetchEvents_def split: sum.splits)
  show "\<forall>err. srv apiGetEvents = Inl err \<longrightarrow> os_fetchEvents parse srv = []"
    by (simp add: os_fetchEvents_def parsed_call_def)
qed

lemma fill_view_typed_witness:
  "getFillView zparse (\<lambda>_. Inl (OtherError ''down'')) 1 None = [] \<and>
   os_fetchEvents zparse (\<lambda>_. Inl (OtherError ''down'')) = []"
  using fill_view_typed[OF zp.zod_parser_axioms, of "\<lambda>_. Inl (OtherError ''down'')" 1 None] by simp

section \<open>Submissions\<close>

lemma update_absent: "k \<notin> fst ` set m \<Longrightarrow> AList.update k v m = m @ [(k, v)]"
  by (induction m) auto

lemma fold_update_distinct:
  "distinct (map k xs) \<Longrightarrow> fst ` set m \<inter> k ` set xs = {} \<Longrightarrow>
     fold (\<lambda>x. AList.update (k x) (v x)) xs m = m @ map (\<lambda>x. (k x, v x)) xs"
proof (induction xs arbitrary: m)
  case (Cons x xs)
  have "AList.update (k x) (v x) m = m @ [(k x, v x)]" using Cons.prems by (intro update_absent) auto
  moreover have "fst ` set (m @ [(k x, v x)]) \<inter> k ` set xs = {}" using Cons.prems by auto
  ultimately show ?case using Cons.IH[of "m @ [(k x, v x)]"] Cons.prems(1) by simp
qed simp

lemmas fold_update_new = fold_update_distinct[where m = "[]", simplified]

lemma map_of_distinct_key: "distinct (map k xs) \<Longrightarrow> x \<in> set xs \<Longrightarrow> map_of (map (\<lambda>x. (k x, v x)) xs) (k x) = Some (v x)"
  by (induction xs) (auto simp: image_iff)

definition answered :: "js \<Rightarrow> js \<Rightarrow> bool" where
  "answered field v \<longleftrightarrow> (\<exists>s. v = JStr s \<and> (truthy (js_get ''required'' field) \<longrightarrow> s \<noteq> [] \<and> trim s = s))"

lemma accepted_answer:
  assumes z: "zod_parser parse" and d: "distinct (map answer_key flds)" and f: "f \<in> set flds"
    and p: "parse (buildOpenSurveyFormSchema flds) v = Inr w"
  shows "answered f (payload_answer w f)"
proof -
  have sh: "answer_shape flds = map (\<lambda>f. (answer_key f, answer_schema f)) flds"
    unfolding answer_shape_def by (rule fold_update_new[OF d])
  have r: "parse (ZObject False (answer_shape flds)) (js_get ''responses'' v) = Inr (js_get ''responses'' w)"
    by (rule zod_parser.object_get[OF z p[unfolded buildOpenSurveyFormSchema_def]]) simp_all
  have a: "parse (answer_schema f) (js_get (answer_key f) (js_get ''responses'' v))
      = Inr (js_get (answer_key f) (js_get ''responses'' w))"
    using zod_parser.object_get[OF z r] d f
    by (simp add: sh comp_def map_of_distinct_key)
  show ?thesis
    using a zod_parser.p_string[OF z]
    by (auto simp: answered_def payload_answer_def answer_schema_def Let_def split: if_splits)
qed

definition pending_ok :: "os_env \<Rightarrow> os_page \<Rightarrow> bool" where
  "pending_ok env p \<longleftrightarrow> (\<forall>pl. pg_pending p = Some pl \<longrightarrow>
     pg_error p = None \<and> \<not> pg_success p \<and>
     (\<exists>vals d e. submit_values (os_parse env) (buildOpenSurveyFormSchema (os_fields env e)) vals = Some d
        \<and> pl = formValuesToPayload d (os_fields env e) e (os_org env)))"

lemma pending_ok_step: "pending_ok env p \<Longrightarrow> pending_ok env (os_step env op p)"
proof (cases op)
  case (PressSubmit vals)
  assume "pending_ok env p"
  then show ?thesis unfolding PressSubmit os_step.simps press_submit_def
    by (auto simp: pending_ok_def split: option.splits)
qed (auto simp: pending_ok_def os_choose_event_def settle_def fill_another_def split: option.splits sum.splits)

lemma pending_ok_run: "pending_ok env (os_run env ops)"
proof -
  have "pending_ok env p \<Longrightarrow> pending_ok env (fold (os_step env) ops p)" for p
    by (induction ops arbitrary: p) (simp_all add: pending_ok_step)
  moreover have "pending_ok env page_start" by (simp add: pending_ok_def page_start_def)
  ultimately show ?thesis unfolding os_run_def by blast
qed

text \<open>C21. Every survey answer that is ever sent is complete: in every state the page can reach, a
  submission in flight names the user's organization, has exactly one entry for each
  field of its event, in their order, each a text, and a non-empty trimmed one if the
  field is required; and no submission is in flight while the form shows that
  the phase is closed or the success screen is up.\<close>

theorem survey_submissions_complete:
  assumes "zod_parser (os_parse env)"
    and "\<forall>e. distinct (map answer_key (os_fields env e))"
    and "pg_pending (os_run env ops) = Some pl"
  shows "pl_organizationId pl = os_org env
    \<and> map fst (pl_responses pl) = map answer_key (os_fields env (pl_eventId pl))
    \<and> (\<forall>f \<in> set (os_fields env (pl_eventId pl)).
         \<exists>v. map_of (pl_responses pl) (answer_key f) = Some v \<and> answered f v)
    \<and> \<not> phaseClosed (os_run env ops) \<and> \<not> pg_success (os_run env ops)"
proof -
  obtain vals d e where
    s: "submit_values (os_parse env) (buildOpenSurveyFormSchema (os_fields env e)) vals = Some d"
    and pl: "pl = formValuesToPayload d (os_fields env e) e (os_org env)"
    and c: "pg_error (os_run env ops) = None" "\<not> pg_success (os_run env ops)"
    using pending_ok_run[of env ops] assms(3) unfolding pending_ok_def by blast
  let ?fs = "os_fields env e"
  have dk: "distinct (map answer_key ?fs)" using assms(2) by blast
  have r: "pl_responses pl = map (\<lambda>f. (answer_key f, payload_answer d f)) ?fs"
    unfolding pl formValuesToPayload_def by (simp add: fold_update_new[OF dk])
  have ans: "answered f (payload_answer d f)" if "f \<in> set ?fs" for f
    using accepted_answer[OF assms(1) dk that] s[unfolded submit_values_Some] by blast
  have m: "map_of (pl_responses pl) (answer_key f) = Some (payload_answer d f)" if "f \<in> set ?fs" for f
    unfolding r by (rule map_of_distinct_key[OF dk that])
  have e: "pl_eventId pl = e" "pl_organizationId pl = os_org env" by (simp_all add: pl formValuesToPayload_def)
  show ?thesis unfolding e
    using c ans m by (auto simp: r comp_def phaseClosed_def isPhaseClosedError_def)
qed

definition sample_survey_field :: js where
  "sample_survey_field = JObj [(''id'', JInt 0), (''field_id'', JInt 3), (''organization_id'', JInt 9), (''value'', JNull),
     (''field_type'', JStr ''text''), (''label_kh'', JStr ''k''), (''options'', JNull), (''required'', JBool True),
     (''sort_order'', JInt 0)]"

definition sample_survey_env :: os_env where
  "sample_survey_env = \<lparr> os_parse = zparse, os_org = Some 9, os_fields = (\<lambda>_. [sample_survey_field]) \<rparr>"

definition sample_survey_ops :: "os_op list" where
  "sample_survey_ops = [ChooseEvent 4 False, PressSubmit [(''responses'', JObj [(''3'', JStr '' yes '')])]]"

definition sample_survey_payload :: submit_payload where
  "sample_survey_payload = \<lparr> pl_eventId = 4, pl_organizationId = Some 9, pl_responses = [(''3'', JStr ''yes'')] \<rparr>"

lemma survey_submissions_complete_witness:
  "pg_pending (os_run sample_survey_env sample_survey_ops) = Some sample_survey_payload
   \<and> map fst (pl_responses sample_survey_payload) = map answer_key (os_fields sample_survey_env 4)
   \<and> \<not> phaseClosed (os_run sample_survey_env sample_survey_ops)"
proof -
  have s: "pg_pending (os_run sample_survey_env sample_survey_ops) = Some sample_survey_payload" by code_simp
  have d: "\<forall>e. distinct (map answer_key (os_fields sample_survey_env e))" by (simp add: sample_survey_env_def)
  have z: "zod_parser (os_parse sample_survey_env)" using zp.zod_parser_axioms by (simp add: sample_survey_env_def)
  show ?thesis using survey_submissions_complete[OF z d s] s by (simp add: sample_survey_payload_def)
qed

text \<open>The closed notice of one event stays when another event whose fields are cached is chosen: the form
  is not remounted, so its submit is disabled for an event whose phase may be open.\<close>

lemma closed_notice_survives_event_change:
  "phaseClosed (os_run sample_survey_env
     (sample_survey_ops @ [Settled (Inl (AxiosError (Some 403) JNull [])), ChooseEvent 5 True]))"
  by code_simp

text \<open>A failed submit shows two messages, the generic one of the shared mutation cache and the hook's own.\<close>

lemma failed_submit_toasts:
  "submit_settled fallback pl (Inl e) =
     ([ErrorToast fallback,
       ErrorToast (if isPhaseClosedError (Some e) then ''messages.phaseClosed'' else ''messages.submitError'')], [])"
  by (simp add: submit_settled_def on_mutation_error_def submit_meta_def submit_onError_def)

text \<open>Every field mutation of an event refreshes both lists the builder shows of it.\<close>

lemma field_lists_refreshed:
  assumes "key_filter matches"
  shows "invalidated matches (fields_invalidate e) (useOpenSurveyFields_key (Some e) inactive)"
proof -
  have "k_openSurvey_fields e inactive = k_openSurvey_fieldsAll e @ [JBool inactive]"
    by (simp add: k_openSurvey_fields_def k_openSurvey_fieldsAll_def)
  then show ?thesis using key_filter.prefix_matches[OF assms]
    by (simp add: invalidated_def fields_invalidate_def useOpenSurveyFields_key_def)
qed

end
