(* ===== verification/Ttl_Cache.thy ===== *)
theory Ttl_Cache
  imports Http
begin

text \<open>
  The read cache each of the three survey adapters keeps for five minutes: an
  entry is the data and the time it was stored. The clock is a number of
  milliseconds; a read has the time it starts and the time its answer is stored.
\<close>

type_synonym ttl_cache = "(string \<times> (js \<times> nat)) list"

definition CACHE_DURATION :: nat where
  "CACHE_DURATION = 5 * 60 * 1000"

definition getCached :: "nat \<Rightarrow> string \<Rightarrow> ttl_cache \<Rightarrow> js option \<times> ttl_cache" where
  "getCached now key c =
     (case map_of c key of
        None \<Rightarrow> (None, c)
      | Some (d, timestamp) \<Rightarrow>
          if int now - int timestamp > int CACHE_DURATION then (None, AList.delete key c) else (Some d, c))"

definition setCached :: "nat \<Rightarrow> string \<Rightarrow> js \<Rightarrow> ttl_cache \<Rightarrow> ttl_cache" where
  "setCached now key d c = AList.update key (d, now) c"

text \<open>A list read: the cached data, or what the request gives, which is stored; an exception reads
  as the empty list and stores nothing. The cached lists are arrays, which are never falsy.\<close>

definition cached_list :: "string \<Rightarrow> (js_error, js) result \<Rightarrow> nat \<Rightarrow> nat \<Rightarrow> ttl_cache \<Rightarrow> js \<times> ttl_cache" where
  "cached_list key fetch now done c =
     (case getCached now key c of
        (Some d, c1) \<Rightarrow> (d, c1)
      | (None, c1) \<Rightarrow>
          (case fetch of
             Inl _ \<Rightarrow> (JArr [], c1)
           | Inr d \<Rightarrow> (d, setCached done key d c1)))"

text \<open>What the entries of a cache came from: the data of each was the answer at the time it was stored.\<close>

definition fresh_in :: "(string \<Rightarrow> nat \<Rightarrow> (js_error, js) result) \<Rightarrow> ttl_cache \<Rightarrow> bool" where
  "fresh_in history c \<longleftrightarrow> (\<forall>key d t. map_of c key = Some (d, t) \<longrightarrow> history key t = Inr d)"

lemma map_of_delete: "map_of (AList.delete k c) x = (if x = k then None else map_of c x)"
  by (simp add: delete_conv')

lemma fresh_getCached: "fresh_in h c \<Longrightarrow> fresh_in h (snd (getCached now key c))"
  by (auto simp: fresh_in_def getCached_def map_of_delete split: option.splits)

text \<open>C22. A read through the cache is never stale beyond the duration and never invented: its data is
  the answer the server gave at a time at most five minutes ago, or the answer of now, or empty because
  the server fails now; the cache stays sound, and a failure is never stored.\<close>

theorem cached_reads_fresh:
  assumes "fresh_in history c"
  shows "((\<exists>t. int now - int t \<le> 300000 \<and>
             history key t = Inr (fst (cached_list key (history key done) now done c)))
      \<or> history key done = Inr (fst (cached_list key (history key done) now done c))
      \<or> fst (cached_list key (history key done) now done c) = JArr [] \<and> (\<exists>e. history key done = Inl e))
    \<and> fresh_in history (snd (cached_list key (history key done) now done c))
    \<and> ((\<exists>e. history key done = Inl e) \<longrightarrow>
         fst ` set (snd (cached_list key (history key done) now done c)) \<subseteq> fst ` set c)"
proof (intro conjI)
  have u: "fresh_in history (setCached done key d c1)" if "history key done = Inr d" "fresh_in history c1" for d c1
    using that by (auto simp: fresh_in_def setCached_def update_conv' split: if_splits)
  show "fresh_in history (snd (cached_list key (history key done) now done c))"
    using fresh_getCached[OF assms, of now key] u
    by (auto simp: cached_list_def split: prod.split option.split sum.split)
  have "fst ` set (snd (getCached now key c)) \<subseteq> fst ` set c"
    by (auto simp: getCached_def delete_conv' dom_map_of_conv_image_fst[symmetric] split: option.splits)
  moreover have "snd (cached_list key (Inl e) now done c) = snd (getCached now key c)" for e
    by (simp add: cached_list_def split: prod.split option.split)
  ultimately show "(\<exists>e. history key done = Inl e) \<longrightarrow>
      fst ` set (snd (cached_list key (history key done) now done c)) \<subseteq> fst ` set c"
    by (intro impI, elim exE, simp only:)
  show "(\<exists>t. int now - int t \<le> 300000 \<and>
             history key t = Inr (fst (cached_list key (history key done) now done c)))
      \<or> history key done = Inr (fst (cached_list key (history key done) now done c))
      \<or> fst (cached_list key (history key done) now done c) = JArr [] \<and> (\<exists>e. history key done = Inl e)"
  proof (cases "fst (getCached now key c)")
    case None
    then show ?thesis
      by (cases "getCached now key c"; cases "history key done") (auto simp: cached_list_def)
  next
    case (Some d)
    then obtain t where t: "map_of c key = Some (d, t)" "int now - int t \<le> int CACHE_DURATION"
      by (auto simp: getCached_def split: option.splits if_splits)
    have "fst (cached_list key (history key done) now done c) = d"
      using Some by (cases "getCached now key c") (simp add: cached_list_def)
    then show ?thesis using assms t by (intro disjI1 exI[of _ t]) (simp add: fresh_in_def CACHE_DURATION_def)
  qed
qed

definition sample_history :: "string \<Rightarrow> nat \<Rightarrow> (js_error, js) result" where
  "sample_history key t = (if t < 100 then Inr (JArr [JInt 1]) else Inl (OtherError ''down''))"

lemma cached_reads_fresh_witness:
  "fresh_in sample_history [(''events'', (JArr [JInt 1], 10))] \<and>
   (fst (cached_list ''events'' (sample_history ''events'' 310020) 310010 310020 [(''events'', (JArr [JInt 1], 10))]) = JArr [JInt 1]
     \<or> fst (cached_list ''events'' (sample_history ''events'' 310020) 310011 310020 [(''events'', (JArr [JInt 1], 10))]) = JArr [])
   \<and> fresh_in sample_history
        (snd (cached_list ''events'' (sample_history ''events'' 310020) 310011 310020 [(''events'', (JArr [JInt 1], 10))]))"
proof -
  have f: "fresh_in sample_history [(''events'', (JArr [JInt 1], 10))]"
    by (simp add: fresh_in_def sample_history_def)
  have e: "fst (cached_list ''events'' (sample_history ''events'' 310020) 310011 310020
      [(''events'', (JArr [JInt 1], 10))]) = JArr []"
    by (simp add: cached_list_def getCached_def CACHE_DURATION_def sample_history_def)
  show ?thesis using f e cached_reads_fresh[OF f, of 310011 "''events''" 310020] by blast
qed

end
