(* ===== verification/Survey_Steps.thy ===== *)
theory Survey_Steps
  imports Step_Wizard Form Http Js_Array
begin

text \<open>
  What the By Number and By Sport survey forms share: the steps, the event types of
  core/config/eventTypes.ts and the events offered for a type, and the check of the step that
  chooses the type. Khmer names are the bytes of their UTF-8 form.
\<close>

datatype survey_step = StepEventType | StepEvent | StepOrganization | StepSports | StepReview

definition utf8 :: "int list \<Rightarrow> string" where
  "utf8 bs = map char_of bs"

definition EVENT_TYPES :: "(string \<times> string) list" where
  "EVENT_TYPES =
    [(''NATIONAL'', utf8 [
      225, 158, 128, 225, 158, 184, 225, 158, 161, 225, 158, 182, 225, 158, 135, 225, 158, 182, 225, 158, 
      143, 225, 158, 183]),
     (''UNIVERSITY'', utf8 [
      225, 158, 128, 225, 158, 184, 225, 158, 161, 225, 158, 182, 225, 158, 167, 225, 158, 143, 225, 159, 
      146, 225, 158, 143, 225, 158, 152, 225, 158, 159, 225, 158, 183, 225, 158, 128, 225, 159, 146, 225, 
      158, 159, 225, 158, 182, 32, 225, 158, 147, 225, 158, 183, 225, 158, 132, 225, 158, 152, 225, 158, 
      146, 225, 159, 146, 225, 158, 153, 225, 158, 152, 225, 158, 159, 225, 158, 183, 225, 158, 128, 225, 
      159, 146, 225, 158, 159, 225, 158, 182, 226, 128, 139, 225, 158, 148, 225, 158, 133, 225, 159, 129, 
      225, 159, 146, 225, 158, 133, 225, 158, 128, 225, 158, 145, 225, 159, 129, 225, 158, 159, 225, 158, 
      144, 225, 159, 146, 225, 158, 147, 225, 158, 182, 225, 158, 128, 225, 159, 139, 225, 158, 135, 225, 
      158, 182, 225, 158, 143, 225, 158, 183, 225, 158, 144, 225, 159, 146, 225, 158, 147, 225, 158, 182, 
      225, 158, 128, 225, 159, 139, 225, 158, 135, 225, 158, 182, 225, 158, 143, 225, 158, 183]),
     (''HIGH_SCHOOL'', utf8 [
      225, 158, 159, 225, 158, 183, 225, 158, 159, 225, 159, 146, 225, 158, 159, 225, 158, 152, 225, 158, 
      146, 225, 159, 146, 225, 158, 153, 225, 158, 152, 225, 158, 159, 225, 158, 183, 225, 158, 128, 225, 
      159, 146, 225, 158, 159, 225, 158, 182, 226, 128, 139, 225, 158, 144, 225, 159, 146, 225, 158, 147, 
      225, 158, 182, 225, 158, 128, 225, 159, 139, 225, 158, 135, 225, 158, 182, 225, 158, 143, 225, 158, 
      183]),
     (''PRIMARY_SCHOOL'', utf8 [
      225, 158, 128, 225, 158, 184, 225, 158, 161, 225, 158, 182, 225, 158, 159, 225, 158, 183, 225, 158, 
      159, 225, 159, 146, 225, 158, 159, 225, 158, 148, 225, 158, 139, 225, 158, 152, 225, 158, 159, 225, 
      158, 183, 225, 158, 128, 225, 159, 146, 225, 158, 159, 225, 158, 182, 225, 158, 135, 225, 158, 182, 
      225, 158, 143, 225, 158, 183])]"

definition is_admin :: "string \<Rightarrow> bool" where
  "is_admin role \<longleftrightarrow> role = ''admin'' \<or> role = ''super_admin''"

definition is_org_scoped :: "string \<Rightarrow> js \<Rightarrow> bool" where
  "is_org_scoped role org_id \<longleftrightarrow> role = ''organization'' \<and> truthy org_id"

definition event_has_type :: "string \<Rightarrow> js \<Rightarrow> bool" where
  "event_has_type selectedEventType e =
     (let fromApi = trim (js_string (js_get ''type'' e)); selectedType = trim selectedEventType in
      fromApi = selectedType \<or>
      (case map_of EVENT_TYPES selectedType of
         Some khValue \<Rightarrow> khValue \<noteq> [] \<and> fromApi = trim khValue
       | None \<Rightarrow> False))"

definition nonempty_type :: "string option \<Rightarrow> bool" where
  "nonempty_type t \<longleftrightarrow> (case t of Some s \<Rightarrow> s \<noteq> [] | None \<Rightarrow> False)"

text \<open>The value a radio card of a record hands over.\<close>

definition radio_value :: "js \<Rightarrow> js" where
  "radio_value r = JNum (to_number (js_string (js_get ''id'' r)))"

text \<open>A numeric id survives the passage through the radio card.\<close>

lemma radio_value_int [simp]: "js_get ''id'' r = JInt i \<Longrightarrow> radio_value r = JInt i"
  by (simp add: radio_value_def)

lemma not_admin_org: "is_org_scoped role org \<Longrightarrow> \<not> is_admin role"
  by (auto simp: is_org_scoped_def is_admin_def)

text \<open>A number that the ids of the schemas accept.\<close>

definition pos_int :: "js \<Rightarrow> bool" where
  "pos_int v \<longleftrightarrow> (\<exists>i. v = JInt i \<and> 0 < i)"

definition nat_count :: "js \<Rightarrow> bool" where
  "nat_count v \<longleftrightarrow> (\<exists>i. v = JInt i \<and> 0 \<le> i)"

lemma pos_int_truthy: "pos_int v \<Longrightarrow> truthy v"
  by (auto simp: pos_int_def)

lemma parse_pos_int:
  assumes "zod_parser parse" "parse (ZNumber [NInt, NPositive]) v = Inr w"
  shows "pos_int w \<and> w = v"
proof -
  obtain r where "v = JNum (Fin r)" "of_int \<lfloor>r\<rfloor> = r" "0 < r" "w = v"
    using assms(2) by (auto simp: zod_parser.p_number[OF assms(1)])
  then show ?thesis unfolding pos_int_def by (metis of_int_0_less_iff)
qed

lemma parse_nat_count:
  assumes "zod_parser parse" "parse (ZNumber [NInt, NMin 0]) v = Inr w"
  shows "nat_count w \<and> w = v"
proof -
  obtain r where "v = JNum (Fin r)" "of_int \<lfloor>r\<rfloor> = r" "0 \<le> r" "w = v"
    using assms(2) by (auto simp: zod_parser.p_number[OF assms(1)])
  then show ?thesis unfolding nat_count_def by (metis of_int_0_le_iff)
qed

lemma array_all:
  assumes "zod_parser parse" "parse (ZArray s) v = Inr w" "x \<in> set (js_list w)"
  shows "\<exists>y. parse s y = Inr x"
proof -
  obtain ys where "w = JArr ys" using assms(3) by (cases w) auto
  with assms(3) show ?thesis using zod_parser.array_elements[OF assms(1,2), of ys x] by auto
qed

lemma parse_nullable_pos:
  assumes z: "zod_parser parse" and p: "parse (ZNullable (ZNumber [NInt, NPositive])) v = Inr w"
  shows "w = v \<and> (v = JNull \<or> pos_int v)"
  using p parse_pos_int[OF z, of v w] by (auto simp: zod_parser.p_nullable[OF z] split: if_splits)

section \<open>The step is always one of the steps\<close>

lemma nav_start_in: "p \<in> set steps \<Longrightarrow> nv_step (nav_start p) \<in> set steps"
  by (simp add: nav_start_def)

lemma nav_next_in: "nv_step n \<in> set steps \<Longrightarrow> nv_step (nav_next steps ok n) \<in> set steps"
  using index_of_range[of "nv_step n" steps] by (auto simp: nav_next_def nav_goToStep_def Let_def)

lemma nav_prev_in: "nv_step n \<in> set steps \<Longrightarrow> nv_step (nav_prev steps n) \<in> set steps"
  using index_of_range[of "nv_step n" steps] by (auto simp: nav_prev_def nav_goToStep_def Let_def)

lemma nav_click_in: "nv_step n \<in> set steps \<Longrightarrow> nv_step (nav_click steps i n) \<in> set steps"
  by (auto simp: nav_click_def indicator_click_def nav_stepClick_def)

lemmas nav_in = nav_start_in nav_next_in nav_prev_in nav_click_in

end
