(* ===== verification/Survey_By_Number.thy ===== *)
theory Survey_By_Number
  imports Survey_Steps Ttl_Cache
begin

text \<open>
  The By Number survey, modules/bynumber: an organization, or an administrator
  for one, enters how many athletes and leaders it sends to each of its sports
  of an event. The schemas, the adapter with its read cache, the submit, and
  the stepwise form with its asynchronous loads. Answers are taken in the order of their
  requests; a submit is one step.
\<close>

section \<open>Schemas\<close>

definition bn_eventSchema :: schema where
  "bn_eventSchema = ZObject False
     [(''id'', znum), (''name_kh'', zstr), (''type'', ZOptional zstr),
      (''survey_number_is_open'', ZOptional ZBoolean), (''created_at'', ZOptional zstr)]"

definition bn_organizationSchema :: schema where
  "bn_organizationSchema = ZObject False
     [(''id'', znum), (''name_kh'', zstr), (''type'', znullable_optional zstr),
      (''code'', znullable_optional zstr), (''created_at'', znullable_optional zstr)]"

definition bn_sportSchema :: schema where
  "bn_sportSchema = ZObject False
     [(''id'', znum), (''name_kh'', zstr), (''sport_type'', ZOptional zstr), (''created_at'', ZOptional zstr)]"

definition bn_sportEntrySchema :: schema where
  "bn_sportEntrySchema = ZObject False [(''id'', znum), (''name_kh'', zstr)]"

definition list_response :: "schema \<Rightarrow> schema" where
  "list_response s = ZObject False [(''data'', ZArray s)]"

definition bn_eventListResponseSchema :: schema where
  "bn_eventListResponseSchema = list_response bn_eventSchema"
definition bn_sportListResponseSchema :: schema where
  "bn_sportListResponseSchema = list_response bn_sportEntrySchema"
definition bn_organizationListResponseSchema :: schema where
  "bn_organizationListResponseSchema = list_response bn_organizationSchema"

definition bn_sportsEventResponseSchema :: schema where
  "bn_sportsEventResponseSchema = ZObject False
     [(''id'', znum), (''event_name'', ZOptional zstr), (''sport_name'', ZOptional zstr),
      (''created_at'', ZOptional zstr)]"

definition sportEventOrgResponseSchema :: schema where
  "sportEventOrgResponseSchema = ZObject False
     [(''id'', znum), (''organization_id'', znum), (''organization_name'', zstr), (''created_at'', zstr)]"

definition COUNT_FIELDS :: "string list" where
  "COUNT_FIELDS = [''athlete_male_count'', ''athlete_female_count'', ''leader_male_count'', ''leader_female_count'']"

definition sportCountSchema :: schema where
  "sportCountSchema = ZObject False
     ([(''sport_id'', ZNumber [NInt, NPositive]), (''sport_name_kh'', ZString [MinLen 1])] @
      map (\<lambda>k. (k, ZNumber [NInt, NMin 0])) COUNT_FIELDS @
      [(''sportsEventOrgId'', ZOptional zint), (''maleCount'', ZOptional zint), (''femaleCount'', ZOptional zint)])"

definition sport_total :: "js \<Rightarrow> rat" where
  "sport_total sport =
     js_rat (js_get ''athlete_male_count'' sport) + js_rat (js_get ''athlete_female_count'' sport) +
     js_rat (js_get ''leader_male_count'' sport) + js_rat (js_get ''leader_female_count'' sport)"

definition bn_sports_schema :: schema where
  "bn_sports_schema =
     refine1 (refine1 (ZArray sportCountSchema) (\<lambda>v. js_list v \<noteq> []) [] ''Select at least one sport'')
       (\<lambda>v. list_ex (\<lambda>sport. sport_total sport > 0) (js_list v)) []
       ''At least one sport must have participant counts''"

definition bn_form_fields :: "(string \<times> schema) list" where
  "bn_form_fields =
     [(''eventId'', ZNullable (ZNumber [NInt, NPositive])),
      (''organizationId'', ZNullable (ZNumber [NInt, NPositive])),
      (''sports'', bn_sports_schema), (''eventName'', ZOptional zstr), (''organizationName'', ZOptional zstr),
      (''sportSelections'', ZOptional (ZArray znum))]"

definition byNumberSchema :: schema where
  "byNumberSchema = ZObject False bn_form_fields"

section \<open>Adapter\<close>

definition bn_get :: "string \<Rightarrow> request" where
  "bn_get p = get_req (api_v1 p) []"

definition bn_apiGetEvents :: request where
  "bn_apiGetEvents = bn_get ''events?survey_number_open=true&skip=0&limit=100''"
definition bn_apiGetAllSports :: request where
  "bn_apiGetAllSports = bn_get ''sports?skip=0&limit=200''"
definition bn_apiGetAllOrganizations :: request where
  "bn_apiGetAllOrganizations = bn_get ''organization?skip=0&limit=100''"
definition bn_apiGetEventSports :: "int \<Rightarrow> request" where
  "bn_apiGetEventSports e = bn_get (''events/'' @ show_int e @ ''/sports'')"
definition bn_apiGetSportOrgs :: "int \<Rightarrow> js \<Rightarrow> request" where
  "bn_apiGetSportOrgs e s = bn_get (''events/'' @ show_int e @ ''/sports/'' @ js_string s @ ''/orgs'')"
definition bn_apiGetAllSportsList :: request where
  "bn_apiGetAllSportsList = bn_get ''sports?limit=200''"
definition apiCreateParticipationPerSport :: "js \<Rightarrow> request" where
  "apiCreateParticipationPerSport body = body_req ''post'' (api_v1 ''participation-per-sport'') body"

definition bn_fetch_events :: "parser \<Rightarrow> backend \<Rightarrow> (js_error, js) result" where
  "bn_fetch_events parse srv =
     map_r (\<lambda>w. JArr (filter (\<lambda>e. js_get ''survey_number_is_open'' e \<noteq> JBool False) (js_list (js_get ''data'' w))))
       (parsed_call parse srv bn_eventListResponseSchema bn_apiGetEvents)"

definition bn_fetchEvents where
  "bn_fetchEvents parse srv = cached_list ''events'' (bn_fetch_events parse srv)"

definition bn_fetchAllSports where
  "bn_fetchAllSports parse srv = cached_list ''all-sports''
     (map_r (js_get ''data'') (parsed_call parse srv bn_sportListResponseSchema bn_apiGetAllSports))"

definition bn_fetchAllOrganizations where
  "bn_fetchAllOrganizations parse srv = cached_list ''organizations''
     (map_r (js_get ''data'') (parsed_call parse srv bn_organizationListResponseSchema bn_apiGetAllOrganizations))"

text \<open>The sports of an event; the name is the sport's, the id that of its link to the event.\<close>

definition bn_event_sport :: "js \<Rightarrow> js" where
  "bn_event_sport se = JObj [(''id'', js_get ''id'' se), (''name_kh'', js_or (js_get ''sport_name'' se) (JStr [])),
     (''created_at'', js_get ''created_at'' se)]"

definition parse_all :: "parser \<Rightarrow> schema \<Rightarrow> js list \<Rightarrow> (js_error, js) result" where
  "parse_all parse s xs = (case parse (ZArray s) (JArr xs) of Inl _ \<Rightarrow> Inl (OtherError ''ZodError'') | Inr w \<Rightarrow> Inr w)"

definition bn_fetchEventSports where
  "bn_fetchEventSports parse srv e = cached_list (''event-sports-'' @ show_int e)
     (bind_r (parsed_call parse srv (ZArray bn_sportsEventResponseSchema) (bn_apiGetEventSports e))
        (\<lambda>w. parse_all parse bn_sportSchema (map bn_event_sport (js_list w))))"

text \<open>The rows of the sports the organization is linked to, one request per sport; a sport whose request
  fails is skipped.\<close>

definition org_sport_row :: "js \<Rightarrow> js \<Rightarrow> js \<Rightarrow> js" where
  "org_sport_row matchedSport es link = JObj
     ([(''sport_id'', js_get ''id'' matchedSport), (''sport_name_kh'', js_or (js_get ''sport_name'' es) (JStr []))] @
      map (\<lambda>k. (k, JInt 0)) COUNT_FIELDS @ [(''sportsEventOrgId'', js_get ''id'' link)])"

definition org_sport :: "parser \<Rightarrow> backend \<Rightarrow> int \<Rightarrow> int \<Rightarrow> js list \<Rightarrow> js \<Rightarrow> js option" where
  "org_sport parse srv org e allSports es =
     (case find (\<lambda>s. js_get ''name_kh'' s = js_get ''sport_name'' es) allSports of
        None \<Rightarrow> None
      | Some matchedSport \<Rightarrow>
          (case parsed_call parse srv (ZArray sportEventOrgResponseSchema) (bn_apiGetSportOrgs e (js_get ''id'' matchedSport)) of
             Inl _ \<Rightarrow> None
           | Inr orgs \<Rightarrow>
               (case find (\<lambda>o1. js_get ''organization_id'' o1 = JInt org) (js_list orgs) of
                  None \<Rightarrow> None
                | Some link \<Rightarrow> Some (org_sport_row matchedSport es link))))"

definition org_sports_key :: "int \<Rightarrow> int \<Rightarrow> string" where
  "org_sports_key org e = ''org-event-sports-'' @ show_int org @ ''-'' @ show_int e"

definition bn_fetchOrgEventSports where
  "bn_fetchOrgEventSports parse srv org e = cached_list (org_sports_key org e)
     (bind_r (parsed_call parse srv (ZArray bn_sportsEventResponseSchema) (bn_apiGetEventSports e)) (\<lambda>eventSports.
      bind_r (parsed_call parse srv (list_response bn_sportEntrySchema) bn_apiGetAllSportsList) (\<lambda>w.
        Inr (JArr (List.map_filter (org_sport parse srv org e (js_list (js_get ''data'' w))) (js_list eventSports))))))"

text \<open>The submit: one post per sport; a 400 counts as done, and the first other failure is thrown.\<close>

definition bn_post_body :: "js \<Rightarrow> js \<Rightarrow> js \<Rightarrow> js" where
  "bn_post_body org ev sport = JObj
     ([(''org_id'', org), (''events_id'', ev), (''sports_id'', js_get ''sport_id'' sport), (''organization_id'', org)] @
      map (\<lambda>k. (k, js_get k sport)) COUNT_FIELDS)"

definition swallow_400 :: "(js_error, js) result \<Rightarrow> js_error option" where
  "swallow_400 r =
     (case r of
        Inl (AxiosError s d m) \<Rightarrow> if s = Some 400 then None else Some (AxiosError s d m)
      | Inl e \<Rightarrow> Some e
      | Inr _ \<Rightarrow> None)"

definition bn_requests :: "js \<Rightarrow> js \<Rightarrow> js list \<Rightarrow> request list" where
  "bn_requests org ev sports = map (\<lambda>sport. apiCreateParticipationPerSport (bn_post_body org ev sport)) sports"

definition submitByNumber :: "backend \<Rightarrow> js \<Rightarrow> js \<Rightarrow> js list \<Rightarrow> js_error option" where
  "submitByNumber srv org ev sports =
     (case List.map_filter (\<lambda>rq. swallow_400 (srv rq)) (bn_requests org ev sports) of [] \<Rightarrow> None | e # _ \<Rightarrow> Some e)"

text \<open>A submit that was saved drops the cached rows of its organization and event.\<close>

definition bn_after_submit :: "int \<Rightarrow> int \<Rightarrow> ttl_cache \<Rightarrow> ttl_cache" where
  "bn_after_submit org e c = AList.delete (org_sports_key org e) c"

definition bn_clearCache :: "ttl_cache \<Rightarrow> ttl_cache" where
  "bn_clearCache c = []"

section \<open>The hook\<close>

definition bn_defaults :: form_values where
  "bn_defaults = [(''eventId'', JUndef), (''organizationId'', JUndef), (''sports'', JArr []), (''eventName'', JStr []),
     (''organizationName'', JStr []), (''sportSelections'', JArr [])]"

text \<open>The callback of an accepted submit: the requests it sends and the message it fails with.\<close>

definition bn_handleSubmit :: "backend \<Rightarrow> js \<Rightarrow> request list \<times> string option" where
  "bn_handleSubmit srv d =
     (if \<not> truthy (js_get ''eventId'' d) \<or> \<not> truthy (js_get ''organizationId'' d)
      then ([], Some ''Missing required fields'')
      else
        (let org = js_get ''organizationId'' d; ev = js_get ''eventId'' d; sports = js_list (js_get ''sports'' d) in
         (bn_requests org ev sports,
          map_option (\<lambda>e. or_else (error_message e) ''Failed to submit registration'')
            (submitByNumber srv org ev sports))))"

section \<open>The form\<close>

record bn_env =
  bn_parse :: parser
  bn_role :: string
  bn_org_id :: js

record bynumber =
  bn_nav :: "survey_step nav_state"
  bn_success :: bool
  bn_events :: "js list"
  bn_type :: "string option"
  bn_organizations :: "js list"
  bn_loading :: bool
  bn_sportsLoading :: bool
  bn_form :: form_values
  bn_serverError :: "string option"
  bn_watched :: "js \<times> js"
  bn_outstanding :: nat
  bn_posts :: "request list"

definition ALL_FORM_STEPS :: "survey_step list" where
  "ALL_FORM_STEPS = [StepEventType, StepEvent, StepOrganization, StepSports, StepReview]"

definition bn_steps :: "bn_env \<Rightarrow> survey_step list" where
  "bn_steps env = (if \<not> is_admin (bn_role env) then filter (\<lambda>s. s \<noteq> StepOrganization) ALL_FORM_STEPS else ALL_FORM_STEPS)"

text \<open>The effect on the watched event and organization: a change to a complete pair starts a load.\<close>

definition bn_load_effect :: "bynumber \<Rightarrow> bynumber" where
  "bn_load_effect s =
     (let w = (getValue ''eventId'' (bn_form s), getValue ''organizationId'' (bn_form s)) in
      if w = bn_watched s then s
      else if truthy (fst w) \<and> truthy (snd w)
      then s\<lparr> bn_watched := w, bn_sportsLoading := True, bn_outstanding := Suc (bn_outstanding s) \<rparr>
      else s\<lparr> bn_watched := w \<rparr>)"

definition bn_org_effect :: "bn_env \<Rightarrow> bynumber \<Rightarrow> bynumber" where
  "bn_org_effect env s =
     (if is_org_scoped (bn_role env) (bn_org_id env)
      then s\<lparr> bn_form := setValue ''organizationId'' (bn_org_id env) (bn_form s) \<rparr> else s)"

definition bn_start :: "bn_env \<Rightarrow> bynumber" where
  "bn_start env = bn_load_effect (bn_org_effect env
     \<lparr> bn_nav = nav_start StepEventType, bn_success = False, bn_events = [], bn_type = None, bn_organizations = [],
       bn_loading = True, bn_sportsLoading = False, bn_form = bn_defaults, bn_serverError = None,
       bn_watched = (JUndef, JUndef), bn_outstanding = 0, bn_posts = [] \<rparr>)"

definition bn_loaded :: "bn_env \<Rightarrow> js list \<Rightarrow> js list \<Rightarrow> bynumber \<Rightarrow> bynumber" where
  "bn_loaded env events organizations s =
     (if is_org_scoped (bn_role env) (bn_org_id env)
      then s\<lparr> bn_events := events, bn_loading := False \<rparr>
      else s\<lparr> bn_events := events, bn_organizations := organizations, bn_loading := False \<rparr>)"

text \<open>Any outstanding load may answer, also one for an event that is no longer chosen.\<close>

definition bn_sports_arrive :: "js list option \<Rightarrow> bynumber \<Rightarrow> bynumber" where
  "bn_sports_arrive rows s =
     (if bn_outstanding s = 0 then s
      else s\<lparr> bn_form := (case rows of Some r \<Rightarrow> setValue ''sports'' (JArr r) (bn_form s) | None \<Rightarrow> bn_form s),
              bn_sportsLoading := False, bn_outstanding := bn_outstanding s - 1 \<rparr>)"

definition filteredEvents :: "bynumber \<Rightarrow> js list" where
  "filteredEvents s =
     (case bn_type s of
        Some t \<Rightarrow> if t \<noteq> [] then filter (event_has_type t) (bn_events s) else []
      | None \<Rightarrow> [])"

definition bn_shown :: "survey_step \<Rightarrow> bynumber \<Rightarrow> bool" where
  "bn_shown p s \<longleftrightarrow> \<not> bn_success s \<and> \<not> bn_loading s \<and> nv_step (bn_nav s) = p"

definition bn_chooseType :: "string \<Rightarrow> bynumber \<Rightarrow> bynumber" where
  "bn_chooseType t s =
     (if bn_shown StepEventType s \<and> t \<in> fst ` set EVENT_TYPES then s\<lparr> bn_type := Some t \<rparr> else s)"

definition bn_chooseEvent :: "js \<Rightarrow> bynumber \<Rightarrow> bynumber" where
  "bn_chooseEvent e s =
     (if bn_shown StepEvent s \<and> e \<in> set (filteredEvents s)
      then bn_load_effect (s\<lparr> bn_form := setValue ''eventId'' (radio_value e) (bn_form s) \<rparr>) else s)"

definition bn_chooseOrganization :: "js \<Rightarrow> bynumber \<Rightarrow> bynumber" where
  "bn_chooseOrganization o1 s =
     (if bn_shown StepOrganization s \<and> o1 \<in> set (bn_organizations s)
      then bn_load_effect (s\<lparr> bn_form := setValue ''organizationId'' (radio_value o1) (bn_form s) \<rparr>) else s)"

text \<open>The typed count: parseInt of the text, 0 when it is not a number, and never below 0.\<close>

definition parse_int :: "string \<Rightarrow> int option" where
  "parse_int text =
     (let t = dropWhile js_ws text;
          neg = (case t of c # _ \<Rightarrow> c = CHR ''-'' | [] \<Rightarrow> False);
          u = (case t of c # r \<Rightarrow> if c = CHR ''-'' \<or> c = CHR ''+'' then r else t | [] \<Rightarrow> []);
          ds = takeWhile is_digit u
      in if ds = [] then None
         else Some (if neg then - int (nat_of_digits ds) else int (nat_of_digits ds)))"

definition count_cell :: "string \<Rightarrow> int" where
  "count_cell text = max 0 (or_else (parse_int text) 0)"

definition updateSport :: "nat \<Rightarrow> string \<Rightarrow> int \<Rightarrow> js list \<Rightarrow> js list" where
  "updateSport index field val sports = sports[index := js_set field (JInt val) (sports ! index)]"

definition bn_edit_count :: "nat \<Rightarrow> string \<Rightarrow> string \<Rightarrow> bynumber \<Rightarrow> bynumber" where
  "bn_edit_count index field text s =
     (let sports = js_list (getValue ''sports'' (bn_form s)) in
      if bn_shown StepSports s \<and> \<not> bn_sportsLoading s \<and> index < length sports \<and> field \<in> set COUNT_FIELDS
      then s\<lparr> bn_form := setValue ''sports'' (JArr (updateSport index field (count_cell text) sports)) (bn_form s) \<rparr>
      else s)"

definition bn_ok :: "(form_values \<Rightarrow> string list \<Rightarrow> bool) \<Rightarrow> survey_step \<Rightarrow> bynumber \<Rightarrow> bool" where
  "bn_ok trigger p s =
     (case p of
        StepEventType \<Rightarrow> nonempty_type (bn_type s)
      | StepEvent \<Rightarrow> trigger (bn_form s) [''eventId'']
      | StepOrganization \<Rightarrow> trigger (bn_form s) [''organizationId'']
      | StepSports \<Rightarrow> trigger (bn_form s) [''sports'']
      | StepReview \<Rightarrow> trigger (bn_form s) [])"

definition bn_handleNext :: "(form_values \<Rightarrow> string list \<Rightarrow> bool) \<Rightarrow> bn_env \<Rightarrow> bynumber \<Rightarrow> bynumber" where
  "bn_handleNext trigger env s =
     s\<lparr> bn_nav := nav_next (bn_steps env) (bn_ok trigger (nv_step (bn_nav s)) s) (bn_nav s) \<rparr>"

definition bn_handlePreviousStep :: "bn_env \<Rightarrow> bynumber \<Rightarrow> bynumber" where
  "bn_handlePreviousStep env s = s\<lparr> bn_nav := nav_prev (bn_steps env) (bn_nav s) \<rparr>"

definition bn_handleStepClick :: "bn_env \<Rightarrow> nat \<Rightarrow> bynumber \<Rightarrow> bynumber" where
  "bn_handleStepClick env idx s = s\<lparr> bn_nav := nav_click (bn_steps env) idx (bn_nav s) \<rparr>"

definition bn_handleRegisterAnother :: "bynumber \<Rightarrow> bynumber" where
  "bn_handleRegisterAnother s =
     (if bn_success s
      then bn_load_effect (s\<lparr> bn_form := bn_defaults, bn_success := False, bn_nav := nav_start StepEventType,
             bn_type := None, bn_serverError := None \<rparr>)
      else s)"

definition bn_submit :: "bn_env \<Rightarrow> backend \<Rightarrow> bynumber \<Rightarrow> bynumber" where
  "bn_submit env srv s =
     (if bn_shown StepReview s
      then (case submit_values (bn_parse env) byNumberSchema (bn_form s) of
              None \<Rightarrow> s\<lparr> bn_serverError := None \<rparr>
            | Some d \<Rightarrow>
                (let (rqs, err) = bn_handleSubmit srv d in
                 s\<lparr> bn_posts := bn_posts s @ rqs, bn_serverError := err,
                    bn_success := (err = None) \<rparr>))
      else s)"

text \<open>The totals of the table and of the review.\<close>

definition field_total :: "string \<Rightarrow> js list \<Rightarrow> rat" where
  "field_total k sports = sum_list (map (\<lambda>sp. js_rat (js_get k sp)) sports)"

definition grandTotal :: "js list \<Rightarrow> rat" where
  "grandTotal sports = field_total ''athlete_male_count'' sports + field_total ''athlete_female_count'' sports +
     field_total ''leader_male_count'' sports + field_total ''leader_female_count'' sports"

definition totalAthletes :: "js list \<Rightarrow> rat" where
  "totalAthletes sports = foldl (\<lambda>sum s. sum + js_rat (js_get ''athlete_male_count'' s)
     + js_rat (js_get ''athlete_female_count'' s)) 0 sports"

definition totalLeaders :: "js list \<Rightarrow> rat" where
  "totalLeaders sports = foldl (\<lambda>sum s. sum + js_rat (js_get ''leader_male_count'' s)
     + js_rat (js_get ''leader_female_count'' s)) 0 sports"

datatype bn_op =
    BnLoaded "js list" "js list"
  | BnSports "js list option"
  | BnType string
  | BnEvent js
  | BnOrganization js
  | BnCount nat string string
  | BnNext
  | BnPrevious
  | BnClick nat
  | BnSubmit backend
  | BnAnother

text \<open>The buttons below the form are shown with the form, the indicator also while it loads; Next is not
  shown on the review.\<close>

fun bn_step :: "(form_values \<Rightarrow> string list \<Rightarrow> bool) \<Rightarrow> bn_env \<Rightarrow> bn_op \<Rightarrow> bynumber \<Rightarrow> bynumber" where
  "bn_step trigger env (BnLoaded es os) s = bn_loaded env es os s"
| "bn_step trigger env (BnSports rows) s = bn_sports_arrive rows s"
| "bn_step trigger env (BnType t) s = bn_chooseType t s"
| "bn_step trigger env (BnEvent e) s = bn_chooseEvent e s"
| "bn_step trigger env (BnOrganization o1) s = bn_chooseOrganization o1 s"
| "bn_step trigger env (BnCount i k t) s = bn_edit_count i k t s"
| "bn_step trigger env BnNext s =
     (if bn_success s \<or> bn_loading s \<or> nv_step (bn_nav s) = StepReview then s else bn_handleNext trigger env s)"
| "bn_step trigger env BnPrevious s =
     (if bn_success s \<or> bn_loading s then s else bn_handlePreviousStep env s)"
| "bn_step trigger env (BnClick i) s = (if bn_success s then s else bn_handleStepClick env i s)"
| "bn_step trigger env (BnSubmit srv) s = bn_submit env srv s"
| "bn_step trigger env BnAnother s = bn_handleRegisterAnother s"

definition bn_run :: "(form_values \<Rightarrow> string list \<Rightarrow> bool) \<Rightarrow> bn_env \<Rightarrow> bn_op list \<Rightarrow> bynumber" where
  "bn_run trigger env ops = fold (bn_step trigger env) ops (bn_start env)"

section \<open>What an accepted form holds\<close>

definition sound_sport :: "js \<Rightarrow> bool" where
  "sound_sport sport \<longleftrightarrow> pos_int (js_get ''sport_id'' sport) \<and> (\<forall>k \<in> set COUNT_FIELDS. nat_count (js_get k sport))"

lemma sport_count_parsed:
  assumes z: "zod_parser parse" and p: "parse sportCountSchema v = Inr w"
  shows "sound_sport w"
proof -
  note get = zod_parser.object_get[OF z p[unfolded sportCountSchema_def]]
  have "parse (ZNumber [NInt, NPositive]) (js_get ''sport_id'' v) = Inr (js_get ''sport_id'' w)"
    by (rule get) (simp_all add: COUNT_FIELDS_def)
  moreover have "parse (ZNumber [NInt, NMin 0]) (js_get k v) = Inr (js_get k w)" if "k \<in> set COUNT_FIELDS" for k
    by (rule get) (use that in \<open>auto simp: COUNT_FIELDS_def\<close>)
  ultimately show ?thesis using parse_pos_int[OF z] parse_nat_count[OF z] unfolding sound_sport_def by blast
qed

lemma bn_accepted:
  assumes z: "zod_parser parse" and p: "submit_values parse byNumberSchema f = Some d"
  shows "js_get ''eventId'' d = getValue ''eventId'' f \<and> (getValue ''eventId'' f = JNull \<or> pos_int (getValue ''eventId'' f))"
    and "js_get ''organizationId'' d = getValue ''organizationId'' f \<and>
      (getValue ''organizationId'' f = JNull \<or> pos_int (getValue ''organizationId'' f))"
    and "\<forall>sport \<in> set (js_list (js_get ''sports'' d)). sound_sport sport"
    and "\<exists>sport \<in> set (js_list (js_get ''sports'' d)). sport_total sport > 0"
proof -
  note get = zod_parser.object_get[OF z p[unfolded submit_values_Some byNumberSchema_def]]
  have "parse (ZNullable (ZNumber [NInt, NPositive])) (js_get ''eventId'' (JObj f)) = Inr (js_get ''eventId'' d)"
    by (rule get) (simp_all add: bn_form_fields_def)
  then show "js_get ''eventId'' d = getValue ''eventId'' f \<and> (getValue ''eventId'' f = JNull \<or> pos_int (getValue ''eventId'' f))"
    using parse_nullable_pos[OF z] unfolding getValue_def by blast
  have "parse (ZNullable (ZNumber [NInt, NPositive])) (js_get ''organizationId'' (JObj f)) = Inr (js_get ''organizationId'' d)"
    by (rule get) (simp_all add: bn_form_fields_def)
  then show "js_get ''organizationId'' d = getValue ''organizationId'' f \<and>
      (getValue ''organizationId'' f = JNull \<or> pos_int (getValue ''organizationId'' f))"
    using parse_nullable_pos[OF z] unfolding getValue_def by blast
  have sp: "parse bn_sports_schema (js_get ''sports'' (JObj f)) = Inr (js_get ''sports'' d)"
    by (rule get) (simp_all add: bn_form_fields_def)
  then have a: "parse (ZArray sportCountSchema) (js_get ''sports'' (JObj f)) = Inr (js_get ''sports'' d)"
    and t: "list_ex (\<lambda>sport. sport_total sport > 0) (js_list (js_get ''sports'' d))"
    unfolding bn_sports_schema_def zod_parser.p_refine1[OF z] by blast+
  show "\<forall>sport \<in> set (js_list (js_get ''sports'' d)). sound_sport sport"
    using array_all[OF z a] sport_count_parsed[OF z] by blast
  show "\<exists>sport \<in> set (js_list (js_get ''sports'' d)). sport_total sport > 0"
    using t by (auto simp: list_ex_iff)
qed

section \<open>The posts of an organization\<close>

definition own_post :: "js \<Rightarrow> request \<Rightarrow> bool" where
  "own_post org rq \<longleftrightarrow> (\<exists>ev sport. rq = apiCreateParticipationPerSport (bn_post_body org ev sport) \<and>
     pos_int ev \<and> sound_sport sport)"

definition bn_inv :: "bn_env \<Rightarrow> js set \<Rightarrow> bynumber \<Rightarrow> bool" where
  "bn_inv env orgs s \<longleftrightarrow> nv_step (bn_nav s) \<in> set (bn_steps env) \<and> getValue ''organizationId'' (bn_form s) \<in> orgs"

lemma bn_load_effect_keeps [simp]:
  "bn_nav (bn_load_effect s) = bn_nav s" "bn_form (bn_load_effect s) = bn_form s"
  "bn_posts (bn_load_effect s) = bn_posts s"
  by (auto simp: bn_load_effect_def Let_def)

lemma bn_steps_org: "is_org_scoped (bn_role env) (bn_org_id env) \<Longrightarrow> StepOrganization \<notin> set (bn_steps env)"
  by (auto simp: bn_steps_def dest: not_admin_org)

lemma bn_steps_first: "StepEventType \<in> set (bn_steps env)"
  by (simp add: bn_steps_def ALL_FORM_STEPS_def)

lemmas bn_ops = bn_loaded_def bn_sports_arrive_def bn_chooseType_def bn_chooseEvent_def bn_edit_count_def Let_def
  bn_handlePreviousStep_def bn_handleStepClick_def bn_handleNext_def

lemma bn_inv_step:
  assumes o1: "is_org_scoped (bn_role env) (bn_org_id env)" and i: "bn_inv env orgs s" and u: "JUndef \<in> orgs"
  shows "bn_inv env orgs (bn_step trigger env op s)"
proof (cases op)
  case (BnOrganization x)
  have "bn_chooseOrganization x s = s"
    using i bn_steps_org[OF o1] by (auto simp: bn_chooseOrganization_def bn_shown_def bn_inv_def)
  then show ?thesis using i by (simp add: BnOrganization)
next
  case BnAnother
  show ?thesis using i u bn_steps_first by (simp add: BnAnother bn_inv_def bn_handleRegisterAnother_def nav_start_def bn_defaults_def)
next
  case (BnSubmit srv)
  have "bn_nav (bn_submit env srv s) = bn_nav s \<and> bn_form (bn_submit env srv s) = bn_form s"
    by (auto simp: bn_submit_def split: option.split prod.split)
  then show ?thesis using i by (simp add: BnSubmit bn_inv_def)
qed (use i in \<open>auto simp: bn_inv_def bn_ops nav_in split: option.split\<close>)

lemma bn_posts_step:
  assumes "\<forall>srv. op \<noteq> BnSubmit srv" shows "bn_posts (bn_step trigger env op s) = bn_posts s"
  using assms
  by (cases op) (simp_all add: bn_ops bn_chooseOrganization_def bn_handleRegisterAnother_def)

lemma bn_submit_posts:
  assumes z: "zod_parser (bn_parse env)" and i: "bn_inv env orgs s"
    and rq: "rq \<in> set (bn_posts (bn_submit env srv s)) - set (bn_posts s)"
  shows "\<exists>org \<in> orgs. truthy org \<and> own_post org rq"
proof -
  obtain d where d: "submit_values (bn_parse env) byNumberSchema (bn_form s) = Some d"
    and r: "rq \<in> set (fst (bn_handleSubmit srv d))"
    using rq by (auto simp: bn_submit_def split: if_splits option.splits prod.splits)
  note a = bn_accepted[OF z d]
  have t: "truthy (js_get ''eventId'' d)" "truthy (js_get ''organizationId'' d)"
    and q: "rq \<in> set (bn_requests (js_get ''organizationId'' d) (js_get ''eventId'' d) (js_list (js_get ''sports'' d)))"
    using r by (auto simp: bn_handleSubmit_def Let_def split: if_splits)
  then obtain sport where "sport \<in> set (js_list (js_get ''sports'' d))"
    "rq = apiCreateParticipationPerSport (bn_post_body (js_get ''organizationId'' d) (js_get ''eventId'' d) sport)"
    by (auto simp: bn_requests_def)
  moreover have "pos_int (js_get ''eventId'' d)" using a(1) t(1) by auto
  ultimately have "own_post (js_get ''organizationId'' d) rq" using a(3) unfolding own_post_def by blast
  moreover have "js_get ''organizationId'' d \<in> orgs" using a(2) i by (simp add: bn_inv_def)
  ultimately show ?thesis using t(2) by blast
qed

lemma bn_inv_start:
  assumes "bn_org_id env \<in> orgs" "JUndef \<in> orgs"
  shows "bn_inv env orgs (bn_start env)"
  using assms bn_steps_first by (auto simp: bn_inv_def bn_start_def bn_org_effect_def nav_start_def bn_defaults_def)

lemma bn_run_own:
  assumes z: "zod_parser (bn_parse env)" and o1: "is_org_scoped (bn_role env) (bn_org_id env)"
    and "bn_inv env orgs s" "JUndef \<in> orgs" "rq \<in> set (bn_posts (fold (bn_step trigger env) ops s)) - set (bn_posts s)"
  shows "\<exists>org \<in> orgs. truthy org \<and> own_post org rq"
  using assms(3-)
proof (induction ops arbitrary: s)
  case (Cons op ops)
  let ?t = "bn_step trigger env op s"
  show ?case
  proof (cases "rq \<in> set (bn_posts ?t)")
    case False
    then show ?thesis using Cons.IH[OF bn_inv_step[OF o1 Cons.prems(1,2), of trigger op] Cons.prems(2)] Cons.prems(3) by simp
  next
    case True
    then have n: "rq \<in> set (bn_posts ?t) - set (bn_posts s)" using Cons.prems(3) by simp
    have "\<exists>srv. op = BnSubmit srv"
    proof (rule ccontr)
      assume "\<nexists>srv. op = BnSubmit srv"
      then have "bn_posts ?t = bn_posts s" by (intro bn_posts_step) blast
      then show False using n by simp
    qed
    then obtain srv where "op = BnSubmit srv" ..
    then show ?thesis using bn_submit_posts[OF z Cons.prems(1)] n by simp
  qed
qed simp

text \<open>C23. An organization can only report for itself: whatever an organization user does in the By
  Number form, and whatever lists and rows the server answers with, at whatever time,
  every participation that is ever posted names the user's own organization, a positive event
  id and a positive sport id, and four counts that are whole numbers from 0 up.\<close>

theorem bynumber_posts_own_organization:
  assumes "zod_parser (bn_parse env)" "is_org_scoped (bn_role env) (bn_org_id env)"
    and "rq \<in> set (bn_posts (bn_run trigger env ops))"
  shows "\<exists>ev sport. rq = apiCreateParticipationPerSport (bn_post_body (bn_org_id env) ev sport)
    \<and> pos_int ev \<and> pos_int (js_get ''sport_id'' sport) \<and> (\<forall>k \<in> set COUNT_FIELDS. nat_count (js_get k sport))"
proof -
  have "bn_posts (bn_start env) = []" by (simp add: bn_start_def bn_org_effect_def)
  then have "rq \<in> set (bn_posts (fold (bn_step trigger env) ops (bn_start env))) - set (bn_posts (bn_start env))"
    using assms(3) by (simp add: bn_run_def)
  moreover have "bn_inv env {bn_org_id env, JUndef} (bn_start env)" by (simp add: bn_inv_start)
  ultimately obtain org where "org \<in> {bn_org_id env, JUndef}" "truthy org" "own_post org rq"
    using bn_run_own[OF assms(1,2)] by blast
  then have "own_post (bn_org_id env) rq" by auto
  then show ?thesis unfolding own_post_def sound_sport_def by blast
qed

definition sample_bn_env :: bn_env where
  "sample_bn_env = \<lparr> bn_parse = zparse, bn_role = ''organization'', bn_org_id = JInt 3 \<rparr>"

definition sample_bn_event :: js where
  "sample_bn_event = JObj [(''id'', JInt 7), (''name_kh'', JStr ''k''), (''type'', JStr ''NATIONAL'')]"

definition sample_bn_row :: js where
  "sample_bn_row = org_sport_row (JObj [(''id'', JInt 5)]) (JObj [(''sport_name'', JStr ''judo'')]) (JObj [(''id'', JInt 8)])"

definition sample_bn_ops :: "bn_op list" where
  "sample_bn_ops =
     [BnLoaded [sample_bn_event] [], BnType ''NATIONAL'', BnNext, BnEvent sample_bn_event, BnSports (Some [sample_bn_row]),
      BnNext, BnCount 0 ''athlete_male_count'' ''12'', BnNext, BnSubmit (\<lambda>_. Inr JNull)]"

definition sample_bn_run :: bynumber where
  "sample_bn_run = bn_run (field_trigger zparse bn_form_fields) sample_bn_env sample_bn_ops"

lemma sample_bn_facts:
  "zod_parser (bn_parse sample_bn_env)" "is_org_scoped (bn_role sample_bn_env) (bn_org_id sample_bn_env)"
  using zp.zod_parser_axioms by (simp_all add: sample_bn_env_def is_org_scoped_def)

lemma sample_bn_posted: "bn_success sample_bn_run \<and> length (bn_posts sample_bn_run) = 1"
  by code_simp

lemma bynumber_posts_own_organization_witness:
  "\<exists>ev sport. hd (bn_posts sample_bn_run) = apiCreateParticipationPerSport (bn_post_body (JInt 3) ev sport) \<and> pos_int ev"
proof -
  have m: "hd (bn_posts sample_bn_run) \<in> set (bn_posts sample_bn_run)" using sample_bn_posted by (cases "bn_posts sample_bn_run") auto
  have o1: "bn_org_id sample_bn_env = JInt 3" by (simp add: sample_bn_env_def)
  show ?thesis using bynumber_posts_own_organization[OF sample_bn_facts m[unfolded sample_bn_run_def]]
    unfolding o1 sample_bn_run_def by blast
qed

text \<open>After a saved survey an organization can report nothing more: Register another resets the
  organization that was set once when the form was mounted, an organization
  has no step to choose it again, so no later sequence of actions posts anything.\<close>

theorem bynumber_second_survey_blocked:
  assumes "zod_parser (bn_parse env)" "is_org_scoped (bn_role env) (bn_org_id env)"
    and "bn_success (bn_run trigger env ops)"
  shows "set (bn_posts (bn_run trigger env (ops @ BnAnother # later))) = set (bn_posts (bn_run trigger env ops))"
proof -
  let ?s = "bn_run trigger env ops"
  let ?t = "bn_handleRegisterAnother ?s"
  have i: "bn_inv env {JUndef} ?t"
    using assms(3) bn_steps_first by (simp add: bn_handleRegisterAnother_def bn_inv_def nav_start_def bn_defaults_def)
  have p: "bn_posts ?t = bn_posts ?s" by (simp add: bn_handleRegisterAnother_def)
  have run: "bn_run trigger env (ops @ BnAnother # later) = fold (bn_step trigger env) later ?t"
    by (simp add: bn_run_def)
  have down: "set (bn_posts (fold (bn_step trigger env) later ?t)) \<subseteq> set (bn_posts ?t)"
    using bn_run_own[OF assms(1,2) i] by fastforce
  have up: "set (bn_posts t) \<subseteq> set (bn_posts (fold (bn_step trigger env) later t))" for t
  proof (induction later arbitrary: t)
    case (Cons op later)
    have "set (bn_posts t) \<subseteq> set (bn_posts (bn_step trigger env op t))"
    proof (cases op)
      case (BnSubmit srv)
      then show ?thesis by (simp add: bn_submit_def split: option.split prod.split)
    qed (simp_all add: bn_posts_step del: bn_step.simps)
    then show ?case using Cons.IH[of "bn_step trigger env op t"] by auto
  qed simp
  have "set (bn_posts (fold (bn_step trigger env) later ?t)) = set (bn_posts ?t)"
    by (rule equalityI[OF down up])
  then show ?thesis by (simp only: run p)
qed

lemma bynumber_second_survey_blocked_witness:
  "set (bn_posts (bn_run (field_trigger zparse bn_form_fields) sample_bn_env (sample_bn_ops @ BnAnother # sample_bn_ops)))
   = set (bn_posts sample_bn_run)"
proof -
  have "bn_success (bn_run (field_trigger zparse bn_form_fields) sample_bn_env sample_bn_ops)"
    using sample_bn_posted unfolding sample_bn_run_def by (rule conjunct1)
  from bynumber_second_survey_blocked[OF sample_bn_facts this, of sample_bn_ops]
  show ?thesis unfolding sample_bn_run_def .
qed

section \<open>Totals and outcomes\<close>

lemma foldl_sum: "foldl (\<lambda>sum s. sum + f s + g s) a xs = a + sum_list (map f xs) + sum_list (map g xs)" for f g :: "'a \<Rightarrow> rat"
  by (induction xs arbitrary: a) auto

text \<open>The table and the review show the same grand total, the sum of the sport totals.\<close>

lemma totals_agree:
  "grandTotal sports = totalAthletes sports + totalLeaders sports"
  "grandTotal sports = sum_list (map sport_total sports)"
proof -
  show "grandTotal sports = totalAthletes sports + totalLeaders sports"
    by (simp add: totalAthletes_def totalLeaders_def foldl_sum grandTotal_def field_total_def)
  show "grandTotal sports = sum_list (map sport_total sports)"
    by (induction sports) (simp_all add: grandTotal_def field_total_def sport_total_def)
qed

lemma count_cell_nonneg: "0 \<le> count_cell text"
  by (simp add: count_cell_def)

text \<open>A submit is reported as saved exactly when every post was answered or rejected with 400.\<close>

lemma submit_saved_iff:
  "submitByNumber srv org ev sports = None \<longleftrightarrow>
     (\<forall>rq \<in> set (bn_requests org ev sports). (\<exists>r. srv rq = Inr r) \<or> (\<exists>d m. srv rq = Inl (AxiosError (Some 400) d m)))"
proof -
  have sw: "swallow_400 r = None \<longleftrightarrow> (\<exists>x. r = Inr x) \<or> (\<exists>d m. r = Inl (AxiosError (Some 400) d m))" for r
    by (auto simp: swallow_400_def split: sum.splits js_error.splits if_splits)
  have "List.map_filter f xs = [] \<longleftrightarrow> (\<forall>x \<in> set xs. f x = None)" for f :: "request \<Rightarrow> js_error option" and xs
    by (induction xs) (auto simp: map_filter_simps split: option.splits)
  note mf = this
  show ?thesis unfolding submitByNumber_def sw[symmetric]
    using mf[of "\<lambda>rq. swallow_400 (srv rq)" "bn_requests org ev sports"] by (cases "List.map_filter (\<lambda>rq. swallow_400 (srv rq)) (bn_requests org ev sports)") auto
qed

end
