(* ===== verification/Survey_By_Sport.thy ===== *)
theory Survey_By_Sport
  imports Survey_By_Number
begin

text \<open>
  The By Sport survey, modules/survey: an organization chooses the sports of an event it takes
  part in. Schemas, adapter, hook, and the stepwise form, whose load of the event's sports and of
  the organization's earlier choices is cancelled when the event changes. The read cache has the
  form of the By Number adapter's. Answers are taken in the order of their requests; a
  submit is one step.
\<close>

section \<open>Schemas\<close>

definition sv_eventSchema :: schema where
  "sv_eventSchema = ZObject False
     [(''id'', znum), (''name_kh'', zstr), (''type'', zstr),
      (''survey_sport_is_open'', ZOptional ZBoolean), (''created_at'', ZOptional zstr)]"

definition sv_organizationSchema :: schema where
  "sv_organizationSchema = ZObject False
     [(''id'', znum), (''name_kh'', zstr), (''type'', znullable_optional zstr),
      (''code'', znullable_optional zstr), (''created_at'', znullable_optional zstr)]"

definition sv_sportSchema :: schema where
  "sv_sportSchema = ZObject False
     [(''id'', znum), (''sports_id'', znum), (''name_kh'', zstr), (''sport_type'', ZOptional zstr),
      (''created_at'', ZOptional zstr)]"

definition sv_sportEntrySchema :: schema where
  "sv_sportEntrySchema = ZObject False [(''id'', znum), (''name_kh'', zstr)]"

definition sv_eventListResponseSchema :: schema where
  "sv_eventListResponseSchema = list_response sv_eventSchema"
definition sv_sportListResponseSchema :: schema where
  "sv_sportListResponseSchema = list_response sv_sportEntrySchema"
definition sv_organizationListResponseSchema :: schema where
  "sv_organizationListResponseSchema = list_response sv_organizationSchema"

definition sv_sportsEventResponseSchema :: schema where
  "sv_sportsEventResponseSchema = ZObject False
     [(''id'', znum), (''event_name'', ZOptional zstr), (''sport_name'', ZOptional zstr),
      (''created_at'', ZOptional zstr)]"

definition required_id :: "string \<Rightarrow> schema" where
  "required_id msg = refine1 (ZNullable (ZNumber [NInt, NPositive])) (\<lambda>v. v \<noteq> JNull) [] msg"

definition sv_form_fields :: "(string \<times> schema) list" where
  "sv_form_fields =
     [(''eventId'', required_id ''Event is required''), (''organizationId'', required_id ''Organization is required''),
      (''sportIds'', refine1 (ZArray (ZNumber [NInt, NPositive])) (\<lambda>v. js_list v \<noteq> []) [] ''Select at least one sport'')]"

definition surveySchema :: schema where
  "surveySchema = ZObject False sv_form_fields"

section \<open>Adapter\<close>

definition sv_apiGetEvents :: request where
  "sv_apiGetEvents = get_req (api_v1 ''events?survey_sport_open=true&skip=0&limit=100'') []"
definition sv_apiGetAllSports :: request where
  "sv_apiGetAllSports = get_req (api_v1 ''sports?skip=0&limit=200'') []"
definition sv_apiGetAllOrganizations :: request where
  "sv_apiGetAllOrganizations = get_req (api_v1 ''organization?skip=0&limit=100'') []"
definition sv_apiGetEventSports :: "int \<Rightarrow> request" where
  "sv_apiGetEventSports e = get_req (api_v1 (''events/'' @ show_int e @ ''/sports'')) []"
definition sv_apiGetOrgSports :: "int \<Rightarrow> int \<Rightarrow> request" where
  "sv_apiGetOrgSports e org = get_req (api_v1 (''events/'' @ show_int e @ ''/org-sports/'' @ show_int org)) []"
definition apiAddOrgToSport :: "js \<Rightarrow> request" where
  "apiAddOrgToSport body = body_req ''post'' (api_v1 ''events/add-org-to-sport'') body"

definition sv_fetchEvents where
  "sv_fetchEvents parse srv = cached_list ''events''
     (map_r (\<lambda>w. JArr (filter (\<lambda>e. js_get ''survey_sport_is_open'' e \<noteq> JBool False) (js_list (js_get ''data'' w))))
       (parsed_call parse srv sv_eventListResponseSchema sv_apiGetEvents))"

definition sv_fetchAllSports where
  "sv_fetchAllSports parse srv = cached_list ''all-sports''
     (map_r (js_get ''data'') (parsed_call parse srv sv_sportListResponseSchema sv_apiGetAllSports))"

definition sv_fetchAllOrganizations where
  "sv_fetchAllOrganizations parse srv = cached_list ''organizations''
     (map_r (js_get ''data'') (parsed_call parse srv sv_organizationListResponseSchema sv_apiGetAllOrganizations))"

text \<open>The sports of an event with the id of the sport of the same name, 0 for an unknown name.\<close>

definition sv_event_sport :: "js list \<Rightarrow> js \<Rightarrow> js" where
  "sv_event_sport allSports se = JObj
     [(''id'', js_get ''id'' se),
      (''sports_id'', (case find (\<lambda>s. js_get ''name_kh'' s = js_get ''sport_name'' se) allSports of
                         Some m \<Rightarrow> js_get ''id'' m | None \<Rightarrow> JInt 0)),
      (''name_kh'', js_or (js_get ''sport_name'' se) (JStr [])), (''created_at'', js_get ''created_at'' se)]"

definition sv_event_sports :: "parser \<Rightarrow> js list \<Rightarrow> js \<Rightarrow> (js_error, js) result" where
  "sv_event_sports parse allSports w =
     map_r (\<lambda>v. JArr (filter (\<lambda>s. js_get ''sports_id'' s \<noteq> JInt 0) (js_list v)))
       (parse_all parse sv_sportSchema (map (sv_event_sport allSports) (js_list w)))"

text \<open>The event's sports are read before the list of all sports, whose read goes through the cache too.\<close>

definition sv_fetchEventSports :: "parser \<Rightarrow> backend \<Rightarrow> int \<Rightarrow> nat \<Rightarrow> nat \<Rightarrow> ttl_cache \<Rightarrow> js \<times> ttl_cache" where
  "sv_fetchEventSports parse srv e now done c =
     (case getCached now (''event-sports-'' @ show_int e) c of
        (Some d, c1) \<Rightarrow> (d, c1)
      | (None, c1) \<Rightarrow>
          (case parsed_call parse srv (ZArray sv_sportsEventResponseSchema) (sv_apiGetEventSports e) of
             Inl _ \<Rightarrow> (JArr [], c1)
           | Inr w \<Rightarrow>
               (let (allSports, c2) = sv_fetchAllSports parse srv done done c1 in
                case sv_event_sports parse (js_list allSports) w of
                  Inl _ \<Rightarrow> (JArr [], c2)
                | Inr d \<Rightarrow> (d, setCached done (''event-sports-'' @ show_int e) d c2))))"

text \<open>The earlier choices are not validated; mapping something that is not a list, or reading a null row, throws.\<close>

definition existing_row :: "js \<Rightarrow> (js_error, js) result" where
  "existing_row r = bind_r (member ''sports_id'' r) (\<lambda>i. bind_r (member ''created_at'' r) (\<lambda>t.
     Inr (JObj [(''sport_id'', i), (''created_at'', t)])))"

fun map_result :: "('a \<Rightarrow> ('e, 'b) result) \<Rightarrow> 'a list \<Rightarrow> ('e, 'b list) result" where
  "map_result f [] = Inr []"
| "map_result f (x # xs) = bind_r (f x) (\<lambda>y. map_r ((#) y) (map_result f xs))"

definition sv_fetchExistingOrgSports where
  "sv_fetchExistingOrgSports srv e org = cached_list (''org-sports-'' @ show_int org @ ''-'' @ show_int e)
     (bind_r (srv (sv_apiGetOrgSports e org)) (\<lambda>raw.
        case raw of
          JArr rows \<Rightarrow> map_r JArr (map_result existing_row rows)
        | _ \<Rightarrow> Inl (OtherError ''TypeError'')))"

definition sv_link_body :: "js \<Rightarrow> js \<Rightarrow> js \<Rightarrow> js" where
  "sv_link_body org ev sport = JObj [(''org_id'', org), (''events_id'', ev), (''sports_id'', sport)]"

definition sv_requests :: "js \<Rightarrow> js \<Rightarrow> js list \<Rightarrow> request list" where
  "sv_requests org ev sports = map (\<lambda>sport. apiAddOrgToSport (sv_link_body org ev sport)) sports"

definition submitSurvey :: "backend \<Rightarrow> js \<Rightarrow> js \<Rightarrow> js list \<Rightarrow> js_error option" where
  "submitSurvey srv org ev sports =
     (case List.map_filter (\<lambda>rq. swallow_400 (srv rq)) (sv_requests org ev sports) of [] \<Rightarrow> None | e # _ \<Rightarrow> Some e)"

text \<open>A saved survey empties both caches, its own and that of the By Number adapter.\<close>

definition sv_after_submit :: "ttl_cache \<times> ttl_cache \<Rightarrow> ttl_cache \<times> ttl_cache" where
  "sv_after_submit cs = ([], bn_clearCache (snd cs))"

section \<open>The hook\<close>

definition sv_defaults :: form_values where
  "sv_defaults = [(''eventId'', JUndef), (''organizationId'', JUndef), (''sportIds'', JArr [])]"

definition sv_handleSubmit :: "backend \<Rightarrow> js \<Rightarrow> request list \<times> string option" where
  "sv_handleSubmit srv d =
     (if \<not> truthy (js_get ''eventId'' d) \<or> \<not> truthy (js_get ''organizationId'' d)
      then ([], Some ''Missing required fields'')
      else
        (let org = js_get ''organizationId'' d; ev = js_get ''eventId'' d; sports = js_list (js_get ''sportIds'' d) in
         (sv_requests org ev sports,
          map_option (\<lambda>e. or_else (error_message e) ''Failed to submit survey'') (submitSurvey srv org ev sports))))"

section \<open>The form\<close>

text \<open>The load of the chosen event: of its sports, then of the organization's earlier choices.\<close>

datatype sv_load = NoLoad | LoadingSports js | LoadingExisting js js

record survey_env =
  sv_parse :: parser
  sv_role :: string
  sv_org_id :: js

record survey =
  sv_nav :: "survey_step nav_state"
  sv_success :: bool
  sv_events :: "js list"
  sv_type :: "string option"
  sv_organizations :: "js list"
  sv_eventSports :: "js list"
  sv_loading :: bool
  sv_lastSubmitted :: js
  sv_form :: form_values
  sv_serverError :: "string option"
  sv_watched :: js
  sv_loadPhase :: sv_load
  sv_posts :: "request list"

definition sv_steps :: "survey_env \<Rightarrow> survey_step list" where
  "sv_steps env = (if \<not> is_admin (sv_role env) then filter (\<lambda>s. s \<noteq> StepOrganization) ALL_FORM_STEPS else ALL_FORM_STEPS)"

definition sv_org_effect :: "survey_env \<Rightarrow> survey \<Rightarrow> survey" where
  "sv_org_effect env s =
     (if is_org_scoped (sv_role env) (sv_org_id env)
      then s\<lparr> sv_form := setValue ''organizationId'' (sv_org_id env) (sv_form s) \<rparr> else s)"

text \<open>The effect on the watched event; a change cancels the load that is running.\<close>

definition sv_load_effect :: "survey \<Rightarrow> survey" where
  "sv_load_effect s =
     (let e = getValue ''eventId'' (sv_form s) in
      if e = sv_watched s then s
      else if truthy e then s\<lparr> sv_watched := e, sv_loadPhase := LoadingSports e \<rparr>
      else s\<lparr> sv_watched := e, sv_loadPhase := NoLoad, sv_eventSports := [], sv_lastSubmitted := JNull \<rparr>)"

definition sv_start :: "survey_env \<Rightarrow> survey" where
  "sv_start env = sv_load_effect (sv_org_effect env
     \<lparr> sv_nav = nav_start StepEventType, sv_success = False, sv_events = [], sv_type = None, sv_organizations = [],
       sv_eventSports = [], sv_loading = True, sv_lastSubmitted = JNull, sv_form = sv_defaults,
       sv_serverError = None, sv_watched = JUndef, sv_loadPhase = NoLoad, sv_posts = [] \<rparr>)"

definition sv_loaded :: "survey_env \<Rightarrow> js list \<Rightarrow> js list \<Rightarrow> survey \<Rightarrow> survey" where
  "sv_loaded env events organizations s =
     (if is_org_scoped (sv_role env) (sv_org_id env)
      then s\<lparr> sv_events := events, sv_loading := False \<rparr>
      else s\<lparr> sv_events := events, sv_organizations := organizations, sv_loading := False \<rparr>)"

text \<open>The event's sports arrive; the organization is read at this moment.\<close>

definition sv_sports_arrive :: "js list option \<Rightarrow> survey \<Rightarrow> survey" where
  "sv_sports_arrive sports s =
     (case sv_loadPhase s of
        LoadingSports e \<Rightarrow>
          (let orgId = getValue ''organizationId'' (sv_form s);
               s1 = (case sports of Some xs \<Rightarrow> s\<lparr> sv_eventSports := xs \<rparr> | None \<Rightarrow> s)
           in s1\<lparr> sv_loadPhase := (if truthy orgId then LoadingExisting e orgId else NoLoad) \<rparr>)
      | _ \<Rightarrow> s)"

definition merge_ids :: "js list \<Rightarrow> js list \<Rightarrow> js list" where
  "merge_ids current existingIds = rev (remdups (rev (current @ existingIds)))"

text \<open>Timestamps are texts, the newest last in code-unit order; empty and missing ones are dropped.\<close>

definition newest_timestamp :: "js list \<Rightarrow> string option" where
  "newest_timestamp existing =
     (case rev (sort (filter (\<lambda>t. t \<noteq> []) (map (\<lambda>e. js_str (js_get ''created_at'' e)) existing))) of
        t # _ \<Rightarrow> Some t | [] \<Rightarrow> None)"

definition sv_existing_arrive :: "js list option \<Rightarrow> survey \<Rightarrow> survey" where
  "sv_existing_arrive rows s =
     (case (sv_loadPhase s, rows) of
        (LoadingExisting _ _, Some existing) \<Rightarrow>
          (let current = js_list (getValue ''sportIds'' (sv_form s));
               merged = merge_ids current (map (js_get ''sport_id'') existing)
           in s\<lparr> sv_loadPhase := NoLoad,
                 sv_form := (if existing \<noteq> [] \<and> length current < length merged
                             then setValue ''sportIds'' (JArr merged) (sv_form s) else sv_form s),
                 sv_lastSubmitted := (case newest_timestamp existing of Some t \<Rightarrow> JStr t | None \<Rightarrow> sv_lastSubmitted s) \<rparr>)
      | (LoadingExisting _ _, None) \<Rightarrow> s\<lparr> sv_loadPhase := NoLoad \<rparr>
      | _ \<Rightarrow> s)"

definition sv_filteredEvents :: "survey \<Rightarrow> js list" where
  "sv_filteredEvents s =
     (case sv_type s of
        Some t \<Rightarrow> if t \<noteq> [] then filter (event_has_type t) (sv_events s) else []
      | None \<Rightarrow> [])"

definition sv_shown :: "survey_step \<Rightarrow> survey \<Rightarrow> bool" where
  "sv_shown p s \<longleftrightarrow> \<not> sv_success s \<and> \<not> sv_loading s \<and> nv_step (sv_nav s) = p"

definition sv_chooseType :: "string \<Rightarrow> survey \<Rightarrow> survey" where
  "sv_chooseType t s =
     (if sv_shown StepEventType s \<and> t \<in> fst ` set EVENT_TYPES then s\<lparr> sv_type := Some t \<rparr> else s)"

definition sv_chooseEvent :: "js \<Rightarrow> survey \<Rightarrow> survey" where
  "sv_chooseEvent e s =
     (if sv_shown StepEvent s \<and> e \<in> set (sv_filteredEvents s)
      then sv_load_effect (s\<lparr> sv_form := setValue ''eventId'' (radio_value e) (sv_form s) \<rparr>) else s)"

definition sv_chooseOrganization :: "js \<Rightarrow> survey \<Rightarrow> survey" where
  "sv_chooseOrganization o1 s =
     (if sv_shown StepOrganization s \<and> o1 \<in> set (sv_organizations s)
      then s\<lparr> sv_form := setValue ''organizationId'' (radio_value o1) (sv_form s) \<rparr> else s)"

definition toggleSport :: "js \<Rightarrow> survey \<Rightarrow> survey" where
  "toggleSport sport s =
     (let sportsId = js_get ''sports_id'' sport; selected = js_list (getValue ''sportIds'' (sv_form s)) in
      if sv_shown StepSports s \<and> sport \<in> set (sv_eventSports s)
      then s\<lparr> sv_form := setValue ''sportIds''
             (JArr (if sportsId \<in> set selected then filter (\<lambda>i. i \<noteq> sportsId) selected else selected @ [sportsId]))
             (sv_form s) \<rparr>
      else s)"

definition sv_ok :: "(form_values \<Rightarrow> string list \<Rightarrow> bool) \<Rightarrow> survey_step \<Rightarrow> survey \<Rightarrow> bool" where
  "sv_ok trigger p s =
     (case p of
        StepEventType \<Rightarrow> nonempty_type (sv_type s)
      | StepEvent \<Rightarrow> trigger (sv_form s) [''eventId'']
      | StepOrganization \<Rightarrow> trigger (sv_form s) [''organizationId'']
      | StepSports \<Rightarrow> trigger (sv_form s) [''sportIds'']
      | StepReview \<Rightarrow> True)"

definition sv_handleNext :: "(form_values \<Rightarrow> string list \<Rightarrow> bool) \<Rightarrow> survey_env \<Rightarrow> survey \<Rightarrow> survey" where
  "sv_handleNext trigger env s =
     s\<lparr> sv_nav := nav_next (sv_steps env) (sv_ok trigger (nv_step (sv_nav s)) s) (sv_nav s) \<rparr>"

definition sv_handlePreviousStep :: "survey_env \<Rightarrow> survey \<Rightarrow> survey" where
  "sv_handlePreviousStep env s = s\<lparr> sv_nav := nav_prev (sv_steps env) (sv_nav s) \<rparr>"

definition sv_handleStepClick :: "survey_env \<Rightarrow> nat \<Rightarrow> survey \<Rightarrow> survey" where
  "sv_handleStepClick env idx s = s\<lparr> sv_nav := nav_click (sv_steps env) idx (sv_nav s) \<rparr>"

definition sv_handleRegisterAnother :: "survey \<Rightarrow> survey" where
  "sv_handleRegisterAnother s =
     (if sv_success s
      then sv_load_effect (s\<lparr> sv_form := sv_defaults, sv_success := False, sv_nav := nav_start StepEventType,
             sv_type := None, sv_eventSports := [], sv_serverError := None \<rparr>)
      else s)"

definition sv_submit :: "survey_env \<Rightarrow> backend \<Rightarrow> survey \<Rightarrow> survey" where
  "sv_submit env srv s =
     (if sv_shown StepReview s
      then (case submit_values (sv_parse env) surveySchema (sv_form s) of
              None \<Rightarrow> s\<lparr> sv_serverError := None \<rparr>
            | Some d \<Rightarrow>
                (let (rqs, err) = sv_handleSubmit srv d in
                 s\<lparr> sv_posts := sv_posts s @ rqs, sv_serverError := err, sv_success := (err = None) \<rparr>))
      else s)"

text \<open>The sports the review lists.\<close>

definition review_sports :: "survey \<Rightarrow> js list" where
  "review_sports s = filter (\<lambda>sp. js_get ''sports_id'' sp \<in> set (js_list (getValue ''sportIds'' (sv_form s)))) (sv_eventSports s)"

datatype sv_op =
    SvLoaded "js list" "js list"
  | SvSports "js list option"
  | SvExisting "js list option"
  | SvType string
  | SvEvent js
  | SvOrganization js
  | SvToggle js
  | SvNext
  | SvPrevious
  | SvClick nat
  | SvSubmit backend
  | SvAnother

fun sv_step :: "(form_values \<Rightarrow> string list \<Rightarrow> bool) \<Rightarrow> survey_env \<Rightarrow> sv_op \<Rightarrow> survey \<Rightarrow> survey" where
  "sv_step trigger env (SvLoaded es os) s = sv_loaded env es os s"
| "sv_step trigger env (SvSports xs) s = sv_sports_arrive xs s"
| "sv_step trigger env (SvExisting xs) s = sv_existing_arrive xs s"
| "sv_step trigger env (SvType t) s = sv_chooseType t s"
| "sv_step trigger env (SvEvent e) s = sv_chooseEvent e s"
| "sv_step trigger env (SvOrganization o1) s = sv_chooseOrganization o1 s"
| "sv_step trigger env (SvToggle sp) s = toggleSport sp s"
| "sv_step trigger env SvNext s =
     (if sv_success s \<or> sv_loading s \<or> nv_step (sv_nav s) = StepReview then s else sv_handleNext trigger env s)"
| "sv_step trigger env SvPrevious s =
     (if sv_success s \<or> sv_loading s then s else sv_handlePreviousStep env s)"
| "sv_step trigger env (SvClick i) s = (if sv_success s then s else sv_handleStepClick env i s)"
| "sv_step trigger env (SvSubmit srv) s = sv_submit env srv s"
| "sv_step trigger env SvAnother s = sv_handleRegisterAnother s"

section \<open>The steps keep what they validated\<close>

fun sv_gate :: "(string \<Rightarrow> js \<Rightarrow> bool) \<Rightarrow> survey_step \<Rightarrow> survey \<Rightarrow> bool" where
  "sv_gate field_ok StepEventType s = nonempty_type (sv_type s)"
| "sv_gate field_ok StepEvent s = field_ok ''eventId'' (getValue ''eventId'' (sv_form s))"
| "sv_gate field_ok StepOrganization s = field_ok ''organizationId'' (getValue ''organizationId'' (sv_form s))"
| "sv_gate field_ok StepSports s = field_ok ''sportIds'' (getValue ''sportIds'' (sv_form s))"
| "sv_gate field_ok StepReview s = True"

lemma sv_steps_distinct: "distinct (sv_steps env)"
  by (simp add: sv_steps_def ALL_FORM_STEPS_def)

lemma sv_gate_cong:
  "sv_type t = sv_type s \<Longrightarrow> sv_form t = sv_form s \<Longrightarrow> sv_gate field_ok p t = sv_gate field_ok p s"
  by (cases p) simp_all

lemma sv_gate_nav [simp]: "sv_gate field_ok p (s\<lparr> sv_nav := n \<rparr>) = sv_gate field_ok p s"
  by (rule sv_gate_cong) simp_all

sublocale form_trigger \<subseteq> sv: nav_wizard "sv_steps env" sv_nav "sv_ok trigger" "sv_gate field_ok"
    "sv_handleNext trigger env" "sv_handlePreviousStep env" "sv_handleStepClick env" for env
proof
  show "sv_ok trigger p s \<Longrightarrow> sv_gate field_ok p s" for p s
    by (cases p) (auto simp: sv_ok_def dest: trigger_all)
qed (auto simp: sv_steps_distinct sv_handleNext_def sv_handlePreviousStep_def sv_handleStepClick_def)

context form_trigger
begin

lemma sv_on_same:
  assumes "sv.sw.on env i s" "sv_nav t = sv_nav s"
    and "\<And>p. p \<noteq> nv_step (sv_nav s) \<Longrightarrow> sv_gate field_ok p s \<Longrightarrow> sv_gate field_ok p t"
  shows "sv.sw.on env i t"
proof -
  have i: "i < length (sv_steps env)" "nv_step (sv_nav s) = sv_steps env ! i"
    "\<forall>j < i. sv_gate field_ok (sv_steps env ! j) s"
    using assms(1) by (auto simp: sv.sw.on_def)
  have "sv_gate field_ok (sv_steps env ! j) t" if "j < i" for j
    using assms(3)[of "sv_steps env ! j"] i that sv_steps_distinct[of env] by (simp add: nth_eq_iff_index_eq)
  then show ?thesis using i assms(2) by (simp add: sv.sw.on_def)
qed

lemma sv_on_iff: "sv.sw.on env i s \<longleftrightarrow> i < length (sv_steps env) \<and> nv_step (sv_nav s) = sv_steps env ! i \<and>
    (\<forall>j < i. sv_gate field_ok (sv_steps env ! j) s)"
  by (rule sv.sw.on_def)

lemma sv_on_start: "sv_nav s = nav_start StepEventType \<Longrightarrow> sv.sw.on env 0 s"
  unfolding sv.sw.on_def by (simp add: nav_start_def sv_steps_def ALL_FORM_STEPS_def)

lemma sv_on_step:
  assumes on: "sv.sw.on env i s"
    and rows: "\<And>existing. op = SvExisting (Some existing) \<Longrightarrow> field_ok ''sportIds'' (getValue ''sportIds'' (sv_form s)) \<Longrightarrow>
      field_ok ''sportIds'' (JArr (merge_ids (js_list (getValue ''sportIds'' (sv_form s))) (map (js_get ''sport_id'') existing)))"
  shows "\<exists>i. sv.sw.on env i (sv_step trigger env op s)"
proof (cases op)
  case SvNext
  then show ?thesis using on sv.sw.on_nxt[OF on] by auto
next
  case SvPrevious
  then show ?thesis using on sv.sw.on_prev[OF on] by auto
next
  case (SvClick j)
  then show ?thesis using on sv.sw.on_jump[OF on, of j] by auto
next
  case SvAnother
  show ?thesis
  proof (cases "sv_success s")
    case True
    then show ?thesis unfolding SvAnother
      by (intro exI[of _ 0] sv_on_start) (simp add: sv_handleRegisterAnother_def sv_load_effect_def Let_def)
  qed (use on SvAnother in \<open>auto simp: sv_handleRegisterAnother_def\<close>)
next
  case (SvEvent e)
  have "sv_nav (sv_chooseEvent e s) = sv_nav s" by (simp add: sv_chooseEvent_def sv_load_effect_def Let_def)
  moreover have "sv_gate field_ok p (sv_chooseEvent e s)"
    if "p \<noteq> nv_step (sv_nav s)" "sv_gate field_ok p s" for p
    using that by (cases p) (auto simp: sv_chooseEvent_def sv_load_effect_def Let_def sv_shown_def)
  ultimately show ?thesis using sv_on_same[OF on] SvEvent by auto
next
  case (SvExisting r)
  have "sv_nav (sv_existing_arrive r s) = sv_nav s"
    by (auto simp: sv_existing_arrive_def Let_def split: sv_load.splits option.splits)
  moreover have "sv_gate field_ok p (sv_existing_arrive r s)" if "sv_gate field_ok p s" for p
    using that rows[unfolded SvExisting]
    by (cases p) (auto simp: sv_existing_arrive_def Let_def split: sv_load.splits option.splits)
  ultimately have "sv.sw.on env i (sv_existing_arrive r s)" by (intro sv_on_same[OF on])
  then show ?thesis using SvExisting by auto
next
  case (SvSubmit srv)
  have k: "sv_nav (sv_submit env srv s) = sv_nav s" "sv_type (sv_submit env srv s) = sv_type s"
    "sv_form (sv_submit env srv s) = sv_form s"
    by (auto simp: sv_submit_def split: option.splits prod.splits)
  show ?thesis using sv_on_same[OF on k(1)] sv_gate_cong[OF k(2,3)] SvSubmit by auto
next
  case (SvSports r)
  have k: "sv_nav (sv_sports_arrive r s) = sv_nav s" "sv_type (sv_sports_arrive r s) = sv_type s"
    "sv_form (sv_sports_arrive r s) = sv_form s"
    by (auto simp: sv_sports_arrive_def Let_def split: sv_load.splits option.splits)
  show ?thesis using sv_on_same[OF on k(1)] sv_gate_cong[OF k(2,3)] SvSports by auto
next
  case (SvLoaded es os)
  have k: "sv_nav (sv_loaded env es os s) = sv_nav s" "sv_type (sv_loaded env es os s) = sv_type s"
    "sv_form (sv_loaded env es os s) = sv_form s"
    by (auto simp: sv_loaded_def)
  show ?thesis using sv_on_same[OF on k(1)] sv_gate_cong[OF k(2,3)] SvLoaded by auto
next
  case (SvType t)
  have "sv_gate field_ok p (sv_chooseType t s)" if "p \<noteq> nv_step (sv_nav s)" "sv_gate field_ok p s" for p
    using that by (cases p) (auto simp: sv_chooseType_def sv_shown_def)
  moreover have "sv_nav (sv_chooseType t s) = sv_nav s" by (simp add: sv_chooseType_def)
  ultimately have "sv.sw.on env i (sv_chooseType t s)" by (intro sv_on_same[OF on])
  then show ?thesis using SvType by auto
next
  case (SvOrganization x)
  have "sv_gate field_ok p (sv_chooseOrganization x s)" if "p \<noteq> nv_step (sv_nav s)" "sv_gate field_ok p s" for p
    using that by (cases p) (auto simp: sv_chooseOrganization_def sv_shown_def)
  moreover have "sv_nav (sv_chooseOrganization x s) = sv_nav s" by (simp add: sv_chooseOrganization_def)
  ultimately have "sv.sw.on env i (sv_chooseOrganization x s)" by (intro sv_on_same[OF on])
  then show ?thesis using SvOrganization by auto
next
  case (SvToggle x)
  have "sv_gate field_ok p (toggleSport x s)" if "p \<noteq> nv_step (sv_nav s)" "sv_gate field_ok p s" for p
    using that by (cases p) (auto simp: toggleSport_def sv_shown_def Let_def)
  moreover have "sv_nav (toggleSport x s) = sv_nav s" by (simp add: toggleSport_def Let_def)
  ultimately have "sv.sw.on env i (toggleSport x s)" by (intro sv_on_same[OF on])
  then show ?thesis using SvToggle by auto
qed

end

section \<open>Review\<close>

text \<open>The rows of earlier choices are not validated by the code; that their sport ids are ids is assumed.\<close>

definition rows_ok :: "parser \<Rightarrow> sv_op \<Rightarrow> bool" where
  "rows_ok parse op =
     (case op of
        SvExisting (Some rows) \<Rightarrow> list_all (\<lambda>r. accepts parse (ZNumber [NInt, NPositive]) (js_get ''sport_id'' r)) rows
      | _ \<Rightarrow> True)"

inductive sv_reach :: "(form_values \<Rightarrow> string list \<Rightarrow> bool) \<Rightarrow> survey_env \<Rightarrow> survey \<Rightarrow> bool" for trigger env where
  start: "sv_reach trigger env (sv_start env)"
| step: "sv_reach trigger env s \<Longrightarrow> rows_ok (sv_parse env) op \<Longrightarrow> sv_reach trigger env (sv_step trigger env op s)"

lemma accepts_array:
  assumes z: "zod_parser parse"
  shows "accepts parse (ZArray s) (JArr xs) \<longleftrightarrow> (\<forall>x \<in> set xs. accepts parse s x)"
proof
  assume "accepts parse (ZArray s) (JArr xs)"
  then obtain ys where "list_all2 (\<lambda>x y. parse s x = Inr y) xs ys"
    by (auto simp: accepts_iff zod_parser.p_array[OF z])
  then show "\<forall>x \<in> set xs. accepts parse s x" by (auto simp: accepts_iff dest: all2_left)
next
  assume a: "\<forall>x \<in> set xs. accepts parse s x"
  have "list_all2 (\<lambda>x y. parse s x = Inr y) xs (map (\<lambda>x. projr (parse s x)) xs)"
    using a by (auto simp: list_all2_conv_all_nth accepts_iff) (metis nth_mem sum.sel(2))
  then show "accepts parse (ZArray s) (JArr xs)" unfolding accepts_iff zod_parser.p_array[OF z] by blast
qed

lemma sport_ids_field:
  assumes z: "zod_parser parse"
  shows "schema_field_ok parse sv_form_fields ''sportIds'' v \<longleftrightarrow>
    (\<exists>xs. v = JArr xs \<and> xs \<noteq> [] \<and> (\<forall>x \<in> set xs. accepts parse (ZNumber [NInt, NPositive]) x))"
proof -
  have m: "map_of sv_form_fields ''sportIds'' =
      Some (refine1 (ZArray (ZNumber [NInt, NPositive])) (\<lambda>v. js_list v \<noteq> []) [] ''Select at least one sport'')"
    by (simp add: sv_form_fields_def)
  have "accepts parse (refine1 (ZArray s) (\<lambda>v. js_list v \<noteq> []) [] msg) v \<longleftrightarrow>
      (\<exists>xs. v = JArr xs \<and> xs \<noteq> [] \<and> accepts parse (ZArray s) v)" for s msg
    by (auto simp: accepts_iff zod_parser.p_refine1[OF z] zod_parser.p_array[OF z] list_all2_Nil list_all2_Nil2)
       fastforce+
  then show ?thesis unfolding schema_field_ok_def m by (auto simp: accepts_array[OF z])
qed

lemma required_id_field:
  assumes z: "zod_parser parse" and "accepts parse (required_id msg) v"
  shows "pos_int v"
proof -
  obtain w where "parse (ZNullable (ZNumber [NInt, NPositive])) v = Inr w" "w \<noteq> JNull"
    using assms(2) by (auto simp: accepts_iff required_id_def zod_parser.p_refine1[OF z])
  then show ?thesis using parse_nullable_pos[OF z] by blast
qed

lemma sv_fields_at:
  "map_of sv_form_fields ''eventId'' = Some (required_id ''Event is required'')"
  "map_of sv_form_fields ''organizationId'' = Some (required_id ''Organization is required'')"
  by (simp_all add: sv_form_fields_def)

lemma sv_reach_on:
  assumes z: "zod_parser (sv_parse env)" and t: "form_trigger trigger (schema_field_ok (sv_parse env) sv_form_fields)"
    and r: "sv_reach trigger env s"
  shows "\<exists>i. step_wizard.on (\<lambda>_. sv_steps env) (\<lambda>s. nv_step (sv_nav s)) (sv_gate (schema_field_ok (sv_parse env) sv_form_fields)) i s"
  using r
proof induction
  case start
  show ?case by (rule exI, rule form_trigger.sv_on_start[OF t]) (simp add: sv_start_def sv_load_effect_def sv_org_effect_def Let_def)
next
  case (step s op)
  then obtain i where i: "step_wizard.on (\<lambda>_. sv_steps env) (\<lambda>s. nv_step (sv_nav s)) (sv_gate (schema_field_ok (sv_parse env) sv_form_fields)) i s"
    by blast
  show ?case
  proof (rule form_trigger.sv_on_step[OF t i])
    fix existing assume op: "op = SvExisting (Some existing)"
      and f: "schema_field_ok (sv_parse env) sv_form_fields ''sportIds'' (getValue ''sportIds'' (sv_form s))"
    have "\<forall>r \<in> set existing. accepts (sv_parse env) (ZNumber [NInt, NPositive]) (js_get ''sport_id'' r)"
      using step.hyps(2) op by (simp add: rows_ok_def list_all_iff)
    then show "schema_field_ok (sv_parse env) sv_form_fields ''sportIds''
       (JArr (merge_ids (js_list (getValue ''sportIds'' (sv_form s))) (map (js_get ''sport_id'') existing)))"
      using f unfolding sport_ids_field[OF z] by (auto simp: merge_ids_def)
  qed
qed

text \<open>The review of the By Sport survey shows only validated choices: in every state the form can
  reach, whatever the server answers and when, as long as the earlier choices it reports
  carry ids, the review step is shown only with an event type, a positive event id and
  at least one sport, all with positive ids, and for an administrator with a
  positive organization id.\<close>

theorem survey_review_validated:
  assumes "zod_parser (sv_parse env)"
    and "form_trigger trigger (schema_field_ok (sv_parse env) sv_form_fields)"
    and "sv_reach trigger env s" "nv_step (sv_nav s) = StepReview"
  shows "nonempty_type (sv_type s) \<and> pos_int (getValue ''eventId'' (sv_form s))
    \<and> (\<exists>xs. getValue ''sportIds'' (sv_form s) = JArr xs \<and> xs \<noteq> [] \<and> (\<forall>x \<in> set xs. pos_int x))
    \<and> (is_admin (sv_role env) \<longrightarrow> pos_int (getValue ''organizationId'' (sv_form s)))"
proof -
  let ?ok = "schema_field_ok (sv_parse env) sv_form_fields"
  obtain i where i: "i < length (sv_steps env)" "sv_steps env ! i = StepReview" "\<forall>j < i. sv_gate ?ok (sv_steps env ! j) s"
    using sv_reach_on[OF assms(1-3)] assms(4) unfolding form_trigger.sv_on_iff[OF assms(2)] by metis
  have "sv_steps env ! (length (sv_steps env) - 1) = StepReview" "sv_steps env \<noteq> []"
    by (simp_all add: sv_steps_def ALL_FORM_STEPS_def)
  then have last: "i = length (sv_steps env) - 1"
    using i(1,2) sv_steps_distinct[of env] by (metis diff_less length_greater_0_conv nth_eq_iff_index_eq zero_less_one)
  have g: "sv_gate ?ok p s" if p: "p \<in> set (sv_steps env)" for p
  proof (cases "p = StepReview")
    case False
    obtain j where j: "j < length (sv_steps env)" "p = sv_steps env ! j" using p by (metis in_set_conv_nth)
    then have "j < i" using last False i(2) by (metis Suc_pred' gr_implies_not0 less_Suc_eq linorder_neqE_nat not_gr_zero)
    then show ?thesis using i(3) j(2) by blast
  qed simp
  have mem: "StepEvent \<in> set (sv_steps env)" "is_admin (sv_role env) \<Longrightarrow> StepOrganization \<in> set (sv_steps env)"
    by (simp_all add: sv_steps_def ALL_FORM_STEPS_def)
  have "nonempty_type (sv_type s)" using g[of StepEventType] by (simp add: sv_steps_def ALL_FORM_STEPS_def)
  moreover have "pos_int (getValue ''eventId'' (sv_form s))"
    using g[OF mem(1)] required_id_field[OF assms(1)] by (simp add: schema_field_ok_def sv_fields_at)
  moreover have "?ok ''sportIds'' (getValue ''sportIds'' (sv_form s))"
    using g[of StepSports] by (simp add: sv_steps_def ALL_FORM_STEPS_def)
  moreover have "is_admin (sv_role env) \<Longrightarrow> pos_int (getValue ''organizationId'' (sv_form s))"
    using g[OF mem(2)] required_id_field[OF assms(1)] by (simp add: schema_field_ok_def sv_fields_at)
  ultimately show ?thesis
    unfolding sport_ids_field[OF assms(1)] accepts_iff by (auto dest: parse_pos_int[OF assms(1)])
qed

definition sample_sv_env :: survey_env where
  "sample_sv_env = \<lparr> sv_parse = zparse, sv_role = ''organization'', sv_org_id = JInt 3 \<rparr>"

definition sample_sv_event :: "int \<Rightarrow> js" where
  "sample_sv_event i = JObj [(''id'', JInt i), (''type'', JStr ''NATIONAL'')]"

definition sample_sv_sport :: "int \<Rightarrow> js" where
  "sample_sv_sport i = JObj [(''id'', JInt (10 * i)), (''sports_id'', JInt i)]"

definition sample_sv_ops :: "sv_op list" where
  "sample_sv_ops =
     [SvLoaded [sample_sv_event 7, sample_sv_event 8] [], SvType ''NATIONAL'', SvNext, SvEvent (sample_sv_event 7),
      SvSports (Some [sample_sv_sport 1, sample_sv_sport 2]), SvExisting (Some [JObj [(''sport_id'', JInt 2)]]),
      SvNext, SvToggle (sample_sv_sport 1), SvNext]"

abbreviation sample_sv_trigger :: "form_values \<Rightarrow> string list \<Rightarrow> bool" where
  "sample_sv_trigger \<equiv> field_trigger zparse sv_form_fields"

lemma sv_reach_fold:
  "sv_reach trigger env s \<Longrightarrow> list_all (rows_ok (sv_parse env)) ops \<Longrightarrow> sv_reach trigger env (fold (sv_step trigger env) ops s)"
  by (induction ops arbitrary: s) (auto intro: sv_reach.step)

definition sample_sv_state :: survey where
  "sample_sv_state = fold (sv_step sample_sv_trigger sample_sv_env) sample_sv_ops (sv_start sample_sv_env)"

lemma sample_sv_at_review: "nv_step (sv_nav sample_sv_state) = StepReview"
  by code_simp

lemma sample_sv_rows: "list_all (rows_ok (sv_parse sample_sv_env)) sample_sv_ops"
  by code_simp

lemma survey_review_validated_witness:
  "nv_step (sv_nav sample_sv_state) = StepReview \<and> pos_int (getValue ''eventId'' (sv_form sample_sv_state))
   \<and> nonempty_type (sv_type sample_sv_state)"
proof -
  have z: "zod_parser (sv_parse sample_sv_env)" using zp.zod_parser_axioms by (simp add: sample_sv_env_def)
  have t: "form_trigger sample_sv_trigger (schema_field_ok (sv_parse sample_sv_env) sv_form_fields)"
    using ft.form_trigger_axioms[of zparse sv_form_fields] by (simp add: sample_sv_env_def)
  have r: "sv_reach sample_sv_trigger sample_sv_env sample_sv_state"
    unfolding sample_sv_state_def by (rule sv_reach_fold[OF sv_reach.start sample_sv_rows])
  show ?thesis using survey_review_validated[OF z t r sample_sv_at_review] sample_sv_at_review by blast
qed

text \<open>The chosen sports survive a change of the event: going back and choosing another event whose sports do
  not include them posts them for that event, while the review, which lists only the sports
  of the event, does not show them.\<close>

definition sample_other_event :: survey where
  "sample_other_event =
     fold (sv_step sample_sv_trigger sample_sv_env)
       [SvPrevious, SvPrevious, SvEvent (sample_sv_event 8), SvSports (Some [sample_sv_sport 4]), SvExisting (Some []),
        SvNext, SvNext]
       sample_sv_state"

lemma sports_of_another_event:
  "nv_step (sv_nav sample_other_event) = StepReview \<and> review_sports sample_other_event = []"
  "map ht_body (sv_posts (sv_step sample_sv_trigger sample_sv_env (SvSubmit (\<lambda>_. Inr JNull)) sample_other_event)) =
     [sv_link_body (JInt 3) (JInt 8) (JInt 2), sv_link_body (JInt 3) (JInt 8) (JInt 1)]"
  by code_simp+

text \<open>An administrator who chooses the organization after the event never gets its earlier choices: the load of the event
  reads the organization when the sports arrive and does not run again.\<close>

lemma late_organization_not_loaded:
  "sv_loadPhase s = NoLoad \<Longrightarrow> sv_loadPhase (sv_chooseOrganization o1 s) = NoLoad \<and>
     sv_existing_arrive rows (sv_chooseOrganization o1 s) = sv_chooseOrganization o1 s"
  by (simp add: sv_chooseOrganization_def sv_existing_arrive_def)

end
