(* ===== verification/Survey_By_Category.thy ===== *)
theory Survey_By_Category
  imports Survey_By_Number
begin

text \<open>
  The By Category survey, modules/bycategory: a federation proposes the categories of its sport for
  an event. Schemas, adapter with the search of an earlier event's categories, hook,
  and the stepwise form with its asynchronous loads. The read cache has the form of the By
  Number adapter's. A submit is one step.
\<close>

section \<open>Schemas\<close>

definition GENDERS :: "string list" where
  "GENDERS = [''MALE'', ''FEMALE'', ''MIXED'']"

definition bc_eventSchema :: schema where
  "bc_eventSchema = ZObject False
     [(''id'', znum), (''name_kh'', zstr), (''type'', ZOptional zstr),
      (''survey_category_is_open'', ZOptional ZBoolean), (''created_at'', ZOptional zstr)]"

definition categoryRowSchema :: schema where
  "categoryRowSchema = ZObject False [(''name'', ZString [MinLen 1]), (''gender'', ZEnum GENDERS)]"

definition categorySurveyEntrySchema :: schema where
  "categorySurveyEntrySchema = ZObject False
     [(''id'', znum), (''sports_id'', ZOptional (ZNullable znum)), (''category'', zstr),
      (''gender'', ZOptional (ZNullable (ZEnum GENDERS))), (''events_id'', ZOptional (ZNullable znum)),
      (''created_at'', ZOptional zstr)]"

definition bc_eventListResponseSchema :: schema where
  "bc_eventListResponseSchema = list_response bc_eventSchema"

definition bc_form_fields :: "(string \<times> schema) list" where
  "bc_form_fields =
     [(''eventId'', ZNumber [NInt, NPositive]), (''sportId'', ZNumber [NInt, NPositive]), (''sportName'', ZOptional zstr),
      (''categories'', refine1 (ZArray categoryRowSchema) (\<lambda>v. js_list v \<noteq> []) [] ''Add at least one category''),
      (''previousCategories'', ZOptional (ZArray categoryRowSchema))]"

definition byCategorySchema :: schema where
  "byCategorySchema = ZObject False bc_form_fields"

section \<open>Adapter\<close>

definition apiFetchEligibleEvents :: request where
  "apiFetchEligibleEvents = get_req (api_v1 ''events?survey_category_open=true&skip=0&limit=100'') []"
definition apiFetchCategories :: "js \<Rightarrow> js \<Rightarrow> request" where
  "apiFetchCategories e s = get_req (api_v1 (''surveys/category?event_id='' @ js_string e @ ''&sport_id='' @ js_string s)) []"
definition apiSubmitCategories :: "js \<Rightarrow> request" where
  "apiSubmitCategories body = body_req ''post'' (api_v1 ''surveys/category'') body"
definition apiFetchSport :: "js \<Rightarrow> request" where
  "apiFetchSport s = get_req (api_v1 (''sports/'' @ js_string s)) []"

definition fetchEligibleEvents where
  "fetchEligibleEvents parse srv = cached_list ''bycategory-events''
     (map_r (\<lambda>w. JArr (filter (\<lambda>e. js_get ''survey_category_is_open'' e \<noteq> JBool False) (js_list (js_get ''data'' w))))
       (parsed_call parse srv bc_eventListResponseSchema apiFetchEligibleEvents))"

definition categories_key :: "js \<Rightarrow> js \<Rightarrow> string" where
  "categories_key e s = ''bycategory-cats-'' @ js_string e @ ''-'' @ js_string s"

definition bc_fetchCategories where
  "bc_fetchCategories parse srv e s = cached_list (categories_key e s)
     (parsed_call parse srv (ZArray categorySurveyEntrySchema) (apiFetchCategories e s))"

text \<open>The categories of the first other event that has some; an event whose request fails is passed over.\<close>

definition category_row :: "js \<Rightarrow> js" where
  "category_row c = JObj [(''name'', js_get ''category'' c), (''gender'', or_nullish (js_get ''gender'' c) (JStr ''MIXED''))]"

fun first_categories :: "parser \<Rightarrow> backend \<Rightarrow> js \<Rightarrow> js list \<Rightarrow> js list" where
  "first_categories parse srv s [] = []"
| "first_categories parse srv s (e # es) =
     (case parsed_call parse srv (ZArray categorySurveyEntrySchema) (apiFetchCategories (js_get ''id'' e) s) of
        Inl _ \<Rightarrow> first_categories parse srv s es
      | Inr w \<Rightarrow> if js_list w \<noteq> [] then map category_row (js_list w) else first_categories parse srv s es)"

definition fetchPreviousCategories :: "parser \<Rightarrow> backend \<Rightarrow> js \<Rightarrow> js \<Rightarrow> js list" where
  "fetchPreviousCategories parse srv s excludeEventId =
     (case parsed_call parse srv bc_eventListResponseSchema apiFetchEligibleEvents of
        Inl _ \<Rightarrow> []
      | Inr w \<Rightarrow> first_categories parse srv s
          (filter (\<lambda>e. js_get ''id'' e \<noteq> excludeEventId) (js_list (js_get ''data'' w))))"

definition fetchSportName :: "backend \<Rightarrow> js \<Rightarrow> (js_error, js) result" where
  "fetchSportName srv s = bind_r (srv (apiFetchSport s)) (member ''name_kh'')"

definition submit_body :: "js \<Rightarrow> js \<Rightarrow> js list \<Rightarrow> js" where
  "submit_body ev sport categories = JObj [(''event_id'', ev), (''sport_id'', sport), (''categories'', JArr categories)]"

definition submitCategories :: "parser \<Rightarrow> backend \<Rightarrow> js \<Rightarrow> (js_error, js) result" where
  "submitCategories parse srv body = parsed_call parse srv (ZArray categorySurveyEntrySchema) (apiSubmitCategories body)"

definition bc_after_submit :: "js \<Rightarrow> js \<Rightarrow> ttl_cache \<Rightarrow> ttl_cache" where
  "bc_after_submit e s c = AList.delete (categories_key e s) c"

section \<open>The hook\<close>

definition bc_defaults :: form_values where
  "bc_defaults = [(''eventId'', JUndef), (''sportId'', JUndef), (''sportName'', JStr []), (''categories'', JArr []),
     (''previousCategories'', JArr [])]"

definition submitted_category :: "js \<Rightarrow> js" where
  "submitted_category c = JObj [(''name'', js_get ''name'' c), (''gender'', js_get ''gender'' c)]"

definition bc_handleSubmit :: "parser \<Rightarrow> backend \<Rightarrow> js \<Rightarrow> request list \<times> string option" where
  "bc_handleSubmit parse srv d =
     (if \<not> truthy (js_get ''eventId'' d) \<or> \<not> truthy (js_get ''sportId'' d)
      then ([], Some ''Missing required fields'')
      else
        (let body = submit_body (js_get ''eventId'' d) (js_get ''sportId'' d)
                      (map submitted_category (js_list (js_get ''categories'' d))) in
         ([apiSubmitCategories body],
          (case submitCategories parse srv body of
             Inl e \<Rightarrow> Some (or_else (error_message e) ''Failed to submit categories'')
           | Inr _ \<Rightarrow> None))))"

section \<open>The form\<close>

datatype bc_step_name = BcStepEvent | BcStepSport | BcStepCategories | BcStepReview

definition BC_STEPS :: "bc_step_name list" where
  "BC_STEPS = [BcStepEvent, BcStepSport, BcStepCategories, BcStepReview]"

record bc_env =
  bc_parse :: parser
  bc_role :: string
  bc_sport_id :: js

record bycategory =
  bc_nav :: "bc_step_name nav_state"
  bc_success :: bool
  bc_events :: "js list"
  bc_loading :: bool
  bc_copyPending :: bool
  bc_sportName :: string
  bc_hasPrevious :: bool
  bc_form :: form_values
  bc_serverError :: "string option"
  bc_watched :: js
  bc_outstanding :: nat
  bc_posts :: "request list"

definition bc_federation :: "bc_env \<Rightarrow> bool" where
  "bc_federation env \<longleftrightarrow> bc_role env = ''federation'' \<and> truthy (bc_sport_id env)"

text \<open>Mounting: a federation's sport is set, and its name and earlier categories start to load.\<close>

definition bc_federation_effect :: "bc_env \<Rightarrow> bycategory \<Rightarrow> bycategory" where
  "bc_federation_effect env s =
     (if bc_federation env
      then s\<lparr> bc_form := setValue ''sportId'' (JNum (js_to_number (bc_sport_id env))) (bc_form s),
              bc_outstanding := Suc (bc_outstanding s) \<rparr>
      else s)"

text \<open>For an administrator a change of the event reloads them, if a sport is set.\<close>

definition bc_event_effect :: "bc_env \<Rightarrow> bycategory \<Rightarrow> bycategory" where
  "bc_event_effect env s =
     (let e = getValue ''eventId'' (bc_form s) in
      if e = bc_watched s then s
      else s\<lparr> bc_watched := e,
              bc_outstanding := (if is_admin (bc_role env) \<and> truthy e \<and> truthy (getValue ''sportId'' (bc_form s))
                                 then Suc (bc_outstanding s) else bc_outstanding s) \<rparr>)"

definition bc_start :: "bc_env \<Rightarrow> bycategory" where
  "bc_start env = bc_event_effect env (bc_federation_effect env
     \<lparr> bc_nav = nav_start BcStepEvent, bc_success = False, bc_events = [], bc_loading = True, bc_copyPending = False,
       bc_sportName = [], bc_hasPrevious = False, bc_form = bc_defaults, bc_serverError = None,
       bc_watched = JUndef, bc_outstanding = 0, bc_posts = [] \<rparr>)"

text \<open>The name of the sport, or the fallback when it cannot be read, and the earlier categories.\<close>

definition bc_init_arrive :: "js \<Rightarrow> string option \<Rightarrow> js list option \<Rightarrow> bycategory \<Rightarrow> bycategory" where
  "bc_init_arrive sportId nm rows s =
     (if bc_outstanding s = 0 then s
      else s\<lparr> bc_outstanding := bc_outstanding s - 1,
              bc_sportName := (case nm of Some n \<Rightarrow> n | None \<Rightarrow> ''Sport #'' @ js_string sportId),
              bc_hasPrevious := (case rows of Some r \<Rightarrow> r \<noteq> [] | None \<Rightarrow> False),
              bc_form := (case rows of Some r \<Rightarrow> setValue ''previousCategories'' (JArr r) (bc_form s) | None \<Rightarrow> bc_form s) \<rparr>)"

definition bc_shown :: "bc_step_name \<Rightarrow> bycategory \<Rightarrow> bool" where
  "bc_shown p s \<longleftrightarrow> \<not> bc_success s \<and> \<not> bc_loading s \<and> nv_step (bc_nav s) = p"

definition bc_chooseEvent :: "bc_env \<Rightarrow> js \<Rightarrow> bycategory \<Rightarrow> bycategory" where
  "bc_chooseEvent env e s =
     (if bc_shown BcStepEvent s \<and> e \<in> set (bc_events s)
      then bc_event_effect env (s\<lparr> bc_form := setValue ''eventId'' (radio_value e) (bc_form s) \<rparr>) else s)"

definition bc_edit :: "(js list \<Rightarrow> js list) \<Rightarrow> bycategory \<Rightarrow> bycategory" where
  "bc_edit f s =
     (if bc_shown BcStepCategories s
      then s\<lparr> bc_form := setValue ''categories'' (JArr (f (js_list (getValue ''categories'' (bc_form s))))) (bc_form s) \<rparr>
      else s)"

definition bc_append :: "bycategory \<Rightarrow> bycategory" where
  "bc_append = bc_edit (\<lambda>rows. rows @ [JObj [(''name'', JStr []), (''gender'', JStr ''MALE'')]])"

definition bc_remove :: "nat \<Rightarrow> bycategory \<Rightarrow> bycategory" where
  "bc_remove i = bc_edit (remove_at i)"

definition bc_setName :: "nat \<Rightarrow> string \<Rightarrow> bycategory \<Rightarrow> bycategory" where
  "bc_setName i nm = bc_edit (\<lambda>rows. if i < length rows then rows[i := js_set ''name'' (JStr nm) (rows ! i)] else rows)"

definition bc_setGender :: "nat \<Rightarrow> string \<Rightarrow> bycategory \<Rightarrow> bycategory" where
  "bc_setGender i g = bc_edit (\<lambda>rows. if i < length rows \<and> g \<in> set GENDERS then rows[i := js_set ''gender'' (JStr g) (rows ! i)] else rows)"

text \<open>Copy from previous: the button starts a load, whose rows replace the categories if there are any.\<close>

definition bc_copy :: "bycategory \<Rightarrow> bycategory" where
  "bc_copy s =
     (if bc_shown BcStepCategories s \<and> bc_hasPrevious s \<and> \<not> bc_copyPending s \<and> truthy (getValue ''sportId'' (bc_form s))
      then s\<lparr> bc_copyPending := True \<rparr> else s)"

definition bc_copy_arrive :: "js list \<Rightarrow> bycategory \<Rightarrow> bycategory" where
  "bc_copy_arrive rows s =
     (if bc_copyPending s
      then s\<lparr> bc_copyPending := False,
              bc_form := (if rows \<noteq> [] then setValue ''categories'' (JArr rows) (bc_form s) else bc_form s) \<rparr>
      else s)"

definition bc_ok :: "(form_values \<Rightarrow> string list \<Rightarrow> bool) \<Rightarrow> bc_env \<Rightarrow> bc_step_name \<Rightarrow> bycategory \<Rightarrow> bool" where
  "bc_ok trigger env p s =
     (case p of
        BcStepEvent \<Rightarrow> truthy (getValue ''eventId'' (bc_form s))
      | BcStepSport \<Rightarrow> \<not> (is_admin (bc_role env) \<and> \<not> truthy (getValue ''sportId'' (bc_form s)))
      | BcStepCategories \<Rightarrow> trigger (bc_form s) [''categories'']
      | BcStepReview \<Rightarrow> True)"

definition bc_handleNext :: "(form_values \<Rightarrow> string list \<Rightarrow> bool) \<Rightarrow> bc_env \<Rightarrow> bycategory \<Rightarrow> bycategory" where
  "bc_handleNext trigger env s =
     s\<lparr> bc_nav := nav_next BC_STEPS (bc_ok trigger env (nv_step (bc_nav s)) s) (bc_nav s) \<rparr>"

definition bc_handlePreviousStep :: "bycategory \<Rightarrow> bycategory" where
  "bc_handlePreviousStep s = s\<lparr> bc_nav := nav_prev BC_STEPS (bc_nav s) \<rparr>"

definition bc_handleStepClick :: "nat \<Rightarrow> bycategory \<Rightarrow> bycategory" where
  "bc_handleStepClick idx s = s\<lparr> bc_nav := nav_click BC_STEPS idx (bc_nav s) \<rparr>"

definition bc_handleRegisterAnother :: "bc_env \<Rightarrow> bycategory \<Rightarrow> bycategory" where
  "bc_handleRegisterAnother env s =
     (if bc_success s
      then bc_event_effect env (s\<lparr> bc_form := bc_defaults, bc_success := False, bc_nav := nav_start BcStepEvent,
             bc_sportName := [], bc_hasPrevious := False, bc_serverError := None \<rparr>)
      else s)"

text \<open>The submit button of the review, or Enter in the name of a category when it is the form's only text field: the
  form of an earlier step has no submit button, and the browser then submits a form of a single text field.\<close>

definition bc_can_submit :: "bycategory \<Rightarrow> bool" where
  "bc_can_submit s \<longleftrightarrow> bc_shown BcStepReview s \<or>
     bc_shown BcStepCategories s \<and> length (js_list (getValue ''categories'' (bc_form s))) = 1"

definition bc_submit :: "bc_env \<Rightarrow> backend \<Rightarrow> bycategory \<Rightarrow> bycategory" where
  "bc_submit env srv s =
     (if bc_can_submit s
      then (case submit_values (bc_parse env) byCategorySchema (bc_form s) of
              None \<Rightarrow> s\<lparr> bc_serverError := None \<rparr>
            | Some d \<Rightarrow>
                (let (rqs, err) = bc_handleSubmit (bc_parse env) srv d in
                 s\<lparr> bc_posts := bc_posts s @ rqs, bc_serverError := err, bc_success := (err = None) \<rparr>))
      else s)"

datatype bc_op =
    BcLoaded "js list"
  | BcInit js "string option" "js list option"
  | BcEvent js
  | BcAppend
  | BcRemove nat
  | BcSetName nat string
  | BcSetGender nat string
  | BcCopy
  | BcCopied "js list"
  | BcNext
  | BcPrevious
  | BcClick nat
  | BcSubmit backend
  | BcAnother

fun bc_step :: "(form_values \<Rightarrow> string list \<Rightarrow> bool) \<Rightarrow> bc_env \<Rightarrow> bc_op \<Rightarrow> bycategory \<Rightarrow> bycategory" where
  "bc_step trigger env (BcLoaded es) s = s\<lparr> bc_events := es, bc_loading := False \<rparr>"
| "bc_step trigger env (BcInit i nm rows) s = bc_init_arrive i nm rows s"
| "bc_step trigger env (BcEvent e) s = bc_chooseEvent env e s"
| "bc_step trigger env BcAppend s = bc_append s"
| "bc_step trigger env (BcRemove i) s = bc_remove i s"
| "bc_step trigger env (BcSetName i nm) s = bc_setName i nm s"
| "bc_step trigger env (BcSetGender i g) s = bc_setGender i g s"
| "bc_step trigger env BcCopy s = bc_copy s"
| "bc_step trigger env (BcCopied rows) s = bc_copy_arrive rows s"
| "bc_step trigger env BcNext s =
     (if bc_success s \<or> bc_loading s \<or> nv_step (bc_nav s) = BcStepReview then s else bc_handleNext trigger env s)"
| "bc_step trigger env BcPrevious s =
     (if bc_success s \<or> bc_loading s then s else bc_handlePreviousStep s)"
| "bc_step trigger env (BcClick i) s = (if bc_success s then s else bc_handleStepClick i s)"
| "bc_step trigger env (BcSubmit srv) s = bc_submit env srv s"
| "bc_step trigger env BcAnother s = bc_handleRegisterAnother env s"

definition bc_run :: "(form_values \<Rightarrow> string list \<Rightarrow> bool) \<Rightarrow> bc_env \<Rightarrow> bc_op list \<Rightarrow> bycategory" where
  "bc_run trigger env ops = fold (bc_step trigger env) ops (bc_start env)"

section \<open>Whose categories are ever sent\<close>

definition sound_category :: "js \<Rightarrow> bool" where
  "sound_category c \<longleftrightarrow> (\<exists>n. js_get ''name'' c = JStr n \<and> n \<noteq> []) \<and> (\<exists>g \<in> set GENDERS. js_get ''gender'' c = JStr g)"

lemma category_parsed:
  assumes z: "zod_parser parse" and p: "parse categoryRowSchema v = Inr w"
  shows "sound_category (submitted_category w)"
proof -
  note get = zod_parser.object_get[OF z p[unfolded categoryRowSchema_def]]
  have "parse (ZString [MinLen 1]) (js_get ''name'' v) = Inr (js_get ''name'' w)" by (rule get) simp_all
  moreover have "parse (ZEnum GENDERS) (js_get ''gender'' v) = Inr (js_get ''gender'' w)" by (rule get) simp_all
  ultimately show ?thesis
    by (auto simp: sound_category_def submitted_category_def or_else_def zod_parser.p_string[OF z] zod_parser.p_enum[OF z]
        split: if_splits)
qed

lemma bc_accepted:
  assumes z: "zod_parser parse" and p: "submit_values parse byCategorySchema f = Some d"
  shows "js_get ''eventId'' d = getValue ''eventId'' f" "pos_int (getValue ''eventId'' f)"
    and "js_get ''sportId'' d = getValue ''sportId'' f" "pos_int (getValue ''sportId'' f)"
    and "js_list (js_get ''categories'' d) \<noteq> []"
    and "\<forall>c \<in> set (js_list (js_get ''categories'' d)). sound_category (submitted_category c)"
proof -
  note get = zod_parser.object_get[OF z p[unfolded submit_values_Some byCategorySchema_def]]
  have "parse (ZNumber [NInt, NPositive]) (js_get ''eventId'' (JObj f)) = Inr (js_get ''eventId'' d)"
    by (rule get) (simp_all add: bc_form_fields_def)
  then show "js_get ''eventId'' d = getValue ''eventId'' f" "pos_int (getValue ''eventId'' f)"
    using parse_pos_int[OF z] unfolding getValue_def by metis+
  have "parse (ZNumber [NInt, NPositive]) (js_get ''sportId'' (JObj f)) = Inr (js_get ''sportId'' d)"
    by (rule get) (simp_all add: bc_form_fields_def)
  then show "js_get ''sportId'' d = getValue ''sportId'' f" "pos_int (getValue ''sportId'' f)"
    using parse_pos_int[OF z] unfolding getValue_def by metis+
  have "parse (refine1 (ZArray categoryRowSchema) (\<lambda>v. js_list v \<noteq> []) [] ''Add at least one category'')
      (js_get ''categories'' (JObj f)) = Inr (js_get ''categories'' d)"
    by (rule get) (simp_all add: bc_form_fields_def)
  then have "parse (ZArray categoryRowSchema) (js_get ''categories'' (JObj f)) = Inr (js_get ''categories'' d)"
    and n: "js_list (js_get ''categories'' d) \<noteq> []" unfolding zod_parser.p_refine1[OF z] by blast+
  then show "js_list (js_get ''categories'' d) \<noteq> []"
    "\<forall>c \<in> set (js_list (js_get ''categories'' d)). sound_category (submitted_category c)"
    using array_all[OF z] category_parsed[OF z] by blast+
qed

definition bc_sport :: "bc_env \<Rightarrow> js" where
  "bc_sport env = JNum (js_to_number (bc_sport_id env))"

definition sport_post :: "bc_env \<Rightarrow> request \<Rightarrow> bool" where
  "sport_post env rq \<longleftrightarrow> bc_federation env \<and>
     (\<exists>ev categories. rq = apiSubmitCategories (submit_body ev (bc_sport env) categories) \<and> pos_int ev \<and>
        categories \<noteq> [] \<and> (\<forall>c \<in> set categories. sound_category c))"

definition bc_inv :: "bc_env \<Rightarrow> bool \<Rightarrow> bycategory \<Rightarrow> bool" where
  "bc_inv env fresh s \<longleftrightarrow>
     (getValue ''sportId'' (bc_form s) = JUndef \<or>
        fresh \<and> bc_federation env \<and> getValue ''sportId'' (bc_form s) = bc_sport env) \<and>
     (is_admin (bc_role env) \<longrightarrow> nv_step (bc_nav s) \<in> {BcStepEvent, BcStepSport} \<and> nv_max (bc_nav s) \<le> 1)"

lemma bc_event_effect_keeps [simp]:
  "bc_nav (bc_event_effect env s) = bc_nav s" "bc_form (bc_event_effect env s) = bc_form s"
  "bc_posts (bc_event_effect env s) = bc_posts s"
  by (auto simp: bc_event_effect_def Let_def)

lemma not_admin_federation: "bc_federation env \<Longrightarrow> \<not> is_admin (bc_role env)"
  by (auto simp: bc_federation_def is_admin_def)

lemmas bc_ops = bc_init_arrive_def bc_chooseEvent_def bc_append_def bc_remove_def bc_setName_def bc_setGender_def
  bc_edit_def bc_copy_def bc_copy_arrive_def bc_handleNext_def bc_handlePreviousStep_def bc_handleStepClick_def

lemma bc_admin_moves:
  assumes "nv_step n \<in> {BcStepEvent, BcStepSport}" "nv_max n \<le> 1"
  shows "nv_step n = BcStepSport \<Longrightarrow> \<not> ok \<Longrightarrow> nav_next BC_STEPS ok n = n"
    and "nv_step n = BcStepEvent \<Longrightarrow>
      nv_step (nav_next BC_STEPS ok n) \<in> {BcStepEvent, BcStepSport} \<and> nv_max (nav_next BC_STEPS ok n) \<le> 1"
    and "nv_step (nav_prev BC_STEPS n) \<in> {BcStepEvent, BcStepSport} \<and> nv_max (nav_prev BC_STEPS n) \<le> 1"
    and "nv_step (nav_click BC_STEPS i n) \<in> {BcStepEvent, BcStepSport} \<and> nv_max (nav_click BC_STEPS i n) \<le> 1"
proof -
  show "nv_step n = BcStepSport \<Longrightarrow> \<not> ok \<Longrightarrow> nav_next BC_STEPS ok n = n"
    by (simp add: nav_next_def BC_STEPS_def)
  show "nv_step n = BcStepEvent \<Longrightarrow>
      nv_step (nav_next BC_STEPS ok n) \<in> {BcStepEvent, BcStepSport} \<and> nv_max (nav_next BC_STEPS ok n) \<le> 1"
    using assms(2) by (simp add: nav_next_def nav_goToStep_def BC_STEPS_def)
  show "nv_step (nav_prev BC_STEPS n) \<in> {BcStepEvent, BcStepSport} \<and> nv_max (nav_prev BC_STEPS n) \<le> 1"
    using assms by (auto simp: nav_prev_def nav_goToStep_def BC_STEPS_def)
  show "nv_step (nav_click BC_STEPS i n) \<in> {BcStepEvent, BcStepSport} \<and> nv_max (nav_click BC_STEPS i n) \<le> 1"
  proof (cases "i \<le> nv_max n")
    case True
    then have "i = 0 \<or> i = 1" using assms(2) by linarith
    then show ?thesis using assms by (auto simp: nav_click_def indicator_click_def nav_stepClick_def BC_STEPS_def)
  qed (use assms in \<open>simp add: nav_click_def indicator_click_def nav_stepClick_def\<close>)
qed

lemma bc_next_admin:
  assumes "bc_inv env fresh s" "is_admin (bc_role env)"
  shows "nv_step (bc_nav (bc_handleNext trigger env s)) \<in> {BcStepEvent, BcStepSport} \<and>
    nv_max (bc_nav (bc_handleNext trigger env s)) \<le> 1"
proof -
  have n: "nv_step (bc_nav s) \<in> {BcStepEvent, BcStepSport}" "nv_max (bc_nav s) \<le> 1"
    and u: "getValue ''sportId'' (bc_form s) = JUndef"
    using assms by (auto simp: bc_inv_def dest: not_admin_federation)
  have sp: "nv_step (bc_nav s) = BcStepSport \<Longrightarrow> \<not> bc_ok trigger env (nv_step (bc_nav s)) s"
    using assms(2) u by (simp add: bc_ok_def)
  show ?thesis
  proof (cases "nv_step (bc_nav s) = BcStepSport")
    case True
    then show ?thesis using bc_admin_moves(1)[OF n True] sp n by (simp add: bc_handleNext_def)
  next
    case False
    then show ?thesis using bc_admin_moves(2)[OF n] n by (simp add: bc_handleNext_def)
  qed
qed

lemma bc_inv_step:
  assumes i: "bc_inv env fresh s" shows "bc_inv env fresh (bc_step trigger env op s)"
proof (cases op)
  case BcNext
  then show ?thesis using i bc_next_admin[OF i, of trigger] by (auto simp: bc_inv_def bc_handleNext_def)
next
  case BcPrevious
  then show ?thesis using i bc_admin_moves(3)[of "bc_nav s"] by (auto simp: bc_inv_def bc_handlePreviousStep_def)
next
  case (BcClick j)
  then show ?thesis using i bc_admin_moves(4)[of "bc_nav s" j] by (auto simp: bc_inv_def bc_handleStepClick_def)
next
  case BcAnother
  then show ?thesis using i by (simp add: bc_inv_def bc_handleRegisterAnother_def nav_start_def bc_defaults_def)
next
  case (BcSubmit srv)
  have "bc_nav (bc_submit env srv s) = bc_nav s \<and> bc_form (bc_submit env srv s) = bc_form s"
    by (auto simp: bc_submit_def split: option.split prod.split)
  then show ?thesis using i by (simp add: BcSubmit bc_inv_def)
qed (use i in \<open>auto simp: bc_inv_def bc_ops split: option.split\<close>)

lemma bc_inv_start: "bc_inv env True (bc_start env)"
  by (auto simp: bc_inv_def bc_start_def bc_federation_effect_def nav_start_def bc_defaults_def bc_sport_def)

lemma bc_posts_step:
  assumes i: "bc_inv env fresh s" and z: "zod_parser (bc_parse env)"
    and rq: "rq \<in> set (bc_posts (bc_step trigger env op s)) - set (bc_posts s)"
  shows "fresh \<and> sport_post env rq"
proof (cases op)
  case (BcSubmit srv)
  have "rq \<in> set (bc_posts (bc_submit env srv s))" "rq \<notin> set (bc_posts s)" using rq BcSubmit by simp_all
  then obtain d where d: "submit_values (bc_parse env) byCategorySchema (bc_form s) = Some d"
    and r: "rq \<in> set (fst (bc_handleSubmit (bc_parse env) srv d))"
    by (auto simp: bc_submit_def split: if_splits option.splits prod.splits)
  note a = bc_accepted[OF z d]
  have "truthy (getValue ''sportId'' (bc_form s))" using pos_int_truthy[OF a(4)] .
  then have s: "fresh" "bc_federation env" "getValue ''sportId'' (bc_form s) = bc_sport env" using i by (auto simp: bc_inv_def)
  have "rq = apiSubmitCategories (submit_body (js_get ''eventId'' d) (js_get ''sportId'' d)
      (map submitted_category (js_list (js_get ''categories'' d))))"
    using r by (simp add: bc_handleSubmit_def Let_def split: if_splits)
  then have "sport_post env rq"
    unfolding sport_post_def using s a by (intro conjI exI[of _ "js_get ''eventId'' d"]
      exI[of _ "map submitted_category (js_list (js_get ''categories'' d))"]) simp_all
  then show ?thesis using s(1) by simp
qed (use rq in \<open>simp_all add: bc_ops bc_handleRegisterAnother_def split: if_splits\<close>)

lemma bc_fold_posts:
  assumes z: "zod_parser (bc_parse env)" and "bc_inv env fresh s"
  shows "\<forall>rq \<in> set (bc_posts (fold (bc_step trigger env) ops s)) - set (bc_posts s). fresh \<and> sport_post env rq"
    and "bc_inv env fresh (fold (bc_step trigger env) ops s)"
proof -
  show "\<forall>rq \<in> set (bc_posts (fold (bc_step trigger env) ops s)) - set (bc_posts s). fresh \<and> sport_post env rq"
    using assms(2)
  proof (induction ops arbitrary: s)
    case (Cons op ops)
    let ?t = "bc_step trigger env op s"
    have i: "bc_inv env fresh ?t" by (rule bc_inv_step[OF Cons.prems])
    show ?case using Cons.IH[OF i] bc_posts_step[OF Cons.prems z, of _ trigger op] by auto
  qed simp
  show "bc_inv env fresh (fold (bc_step trigger env) ops s)"
    using assms(2) by (induction ops arbitrary: s) (simp_all add: bc_inv_step del: bc_step.simps)
qed

text \<open>C24. Only a federation ever submits categories, and only for its own sport: whatever is done in the
  By Category form and whatever the server answers and when, every submission names the federation's
  sport, a positive event id and at least one category, each with a name and one of the three
  genders. The administrators the page is also open to can send nothing at all: no step of the
  form sets a sport for them, so they never get past the sport step.\<close>

theorem bycategory_posts_own_sport:
  assumes "zod_parser (bc_parse env)"
  shows "(\<forall>rq \<in> set (bc_posts (bc_run trigger env ops)). bc_role env = ''federation'' \<and>
      (\<exists>ev categories. rq = apiSubmitCategories (submit_body ev (JNum (js_to_number (bc_sport_id env))) categories)
         \<and> pos_int ev \<and> categories \<noteq> [] \<and>
         (\<forall>c \<in> set categories. (\<exists>n. js_get ''name'' c = JStr n \<and> n \<noteq> []) \<and>
            (\<exists>g \<in> {''MALE'', ''FEMALE'', ''MIXED''}. js_get ''gender'' c = JStr g))))
    \<and> (is_admin (bc_role env) \<longrightarrow>
        nv_step (bc_nav (bc_run trigger env ops)) \<in> {BcStepEvent, BcStepSport} \<and> bc_posts (bc_run trigger env ops) = [])"
proof -
  have p0: "bc_posts (bc_start env) = []" by (simp add: bc_start_def bc_federation_effect_def)
  note f = bc_fold_posts[OF assms bc_inv_start, of trigger ops]
  have own: "\<forall>rq \<in> set (bc_posts (bc_run trigger env ops)). sport_post env rq"
    using f(1) p0 by (auto simp: bc_run_def)
  have "bc_posts (bc_run trigger env ops) = []" if "is_admin (bc_role env)"
  proof (rule ccontr)
    assume "bc_posts (bc_run trigger env ops) \<noteq> []"
    then obtain rq where "rq \<in> set (bc_posts (bc_run trigger env ops))" using hd_in_set by blast
    then have "bc_federation env" using own unfolding sport_post_def by blast
    then show False using that not_admin_federation by blast
  qed
  moreover have "is_admin (bc_role env) \<Longrightarrow> nv_step (bc_nav (bc_run trigger env ops)) \<in> {BcStepEvent, BcStepSport}"
    using f(2) by (simp add: bc_inv_def bc_run_def)
  moreover have "set GENDERS = {''MALE'', ''FEMALE'', ''MIXED''}" by (simp add: GENDERS_def)
  ultimately show ?thesis
    using own unfolding sport_post_def sound_category_def bc_sport_def bc_federation_def by (metis (no_types, lifting))
qed

text \<open>After a saved survey the federation, too, can send nothing more, for its sport is reset with the form.\<close>

lemma bycategory_second_survey_blocked:
  assumes "zod_parser (bc_parse env)" "bc_success s"
  shows "set (bc_posts (fold (bc_step trigger env) later (bc_handleRegisterAnother env s))) \<subseteq> set (bc_posts s)"
proof -
  have "bc_inv env False (bc_handleRegisterAnother env s)"
    using assms(2) by (simp add: bc_handleRegisterAnother_def bc_inv_def nav_start_def bc_defaults_def)
  moreover have "bc_posts (bc_handleRegisterAnother env s) = bc_posts s" by (simp add: bc_handleRegisterAnother_def)
  ultimately show ?thesis using bc_fold_posts(1)[OF assms(1)] by fastforce
qed

definition sample_bc_run :: "string \<Rightarrow> bycategory" where
  "sample_bc_run role = bc_run (field_trigger zparse bc_form_fields)
     \<lparr> bc_parse = zparse, bc_role = role, bc_sport_id = JStr ''4'' \<rparr>
     [BcLoaded [JObj [(''id'', JInt 7)]], BcEvent (JObj [(''id'', JInt 7)]), BcNext, BcNext, BcAppend,
      BcSetName 0 ''-60 kg'', BcNext, BcSubmit (\<lambda>_. Inr (JArr []))]"

lemma bycategory_posts_own_sport_witness:
  "length (bc_posts (sample_bc_run ''federation'')) = 1 \<and> bc_posts (sample_bc_run ''admin'') = []"
proof
  show "length (bc_posts (sample_bc_run ''federation'')) = 1" by code_simp
  have z: "zod_parser (bc_parse \<lparr> bc_parse = zparse, bc_role = ''admin'', bc_sport_id = JStr ''4'' \<rparr>)"
    using zp.zod_parser_axioms by simp
  show "bc_posts (sample_bc_run ''admin'') = []"
    unfolding sample_bc_run_def using bycategory_posts_own_sport[OF z] by (simp add: is_admin_def)
qed

lemma first_categories_empty:
  "first_categories parse srv s es = [] \<longleftrightarrow>
     (\<forall>e \<in> set es. \<forall>w. parsed_call parse srv (ZArray categorySurveyEntrySchema) (apiFetchCategories (js_get ''id'' e) s) = Inr w
        \<longrightarrow> js_list w = [])"
  by (induction es) (auto split: sum.split)

end
