(* ===== verification/Review_Groups.thy ===== *)
theory Review_Groups
  imports Http Js_Array
begin

text \<open>
  The review queues of the administrators. Rows of the three kinds of submission
  (modules/sportreview, modules/categoryreview, modules/participation) are gathered
  into one group per organization or sport by groupSubmissionsByOrg,
  groupCategorySubmissionsBySport and groupParticipationsByOrg. The list pages
  filter the rows by status, the groups by a search text, and show ten per page.

  The three functions share one shape: a Map from a key to a group that is created
  from the first row of the key and extended by each row. \<^verbatim>\<open>group_rows\<close> is that
  loop; its lemmas say which rows a group has been extended by.
\<close>

section \<open>Gathering rows under keys\<close>

definition group_step :: "('r \<Rightarrow> string) \<Rightarrow> ('r \<Rightarrow> 'g) \<Rightarrow> ('r \<Rightarrow> 'g \<Rightarrow> 'g) \<Rightarrow> 'r \<Rightarrow> (string \<times> 'g) list \<Rightarrow> (string \<times> 'g) list" where
  "group_step key new add r m = AList.update (key r) (add r (or_else (map_of m (key r)) (new r))) m"

definition group_rows :: "('r \<Rightarrow> string) \<Rightarrow> ('r \<Rightarrow> 'g) \<Rightarrow> ('r \<Rightarrow> 'g \<Rightarrow> 'g) \<Rightarrow> 'r list \<Rightarrow> (string \<times> 'g) list" where
  "group_rows key new add rs = fold (group_step key new add) rs []"

definition built_from :: "('r \<Rightarrow> 'g) \<Rightarrow> ('r \<Rightarrow> 'g \<Rightarrow> 'g) \<Rightarrow> 'r list \<Rightarrow> 'g option" where
  "built_from new add rs = (case rs of [] \<Rightarrow> None | r # _ \<Rightarrow> Some (fold add rs (new r)))"

lemma built_from_simps [simp]:
  "built_from new add [] = None"
  "built_from new add (r # rs) = Some (fold add (r # rs) (new r))"
  by (simp_all add: built_from_def)

lemma built_from_snoc:
  "built_from new add (rs @ [r]) = Some (add r (or_else (built_from new add rs) (new r)))"
  by (cases rs) (simp_all add: built_from_def)

lemma group_rows_snoc: "group_rows key new add (rs @ [r]) = group_step key new add r (group_rows key new add rs)"
  by (simp add: group_rows_def)

text \<open>The group of a key is built from exactly the rows with that key, in their order.\<close>

lemma map_of_group_rows:
  "map_of (group_rows key new add rs) k = built_from new add (filter (\<lambda>r. key r = k) rs)"
proof (induction rs rule: rev_induct)
  case (snoc r rs)
  then show ?case
    by (cases "key r = k") (simp_all add: group_rows_snoc group_step_def update_conv' built_from_snoc)
qed (simp add: group_rows_def)

lemma distinct_group_rows: "distinct (map fst (group_rows key new add rs))"
  by (induction rs rule: rev_induct)
    (simp_all add: group_rows_def group_step_def distinct_update)

lemma keys_group_rows: "fst ` set (group_rows key new add rs) = key ` set rs"
proof -
  have "k \<in> fst ` set (group_rows key new add rs) \<longleftrightarrow> k \<in> key ` set rs" for k
  proof -
    have "k \<in> fst ` set (group_rows key new add rs) \<longleftrightarrow> map_of (group_rows key new add rs) k \<noteq> None"
      by (simp add: map_of_eq_None_iff)
    also have "\<dots> \<longleftrightarrow> filter (\<lambda>r. key r = k) rs \<noteq> []"
      unfolding map_of_group_rows by (simp add: built_from_def split: list.split)
    also have "\<dots> \<longleftrightarrow> k \<in> key ` set rs" by (auto simp: filter_empty_conv)
    finally show ?thesis .
  qed
  then show ?thesis by blast
qed

lemma group_rows_entry:
  assumes "(k, g) \<in> set (group_rows key new add rs)"
  shows "built_from new add (filter (\<lambda>r. key r = k) rs) = Some g"
  using map_of_group_rows[of key new add rs k] assms distinct_group_rows[of key new add rs] by simp

text \<open>Splitting a list by a distinct list of keys that covers it loses and repeats nothing.\<close>

lemma mset_filter_keys:
  "distinct ks \<Longrightarrow> key ` set rs \<subseteq> set ks \<Longrightarrow>
     mset (concat (map (\<lambda>k. filter (\<lambda>r. key r = k) rs) ks)) = mset rs"
proof (induction ks arbitrary: rs)
  case (Cons k ks)
  let ?rest = "filter (\<lambda>r. key r \<noteq> k) rs"
  have f: "filter (\<lambda>r. key r = j) rs = filter (\<lambda>r. key r = j) ?rest" if "j \<in> set ks" for j
  proof -
    have "j \<noteq> k" using that Cons.prems(1) by auto
    then show ?thesis by (auto simp: intro: filter_cong)
  qed
  have e: "map (\<lambda>j. filter (\<lambda>r. key r = j) rs) ks = map (\<lambda>j. filter (\<lambda>r. key r = j) ?rest) ks"
    by (rule map_cong[OF refl f])
  have "mset (concat (map (\<lambda>j. filter (\<lambda>r. key r = j) ?rest) ks)) = mset ?rest"
    by (rule Cons.IH) (use Cons.prems in auto)
  then have "mset (concat (map (\<lambda>j. filter (\<lambda>r. key r = j) rs) (k # ks))) =
      filter_mset (\<lambda>r. key r = k) (mset rs) + filter_mset (\<lambda>r. key r \<noteq> k) (mset rs)"
    unfolding list.map concat.simps mset_append e by (simp add: mset_filter)
  then show ?case by (simp add: multiset_partition[of "mset rs" "\<lambda>r. key r = k", symmetric])
qed simp

section \<open>Groups of submissions\<close>

text \<open>
  SportOrgGroup, CategorySportGroup and ParticipationOrgGroup. The first has no
  counter of other states; there it stays 0.
\<close>

record review_group =
  rg_id :: js
  rg_name :: js
  rg_submissions :: "js list"
  rg_total :: nat
  rg_pending :: nat
  rg_approved :: nat
  rg_rejected :: nat
  rg_other :: nat
  rg_eventNames :: "js list"
  rg_latest :: string

lemma or_nullish_if: "or_nullish a b = (if is_nullish a then b else a)"
  by (cases a) auto

definition row_key :: "string \<Rightarrow> string \<Rightarrow> js \<Rightarrow> string" where
  "row_key idk namek s =
     js_string (or_nullish (js_get idk s) (JStr (''name:'' @ js_string (or_nullish (js_get namek s) (JStr [])))))"

definition row_status :: "js \<Rightarrow> js" where
  "row_status s = or_nullish (js_get ''status'' s) (JStr ''SUBMITTED'')"

definition new_group :: "string \<Rightarrow> string \<Rightarrow> js \<Rightarrow> review_group" where
  "new_group idk namek s =
     \<lparr> rg_id = or_nullish (js_get idk s) JNull, rg_name = js_get namek s, rg_submissions = [], rg_total = 0,
       rg_pending = 0, rg_approved = 0, rg_rejected = 0, rg_other = 0, rg_eventNames = [],
       rg_latest = js_str (js_get ''created_at'' s) \<rparr>"

definition count_sport :: "js \<Rightarrow> review_group \<Rightarrow> review_group" where
  "count_sport st g =
     (if st = JStr ''APPROVED'' then g\<lparr>rg_approved := rg_approved g + 1\<rparr>
      else if st = JStr ''REJECTED'' then g\<lparr>rg_rejected := rg_rejected g + 1\<rparr>
      else g\<lparr>rg_pending := rg_pending g + 1\<rparr>)"

definition count_fsm :: "js \<Rightarrow> review_group \<Rightarrow> review_group" where
  "count_fsm st g =
     (if st = JStr ''SUBMITTED'' then g\<lparr>rg_pending := rg_pending g + 1\<rparr>
      else if st = JStr ''APPROVED'' then g\<lparr>rg_approved := rg_approved g + 1\<rparr>
      else if st = JStr ''REJECTED'' then g\<lparr>rg_rejected := rg_rejected g + 1\<rparr>
      else g\<lparr>rg_other := rg_other g + 1\<rparr>)"

definition add_row :: "(js \<Rightarrow> review_group \<Rightarrow> review_group) \<Rightarrow> js \<Rightarrow> review_group \<Rightarrow> review_group" where
  "add_row count_status s g =
     (let g1 = count_status (row_status s)
                 (g\<lparr>rg_submissions := rg_submissions g @ [s], rg_total := rg_total g + 1\<rparr>);
          ev = js_get ''event_name'' s;
          g2 = (if truthy ev \<and> ev \<notin> set (rg_eventNames g1)
                then g1\<lparr>rg_eventNames := rg_eventNames g1 @ [ev]\<rparr> else g1)
      in if rg_latest g2 < js_str (js_get ''created_at'' s)
         then g2\<lparr>rg_latest := js_str (js_get ''created_at'' s)\<rparr> else g2)"

text \<open>Pending first, then the largest groups.\<close>

definition by_attention :: "review_group \<Rightarrow> review_group \<Rightarrow> int" where
  "by_attention = cmp_then (by_key_desc (\<lambda>g. int (rg_pending g))) (by_key_desc (\<lambda>g. int (rg_total g)))"

definition groupSubmissionsByOrg :: "js list \<Rightarrow> review_group list" where
  "groupSubmissionsByOrg submissions =
     js_sort by_attention (map snd (group_rows (row_key ''organization_id'' ''org_name'')
       (new_group ''organization_id'' ''org_name'') (add_row count_sport) submissions))"

definition groupCategorySubmissionsBySport :: "js list \<Rightarrow> review_group list" where
  "groupCategorySubmissionsBySport submissions =
     js_sort by_attention (map snd (group_rows (row_key ''sports_id'' ''sport_name'')
       (new_group ''sports_id'' ''sport_name'') (add_row count_fsm) submissions))"

definition groupParticipationsByOrg :: "js list \<Rightarrow> review_group list" where
  "groupParticipationsByOrg rows =
     js_sort by_attention (map snd (group_rows (row_key ''org_id'' ''org_name'')
       (new_group ''org_id'' ''org_name'') (add_row count_fsm) rows))"

section \<open>The list pages\<close>

definition ALL_REVIEW_STATUSES :: "string list" where
  "ALL_REVIEW_STATUSES = [''SUBMITTED'', ''APPROVED'', ''REJECTED'', ''FLAGGED'', ''REVISION_REQUESTED'', ''DRAFT'']"

definition SPORT_REVIEW_STATUSES :: "string list" where
  "SPORT_REVIEW_STATUSES = [''SUBMITTED'', ''APPROVED'', ''REJECTED'']"

text \<open>None is the choice of all states.\<close>

definition visible_rows :: "string option \<Rightarrow> js list \<Rightarrow> js list" where
  "visible_rows statusFilter rows =
     (case statusFilter of None \<Rightarrow> rows | Some st \<Rightarrow> filter (\<lambda>s. row_status s = JStr st) rows)"

definition text_of :: "js \<Rightarrow> string" where
  "text_of v = js_string (or_nullish v (JStr []))"

definition event_text :: "review_group \<Rightarrow> string" where
  "event_text g = join_with '' '' (map js_string (rg_eventNames g))"

definition sport_hay :: "review_group \<Rightarrow> string" where
  "sport_hay g = text_of (rg_name g) @ '' '' @ event_text g @ '' '' @
     join_with '' '' (map (\<lambda>s. text_of (js_get ''sport_name'' s)) (rg_submissions g))"

definition group_hay :: "review_group \<Rightarrow> string" where
  "group_hay g = text_of (rg_name g) @ '' '' @ event_text g"

definition search_matches :: "string \<Rightarrow> string \<Rightarrow> bool" where
  "search_matches search hay =
     (let q = to_lower (trim search) in q = [] \<or> contains_str (to_lower hay) q)"

definition sport_queue :: "string option \<Rightarrow> string \<Rightarrow> js list \<Rightarrow> review_group list" where
  "sport_queue statusFilter search rows =
     filter (\<lambda>g. search_matches search (sport_hay g)) (groupSubmissionsByOrg (visible_rows statusFilter rows))"

definition category_queue :: "string option \<Rightarrow> string \<Rightarrow> js list \<Rightarrow> review_group list" where
  "category_queue statusFilter search rows =
     filter (\<lambda>g. search_matches search (group_hay g)) (groupCategorySubmissionsBySport (visible_rows statusFilter rows))"

definition participation_queue :: "string option \<Rightarrow> string \<Rightarrow> js list \<Rightarrow> review_group list" where
  "participation_queue statusFilter search rows =
     filter (\<lambda>g. search_matches search (group_hay g)) (groupParticipationsByOrg (visible_rows statusFilter rows))"

definition QUEUE_PAGE_SIZE :: nat where "QUEUE_PAGE_SIZE = 10"

definition total_pages :: "nat \<Rightarrow> nat" where
  "total_pages n = (n + QUEUE_PAGE_SIZE - 1) div QUEUE_PAGE_SIZE"

definition page_rows :: "nat \<Rightarrow> 'a list \<Rightarrow> 'a list" where
  "page_rows currentPage xs = take QUEUE_PAGE_SIZE (drop (currentPage * QUEUE_PAGE_SIZE) xs)"

text \<open>The page of one organization's own rows: the loaded page is filtered, and paged by the server's count.\<close>

definition participation_list_rows :: "string option \<Rightarrow> string \<Rightarrow> js list \<Rightarrow> js list" where
  "participation_list_rows statusFilter search rows =
     filter (\<lambda>p. (case statusFilter of None \<Rightarrow> True | Some st \<Rightarrow> row_status p = JStr st) \<and>
                 search_matches search (text_of (js_get ''org_name'' p) @ '' '' @ text_of (js_get ''event_name'' p))) rows"

section \<open>What a group holds\<close>

definition status_count :: "string \<Rightarrow> js list \<Rightarrow> nat" where
  "status_count st rows = length (filter (\<lambda>s. row_status s = JStr st) rows)"

definition undecided_count :: "js list \<Rightarrow> nat" where
  "undecided_count rows =
     length (filter (\<lambda>s. row_status s \<noteq> JStr ''APPROVED'' \<and> row_status s \<noteq> JStr ''REJECTED'') rows)"

definition other_count :: "js list \<Rightarrow> nat" where
  "other_count rows =
     length (filter (\<lambda>s. row_status s \<notin> {JStr ''SUBMITTED'', JStr ''APPROVED'', JStr ''REJECTED''}) rows)"

lemmas count_fields =
  count_sport_def count_fsm_def

lemma count_sport_keeps [simp]:
  "rg_id (count_sport st g) = rg_id g" "rg_name (count_sport st g) = rg_name g"
  "rg_submissions (count_sport st g) = rg_submissions g" "rg_total (count_sport st g) = rg_total g"
  "rg_eventNames (count_sport st g) = rg_eventNames g" "rg_latest (count_sport st g) = rg_latest g"
  by (simp_all add: count_sport_def)

lemma count_fsm_keeps [simp]:
  "rg_id (count_fsm st g) = rg_id g" "rg_name (count_fsm st g) = rg_name g"
  "rg_submissions (count_fsm st g) = rg_submissions g" "rg_total (count_fsm st g) = rg_total g"
  "rg_eventNames (count_fsm st g) = rg_eventNames g" "rg_latest (count_fsm st g) = rg_latest g"
  by (simp_all add: count_fsm_def)

text \<open>
  The contract of a counter, which the two counters provide: it touches the four
  state counts only. What a group then holds is a function of the rows added to it.
\<close>

locale status_counter =
  fixes count_status :: "js \<Rightarrow> review_group \<Rightarrow> review_group"
  assumes keeps: "rg_id (count_status st g) = rg_id g" "rg_name (count_status st g) = rg_name g"
      "rg_submissions (count_status st g) = rg_submissions g" "rg_total (count_status st g) = rg_total g"
      "rg_eventNames (count_status st g) = rg_eventNames g" "rg_latest (count_status st g) = rg_latest g"
    and counts: "rg_pending (count_status st g) + rg_approved (count_status st g) +
        rg_rejected (count_status st g) + rg_other (count_status st g) =
      rg_pending g + rg_approved g + rg_rejected g + rg_other g + 1"
begin

lemma add_row_fields [simp]:
  "rg_id (add_row count_status s g) = rg_id g"
  "rg_name (add_row count_status s g) = rg_name g"
  "rg_submissions (add_row count_status s g) = rg_submissions g @ [s]"
  "rg_total (add_row count_status s g) = rg_total g + 1"
  by (simp_all add: add_row_def Let_def keeps)

lemma add_row_events:
  "rg_eventNames (add_row count_status s g) =
     (let ev = js_get ''event_name'' s in
      if truthy ev \<and> ev \<notin> set (rg_eventNames g) then rg_eventNames g @ [ev] else rg_eventNames g)"
  by (simp add: add_row_def Let_def keeps)

lemma add_row_latest:
  "rg_latest (add_row count_status s g) = max (rg_latest g) (js_str (js_get ''created_at'' s))"
  by (auto simp: add_row_def Let_def keeps max_def dest: less_imp_le)

lemma fold_rows:
  "rg_id (fold (add_row count_status) rs g) = rg_id g \<and>
   rg_submissions (fold (add_row count_status) rs g) = rg_submissions g @ rs \<and>
   rg_total (fold (add_row count_status) rs g) = rg_total g + length rs"
  by (induction rs arbitrary: g) simp_all

lemma fold_events:
  "set (rg_eventNames (fold (add_row count_status) rs g)) =
     set (rg_eventNames g) \<union> {ev. truthy ev \<and> ev \<in> js_get ''event_name'' ` set rs} \<and>
   (distinct (rg_eventNames g) \<longrightarrow> distinct (rg_eventNames (fold (add_row count_status) rs g)))"
proof (induction rs arbitrary: g)
  case (Cons r rs)
  then show ?case using Cons[of "add_row count_status r g"] by (auto simp: add_row_events Let_def)
qed simp

lemma fold_latest:
  "rg_latest (fold (add_row count_status) rs g) =
     fold (\<lambda>s m. max m (js_str (js_get ''created_at'' s))) rs (rg_latest g)"
  by (induction rs arbitrary: g) (simp_all add: add_row_latest)

lemma fold_counts:
  "rg_pending (fold (add_row count_status) rs g) + rg_approved (fold (add_row count_status) rs g) +
     rg_rejected (fold (add_row count_status) rs g) + rg_other (fold (add_row count_status) rs g) =
   rg_pending g + rg_approved g + rg_rejected g + rg_other g + length rs"
proof (induction rs arbitrary: g)
  case (Cons r rs)
  have "rg_pending (add_row count_status r g) + rg_approved (add_row count_status r g) +
      rg_rejected (add_row count_status r g) + rg_other (add_row count_status r g) =
      rg_pending g + rg_approved g + rg_rejected g + rg_other g + 1"
    using counts[of "row_status r" "g\<lparr>rg_submissions := rg_submissions g @ [r], rg_total := rg_total g + 1\<rparr>"]
    by (simp add: add_row_def Let_def)
  with Cons[of "add_row count_status r g"] show ?case by simp
qed simp

text \<open>The groups of a list of rows.\<close>

lemma group_of_rows:
  assumes "g \<in> set (map snd (group_rows (row_key idk namek) (new_group idk namek) (add_row count_status) rows))"
  obtains k r rs where "filter (\<lambda>r. row_key idk namek r = k) rows = r # rs"
    "g = fold (add_row count_status) (r # rs) (new_group idk namek r)"
proof -
  obtain k where "(k, g) \<in> set (group_rows (row_key idk namek) (new_group idk namek) (add_row count_status) rows)"
    using assms by auto
  from group_rows_entry[OF this] that show thesis
    by (auto simp: built_from_def split: list.splits)
qed

lemma groups_hold_rows:
  assumes "g \<in> set (map snd (group_rows (row_key idk namek) (new_group idk namek) (add_row count_status) rows))"
  shows "\<exists>k. rg_submissions g = filter (\<lambda>r. row_key idk namek r = k) rows \<and> rg_submissions g \<noteq> [] \<and>
    rg_total g = length (rg_submissions g) \<and>
    rg_pending g + rg_approved g + rg_rejected g + rg_other g = rg_total g \<and>
    rg_id g = or_nullish (js_get idk (hd (rg_submissions g))) JNull \<and>
    distinct (rg_eventNames g) \<and>
    set (rg_eventNames g) = {ev. truthy ev \<and> ev \<in> js_get ''event_name'' ` set (rg_submissions g)}"
proof -
  obtain k r rs where f: "filter (\<lambda>r. row_key idk namek r = k) rows = r # rs"
    and g: "g = fold (add_row count_status) (r # rs) (new_group idk namek r)"
    using assms by (rule group_of_rows)
  have n: "rg_submissions (new_group idk namek r) = []" "rg_total (new_group idk namek r) = 0"
    "rg_pending (new_group idk namek r) + rg_approved (new_group idk namek r) +
     rg_rejected (new_group idk namek r) + rg_other (new_group idk namek r) = 0"
    "rg_eventNames (new_group idk namek r) = []"
    "rg_id (new_group idk namek r) = or_nullish (js_get idk r) JNull"
    by (simp_all add: new_group_def)
  note fr = fold_rows[of "r # rs" "new_group idk namek r", folded g]
  note fe = fold_events[of "r # rs" "new_group idk namek r", folded g]
  note fc = fold_counts[of "r # rs" "new_group idk namek r", folded g]
  have s: "rg_submissions g = r # rs" "rg_total g = length (r # rs)" "rg_id g = or_nullish (js_get idk r) JNull"
    using fr n by simp_all
  show ?thesis
    by (rule exI[of _ k]) (use s f fe fc n in simp)
qed

lemma groups_partition_rows:
  "mset (concat (map rg_submissions (map snd (group_rows (row_key idk namek) (new_group idk namek) (add_row count_status) rows))))
   = mset rows"
proof -
  let ?m = "group_rows (row_key idk namek) (new_group idk namek) (add_row count_status) rows"
  have "rg_submissions (snd e) = filter (\<lambda>r. row_key idk namek r = fst e) rows" if "e \<in> set ?m" for e
  proof -
    have "built_from (new_group idk namek) (add_row count_status)
        (filter (\<lambda>r. row_key idk namek r = fst e) rows) = Some (snd e)"
      using that by (intro group_rows_entry) simp
    then obtain r rs where f: "filter (\<lambda>r. row_key idk namek r = fst e) rows = r # rs"
      "snd e = fold (add_row count_status) (r # rs) (new_group idk namek r)"
      by (auto simp: built_from_def split: list.splits)
    then show ?thesis using fold_rows[of "r # rs" "new_group idk namek r"] by (simp add: new_group_def)
  qed
  then have e: "map rg_submissions (map snd ?m) =
      map (\<lambda>k. filter (\<lambda>r. row_key idk namek r = k) rows) (map fst ?m)"
    by simp
  have "mset (concat (map (\<lambda>k. filter (\<lambda>r. row_key idk namek r = k) rows) (map fst ?m))) = mset rows"
    by (rule mset_filter_keys) (simp_all add: distinct_group_rows keys_group_rows)
  then show ?thesis unfolding e .
qed

end

interpretation sport_counter: status_counter count_sport
  by unfold_locales (simp_all add: count_sport_def)

interpretation fsm_counter: status_counter count_fsm
  by unfold_locales (simp_all add: count_fsm_def)

interpretation attention: comparator by_attention
  unfolding by_attention_def by (rule comparator_then[OF comparator_by_key_desc comparator_by_key_desc])

section \<open>Partition and order\<close>

definition partition_of :: "string \<Rightarrow> string \<Rightarrow> js list \<Rightarrow> review_group list \<Rightarrow> bool" where
  "partition_of idk namek rows gs \<longleftrightarrow>
     mset (concat (map rg_submissions gs)) = mset rows \<and>
     distinct (map (\<lambda>g. row_key idk namek (hd (rg_submissions g))) gs) \<and>
     (\<forall>g \<in> set gs.
        (\<exists>k. rg_submissions g = filter (\<lambda>r. row_key idk namek r = k) rows) \<and> rg_submissions g \<noteq> [] \<and>
        rg_total g = length (rg_submissions g) \<and>
        rg_pending g + rg_approved g + rg_rejected g + rg_other g = rg_total g \<and>
        rg_id g = or_nullish (js_get idk (hd (rg_submissions g))) JNull \<and>
        distinct (rg_eventNames g) \<and>
        set (rg_eventNames g) = {ev. truthy ev \<and> ev \<in> js_get ''event_name'' ` set (rg_submissions g)}) \<and>
     sorted_wrt (\<lambda>a b. rg_pending b < rg_pending a \<or> rg_pending b = rg_pending a \<and> rg_total b \<le> rg_total a) gs"

lemma by_attention_le:
  "by_attention a b \<le> 0 \<longleftrightarrow>
     rg_pending b < rg_pending a \<or> rg_pending b = rg_pending a \<and> rg_total b \<le> rg_total a"
  by (auto simp: by_attention_def cmp_then_def by_key_desc_def)

lemma sorted_by_attention:
  "sorted_wrt (\<lambda>a b. rg_pending b < rg_pending a \<or> rg_pending b = rg_pending a \<and> rg_total b \<le> rg_total a)
     (js_sort by_attention gs)"
  using attention.sorted_js_sort[of gs] unfolding by_attention_le .

lemma mset_concat_map_cong: "mset xs = mset ys \<Longrightarrow> mset (concat (map f xs)) = mset (concat (map f ys))"
proof -
  assume "mset xs = mset ys"
  then have "image_mset (\<lambda>x. mset (f x)) (mset xs) = image_mset (\<lambda>x. mset (f x)) (mset ys)" by simp
  then have "mset (map (\<lambda>x. mset (f x)) xs) = mset (map (\<lambda>x. mset (f x)) ys)" by simp
  then have "sum_list (map (\<lambda>x. mset (f x)) xs) = sum_list (map (\<lambda>x. mset (f x)) ys)"
    by (metis sum_mset_sum_list)
  then show ?thesis by (simp add: mset_concat o_def)
qed

lemma distinct_map_mset: "mset xs = mset ys \<Longrightarrow> distinct (map f ys) \<Longrightarrow> distinct (map f xs)"
  using mset_eq_imp_distinct_iff[of "map f xs" "map f ys"] by simp

context status_counter
begin

lemma head_key:
  assumes "e \<in> set (group_rows (row_key idk namek) (new_group idk namek) (add_row count_status) rows)"
  shows "row_key idk namek (hd (rg_submissions (snd e))) = fst e"
proof -
  have "built_from (new_group idk namek) (add_row count_status)
      (filter (\<lambda>r. row_key idk namek r = fst e) rows) = Some (snd e)"
    using assms by (intro group_rows_entry) simp
  then obtain r rs where f: "filter (\<lambda>r. row_key idk namek r = fst e) rows = r # rs"
    "snd e = fold (add_row count_status) (r # rs) (new_group idk namek r)"
    by (auto simp: built_from_def split: list.splits)
  then have "rg_submissions (snd e) = r # rs"
    using fold_rows[of "r # rs" "new_group idk namek r"] by (simp add: new_group_def)
  moreover have "r \<in> set (filter (\<lambda>r. row_key idk namek r = fst e) rows)" using f(1) by simp
  ultimately show ?thesis by simp
qed

lemma sorted_groups_partition:
  "partition_of idk namek rows
     (js_sort by_attention (map snd (group_rows (row_key idk namek) (new_group idk namek) (add_row count_status) rows)))"
  (is "partition_of _ _ _ (js_sort _ (map snd ?m))")
proof -
  have p: "mset (concat (map rg_submissions (js_sort by_attention (map snd ?m)))) = mset rows"
    by (rule trans[OF mset_concat_map_cong[OF mset_js_sort] groups_partition_rows])
  have "map (\<lambda>g. row_key idk namek (hd (rg_submissions g))) (map snd ?m) = map fst ?m"
    using head_key by simp
  then have "distinct (map (\<lambda>g. row_key idk namek (hd (rg_submissions g))) (map snd ?m))"
    by (simp only: distinct_group_rows)
  then have d: "distinct (map (\<lambda>g. row_key idk namek (hd (rg_submissions g))) (js_sort by_attention (map snd ?m)))"
    by (rule distinct_map_mset[OF mset_js_sort])
  have h: "\<forall>g \<in> set (map snd ?m).
      (\<exists>k. rg_submissions g = filter (\<lambda>r. row_key idk namek r = k) rows) \<and> rg_submissions g \<noteq> [] \<and>
      rg_total g = length (rg_submissions g) \<and>
      rg_pending g + rg_approved g + rg_rejected g + rg_other g = rg_total g \<and>
      rg_id g = or_nullish (js_get idk (hd (rg_submissions g))) JNull \<and>
      distinct (rg_eventNames g) \<and>
      set (rg_eventNames g) = {ev. truthy ev \<and> ev \<in> js_get ''event_name'' ` set (rg_submissions g)}"
    using groups_hold_rows by blast
  show ?thesis
    unfolding partition_of_def
    using p d sorted_by_attention h by (simp only: set_js_sort simp_thms)
qed

end

text \<open>C25. The three review queues group without loss: whatever rows the server sends, the groups of
  groupSubmissionsByOrg, groupCategorySubmissionsBySport and groupParticipationsByOrg together hold every
  row exactly once, two groups never share a key, every group's rows are the rows of its key in
  their order, its total is their number and the sum of its state counters, its event names are the
  distinct non-empty names of its rows, and the groups come with most pending first and then by size.\<close>

theorem review_groups_partition:
  "partition_of ''organization_id'' ''org_name'' rows (groupSubmissionsByOrg rows) \<and>
   partition_of ''sports_id'' ''sport_name'' rows (groupCategorySubmissionsBySport rows) \<and>
   partition_of ''org_id'' ''org_name'' rows (groupParticipationsByOrg rows)"
  unfolding groupSubmissionsByOrg_def groupCategorySubmissionsBySport_def groupParticipationsByOrg_def
  using sport_counter.sorted_groups_partition fsm_counter.sorted_groups_partition by blast

lemma org_groups_partition:
  "partition_of ''organization_id'' ''org_name'' rows (groupSubmissionsByOrg rows)"
  "partition_of ''sports_id'' ''sport_name'' rows (groupCategorySubmissionsBySport rows)"
  "partition_of ''org_id'' ''org_name'' rows (groupParticipationsByOrg rows)"
  unfolding groupSubmissionsByOrg_def groupCategorySubmissionsBySport_def groupParticipationsByOrg_def
  by (rule sport_counter.sorted_groups_partition fsm_counter.sorted_groups_partition)+

text \<open>Rows that share one id make one group, which holds them all.\<close>

lemma one_id_one_group:
  assumes "partition_of idk namek rows gs" "rows \<noteq> []" "\<forall>r \<in> set rows. js_get idk r = i" "\<not> is_nullish i"
  shows "\<exists>g. gs = [g] \<and> rg_submissions g = rows \<and> rg_id g = i"
proof -
  have k: "row_key idk namek r = js_string i" if "r \<in> set rows" for r
    using that assms(3,4) by (simp add: row_key_def or_nullish_if)
  have sub: "rg_submissions g = rows \<and> rg_id g = i" if g_in: "g \<in> set gs" for g
  proof -
    obtain j where j: "rg_submissions g = filter (\<lambda>r. row_key idk namek r = j) rows" "rg_submissions g \<noteq> []"
      "rg_id g = or_nullish (js_get idk (hd (rg_submissions g))) JNull"
      using assms(1)[unfolded partition_of_def, THEN conjunct2, THEN conjunct2, THEN conjunct1, THEN bspec, OF g_in]
      by (elim conjE exE) simp
    then have "\<exists>r \<in> set rows. row_key idk namek r = j" by (auto simp: filter_empty_conv)
    then have "j = js_string i" using k by auto
    then have "rg_submissions g = rows" using j(1) k by (simp add: filter_True)
    then show ?thesis using j(3) assms(2-4) by (simp add: or_nullish_if)
  qed
  have "gs \<noteq> []" using assms(1,2) by (auto simp: partition_of_def)
  then obtain g gs' where g: "gs = g # gs'" by (cases gs) auto
  have "gs' = []"
  proof (rule ccontr)
    assume "gs' \<noteq> []"
    then obtain h where h: "h \<in> set gs'" by (cases gs') auto
    then have "rg_submissions h = rg_submissions g" using sub g by auto
    moreover have "row_key idk namek (hd (rg_submissions g)) \<notin>
        (\<lambda>x. row_key idk namek (hd (rg_submissions x))) ` set gs'"
      using assms(1) g by (auto simp: partition_of_def)
    ultimately show False using h by (metis image_eqI)
  qed
  then show ?thesis using sub g by auto
qed

section \<open>Pages\<close>

lemma pages_cover_from:
  "concat (map (\<lambda>p. page_rows p xs) [i..<i + n]) = take (n * QUEUE_PAGE_SIZE) (drop (i * QUEUE_PAGE_SIZE) xs)"
proof (induction n)
  case (Suc n)
  have "take (Suc n * QUEUE_PAGE_SIZE) ys =
      take (n * QUEUE_PAGE_SIZE) ys @ take QUEUE_PAGE_SIZE (drop (n * QUEUE_PAGE_SIZE) ys)" for ys :: "'a list"
    using take_add[of "n * QUEUE_PAGE_SIZE" QUEUE_PAGE_SIZE ys] by (simp add: add.commute)
  with Suc show ?case by (simp add: page_rows_def add_mult_distrib add.commute)
qed simp

lemma total_pages_enough: "n \<le> total_pages n * QUEUE_PAGE_SIZE"
  by (simp add: total_pages_def QUEUE_PAGE_SIZE_def)

text \<open>Going through the pages shows every entry of a queue once and in order.\<close>

lemma pages_cover: "concat (map (\<lambda>p. page_rows p xs) [0..<total_pages (length xs)]) = xs"
  using pages_cover_from[of xs 0 "total_pages (length xs)"] total_pages_enough[of "length xs"] by simp

lemma page_nonempty: "p < total_pages (length xs) \<Longrightarrow> page_rows p xs \<noteq> []"
  by (simp add: page_rows_def total_pages_def QUEUE_PAGE_SIZE_def)

lemma page_bound: "length (page_rows p xs) \<le> QUEUE_PAGE_SIZE"
  by (simp add: page_rows_def)

end
