(* ===== verification/Review_Detail.thy ===== *)
theory Review_Detail
  imports Review_Groups Query_Cache
begin

text \<open>
  Reviewing a submission: the strict answer schemas and adapters of the three review
  modules, the pages that show one submission with its actions (SubmissionDetail,
  SportSubmissionDetail, CategorySubmissionDetail), and the bulk actions on one
  organization or sport (OrgSubmissionDetail, CategorySportDetail,
  ParticipationOrgDetail). A page is a state machine over the user's clicks and
  the answers of the server; what it sends is collected beside the row shown at
  that moment. Buttons react only when the page shows them enabled.
\<close>

section \<open>Schemas\<close>

definition nonneg_int :: schema where "nonneg_int = ZNumber [NInt, NMin 0]"

definition opt_int :: schema where "opt_int = znullable_optional zint"
definition opt_str :: schema where "opt_str = znullable_optional zstr"

definition sportSubmissionSchema :: schema where
  "sportSubmissionSchema = ZObject True
     [(''id'', zint), (''events_id'', opt_int), (''sports_id'', opt_int), (''organization_id'', opt_int),
      (''created_at'', zstr), (''status'', ZOptional zstr), (''review_note'', opt_str),
      (''reviewed_at'', opt_str), (''org_name'', opt_str), (''sport_name'', opt_str), (''event_name'', opt_str)]"

definition sportSubmissionListSchema :: schema where
  "sportSubmissionListSchema =
     ZObject True [(''data'', ZArray sportSubmissionSchema), (''count'', nonneg_int)]"

definition sportOrgBulkReviewResultSchema :: schema where
  "sportOrgBulkReviewResultSchema = ZObject True [(''updated'', nonneg_int), (''status'', zstr)]"

definition categoryEntrySchema :: schema where
  "categoryEntrySchema = ZObject True
     [(''id'', zint), (''category'', zstr), (''gender'', opt_str), (''sports_id'', opt_int),
      (''events_id'', opt_int), (''created_at'', zstr)]"

definition categorySubmissionShape :: "(string \<times> schema) list" where
  "categorySubmissionShape =
     [(''id'', zint), (''events_id'', opt_int), (''sports_id'', opt_int), (''event_name'', opt_str),
      (''sport_name'', opt_str), (''category_count'', nonneg_int), (''created_at'', zstr),
      (''status'', ZOptional zstr), (''review_note'', opt_str), (''reviewed_at'', opt_str)]"

definition categorySubmissionSchema :: schema where
  "categorySubmissionSchema = ZObject True categorySubmissionShape"

definition categorySubmissionDetailSchema :: schema where
  "categorySubmissionDetailSchema =
     ZObject True (categorySubmissionShape @ [(''categories'', ZArray categoryEntrySchema)])"

definition categorySubmissionListSchema :: schema where
  "categorySubmissionListSchema =
     ZObject True [(''data'', ZArray categorySubmissionSchema), (''count'', nonneg_int)]"

definition categoryBulkReviewResultSchema :: schema where
  "categoryBulkReviewResultSchema = ZObject True [(''updated'', nonneg_int), (''status'', zstr)]"

definition participationSchema :: schema where
  "participationSchema = ZObject True
     [(''id'', zint), (''sports_Events_id'', opt_int), (''org_id'', opt_int), (''created_at'', zstr),
      (''status'', ZOptional zstr), (''review_note'', opt_str), (''reviewed_at'', opt_str),
      (''athlete_male_count'', opt_int), (''athlete_female_count'', opt_int),
      (''leader_male_count'', opt_int), (''leader_female_count'', opt_int),
      (''org_name'', opt_str), (''event_name'', opt_str),
      (''enroll_id'', ZOptional zint), (''sport_id'', ZOptional zint), (''event_id'', ZOptional zint),
      (''category_id'', opt_int), (''sport_name'', ZOptional zstr), (''category_name'', ZOptional zstr),
      (''participant_name'', ZOptional zstr)]"

definition participationListSchema :: schema where
  "participationListSchema =
     ZObject True [(''data'', ZArray participationSchema), (''count'', nonneg_int)]"

definition participationBulkReviewResultSchema :: schema where
  "participationBulkReviewResultSchema = ZObject True [(''updated'', nonneg_int), (''status'', zstr)]"

section \<open>Endpoints and adapters\<close>

definition ep_participation :: string where "ep_participation = api_v1 ''participation-per-sport''"
definition ep_participation_byId :: "int \<Rightarrow> string" where
  "ep_participation_byId i = ep_participation @ ''/'' @ show_int i"
definition ep_participation_review :: "int \<Rightarrow> string" where
  "ep_participation_review i = ep_participation @ ''/'' @ show_int i @ ''/review''"
definition ep_participation_reviewOrg :: "int \<Rightarrow> string" where
  "ep_participation_reviewOrg i = ep_participation @ ''/org/'' @ show_int i @ ''/review''"

definition ep_sportSubmissions_list :: string where
  "ep_sportSubmissions_list = api_v1 ''events/sport-org/submissions''"
definition ep_sportSubmissions_review :: "int \<Rightarrow> string" where
  "ep_sportSubmissions_review i = api_v1 ''events/sport-org/'' @ show_int i @ ''/review''"
definition ep_sportSubmissions_reviewOrg :: "int \<Rightarrow> string" where
  "ep_sportSubmissions_reviewOrg i = api_v1 ''events/sport-org/org/'' @ show_int i @ ''/review''"

definition ep_categorySubmissions_list :: string where
  "ep_categorySubmissions_list = api_v1 ''surveys/category/submissions''"
definition ep_categorySubmissions_byId :: "int \<Rightarrow> string" where
  "ep_categorySubmissions_byId i = ep_categorySubmissions_list @ ''/'' @ show_int i"
definition ep_categorySubmissions_review :: "int \<Rightarrow> string" where
  "ep_categorySubmissions_review i = ep_categorySubmissions_list @ ''/'' @ show_int i @ ''/review''"
definition ep_categorySubmissions_reviewSport :: "int \<Rightarrow> string" where
  "ep_categorySubmissions_reviewSport i = ep_categorySubmissions_list @ ''/sport/'' @ show_int i @ ''/review''"

type_synonym zod_parse = "schema \<Rightarrow> js \<Rightarrow> (issue list, js) result"

definition sport_getAll :: "zod_parse \<Rightarrow> backend \<Rightarrow> (string \<times> js) list \<Rightarrow> (js_error, js) result" where
  "sport_getAll parse srv params =
     parsed_call parse srv sportSubmissionListSchema (get_req ep_sportSubmissions_list params)"
definition sport_review :: "zod_parse \<Rightarrow> backend \<Rightarrow> int \<Rightarrow> js \<Rightarrow> (js_error, js) result" where
  "sport_review parse srv i payload =
     parsed_call parse srv sportSubmissionSchema (body_req ''patch'' (ep_sportSubmissions_review i) payload)"
definition sport_reviewOrg :: "zod_parse \<Rightarrow> backend \<Rightarrow> int \<Rightarrow> js \<Rightarrow> (js_error, js) result" where
  "sport_reviewOrg parse srv i payload =
     parsed_call parse srv sportOrgBulkReviewResultSchema (body_req ''patch'' (ep_sportSubmissions_reviewOrg i) payload)"

definition category_getAll :: "zod_parse \<Rightarrow> backend \<Rightarrow> (string \<times> js) list \<Rightarrow> (js_error, js) result" where
  "category_getAll parse srv params =
     parsed_call parse srv categorySubmissionListSchema (get_req ep_categorySubmissions_list params)"
definition category_getById :: "zod_parse \<Rightarrow> backend \<Rightarrow> int \<Rightarrow> (js_error, js) result" where
  "category_getById parse srv i =
     parsed_call parse srv categorySubmissionDetailSchema (get_req (ep_categorySubmissions_byId i) [])"
definition category_review :: "zod_parse \<Rightarrow> backend \<Rightarrow> int \<Rightarrow> js \<Rightarrow> (js_error, js) result" where
  "category_review parse srv i payload =
     parsed_call parse srv categorySubmissionDetailSchema (body_req ''patch'' (ep_categorySubmissions_review i) payload)"
definition category_reviewSport :: "zod_parse \<Rightarrow> backend \<Rightarrow> int \<Rightarrow> js \<Rightarrow> (js_error, js) result" where
  "category_reviewSport parse srv i payload =
     parsed_call parse srv categoryBulkReviewResultSchema (body_req ''patch'' (ep_categorySubmissions_reviewSport i) payload)"

definition participation_create :: "zod_parse \<Rightarrow> backend \<Rightarrow> js \<Rightarrow> (js_error, js) result" where
  "participation_create parse srv payload =
     parsed_call parse srv participationSchema (body_req ''post'' ep_participation payload)"
definition participation_getAll :: "zod_parse \<Rightarrow> backend \<Rightarrow> (string \<times> js) list \<Rightarrow> (js_error, js) result" where
  "participation_getAll parse srv params =
     parsed_call parse srv participationListSchema (get_req ep_participation params)"
definition participation_getById :: "zod_parse \<Rightarrow> backend \<Rightarrow> int \<Rightarrow> (js_error, js) result" where
  "participation_getById parse srv i =
     parsed_call parse srv participationSchema (get_req (ep_participation_byId i) [])"
definition participation_update :: "zod_parse \<Rightarrow> backend \<Rightarrow> int \<Rightarrow> js \<Rightarrow> (js_error, js) result" where
  "participation_update parse srv i payload =
     parsed_call parse srv participationSchema (body_req ''patch'' (ep_participation_byId i) payload)"
definition participation_delete :: "backend \<Rightarrow> int \<Rightarrow> (js_error, js) result" where
  "participation_delete srv i = srv (body_req ''delete'' (ep_participation_byId i) JUndef)"
definition participation_review :: "zod_parse \<Rightarrow> backend \<Rightarrow> int \<Rightarrow> js \<Rightarrow> (js_error, js) result" where
  "participation_review parse srv i payload =
     parsed_call parse srv participationSchema (body_req ''patch'' (ep_participation_review i) payload)"
definition participation_reviewOrg :: "zod_parse \<Rightarrow> backend \<Rightarrow> int \<Rightarrow> js \<Rightarrow> (js_error, js) result" where
  "participation_reviewOrg parse srv i payload =
     parsed_call parse srv participationBulkReviewResultSchema (body_req ''patch'' (ep_participation_reviewOrg i) payload)"

section \<open>Actions the pages offer\<close>

definition PARTICIPATION_ALLOWED :: "(string \<times> string list) list" where
  "PARTICIPATION_ALLOWED =
     [(''SUBMITTED'', [''approve'', ''reject'', ''flag'']), (''FLAGGED'', [''approve'', ''reject'']),
      (''REVISION_REQUESTED'', [''approve'']), (''DRAFT'', []), (''APPROVED'', []), (''REJECTED'', [])]"

definition SPORT_ALLOWED :: "(string \<times> string list) list" where
  "SPORT_ALLOWED = [(''SUBMITTED'', [''approve'', ''reject'']), (''APPROVED'', []), (''REJECTED'', [])]"

definition CATEGORY_ALLOWED :: "(string \<times> string list) list" where
  "CATEGORY_ALLOWED =
     [(''SUBMITTED'', [''approve'', ''reject'', ''flag'']), (''FLAGGED'', [''approve'', ''reject'']),
      (''REVISION_REQUESTED'', [''approve'']), (''DRAFT'', []), (''APPROVED'', []), (''REJECTED'', [])]"

text \<open>The table read at the state of a row; a state it does not list offers nothing.\<close>

definition allowed_for :: "(string \<times> string list) list \<Rightarrow> js \<Rightarrow> string list" where
  "allowed_for table row = or_else (map_of table (js_string (row_status row))) []"

text \<open>The counts a participation page adds up.\<close>

definition count_of :: "string \<Rightarrow> js \<Rightarrow> rat" where
  "count_of k p = js_rat (or_nullish (js_get k p) (JInt 0))"

definition athletes :: "js \<Rightarrow> rat" where
  "athletes p = count_of ''athlete_male_count'' p + count_of ''athlete_female_count'' p"

definition leaders :: "js \<Rightarrow> rat" where
  "leaders p = count_of ''leader_male_count'' p + count_of ''leader_female_count'' p"

definition detail_total :: "js \<Rightarrow> rat" where
  "detail_total p =
     count_of ''athlete_male_count'' p + count_of ''athlete_female_count'' p +
     count_of ''leader_male_count'' p + count_of ''leader_female_count'' p"

lemma detail_total_split: "detail_total p = athletes p + leaders p"
  by (simp add: detail_total_def athletes_def leaders_def)

text \<open>The stepper from draft to decision.\<close>

datatype tone = T_primary | T_success | T_destructive | T_warning | T_muted

definition DECISION_TONE :: "(string \<times> tone) list" where
  "DECISION_TONE = [(''APPROVED'', T_success), (''REJECTED'', T_destructive), (''FLAGGED'', T_warning),
     (''REVISION_REQUESTED'', T_warning)]"

definition timeline_index :: "string \<Rightarrow> nat" where
  "timeline_index st = (if st = ''DRAFT'' then 0 else if st = ''SUBMITTED'' then 1 else 2)"

definition nodeTone :: "string \<Rightarrow> nat \<Rightarrow> tone" where
  "nodeTone st i =
     (if i < timeline_index st then T_primary
      else if i = timeline_index st then (if i = 2 then or_else (map_of DECISION_TONE st) T_muted else T_primary)
      else T_muted)"

section \<open>The page of one submission\<close>

record review_view =
  rv_current :: js
  rv_action :: "string option"
  rv_reason :: string
  rv_reviewing :: bool

text \<open>The variables of one call of the review mutation: the row's id, the action and the note.\<close>

record review_call =
  rc_id :: js
  rc_action :: string
  rc_note :: js

definition review_start :: "js \<Rightarrow> review_view" where
  "review_start submission = \<lparr> rv_current = submission, rv_action = None, rv_reason = [], rv_reviewing = False \<rparr>"

definition doAction :: "string \<Rightarrow> js \<Rightarrow> review_view \<Rightarrow> review_view \<times> review_call option" where
  "doAction a note v =
     (v\<lparr>rv_reviewing := True\<rparr>, Some \<lparr> rc_id = js_get ''id'' (rv_current v), rc_action = a, rc_note = note \<rparr>)"

definition openReason :: "string \<Rightarrow> review_view \<Rightarrow> review_view" where
  "openReason a v = v\<lparr>rv_reason := [], rv_action := Some a\<rparr>"

definition review_success :: "(js \<Rightarrow> js \<Rightarrow> js) \<Rightarrow> js \<Rightarrow> review_view \<Rightarrow> review_view" where
  "review_success merge data v =
     v\<lparr>rv_current := merge (rv_current v) data, rv_action := None, rv_reason := [], rv_reviewing := False\<rparr>"

definition merge_participation :: "js \<Rightarrow> js \<Rightarrow> js" where
  "merge_participation prev data = data"

definition merge_sport :: "js \<Rightarrow> js \<Rightarrow> js" where
  "merge_sport prev data =
     js_set ''reviewed_at'' (js_get ''reviewed_at'' data)
       (js_set ''review_note'' (js_get ''review_note'' data)
         (js_set ''status'' (js_get ''status'' data) prev))"

datatype review_event =
    ClickApprove
  | ClickReason string
  | TypeReason string
  | CloseReason
  | ConfirmReason
  | ReviewSettled "(js_error, js) result"

text \<open>
  The buttons: approve, reject and flag are on the page when the table allows them
  and disabled while a review is pending; the dialog's confirm is disabled
  while the trimmed reason is empty or a review is pending.
\<close>

definition review_step ::
  "(string \<times> string list) list \<Rightarrow> (js \<Rightarrow> js \<Rightarrow> js) \<Rightarrow> review_event \<Rightarrow> review_view \<Rightarrow> review_view \<times> review_call option" where
  "review_step table merge e v =
     (case e of
        ClickApprove \<Rightarrow>
          if ''approve'' \<in> set (allowed_for table (rv_current v)) \<and> \<not> rv_reviewing v
          then doAction ''approve'' JUndef v else (v, None)
      | ClickReason a \<Rightarrow>
          if a \<in> {''reject'', ''flag''} \<and> a \<in> set (allowed_for table (rv_current v)) \<and> \<not> rv_reviewing v
          then (openReason a v, None) else (v, None)
      | TypeReason r \<Rightarrow> (if rv_action v \<noteq> None then v\<lparr>rv_reason := r\<rparr> else v, None)
      | CloseReason \<Rightarrow> (v\<lparr>rv_action := None\<rparr>, None)
      | ConfirmReason \<Rightarrow>
          (case rv_action v of
             None \<Rightarrow> (v, None)
           | Some a \<Rightarrow>
               if trim (rv_reason v) \<noteq> [] \<and> \<not> rv_reviewing v
               then doAction a (JStr (trim (rv_reason v))) v else (v, None))
      | ReviewSettled r \<Rightarrow>
          (if \<not> rv_reviewing v then v
           else (case r of Inr data \<Rightarrow> review_success merge data v | Inl _ \<Rightarrow> v\<lparr>rv_reviewing := False\<rparr>), None))"

definition participation_step :: "review_event \<Rightarrow> review_view \<Rightarrow> review_view \<times> review_call option" where
  "participation_step = review_step PARTICIPATION_ALLOWED merge_participation"

definition sport_step :: "review_event \<Rightarrow> review_view \<Rightarrow> review_view \<times> review_call option" where
  "sport_step = review_step SPORT_ALLOWED merge_sport"

text \<open>A call the row it is sent from allows: its id, an action of the table, and a reason where one is due.\<close>

definition call_ok :: "(string \<times> string list) list \<Rightarrow> js \<Rightarrow> review_call \<Rightarrow> bool" where
  "call_ok table row c \<longleftrightarrow>
     rc_id c = js_get ''id'' row \<and> rc_action c \<in> set (allowed_for table row) \<and>
     (if rc_action c = ''approve'' then rc_note c = JUndef
      else (case rc_note c of JStr s \<Rightarrow> s \<noteq> [] \<and> trim s = s | _ \<Rightarrow> False))"

definition view_ok :: "(string \<times> string list) list \<Rightarrow> review_view \<Rightarrow> bool" where
  "view_ok table v \<longleftrightarrow>
     (case rv_action v of None \<Rightarrow> True
      | Some a \<Rightarrow> a \<in> {''reject'', ''flag''} \<and> a \<in> set (allowed_for table (rv_current v)))"

lemma view_ok_start [simp]: "view_ok table (review_start row)"
  by (simp add: view_ok_def review_start_def)

lemma review_step_ok:
  assumes "view_ok table v" "review_step table merge e v = (v', c)"
  shows "view_ok table v' \<and> (\<forall>call. c = Some call \<longrightarrow> call_ok table (rv_current v) call)"
proof (cases e)
  case ConfirmReason
  with assms show ?thesis
    by (auto simp: review_step_def view_ok_def call_ok_def doAction_def split: option.splits if_splits)
next
  case (ReviewSettled r)
  with assms show ?thesis
    by (cases r) (auto simp: review_step_def view_ok_def review_success_def split: option.splits if_splits)
qed (use assms in \<open>auto simp: review_step_def view_ok_def call_ok_def doAction_def openReason_def split: option.splits if_splits\<close>)

text \<open>What a run of events sends, each call beside the row it was sent from.\<close>

fun page_run :: "('e \<Rightarrow> 's \<Rightarrow> 's \<times> 'c option) \<Rightarrow> ('s \<Rightarrow> 'r) \<Rightarrow> 'e list \<Rightarrow> 's \<Rightarrow> 's \<times> ('r \<times> 'c) list" where
  "page_run step shown [] v = (v, [])"
| "page_run step shown (e # es) v =
     (let (v1, c) = step e v; (v2, cs) = page_run step shown es v1
      in (v2, (case c of None \<Rightarrow> cs | Some call \<Rightarrow> (shown v, call) # cs)))"

text \<open>The contract of a page: its events keep an invariant and send only calls that suit the row shown.\<close>

locale review_page =
  fixes step :: "'e \<Rightarrow> 's \<Rightarrow> 's \<times> 'c option"
    and shown :: "'s \<Rightarrow> 'r"
    and inv :: "'s \<Rightarrow> bool"
    and good :: "'r \<Rightarrow> 'c \<Rightarrow> bool"
  assumes step_ok: "inv v \<Longrightarrow> step e v = (v', c) \<Longrightarrow> inv v' \<and> (\<forall>call. c = Some call \<longrightarrow> good (shown v) call)"
begin

lemma run_ok:
  "inv v \<Longrightarrow> page_run step shown es v = (v', cs) \<Longrightarrow> inv v' \<and> (\<forall>(row, c) \<in> set cs. good row c)"
proof (induction es arbitrary: v v' cs)
  case (Cons e es)
  obtain v1 c where s: "step e v = (v1, c)" by force
  obtain v2 ds where r: "page_run step shown es v1 = (v2, ds)" by force
  have ok: "inv v1" "\<forall>call. c = Some call \<longrightarrow> good (shown v) call"
    using step_ok[OF Cons.prems(1) s] by auto
  from Cons.IH[OF ok(1) r] have "inv v2" "\<forall>(row, c) \<in> set ds. good row c" by auto
  moreover have "v' = v2" "cs = (case c of None \<Rightarrow> ds | Some call \<Rightarrow> (shown v, call) # ds)"
    using Cons.prems(2) s r by auto
  ultimately show ?case using ok(2) by (auto split: option.splits)
qed simp

lemma run_sends_good: "inv v \<Longrightarrow> (row, c) \<in> set (snd (page_run step shown es v)) \<Longrightarrow> good row c"
  using run_ok[of v es "fst (page_run step shown es v)" "snd (page_run step shown es v)"] by auto

end

interpretation participation_page: review_page participation_step rv_current
    "view_ok PARTICIPATION_ALLOWED" "call_ok PARTICIPATION_ALLOWED"
  by unfold_locales (unfold participation_step_def, rule review_step_ok)

interpretation sport_page: review_page sport_step rv_current "view_ok SPORT_ALLOWED" "call_ok SPORT_ALLOWED"
  by unfold_locales (unfold sport_step_def, rule review_step_ok)

text \<open>The rows of the by-sport page keep their id and the names loaded with them.\<close>

lemma merge_sport_keeps:
  "k \<notin> {''status'', ''review_note'', ''reviewed_at''} \<Longrightarrow>
     js_get k (merge_sport (JObj fs) data) = js_get k (JObj fs)"
  by (auto simp: merge_sport_def js_set_JObj update_conv' or_else_def)

lemma merge_sport_status: "js_get ''status'' (merge_sport (JObj fs) data) = js_get ''status'' data"
  by (auto simp: merge_sport_def js_set_JObj update_conv' or_else_def)

section \<open>The page of one by-category submission\<close>

text \<open>The row shown is the answer of the last review, else the loaded detail, else the row of the list.\<close>

record cat_view =
  cv_submission :: js
  cv_detail :: "js option"
  cv_reviewed :: "js option"
  cv_action :: "string option"
  cv_reason :: string
  cv_reviewing :: bool

definition cat_start :: "js \<Rightarrow> cat_view" where
  "cat_start submission =
     \<lparr> cv_submission = submission, cv_detail = None, cv_reviewed = None, cv_action = None, cv_reason = [],
       cv_reviewing = False \<rparr>"

definition cat_current :: "cat_view \<Rightarrow> js" where
  "cat_current v = or_else (cv_reviewed v) (or_else (cv_detail v) (cv_submission v))"

definition cat_categories :: "cat_view \<Rightarrow> js list" where
  "cat_categories v =
     (case (case cv_reviewed v of Some r \<Rightarrow> Some r | None \<Rightarrow> cv_detail v) of
        None \<Rightarrow> [] | Some d \<Rightarrow> js_list (js_get ''categories'' d))"

datatype cat_event = CatEvent review_event | DetailLoaded js

definition cat_send :: "string \<Rightarrow> js \<Rightarrow> cat_view \<Rightarrow> cat_view \<times> review_call option" where
  "cat_send a note v =
     (v\<lparr>cv_reviewing := True\<rparr>, Some \<lparr> rc_id = js_get ''id'' (cat_current v), rc_action = a, rc_note = note \<rparr>)"

definition cat_step :: "cat_event \<Rightarrow> cat_view \<Rightarrow> cat_view \<times> review_call option" where
  "cat_step e v =
     (case e of
        DetailLoaded d \<Rightarrow> (v\<lparr>cv_detail := Some d\<rparr>, None)
      | CatEvent r \<Rightarrow>
          (case r of
             ClickApprove \<Rightarrow>
               if ''approve'' \<in> set (allowed_for CATEGORY_ALLOWED (cat_current v)) \<and> \<not> cv_reviewing v
               then cat_send ''approve'' JUndef v else (v, None)
           | ClickReason a \<Rightarrow>
               if a \<in> {''reject'', ''flag''} \<and> a \<in> set (allowed_for CATEGORY_ALLOWED (cat_current v)) \<and> \<not> cv_reviewing v
               then (v\<lparr>cv_reason := [], cv_action := Some a\<rparr>, None) else (v, None)
           | TypeReason t \<Rightarrow> (if cv_action v \<noteq> None then v\<lparr>cv_reason := t\<rparr> else v, None)
           | CloseReason \<Rightarrow> (v\<lparr>cv_action := None\<rparr>, None)
           | ConfirmReason \<Rightarrow>
               (case cv_action v of
                  None \<Rightarrow> (v, None)
                | Some a \<Rightarrow>
                    if trim (cv_reason v) \<noteq> [] \<and> \<not> cv_reviewing v
                    then cat_send a (JStr (trim (cv_reason v))) v else (v, None))
           | ReviewSettled x \<Rightarrow>
               (if \<not> cv_reviewing v then v
                else (case x of
                        Inr data \<Rightarrow> v\<lparr>cv_reviewed := Some data, cv_action := None, cv_reason := [], cv_reviewing := False\<rparr>
                      | Inl _ \<Rightarrow> v\<lparr>cv_reviewing := False\<rparr>), None)))"

text \<open>The detail may arrive while the dialog is open, so a confirmed reason is only known to be one of the two.\<close>

definition cat_call_ok :: "js \<Rightarrow> review_call \<Rightarrow> bool" where
  "cat_call_ok row c \<longleftrightarrow>
     rc_id c = js_get ''id'' row \<and>
     (if rc_action c = ''approve''
      then rc_note c = JUndef \<and> ''approve'' \<in> set (allowed_for CATEGORY_ALLOWED row)
      else rc_action c \<in> {''reject'', ''flag''} \<and>
           (case rc_note c of JStr s \<Rightarrow> s \<noteq> [] \<and> trim s = s | _ \<Rightarrow> False))"

definition cat_ok :: "cat_view \<Rightarrow> bool" where
  "cat_ok v \<longleftrightarrow> cv_action v \<in> {None, Some ''reject'', Some ''flag''}"

lemma cat_step_ok:
  assumes "cat_ok v" "cat_step e v = (v', c)"
  shows "cat_ok v' \<and> (\<forall>call. c = Some call \<longrightarrow> cat_call_ok (cat_current v) call)"
proof (cases e)
  case (CatEvent r)
  with assms show ?thesis
  proof (cases r)
    case (ReviewSettled x)
    with assms CatEvent show ?thesis
      by (cases x) (auto simp: cat_step_def cat_ok_def split: if_splits)
  qed (auto simp: cat_step_def cat_ok_def cat_call_ok_def cat_send_def split: option.splits if_splits)
qed (use assms in \<open>auto simp: cat_step_def cat_ok_def\<close>)

interpretation category_page: review_page cat_step cat_current cat_ok cat_call_ok
  by unfold_locales (rule cat_step_ok)

text \<open>
  A reason dialog opened on the row of the list survives the arrival of a detail that was
  approved in the meantime: the reject is sent for a row that offers no action.
\<close>

lemma category_stale_reject:
  "page_run cat_step cat_current
     [CatEvent (ClickReason ''reject''), DetailLoaded (JObj [(''id'', JInt 1), (''status'', JStr ''APPROVED'')]),
      CatEvent (TypeReason ''no''), CatEvent ConfirmReason]
     (cat_start (JObj [(''id'', JInt 1), (''status'', JStr ''SUBMITTED'')]))
   = (\<lparr> cv_submission = JObj [(''id'', JInt 1), (''status'', JStr ''SUBMITTED'')],
        cv_detail = Some (JObj [(''id'', JInt 1), (''status'', JStr ''APPROVED'')]), cv_reviewed = None,
        cv_action = Some ''reject'', cv_reason = ''no'', cv_reviewing = True \<rparr>,
      [(JObj [(''id'', JInt 1), (''status'', JStr ''APPROVED'')],
        \<lparr> rc_id = JInt 1, rc_action = ''reject'', rc_note = JStr ''no'' \<rparr>)])"
  by code_simp

section \<open>Bulk review of one organization or sport\<close>

record bulk_call =
  bc_target :: js
  bc_action :: string
  bc_note :: js
  bc_event_id :: js

record bulk_view =
  bv_rows :: "js list"
  bv_action :: "string option"
  bv_reason :: string
  bv_reviewing :: bool

definition bulk_start :: bulk_view where
  "bulk_start = \<lparr> bv_rows = [], bv_action = None, bv_reason = [], bv_reviewing = False \<rparr>"

definition live_rows :: "string \<Rightarrow> review_group \<Rightarrow> js list \<Rightarrow> js list" where
  "live_rows idk g rows =
     (if \<not> is_nullish (rg_id g) then filter (\<lambda>s. js_get idk s = rg_id g) rows else [])"

text \<open>The group shown: regrouped from the live rows, or the one the page was opened with.\<close>

definition org_current :: "review_group \<Rightarrow> js list \<Rightarrow> review_group" where
  "org_current g rows =
     (let live = live_rows ''organization_id'' g rows in if live \<noteq> [] then hd (groupSubmissionsByOrg live) else g)"

definition sport_current :: "review_group \<Rightarrow> js list \<Rightarrow> review_group" where
  "sport_current g rows =
     (let live = live_rows ''sports_id'' g rows in if live \<noteq> [] then hd (groupCategorySubmissionsBySport live) else g)"

definition participation_current :: "review_group \<Rightarrow> js list \<Rightarrow> review_group" where
  "participation_current g rows =
     (let live = live_rows ''org_id'' g rows in if live \<noteq> [] then hd (groupParticipationsByOrg live) else g)"

definition canBulkReview :: "review_group \<Rightarrow> bool" where
  "canBulkReview cur \<longleftrightarrow> \<not> is_nullish (rg_id cur) \<and> 0 < rg_pending cur"

text \<open>A group with one event name restricts the review to the event of its first row.\<close>

definition bulk_event_id :: "review_group \<Rightarrow> js" where
  "bulk_event_id cur =
     (if length (rg_eventNames cur) = 1 \<and> rg_submissions cur \<noteq> [] \<and>
         \<not> is_nullish (js_get ''events_id'' (hd (rg_submissions cur)))
      then js_get ''events_id'' (hd (rg_submissions cur)) else JUndef)"

definition no_event_id :: "review_group \<Rightarrow> js" where
  "no_event_id cur = JUndef"

definition doBulk :: "(review_group \<Rightarrow> js) \<Rightarrow> review_group \<Rightarrow> string \<Rightarrow> js \<Rightarrow> bulk_view \<Rightarrow> bulk_view \<times> bulk_call option" where
  "doBulk event_of cur a note v =
     (if is_nullish (rg_id cur) then (v, None)
      else (v\<lparr>bv_reviewing := True\<rparr>,
            Some \<lparr> bc_target = rg_id cur, bc_action = a, bc_note = note, bc_event_id = event_of cur \<rparr>))"

datatype bulk_event =
    RowsLoaded "js list"
  | BulkApprove
  | BulkReject
  | TypeBulk string
  | CloseBulk
  | ConfirmBulk
  | BulkSettled "(js_error, js) result"

definition bulk_step ::
  "(js list \<Rightarrow> review_group) \<Rightarrow> (review_group \<Rightarrow> js) \<Rightarrow> bulk_event \<Rightarrow> bulk_view \<Rightarrow> bulk_view \<times> bulk_call option" where
  "bulk_step current event_of e v =
     (let cur = current (bv_rows v) in
      case e of
        RowsLoaded rows \<Rightarrow> (v\<lparr>bv_rows := rows\<rparr>, None)
      | BulkApprove \<Rightarrow>
          if canBulkReview cur \<and> \<not> bv_reviewing v then doBulk event_of cur ''approve'' JUndef v else (v, None)
      | BulkReject \<Rightarrow>
          if canBulkReview cur \<and> \<not> bv_reviewing v then (v\<lparr>bv_reason := [], bv_action := Some ''reject''\<rparr>, None)
          else (v, None)
      | TypeBulk r \<Rightarrow> (if bv_action v \<noteq> None then v\<lparr>bv_reason := r\<rparr> else v, None)
      | CloseBulk \<Rightarrow> (v\<lparr>bv_action := None\<rparr>, None)
      | ConfirmBulk \<Rightarrow>
          (case bv_action v of
             None \<Rightarrow> (v, None)
           | Some a \<Rightarrow>
               if trim (bv_reason v) \<noteq> [] \<and> \<not> bv_reviewing v
               then doBulk event_of cur a (JStr (trim (bv_reason v))) v else (v, None))
      | BulkSettled r \<Rightarrow>
          (if \<not> bv_reviewing v then v
           else (case r of Inr _ \<Rightarrow> v\<lparr>bv_action := None, bv_reason := [], bv_reviewing := False\<rparr>
                 | Inl _ \<Rightarrow> v\<lparr>bv_reviewing := False\<rparr>), None))"

definition org_bulk_step :: "review_group \<Rightarrow> bulk_event \<Rightarrow> bulk_view \<Rightarrow> bulk_view \<times> bulk_call option" where
  "org_bulk_step g = bulk_step (org_current g) bulk_event_id"

definition sport_bulk_step :: "review_group \<Rightarrow> bulk_event \<Rightarrow> bulk_view \<Rightarrow> bulk_view \<times> bulk_call option" where
  "sport_bulk_step g = bulk_step (sport_current g) bulk_event_id"

definition participation_bulk_step :: "review_group \<Rightarrow> bulk_event \<Rightarrow> bulk_view \<Rightarrow> bulk_view \<times> bulk_call option" where
  "participation_bulk_step g = bulk_step (participation_current g) no_event_id"

text \<open>Whatever rows arrive, the group shown keeps the id it was opened with and holds the live rows of that id.\<close>

lemma live_rows_id: "r \<in> set (live_rows idk g rows) \<Longrightarrow> js_get idk r = rg_id g \<and> \<not> is_nullish (rg_id g)"
  by (auto simp: live_rows_def split: if_splits)

lemma regrouped:
  assumes "partition_of idk namek (live_rows idk g rows) gs" "live_rows idk g rows \<noteq> []"
  shows "rg_id (hd gs) = rg_id g \<and> rg_submissions (hd gs) = live_rows idk g rows"
proof -
  have n: "\<not> is_nullish (rg_id g)" using assms(2) by (auto simp: live_rows_def split: if_splits)
  have "\<forall>r \<in> set (live_rows idk g rows). js_get idk r = rg_id g" using live_rows_id by blast
  then show ?thesis using one_id_one_group[OF assms _ n] by auto
qed

lemma current_keeps_id:
  "rg_id (org_current g rows) = rg_id g"
  "rg_id (sport_current g rows) = rg_id g"
  "rg_id (participation_current g rows) = rg_id g"
  using regrouped[OF org_groups_partition(1)] regrouped[OF org_groups_partition(2)]
    regrouped[OF org_groups_partition(3)]
  by (simp_all add: org_current_def sport_current_def participation_current_def Let_def)

text \<open>A bulk call names the group of the page, and a reject carries its reason.\<close>

definition bulk_ok :: "review_group \<Rightarrow> bulk_call \<Rightarrow> bool" where
  "bulk_ok g c \<longleftrightarrow>
     bc_target c = rg_id g \<and> \<not> is_nullish (rg_id g) \<and>
     (if bc_action c = ''approve'' then bc_note c = JUndef
      else bc_action c = ''reject'' \<and> (case bc_note c of JStr s \<Rightarrow> s \<noteq> [] \<and> trim s = s | _ \<Rightarrow> False))"

definition bulk_inv :: "bulk_view \<Rightarrow> bool" where
  "bulk_inv v \<longleftrightarrow> bv_action v \<in> {None, Some ''reject''}"

lemma bulk_step_ok:
  assumes "\<And>rows. rg_id (current rows) = rg_id g" "bulk_inv v" "bulk_step current event_of e v = (v', c)"
  shows "bulk_inv v' \<and> (\<forall>call. c = Some call \<longrightarrow> bulk_ok g call)"
proof (cases e)
  case (BulkSettled r)
  with assms show ?thesis by (cases r) (auto simp: bulk_step_def bulk_inv_def Let_def split: if_splits)
qed (use assms in \<open>auto simp: bulk_step_def bulk_inv_def bulk_ok_def doBulk_def Let_def split: option.splits if_splits\<close>)

interpretation org_bulk: review_page "org_bulk_step g" bv_rows bulk_inv "\<lambda>_. bulk_ok g" for g
  by unfold_locales (unfold org_bulk_step_def, erule (1) bulk_step_ok[OF current_keeps_id(1)])

interpretation sport_bulk: review_page "sport_bulk_step g" bv_rows bulk_inv "\<lambda>_. bulk_ok g" for g
  by unfold_locales (unfold sport_bulk_step_def, erule (1) bulk_step_ok[OF current_keeps_id(2)])

interpretation participation_bulk: review_page "participation_bulk_step g" bv_rows bulk_inv "\<lambda>_. bulk_ok g" for g
  by unfold_locales (unfold participation_bulk_step_def, erule (1) bulk_step_ok[OF current_keeps_id(3)])

lemma cat_ok_start [simp]: "cat_ok (cat_start row)"
  by (simp add: cat_ok_def cat_start_def)

lemma bulk_start_inv [simp]: "bulk_inv bulk_start"
  by (simp add: bulk_inv_def bulk_start_def)

text \<open>The state of the by-category page after a run, and what its open dialog was opened on.\<close>

abbreviation cat_after :: "cat_event list \<Rightarrow> js \<Rightarrow> cat_view" where
  "cat_after es submission \<equiv> fst (page_run cat_step cat_current es (cat_start submission))"

lemma page_run_snoc: "fst (page_run step shown (es @ [e]) v) = fst (step e (fst (page_run step shown es v)))"
proof (induction es arbitrary: v)
  case (Cons a es)
  show ?case using Cons.IH[of "fst (step a v)"] by (simp add: split_def Let_def)
qed (simp add: split_def Let_def)

definition opened_on :: "js \<Rightarrow> cat_event list \<Rightarrow> string \<Rightarrow> cat_event list \<Rightarrow> cat_event list \<Rightarrow> bool" where
  "opened_on submission es a bs cs \<longleftrightarrow>
     es = bs @ CatEvent (ClickReason a) # cs \<and> CatEvent CloseReason \<notin> set cs \<and>
     a \<in> set (allowed_for CATEGORY_ALLOWED (cat_current (cat_after bs submission)))"

definition dialog_traced :: "js \<Rightarrow> cat_event list \<Rightarrow> bool" where
  "dialog_traced submission es \<longleftrightarrow>
     (\<forall>a. cv_action (cat_after es submission) = Some a \<longrightarrow>
        (\<exists>bs cs. opened_on submission es a bs cs \<and>
           (a \<in> set (allowed_for CATEGORY_ALLOWED (cat_current (cat_after es submission))) \<or>
            (\<exists>d. DetailLoaded d \<in> set cs))))"

lemma opened_on_later:
  "opened_on submission es a bs cs \<Longrightarrow> e \<noteq> CatEvent CloseReason \<Longrightarrow> opened_on submission (es @ [e]) a bs (cs @ [e])"
  by (auto simp: opened_on_def)

lemma dialog_kept:
  assumes "dialog_traced submission es" "e \<noteq> CatEvent CloseReason"
    "cv_action (cat_after (es @ [e]) submission) \<in> {None, cv_action (cat_after es submission)}"
    "cat_current (cat_after (es @ [e]) submission) = cat_current (cat_after es submission) \<or> (\<exists>d. e = DetailLoaded d)"
  shows "dialog_traced submission (es @ [e])"
  unfolding dialog_traced_def
proof (intro allI impI)
  fix a
  assume a: "cv_action (cat_after (es @ [e]) submission) = Some a"
  with assms(3) have "cv_action (cat_after es submission) = Some a" by auto
  with assms(1) obtain bs cs where bc: "opened_on submission es a bs cs"
    "a \<in> set (allowed_for CATEGORY_ALLOWED (cat_current (cat_after es submission))) \<or> (\<exists>d. DetailLoaded d \<in> set cs)"
    unfolding dialog_traced_def by blast
  from opened_on_later[OF bc(1) assms(2)] bc(2) assms(4)
  show "\<exists>bs cs. opened_on submission (es @ [e]) a bs cs \<and>
      (a \<in> set (allowed_for CATEGORY_ALLOWED (cat_current (cat_after (es @ [e]) submission))) \<or>
       (\<exists>d. DetailLoaded d \<in> set cs))"
    by (intro exI[of _ bs] exI[of _ "cs @ [e]"]) auto
qed

lemma dialog_opened:
  assumes "a \<in> set (allowed_for CATEGORY_ALLOWED (cat_current (cat_after es submission)))"
    "cv_action (cat_after (es @ [CatEvent (ClickReason a)]) submission) = Some a"
    "cat_current (cat_after (es @ [CatEvent (ClickReason a)]) submission) = cat_current (cat_after es submission)"
  shows "dialog_traced submission (es @ [CatEvent (ClickReason a)])"
proof -
  have "opened_on submission (es @ [CatEvent (ClickReason a)]) a es []"
    using assms(1) by (simp add: opened_on_def)
  then show ?thesis unfolding dialog_traced_def using assms by auto
qed

lemma cat_current_parts:
  "cv_reviewed w = cv_reviewed v \<Longrightarrow> cv_detail w = cv_detail v \<Longrightarrow> cv_submission w = cv_submission v \<Longrightarrow>
     cat_current w = cat_current v"
  by (simp add: cat_current_def)

lemma dialog_always_traced: "dialog_traced submission es"
proof (induction es rule: rev_induct)
  case Nil
  then show ?case by (simp add: dialog_traced_def cat_start_def)
next
  case (snoc e es)
  let ?v = "cat_after es submission"
  note step = page_run_snoc[of cat_step cat_current es e "cat_start submission"]
  consider (load) d where "e = DetailLoaded d" | (close) "e = CatEvent CloseReason"
    | (open_dialog) a where "e = CatEvent (ClickReason a)"
    | (settle) x where "e = CatEvent (ReviewSettled x)"
    | (other) "e \<in> {CatEvent ClickApprove, CatEvent ConfirmReason} \<or> (\<exists>t. e = CatEvent (TypeReason t))"
    by (cases e) (auto, metis review_event.exhaust)
  then show ?case
  proof cases
    case load
    then show ?thesis using step by (intro dialog_kept snoc.IH) (auto simp: cat_step_def)
  next
    case close
    then show ?thesis using step by (simp add: dialog_traced_def cat_step_def)
  next
    case open_dialog
    show ?thesis
    proof (cases "a \<in> {''reject'', ''flag''} \<and> a \<in> set (allowed_for CATEGORY_ALLOWED (cat_current ?v)) \<and> \<not> cv_reviewing ?v")
      case True
      then show ?thesis using step unfolding open_dialog
        by (intro dialog_opened) (auto simp: cat_step_def cat_current_def)
    next
      case False
      then show ?thesis using step open_dialog by (intro dialog_kept snoc.IH) (auto simp: cat_step_def)
    qed
  next
    case settle
    show ?thesis
    proof (cases "cv_reviewing ?v \<and> (\<exists>d. x = Inr d)")
      case True
      then show ?thesis using step settle by (auto simp: dialog_traced_def cat_step_def)
    next
      case False
      then show ?thesis using step settle
        by (intro dialog_kept snoc.IH; cases x) (auto simp: cat_step_def cat_current_def)
    qed
  next
    case other
    then show ?thesis using step
      by (intro dialog_kept snoc.IH)
         (auto simp: cat_step_def cat_send_def cat_current_def split: option.splits if_splits)
  qed
qed

lemma cat_sends_allowed:
  assumes "snd (cat_step e (cat_after es submission)) = Some c"
  shows "call_ok CATEGORY_ALLOWED (cat_current (cat_after es submission)) c \<or>
    (\<exists>bs cs d. opened_on submission es (rc_action c) bs cs \<and> DetailLoaded d \<in> set cs)"
proof -
  let ?v = "cat_after es submission"
  have ok: "cat_ok ?v"
    using category_page.run_ok[of "cat_start submission" es ?v] by (metis cat_ok_start eq_fst_iff)
  have good: "cat_call_ok (cat_current ?v) c"
    using cat_step_ok[OF ok, of e "fst (cat_step e ?v)" "Some c"] assms by (metis prod.collapse)
  show ?thesis
  proof (cases "rc_action c = ''approve''")
    case True
    with good show ?thesis by (simp add: cat_call_ok_def call_ok_def)
  next
    case False
    with assms have "cv_action ?v = Some (rc_action c)"
      by (auto simp: cat_step_def cat_send_def split: cat_event.splits review_event.splits option.splits if_splits sum.splits)
    with dialog_always_traced[of submission es] good False show ?thesis
      unfolding dialog_traced_def by (fastforce simp: cat_call_ok_def call_ok_def)
  qed
qed

text \<open>C26. Reviews suit what is shown: for every sequence of clicks and answers, each call the page of
  a participation or of a by-sport submission sends names the row on the page, asks an action the
  state of that row allows (approve, reject or flag by the page's table), and carries a trimmed,
  non-empty reason exactly when it is not an approval. The by-category page, whose row a loaded detail may
  replace while a dialog is open, always sends the id of the row it shows and a reason with a reject or
  flag, and promises an allowed action but for one case: the reason dialog was opened on a row that
  allowed it, was not closed, and a detail arrived while it was open (such a stale reject is possible).
  Each bulk review of an organization sends the id of the organization the page was opened for, whatever
  rows are loaded meanwhile.\<close>

theorem reviews_suit_the_row:
  assumes "(row, c) \<in> set (snd (page_run participation_step rv_current es (review_start submission)))"
    and "(row', c') \<in> set (snd (page_run sport_step rv_current es' (review_start submission')))"
    and "snd (cat_step e'' (cat_after es'' submission'')) = Some c''"
    and "(rows, b) \<in> set (snd (page_run (org_bulk_step g) bv_rows bs bulk_start))"
  shows "call_ok PARTICIPATION_ALLOWED row c \<and> call_ok SPORT_ALLOWED row' c' \<and>
    cat_call_ok (cat_current (cat_after es'' submission'')) c'' \<and>
    (call_ok CATEGORY_ALLOWED (cat_current (cat_after es'' submission'')) c'' \<or>
     (\<exists>before after d. opened_on submission'' es'' (rc_action c'') before after \<and> DetailLoaded d \<in> set after)) \<and>
    bulk_ok g b"
proof -
  have "cat_ok (cat_after es'' submission'')"
    using category_page.run_ok[of "cat_start submission''" es'' "cat_after es'' submission''"]
    by (metis cat_ok_start eq_fst_iff)
  then have "cat_call_ok (cat_current (cat_after es'' submission'')) c''"
    using cat_step_ok[of _ e'' "fst (cat_step e'' (cat_after es'' submission''))" "Some c''"] assms(3)
    by (metis prod.collapse)
  then show ?thesis
    using participation_page.run_sends_good[OF view_ok_start assms(1)]
      sport_page.run_sends_good[OF view_ok_start assms(2)] cat_sends_allowed[OF assms(3)]
      org_bulk.run_sends_good[OF bulk_start_inv assms(4)] by blast
qed

lemma reviews_suit_the_row_witness:
  "call_ok PARTICIPATION_ALLOWED (JObj [(''id'', JInt 4)])
      \<lparr> rc_id = JInt 4, rc_action = ''flag'', rc_note = JStr ''check'' \<rparr> \<and>
   call_ok SPORT_ALLOWED (JObj [(''id'', JInt 5)]) \<lparr> rc_id = JInt 5, rc_action = ''approve'', rc_note = JUndef \<rparr> \<and>
   cat_call_ok (JObj [(''id'', JInt 6)]) \<lparr> rc_id = JInt 6, rc_action = ''approve'', rc_note = JUndef \<rparr> \<and>
   call_ok CATEGORY_ALLOWED (JObj [(''id'', JInt 6)]) \<lparr> rc_id = JInt 6, rc_action = ''approve'', rc_note = JUndef \<rparr> \<and>
   bulk_ok (hd (groupSubmissionsByOrg [JObj [(''id'', JInt 1), (''organization_id'', JInt 7), (''created_at'', JStr ''d'')]]))
     \<lparr> bc_target = JInt 7, bc_action = ''approve'', bc_note = JUndef, bc_event_id = JUndef \<rparr>"
proof -
  let ?before = "[DetailLoaded (JObj [(''id'', JInt 6)])]"
  let ?list_row = "JObj [(''id'', JInt 6), (''status'', JStr ''REJECTED'')]"
  let ?cat = "\<lparr> rc_id = JInt 6, rc_action = ''approve'', rc_note = JUndef \<rparr>"
  let ?group = "hd (groupSubmissionsByOrg [JObj [(''id'', JInt 1), (''organization_id'', JInt 7), (''created_at'', JStr ''d'')]])"
  have 1: "(JObj [(''id'', JInt 4)], \<lparr> rc_id = JInt 4, rc_action = ''flag'', rc_note = JStr ''check'' \<rparr>)
      \<in> set (snd (page_run participation_step rv_current
          [ClickReason ''flag'', TypeReason '' check '', ConfirmReason] (review_start (JObj [(''id'', JInt 4)]))))"
    by code_simp
  have 2: "(JObj [(''id'', JInt 5)], \<lparr> rc_id = JInt 5, rc_action = ''approve'', rc_note = JUndef \<rparr>)
      \<in> set (snd (page_run sport_step rv_current [ClickApprove] (review_start (JObj [(''id'', JInt 5)]))))"
    by code_simp
  have 3: "snd (cat_step (CatEvent ClickApprove) (cat_after ?before ?list_row)) = Some ?cat" by code_simp
  have 4: "([], \<lparr> bc_target = JInt 7, bc_action = ''approve'', bc_note = JUndef, bc_event_id = JUndef \<rparr>)
      \<in> set (snd (page_run (org_bulk_step ?group) bv_rows [BulkApprove] bulk_start))"
    by code_simp
  have row: "cat_current (cat_after ?before ?list_row) = JObj [(''id'', JInt 6)]" by code_simp
  have "\<not> (\<exists>before after d. opened_on ?list_row ?before (rc_action ?cat) before after \<and> DetailLoaded d \<in> set after)"
    by (auto simp: opened_on_def Cons_eq_append_conv)
  with reviews_suit_the_row[OF 1 2 3 4] show ?thesis unfolding row by blast
qed

section \<open>Screens and paging\<close>

datatype screen = Scr_detail js | Scr_group review_group | Scr_queue | Scr_own

definition sport_screen :: "js option \<Rightarrow> review_group option \<Rightarrow> screen" where
  "sport_screen selected selectedOrg =
     (case selected of Some s \<Rightarrow> Scr_detail s
      | None \<Rightarrow> (case selectedOrg of Some g \<Rightarrow> Scr_group g | None \<Rightarrow> Scr_queue))"

definition category_screen :: "js option \<Rightarrow> review_group option \<Rightarrow> screen" where
  "category_screen selected selectedSport =
     (case selected of Some s \<Rightarrow> Scr_detail s
      | None \<Rightarrow> (case selectedSport of Some g \<Rightarrow> Scr_group g | None \<Rightarrow> Scr_queue))"

definition participation_screen :: "bool \<Rightarrow> js option \<Rightarrow> review_group option \<Rightarrow> screen" where
  "participation_screen isAdmin selected selectedOrg =
     (case selected of Some s \<Rightarrow> Scr_detail s
      | None \<Rightarrow>
          if isAdmin then (case selectedOrg of Some g \<Rightarrow> Scr_group g | None \<Rightarrow> Scr_queue) else Scr_own)"

text \<open>A submission is opened with its actions whoever looks at it: the page does not ask for a capability.\<close>

lemma detail_shown_to_all: "participation_screen isAdmin (Some s) g = Scr_detail s"
  by (simp add: participation_screen_def)

definition next_disabled :: "nat \<Rightarrow> nat \<Rightarrow> bool" where
  "next_disabled currentPage totalPages \<longleftrightarrow> int totalPages - 1 \<le> int currentPage"

text \<open>A count that only counts the rows of the loaded page never enables the next page.\<close>

lemma page_sized_count_has_no_next:
  "length data \<le> QUEUE_PAGE_SIZE \<Longrightarrow> next_disabled currentPage (total_pages (length data))"
  by (simp add: next_disabled_def total_pages_def QUEUE_PAGE_SIZE_def)

end
