(* ===== verification/Event_Catalog.thy ===== *)
theory Event_Catalog
  imports Survey_Steps Form Review_Groups Query_Cache
begin

text \<open>
  Events, modules/events: the answer and form schemas, the form with its default
  values and submit, the adapter with its two mappings (what is sent, and what an
  answer becomes), the phase windows, the status shown in lists, the sports and organizations
  of an event. Dates are the texts the inputs hold; a date-only text denotes UTC midnight.
\<close>

section \<open>Enumerations and schemas\<close>

text \<open>The values of the four event types are the Khmer names the pickers show.\<close>

definition EventType :: "string list" where "EventType = map snd EVENT_TYPES"
definition AgeMode :: "string list" where "AgeMode = [''BIRTH_YEAR'', ''EXACT_AGE'']"
definition PhaseStatus :: "string list" where "PhaseStatus = [''AUTO'', ''OPEN'', ''CLOSED'']"
definition EVENT_PHASES :: "string list" where
  "EVENT_PHASES = [''survey_category'', ''survey_sport'', ''survey_number'', ''registration'']"

definition phase_fields :: "'a \<Rightarrow> 'a \<Rightarrow> (string \<times> 'a) list" where
  "phase_fields st date =
     concat (map (\<lambda>p. [(p @ ''_status'', st), (p @ ''_open_date'', date), (p @ ''_close_date'', date)]) EVENT_PHASES)"

definition rawEventSchema :: schema where
  "rawEventSchema = ZObject True
     ([(''id'', zint), (''name_kh'', ZOptional zstr), (''description'', znullable_optional zstr),
       (''start_date'', znullable_optional zstr), (''end_date'', znullable_optional zstr),
       (''type'', ZOptional zstr), (''event_type'', ZOptional zstr), (''location'', znullable_optional zstr),
       (''age_mode'', znullable_optional zstr), (''age_min'', znullable_optional zint),
       (''age_max'', znullable_optional zint)] @
      phase_fields (ZOptional zstr) (znullable_optional zstr) @
      [(''survey_category_is_open'', ZOptional ZBoolean), (''survey_sport_is_open'', ZOptional ZBoolean),
       (''survey_number_is_open'', ZOptional ZBoolean), (''survey_open_is_open'', ZOptional ZBoolean),
       (''registration_is_open'', ZOptional ZBoolean),
       (''created_at'', ZOptional zstr), (''updated_at'', ZOptional zstr)])"

definition rawEventsSchema :: schema where
  "rawEventsSchema = ZObject True [(''data'', ZArray rawEventSchema), (''count'', ZNumber [NInt, NMin 0])]"

definition eventPublicSchema :: schema where
  "eventPublicSchema = ZObject False
     ([(''id'', zint), (''name'', zstr), (''description'', ZOptional zstr), (''start_date'', zstr),
       (''end_date'', zstr), (''event_type'', ZEnum EventType), (''location'', ZOptional zstr),
       (''age_mode'', znullable_optional (ZEnum AgeMode)), (''age_min'', znullable_optional zint),
       (''age_max'', znullable_optional zint)] @
      phase_fields (ZOptional (ZEnum PhaseStatus)) (znullable_optional zstr) @
      [(''survey_category_is_open'', ZOptional ZBoolean), (''survey_sport_is_open'', ZOptional ZBoolean),
       (''survey_number_is_open'', ZOptional ZBoolean), (''registration_is_open'', ZOptional ZBoolean),
       (''created_at'', ZOptional zstr), (''updated_at'', ZOptional zstr)])"

definition SPORT_MODES :: "string list" where "SPORT_MODES = [''individual'', ''team'', ''both'']"

definition eventSportPublicSchema :: schema where
  "eventSportPublicSchema = ZObject False
     [(''id'', zint), (''sports_id'', zint), (''name_kh'', zstr), (''name_en'', zstr),
      (''mode'', znullable_optional (ZEnum SPORT_MODES)),
      (''team_size_min'', znullable_optional zint), (''team_size_max'', znullable_optional zint),
      (''quota_athletes_per_org'', znullable_optional zint), (''quota_teams_per_org'', znullable_optional zint)]"

definition eventSportOrgPublicSchema :: schema where
  "eventSportOrgPublicSchema = ZObject False
     [(''id'', zint), (''name_kh'', zstr), (''name_en'', zstr), (''code'', ZOptional zstr),
      (''type'', ZOptional zstr), (''_linkId'', ZOptional zint)]"

definition eventOrganizationPublicSchema :: schema where
  "eventOrganizationPublicSchema = ZObject False
     [(''id'', zint), (''name_kh'', zstr), (''name_en'', zstr), (''code'', ZOptional zstr), (''type'', ZOptional zstr)]"

definition eventCategoryPublicSchema :: schema where
  "eventCategoryPublicSchema = ZObject False
     [(''id'', zint), (''category'', zstr), (''sport_name'', ZOptional zstr), (''gender'', ZOptional zstr)]"

section \<open>The form's schema\<close>

definition opt_text :: schema where "opt_text = ZOr (ZOptional zstr) (ZLiteral (JStr []))"

definition event_form_fields :: "(string \<times> schema) list" where
  "event_form_fields =
     [(''name'', ZString [MinLen 3]), (''description'', opt_text), (''start_date'', ZString [MinLen 1]),
      (''end_date'', ZString [MinLen 1]), (''event_type'', ZEnum EventType), (''location'', ZString [MinLen 2]),
      (''age_mode'', ZEnum AgeMode), (''age_min'', ZString [MinLen 1]), (''age_max'', ZString [MinLen 1])] @
     phase_fields (ZEnum PhaseStatus) opt_text"

text \<open>ISO dates are compared as texts.\<close>

definition both_before :: "js \<Rightarrow> js \<Rightarrow> bool" where
  "both_before close open_date \<longleftrightarrow> truthy open_date \<and> truthy close \<and> js_str close < js_str open_date"

definition min_above_max :: "js \<Rightarrow> js \<Rightarrow> bool" where
  "min_above_max lo hi \<longleftrightarrow>
     truthy lo \<and> truthy hi \<and>
     (case (js_to_number lo, js_to_number hi) of (Fin a, Fin b) \<Rightarrow> b < a | _ \<Rightarrow> False)"

definition event_issues :: "js \<Rightarrow> issue list" where
  "event_issues data =
     (if both_before (js_get ''end_date'' data) (js_get ''start_date'' data)
      then [([''end_date''], ''End date must be on or after start date'')] else []) @
     (if min_above_max (js_get ''age_min'' data) (js_get ''age_max'' data)
      then [([''age_max''], ''Minimum must be less than or equal to maximum'')] else []) @
     concat (map (\<lambda>p.
       if both_before (js_get (p @ ''_close_date'') data) (js_get (p @ ''_open_date'') data)
       then [([p @ ''_close_date''], ''Close date must be on or after open date'')] else []) EVENT_PHASES)"

definition eventSchema :: schema where
  "eventSchema = ZRefine (ZObject False event_form_fields) event_issues"

text \<open>The second copy of the form schema, in the file of the answer schemas.\<close>

definition eventFormSchema :: schema where
  "eventFormSchema = ZRefine (ZObject False event_form_fields) event_issues"

section \<open>The form\<close>

definition PHASE_KEYS :: "string list" where
  "PHASE_KEYS = map fst (phase_fields () ())"

definition new_event_defaults :: form_values where
  "new_event_defaults =
     [(''name'', JStr []), (''description'', JStr []), (''start_date'', JStr []), (''end_date'', JStr []),
      (''event_type'', JStr (hd EventType)), (''location'', JStr []), (''age_mode'', JStr ''BIRTH_YEAR''),
      (''age_min'', JStr []), (''age_max'', JStr [])] @
     phase_fields (JStr ''AUTO'') (JStr [])"

definition number_text :: "js \<Rightarrow> js" where
  "number_text v = (if is_nullish v then JStr [] else JStr (js_string v))"

definition phase_defaults :: "js \<Rightarrow> string \<Rightarrow> (string \<times> js) list" where
  "phase_defaults event p =
     [(p @ ''_status'', or_nullish (js_get (p @ ''_status'') event) (JStr ''AUTO'')),
      (p @ ''_open_date'', js_or (js_get (p @ ''_open_date'') event) (JStr [])),
      (p @ ''_close_date'', js_or (js_get (p @ ''_close_date'') event) (JStr []))]"

definition edit_event_defaults :: "js \<Rightarrow> form_values" where
  "edit_event_defaults event =
     [(''name'', js_get ''name'' event), (''description'', js_or (js_get ''description'' event) (JStr [])),
      (''start_date'', js_get ''start_date'' event), (''end_date'', js_get ''end_date'' event),
      (''event_type'', js_get ''event_type'' event), (''location'', js_or (js_get ''location'' event) (JStr [])),
      (''age_mode'', or_nullish (js_get ''age_mode'' event) (JStr ''BIRTH_YEAR'')),
      (''age_min'', number_text (js_get ''age_min'' event)), (''age_max'', number_text (js_get ''age_max'' event))] @
     concat (map (phase_defaults event) EVENT_PHASES)"

text \<open>The payload of a submit: the ages become numbers, an edit adds the id.\<close>

definition event_payload :: "js \<Rightarrow> js" where
  "event_payload data =
     js_set ''age_max'' (JNum (js_to_number (js_get ''age_max'' data)))
       (js_set ''age_min'' (JNum (js_to_number (js_get ''age_min'' data))) data)"

definition event_update_dto :: "js \<Rightarrow> js \<Rightarrow> js" where
  "event_update_dto event data = js_merge (JObj [(''id'', js_get ''id'' event)]) (event_payload data)"

section \<open>The adapter\<close>

definition phasePayload :: "js \<Rightarrow> (string \<times> js) list" where
  "phasePayload src =
     concat (map (\<lambda>k. let v = js_get k src in
       if v \<noteq> JUndef then [(k, if v = JStr [] then JNull else v)] else []) PHASE_KEYS)"

definition create_body :: "js \<Rightarrow> js" where
  "create_body dto = JObj
     ([(''name_kh'', js_get ''name'' dto), (''type'', js_get ''event_type'' dto),
       (''description'', js_or (js_get ''description'' dto) JNull), (''start_date'', js_get ''start_date'' dto),
       (''end_date'', js_get ''end_date'' dto), (''location'', js_or (js_get ''location'' dto) JNull),
       (''age_mode'', js_get ''age_mode'' dto), (''age_min'', js_get ''age_min'' dto),
       (''age_max'', js_get ''age_max'' dto)] @ phasePayload dto)"

definition defined_field :: "string \<Rightarrow> js \<Rightarrow> js \<Rightarrow> (string \<times> js) list" where
  "defined_field k v sent = (if v \<noteq> JUndef then [(k, sent)] else [])"

definition update_body :: "js \<Rightarrow> js" where
  "update_body dto = JObj
     (phasePayload dto @
      defined_field ''name_kh'' (js_get ''name'' dto) (or_nullish (js_get ''name'' dto) JNull) @
      defined_field ''type'' (js_get ''event_type'' dto) (or_nullish (js_get ''event_type'' dto) JNull) @
      defined_field ''description'' (js_get ''description'' dto) (js_or (js_get ''description'' dto) JNull) @
      defined_field ''start_date'' (js_get ''start_date'' dto) (js_or (js_get ''start_date'' dto) JNull) @
      defined_field ''end_date'' (js_get ''end_date'' dto) (js_or (js_get ''end_date'' dto) JNull) @
      defined_field ''location'' (js_get ''location'' dto) (js_or (js_get ''location'' dto) JNull) @
      defined_field ''age_mode'' (js_get ''age_mode'' dto) (js_get ''age_mode'' dto) @
      defined_field ''age_min'' (js_get ''age_min'' dto) (js_get ''age_min'' dto) @
      defined_field ''age_max'' (js_get ''age_max'' dto) (js_get ''age_max'' dto))"

definition raw_phase :: "js \<Rightarrow> string \<Rightarrow> (string \<times> js) list" where
  "raw_phase raw p =
     [(p @ ''_status'', js_get (p @ ''_status'') raw),
      (p @ ''_open_date'', or_nullish (js_get (p @ ''_open_date'') raw) JNull),
      (p @ ''_close_date'', or_nullish (js_get (p @ ''_close_date'') raw) JNull)]"

definition mapped_event :: "js \<Rightarrow> js" where
  "mapped_event raw = JObj
     ([(''id'', js_get ''id'' raw), (''name'', js_or (js_get ''name_kh'' raw) (JStr ''Unnamed Event'')),
       (''description'', or_nullish (js_get ''description'' raw) JUndef),
       (''start_date'', js_or (js_get ''start_date'' raw) (JStr [])),
       (''end_date'', js_or (js_get ''end_date'' raw) (JStr [])),
       (''event_type'', or_nullish (js_get ''type'' raw) (js_get ''event_type'' raw)),
       (''location'', or_nullish (js_get ''location'' raw) JUndef),
       (''age_mode'', or_nullish (js_get ''age_mode'' raw) JNull),
       (''age_min'', or_nullish (js_get ''age_min'' raw) JNull),
       (''age_max'', or_nullish (js_get ''age_max'' raw) JNull)] @
      concat (map (raw_phase raw) EVENT_PHASES) @
      map (\<lambda>p. (p @ ''_is_open'', js_get (p @ ''_is_open'') raw)) EVENT_PHASES @
      [(''created_at'', js_get ''created_at'' raw), (''updated_at'', js_get ''updated_at'' raw)])"

definition parse_or_throw :: "parser \<Rightarrow> schema \<Rightarrow> js \<Rightarrow> (js_error, js) result" where
  "parse_or_throw parse sch v = (case parse sch v of Inl _ \<Rightarrow> Inl (OtherError ''ZodError'') | Inr w \<Rightarrow> Inr w)"

definition mapRawEvent :: "parser \<Rightarrow> js \<Rightarrow> (js_error, js) result" where
  "mapRawEvent parse raw = parse_or_throw parse eventPublicSchema (mapped_event raw)"

fun map_results :: "('a \<Rightarrow> ('e, 'b) result) \<Rightarrow> 'a list \<Rightarrow> ('e, 'b list) result" where
  "map_results f [] = Inr []"
| "map_results f (x # xs) = bind_r (f x) (\<lambda>y. map_r ((#) y) (map_results f xs))"

text \<open>A list answer: an array, or the array under data; anything else makes the map call throw.\<close>

definition answer_list :: "js \<Rightarrow> (js_error, js list) result" where
  "answer_list raw =
     (case raw of
        JArr xs \<Rightarrow> Inr xs
      | _ \<Rightarrow> bind_r (member ''data'' raw) (\<lambda>d.
               case or_nullish d (JArr []) of JArr xs \<Rightarrow> Inr xs | _ \<Rightarrow> Inl (OtherError ''TypeError'')))"

subsection \<open>Requests\<close>

definition ep_event :: "int \<Rightarrow> string" where "ep_event i = ep_events @ ''/'' @ show_int i"
definition ep_event_public :: "int \<Rightarrow> string" where "ep_event_public i = api_v1 ''public/events/'' @ show_int i"
definition ep_event_sports :: "int \<Rightarrow> string" where "ep_event_sports i = ep_event i @ ''/sports''"
definition ep_event_sport_orgs :: "int \<Rightarrow> int \<Rightarrow> string" where
  "ep_event_sport_orgs e s = ep_event e @ ''/sports/'' @ show_int s @ ''/orgs''"
definition ep_event_organizations :: "int \<Rightarrow> string" where "ep_event_organizations i = ep_event i @ ''/organizations''"
definition ep_event_addOrgToSport :: string where "ep_event_addOrgToSport = ep_events @ ''/add-org-to-sport''"
definition ep_event_deleteOrgLink :: string where
  "ep_event_deleteOrgLink = ep_events @ ''/delete-event-sport-org-link''"
definition ep_event_removeOrgCompletely :: string where
  "ep_event_removeOrgCompletely = ep_events @ ''/remove-org-completely-from-event''"
definition ep_event_phase :: "int \<Rightarrow> string" where "ep_event_phase i = ep_event i @ ''/phase''"
definition ep_event_delete :: string where "ep_event_delete = ep_events @ ''/delete''"
definition ep_sportsEvents :: string where "ep_sportsEvents = api_v1 ''sports-events''"
definition ep_sportsEvent :: "int \<Rightarrow> string" where "ep_sportsEvent i = ep_sportsEvents @ ''/'' @ show_int i"
definition ep_sportsEvent_config :: "int \<Rightarrow> string" where
  "ep_sportsEvent_config i = ep_sportsEvents @ ''/'' @ show_int i @ ''/config''"

definition ev_getAll :: "parser \<Rightarrow> backend \<Rightarrow> (js_error, js list) result" where
  "ev_getAll parse srv =
     bind_r (parsed_call parse srv rawEventsSchema (get_req ep_events []))
       (\<lambda>raw. map_results (mapRawEvent parse) (js_list (js_get ''data'' raw)))"

definition ev_call :: "parser \<Rightarrow> backend \<Rightarrow> request \<Rightarrow> (js_error, js) result" where
  "ev_call parse srv rq = bind_r (parsed_call parse srv rawEventSchema rq) (mapRawEvent parse)"

definition ev_getById :: "parser \<Rightarrow> backend \<Rightarrow> int \<Rightarrow> (js_error, js) result" where
  "ev_getById parse srv i = ev_call parse srv (get_req (ep_event i) [])"

text \<open>In the browser the public path is relative like the others.\<close>

definition ev_getPublicById :: "parser \<Rightarrow> backend \<Rightarrow> int \<Rightarrow> (js_error, js) result" where
  "ev_getPublicById parse srv i = ev_call parse srv (get_req (ep_event_public i) [])"

definition ev_create :: "parser \<Rightarrow> backend \<Rightarrow> js \<Rightarrow> (js_error, js) result" where
  "ev_create parse srv dto = ev_call parse srv (body_req ''post'' ep_events (create_body dto))"

definition ev_update :: "parser \<Rightarrow> backend \<Rightarrow> int \<Rightarrow> js \<Rightarrow> (js_error, js) result" where
  "ev_update parse srv i dto = ev_call parse srv (body_req ''patch'' (ep_event i) (update_body dto))"

definition ev_delete :: "backend \<Rightarrow> int \<Rightarrow> (js_error, unit) result" where
  "ev_delete srv i = map_r (\<lambda>_. ()) (srv (body_req ''delete'' ep_event_delete (JObj [(''event_id'', JInt i)])))"

definition phase_body :: "js \<Rightarrow> js" where
  "phase_body payload = JObj
     [(''phase'', js_get ''phase'' payload), (''status'', js_get ''status'' payload),
      (''open_date'', js_or (js_get ''open_date'' payload) JNull),
      (''close_date'', js_or (js_get ''close_date'' payload) JNull)]"

definition ev_updatePhase :: "parser \<Rightarrow> backend \<Rightarrow> int \<Rightarrow> js \<Rightarrow> (js_error, js) result" where
  "ev_updatePhase parse srv i payload = ev_call parse srv (body_req ''patch'' (ep_event_phase i) (phase_body payload))"

definition event_sport_of :: "js \<Rightarrow> (js_error, js) result" where
  "event_sport_of s = bind_r (member ''id'' s) (\<lambda>sid. Inr (JObj
     [(''id'', sid), (''sports_id'', or_nullish (js_get ''sports_id'' s) sid),
      (''name_kh'', or_nullish (js_get ''sport_name'' s) (JStr ''Unnamed Sport'')),
      (''name_en'', or_nullish (js_get ''sport_name'' s) (JStr ''Unnamed Sport'')),
      (''mode'', or_nullish (js_get ''mode'' s) JNull),
      (''team_size_min'', or_nullish (js_get ''team_size_min'' s) JNull),
      (''team_size_max'', or_nullish (js_get ''team_size_max'' s) JNull),
      (''quota_athletes_per_org'', or_nullish (js_get ''quota_athletes_per_org'' s) JNull),
      (''quota_teams_per_org'', or_nullish (js_get ''quota_teams_per_org'' s) JNull)]))"

definition ev_getSports :: "parser \<Rightarrow> backend \<Rightarrow> int \<Rightarrow> (js_error, js list) result" where
  "ev_getSports parse srv i =
     bind_r (srv (get_req (ep_event_sports i) [])) (\<lambda>raw.
     bind_r (answer_list raw) (\<lambda>xs.
     bind_r (map_results event_sport_of xs) (map_results (parse_or_throw parse eventSportPublicSchema))))"

definition event_org_of :: "js \<Rightarrow> (js_error, js) result" where
  "event_org_of o1 = bind_r (member ''organization_id'' o1) (\<lambda>oid. Inr (JObj
     [(''id'', oid), (''name_kh'', js_get ''organization_name'' o1), (''name_en'', js_get ''organization_name'' o1),
      (''_linkId'', js_get ''id'' o1)]))"

definition ev_getSportOrgs :: "parser \<Rightarrow> backend \<Rightarrow> int \<Rightarrow> int \<Rightarrow> (js_error, js list) result" where
  "ev_getSportOrgs parse srv e s =
     bind_r (srv (get_req (ep_event_sport_orgs e s) [])) (\<lambda>raw.
     bind_r (answer_list raw) (\<lambda>xs.
     bind_r (map_results event_org_of xs) (map_results (parse_or_throw parse eventSportOrgPublicSchema))))"

definition ev_getOrganizations :: "parser \<Rightarrow> backend \<Rightarrow> int \<Rightarrow> (js_error, js list) result" where
  "ev_getOrganizations parse srv e =
     bind_r (srv (get_req (ep_event_organizations e) [])) (\<lambda>raw.
     bind_r (answer_list raw) (map_results (parse_or_throw parse eventOrganizationPublicSchema)))"

definition ev_getSportCategories :: "parser \<Rightarrow> backend \<Rightarrow> int \<Rightarrow> int \<Rightarrow> (js_error, js list) result" where
  "ev_getSportCategories parse srv e s =
     bind_r (srv (get_req (ep_event_sport_categories e s) [])) (\<lambda>raw.
     bind_r (answer_list raw) (map_results (parse_or_throw parse eventCategoryPublicSchema)))"

definition sent :: "backend \<Rightarrow> request \<Rightarrow> (js_error, unit) result" where
  "sent srv rq = map_r (\<lambda>_. ()) (srv rq)"

definition ev_addSport :: "backend \<Rightarrow> int \<Rightarrow> js \<Rightarrow> (js_error, unit) result" where
  "ev_addSport srv e s =
     sent srv (body_req ''post'' ep_sportsEvents (JObj [(''events_id'', JInt e), (''sports_id'', s)]))"

definition ev_updateSportConfig :: "backend \<Rightarrow> int \<Rightarrow> js \<Rightarrow> (js_error, unit) result" where
  "ev_updateSportConfig srv i config = sent srv (body_req ''patch'' (ep_sportsEvent_config i) config)"

definition ev_removeSport :: "backend \<Rightarrow> int \<Rightarrow> (js_error, unit) result" where
  "ev_removeSport srv i = sent srv (body_req ''delete'' (ep_sportsEvent i) JUndef)"

definition ev_addOrg :: "backend \<Rightarrow> int \<Rightarrow> int \<Rightarrow> js \<Rightarrow> (js_error, unit) result" where
  "ev_addOrg srv e s org =
     sent srv (body_req ''post'' ep_event_addOrgToSport
       (JObj [(''events_id'', JInt e), (''sports_id'', JInt s), (''org_id'', org)]))"

definition ev_deleteOrgLink :: "backend \<Rightarrow> js \<Rightarrow> (js_error, unit) result" where
  "ev_deleteOrgLink srv link =
     sent srv (body_req ''delete'' ep_event_deleteOrgLink (JObj [(''association_id'', link)]))"

definition ev_removeOrgCompletely :: "backend \<Rightarrow> int \<Rightarrow> int \<Rightarrow> (js_error, unit) result" where
  "ev_removeOrgCompletely srv e org =
     sent srv (body_req ''delete'' ep_event_removeOrgCompletely (JObj [(''event_id'', JInt e), (''org_id'', JInt org)]))"

section \<open>Mutations and what they make stale\<close>

datatype event_mutation =
    M_create | M_update int | M_delete | M_phase | M_config int | M_add_sport int | M_remove_sport int
  | M_add_org int js | M_delete_link int js

text \<open>The keys a success invalidates, beside the dashboard of the global policy.\<close>

definition stale_after :: "event_mutation \<Rightarrow> qkey list" where
  "stale_after m =
     (case m of
        M_create \<Rightarrow> [k_events]
      | M_update i \<Rightarrow> (if i \<noteq> 0 then [k_events, k_event i] else [k_events])
      | M_delete \<Rightarrow> [k_events]
      | M_phase \<Rightarrow> [k_events]
      | M_config i \<Rightarrow> [k_event_sports i]
      | M_add_sport i \<Rightarrow> [k_event_sports i]
      | M_remove_sport i \<Rightarrow> [k_event_sports i]
      | M_add_org i s \<Rightarrow> [k_event_sport_orgs i s]
      | M_delete_link i s \<Rightarrow> [k_event_sport_orgs i s])"

text \<open>A failed link of an organization makes its list stale only when the answer was a 500.\<close>

definition stale_after_add_org_error :: "js_error \<Rightarrow> int \<Rightarrow> js \<Rightarrow> qkey list" where
  "stale_after_add_org_error e i s =
     (case e of AxiosError (Some st) _ _ \<Rightarrow> if st = 500 then [k_event_sport_orgs i s] else [] | _ \<Rightarrow> [])"

definition add_org_meta :: mutation_meta where
  "add_org_meta =
     \<lparr> suppressErrorToast = True, errorMessage_meta = None, successMessage = Some ''created'',
       skipDashboardInvalidation = False \<rparr>"

section \<open>Status in the lists\<close>

definition days_from_civil :: "int \<Rightarrow> int \<Rightarrow> int \<Rightarrow> int" where
  "days_from_civil y m d =
     (let y' = (if m \<le> 2 then y - 1 else y); era = y' div 400; yoe = y' mod 400;
          doy = (153 * ((m + 9) mod 12) + 2) div 5 + d - 1;
          doe = yoe * 365 + yoe div 4 - yoe div 100 + doy
      in era * 146097 + doe - 719468)"

definition DAY_MS :: int where "DAY_MS = 86400000"

text \<open>\<^verbatim>\<open>new Date\<close> of a date-only text, in milliseconds since 1970; None is an invalid date.\<close>

definition date_ms :: "string \<Rightarrow> int option" where
  "date_ms s =
     (case split_on (CHR ''-'') s of
        [y, m, d] \<Rightarrow>
          if length y = 4 \<and> length m = 2 \<and> length d = 2 \<and> all_digits y \<and> all_digits m \<and> all_digits d \<and>
             1 \<le> nat_of_digits m \<and> nat_of_digits m \<le> 12 \<and> 1 \<le> nat_of_digits d \<and> nat_of_digits d \<le> 31
          then Some (days_from_civil (int (nat_of_digits y)) (int (nat_of_digits m)) (int (nat_of_digits d)) * DAY_MS)
          else None
      | _ \<Rightarrow> None)"

datatype ev_status = Upcoming | Ongoing | Completed

definition at_or_after :: "int \<Rightarrow> int option \<Rightarrow> bool" where
  "at_or_after now t = (case t of Some a \<Rightarrow> a \<le> now | None \<Rightarrow> False)"

definition before_t :: "int \<Rightarrow> int option \<Rightarrow> bool" where
  "before_t now t = (case t of Some a \<Rightarrow> now < a | None \<Rightarrow> False)"

definition until_t :: "int \<Rightarrow> int option \<Rightarrow> bool" where
  "until_t now t = (case t of Some a \<Rightarrow> now \<le> a | None \<Rightarrow> False)"

definition list_status :: "int \<Rightarrow> js \<Rightarrow> ev_status" where
  "list_status now ev =
     (let start = date_ms (js_str (js_get ''start_date'' ev)); end_d = date_ms (js_str (js_get ''end_date'' ev)) in
      if before_t now start then Upcoming
      else if at_or_after now start \<and> until_t now end_d then Ongoing
      else Completed)"

definition detail_status :: "int \<Rightarrow> js \<Rightarrow> ev_status" where
  "detail_status now ev =
     (let start = date_ms (js_str (js_get ''start_date'' ev)); end_d = date_ms (js_str (js_get ''end_date'' ev)) in
      if before_t now start then Upcoming else if until_t now end_d then Ongoing else Completed)"

definition event_filtered :: "int \<Rightarrow> string \<Rightarrow> ev_status option \<Rightarrow> js list \<Rightarrow> js list" where
  "event_filtered now query statusFilter events =
     filter (\<lambda>ev.
       (trim query = [] \<or>
        contains_str (to_lower (js_string (js_get ''name'' ev) @ '' '' @ text_of (js_get ''description'' ev))) (to_lower query)) \<and>
       (case statusFilter of None \<Rightarrow> True | Some st \<Rightarrow> st = list_status now ev)) events"

definition ev_total_pages :: "nat \<Rightarrow> nat" where
  "ev_total_pages n = max 1 ((n + 9) div 10)"

definition ev_page_data :: "nat \<Rightarrow> 'a list \<Rightarrow> 'a list" where
  "ev_page_data page xs = take 10 (drop ((page - 1) * 10) xs)"

section \<open>Sports and organizations of an event\<close>

definition availableSports :: "js list \<Rightarrow> js list \<Rightarrow> js list" where
  "availableSports allSports eventSports =
     filter (\<lambda>s. \<not> list_ex (\<lambda>es. js_get ''sports_id'' es = js_get ''id'' s) eventSports) allSports"

definition text_contains :: "js \<Rightarrow> string \<Rightarrow> bool" where
  "text_contains v term = contains_str (to_lower (js_str v)) (to_lower term)"

definition filteredAvailableOrgs :: "string \<Rightarrow> js list \<Rightarrow> js list \<Rightarrow> js list" where
  "filteredAvailableOrgs searchTerm allOrgs sportOrgs =
     take 50 (filter (\<lambda>o1.
       \<not> list_ex (\<lambda>so. js_get ''id'' so = js_get ''id'' o1) sportOrgs \<and>
       (text_contains (js_get ''name_kh'' o1) searchTerm \<or> text_contains (js_get ''name_en'' o1) searchTerm \<or>
        \<not> is_nullish (js_get ''code'' o1) \<and> text_contains (js_get ''code'' o1) searchTerm)) allOrgs)"

definition removed_link :: "js \<Rightarrow> js" where
  "removed_link org = or_nullish (js_get ''_linkId'' org) (js_get ''id'' org)"

subsection \<open>The settings of a sport\<close>

record sport_config =
  scf_mode :: string
  scf_teamMin :: string
  scf_teamMax :: string
  scf_quotaAthletes :: string
  scf_quotaTeams :: string

definition number_input :: "js \<Rightarrow> string" where
  "number_input v = (if is_nullish v then [] else js_string v)"

definition config_start :: "js \<Rightarrow> sport_config" where
  "config_start sport =
     \<lparr> scf_mode = js_str (or_nullish (js_get ''mode'' sport) (JStr ''individual'')),
       scf_teamMin = number_input (js_get ''team_size_min'' sport),
       scf_teamMax = number_input (js_get ''team_size_max'' sport),
       scf_quotaAthletes = number_input (js_get ''quota_athletes_per_org'' sport),
       scf_quotaTeams = number_input (js_get ''quota_teams_per_org'' sport) \<rparr>"

definition toNum :: "string \<Rightarrow> js" where
  "toNum v = (if trim v = [] then JNull else JNum (to_number v))"

definition isTeam :: "sport_config \<Rightarrow> bool" where
  "isTeam c \<longleftrightarrow> scf_mode c = ''team'' \<or> scf_mode c = ''both''"

definition config_payload :: "sport_config \<Rightarrow> js" where
  "config_payload c = JObj
     [(''mode'', JStr (scf_mode c)),
      (''team_size_min'', if isTeam c then toNum (scf_teamMin c) else JNull),
      (''team_size_max'', if isTeam c then toNum (scf_teamMax c) else JNull),
      (''quota_athletes_per_org'', toNum (scf_quotaAthletes c)),
      (''quota_teams_per_org'', if isTeam c then toNum (scf_quotaTeams c) else JNull)]"

text \<open>The payload of the publish button.\<close>

definition publish_dto :: "js \<Rightarrow> js" where
  "publish_dto event = JObj [(''id'', js_get ''id'' event), (''status'', JStr ''published'')]"


section \<open>Lemmas\<close>

lemma schema_copies_agree: "eventFormSchema = eventSchema"
  by (simp add: eventFormSchema_def eventSchema_def)

lemma map_of_concat_keys:
  "map_of (concat (map (\<lambda>k. if P k then [(k, f k)] else []) ks)) x = (if x \<in> set ks \<and> P x then Some (f x) else None)"
  by (induction ks) auto

lemma phasePayload_get:
  "map_of (phasePayload src) k =
     (if k \<in> set PHASE_KEYS \<and> js_get k src \<noteq> JUndef
      then Some (if js_get k src = JStr [] then JNull else js_get k src) else None)"
  unfolding phasePayload_def Let_def by (rule map_of_concat_keys)

lemma PHASE_KEYS_eq:
  "PHASE_KEYS =
     [''survey_category_status'', ''survey_category_open_date'', ''survey_category_close_date'',
      ''survey_sport_status'', ''survey_sport_open_date'', ''survey_sport_close_date'',
      ''survey_number_status'', ''survey_number_open_date'', ''survey_number_close_date'',
      ''registration_status'', ''registration_open_date'', ''registration_close_date'']"
  by (simp add: PHASE_KEYS_def phase_fields_def EVENT_PHASES_def)

text \<open>What a create request carries.\<close>

lemma create_body_phase:
  assumes "k \<in> set PHASE_KEYS" "js_get k dto \<noteq> JUndef"
  shows "js_get k (create_body dto) = (if js_get k dto = JStr [] then JNull else js_get k dto)"
proof -
  have "k \<notin> {''name_kh'', ''type'', ''description'', ''start_date'', ''end_date'', ''location'', ''age_mode'', ''age_min'', ''age_max''}"
    using assms(1) by (auto simp: PHASE_KEYS_eq)
  then show ?thesis using assms by (simp add: create_body_def phasePayload_get)
qed

lemma create_body_fields:
  "js_get ''name_kh'' (create_body dto) = js_get ''name'' dto"
  "js_get ''type'' (create_body dto) = js_get ''event_type'' dto"
  "js_get ''description'' (create_body dto) = js_or (js_get ''description'' dto) JNull"
  "js_get ''start_date'' (create_body dto) = js_get ''start_date'' dto"
  "js_get ''end_date'' (create_body dto) = js_get ''end_date'' dto"
  "js_get ''location'' (create_body dto) = js_or (js_get ''location'' dto) JNull"
  "js_get ''age_mode'' (create_body dto) = js_get ''age_mode'' dto"
  "js_get ''age_min'' (create_body dto) = js_get ''age_min'' dto"
  "js_get ''age_max'' (create_body dto) = js_get ''age_max'' dto"
  by (simp_all add: create_body_def)

lemma event_payload_get:
  "js_get k (event_payload (JObj fs)) =
     (if k = ''age_max'' then JNum (js_to_number (js_get ''age_max'' (JObj fs)))
      else if k = ''age_min'' then JNum (js_to_number (js_get ''age_min'' (JObj fs)))
      else js_get k (JObj fs))"
  by (simp add: event_payload_def js_set_JObj update_conv' or_else_def)

text \<open>The publish button of the event page asks for nothing: the adapter sends no field of its payload.\<close>

lemma publish_sends_nothing: "update_body (publish_dto event) = JObj []"
  by (simp add: update_body_def publish_dto_def defined_field_def phasePayload_def PHASE_KEYS_eq)

text \<open>An event is shown as completed during its last day, which starts at midnight.\<close>

lemma last_day_completed:
  assumes "date_ms (js_str (js_get ''end_date'' ev)) = Some e" "date_ms (js_str (js_get ''start_date'' ev)) = Some a"
    and "a \<le> e" "0 < t" "t < DAY_MS"
  shows "list_status (e + t) ev = Completed"
  using assms by (simp add: list_status_def before_t_def at_or_after_def until_t_def)

text \<open>List and detail agree on the status of an event with a valid start.\<close>

lemma statuses_agree:
  "date_ms (js_str (js_get ''start_date'' ev)) \<noteq> None \<Longrightarrow> list_status now ev = detail_status now ev"
  by (auto simp: list_status_def detail_status_def Let_def before_t_def at_or_after_def)

text \<open>The settings dialog keeps what the sport had, and drops team settings of an individual sport.\<close>

definition stored_int :: "js \<Rightarrow> bool" where
  "stored_int v \<longleftrightarrow> v = JNull \<or> (\<exists>i. v = JInt i)"

lemma toNum_number_input: "stored_int v \<Longrightarrow> toNum (number_input v) = v"
proof -
  have "trim (show_int i) = show_int i" for i using show_int_no_ws by (rule trim_no_ws)
  then show "stored_int v \<Longrightarrow> toNum (number_input v) = v"
    by (auto simp: stored_int_def toNum_def number_input_def)
qed

lemma config_unchanged:
  assumes "js_get ''mode'' sport = JStr m" "m \<in> {''team'', ''both''}"
    and "\<forall>k \<in> {''team_size_min'', ''team_size_max'', ''quota_athletes_per_org'', ''quota_teams_per_org''}.
           stored_int (js_get k sport)"
  shows "config_payload (config_start sport) = JObj
    [(''mode'', JStr m), (''team_size_min'', js_get ''team_size_min'' sport),
     (''team_size_max'', js_get ''team_size_max'' sport),
     (''quota_athletes_per_org'', js_get ''quota_athletes_per_org'' sport),
     (''quota_teams_per_org'', js_get ''quota_teams_per_org'' sport)]"
  using assms by (auto simp: config_payload_def config_start_def isTeam_def toNum_number_input)

lemma individual_sport_has_no_team_settings:
  "scf_mode c = ''individual'' \<Longrightarrow>
     js_get ''team_size_min'' (config_payload c) = JNull \<and> js_get ''team_size_max'' (config_payload c) = JNull \<and>
     js_get ''quota_teams_per_org'' (config_payload c) = JNull"
  by (simp add: config_payload_def isTeam_def)

text \<open>What can be added is not there yet.\<close>

lemma availableSports_new:
  "s \<in> set (availableSports allSports eventSports) \<longleftrightarrow>
     s \<in> set allSports \<and> (\<forall>es \<in> set eventSports. js_get ''sports_id'' es \<noteq> js_get ''id'' s)"
  by (auto simp: availableSports_def list_ex_iff)

text \<open>One event with a value outside the enumerations makes the whole list fail.\<close>

lemma map_results_Inl: "x \<in> set xs \<Longrightarrow> f x = Inl e \<Longrightarrow> \<exists>e'. map_results f xs = Inl e'"
proof (induction xs)
  case (Cons y ys)
  show ?case
  proof (cases "f y")
    case (Inr b)
    then have "x \<in> set ys" using Cons.prems by auto
    with Cons Inr show ?thesis by auto
  qed simp
qed simp

lemma one_bad_event_fails_all:
  assumes "parsed_call parse srv rawEventsSchema (get_req ep_events []) = Inr raw"
    and "r \<in> set (js_list (js_get ''data'' raw))" "mapRawEvent parse r = Inl e"
  shows "\<exists>e'. ev_getAll parse srv = Inl e'"
  using map_results_Inl[of r _ "mapRawEvent parse" e, OF assms(2,3)] assms(1) by (simp add: ev_getAll_def)

section \<open>A saved event is edited as it was entered\<close>

text \<open>A server that stores what it is sent, and answers the stored event.\<close>

definition stores :: "js \<Rightarrow> js \<Rightarrow> bool" where
  "stores body raw \<longleftrightarrow> (\<forall>k \<in> fst ` set (spread_fields body). js_get k raw = js_get k body)"

text \<open>What the form schema says of the values it accepts.\<close>

lemma event_form_keys: "map fst event_form_fields =
    [''name'', ''description'', ''start_date'', ''end_date'', ''event_type'', ''location'', ''age_mode'',
     ''age_min'', ''age_max''] @ PHASE_KEYS"
  by (simp add: event_form_fields_def phase_fields_def EVENT_PHASES_def PHASE_KEYS_eq)

lemma distinct_event_form: "distinct (map fst event_form_fields)"
  by (simp add: event_form_keys PHASE_KEYS_eq)

definition public_fields :: "(string \<times> schema) list" where
  "public_fields =
     ([(''id'', zint), (''name'', zstr), (''description'', ZOptional zstr), (''start_date'', zstr),
       (''end_date'', zstr), (''event_type'', ZEnum EventType), (''location'', ZOptional zstr),
       (''age_mode'', znullable_optional (ZEnum AgeMode)), (''age_min'', znullable_optional zint),
       (''age_max'', znullable_optional zint)] @
      phase_fields (ZOptional (ZEnum PhaseStatus)) (znullable_optional zstr) @
      [(''survey_category_is_open'', ZOptional ZBoolean), (''survey_sport_is_open'', ZOptional ZBoolean),
       (''survey_number_is_open'', ZOptional ZBoolean), (''registration_is_open'', ZOptional ZBoolean),
       (''created_at'', ZOptional zstr), (''updated_at'', ZOptional zstr)])"

lemma eventPublicSchema_fields: "eventPublicSchema = ZObject False public_fields"
  by (simp add: eventPublicSchema_def public_fields_def)

lemma distinct_public: "distinct (map fst public_fields)"
  by (simp add: public_fields_def phase_fields_def EVENT_PHASES_def)

context zod_parser
begin

lemma parse_or_throw_Inr: "parse_or_throw parse sch v = Inr w \<longleftrightarrow> parse sch v = Inr w"
  by (auto simp: parse_or_throw_def split: sum.splits)

text \<open>The public schema changes no field it accepts.\<close>

lemma public_field_kept:
  assumes "(k, s) \<in> set public_fields" "parse s v = Inr w"
  shows "w = v"
  using assms
  by (auto simp: public_fields_def phase_fields_def EVENT_PHASES_def accepts split: if_splits)

lemma mapped_field:
  assumes "mapRawEvent parse raw = Inr ev" "k \<in> fst ` set public_fields"
  shows "js_get k ev = js_get k (mapped_event raw)"
proof -
  obtain s where s: "(k, s) \<in> set public_fields" using assms(2) by auto
  then have "map_of public_fields k = Some s" using distinct_public by simp
  moreover have "parse (ZObject False public_fields) (mapped_event raw) = Inr ev"
    using assms(1) unfolding mapRawEvent_def parse_or_throw_Inr eventPublicSchema_fields .
  ultimately have "parse s (js_get k (mapped_event raw)) = Inr (js_get k ev)"
    using object_get[OF _ distinct_public] by blast
  from public_field_kept[OF s this] show ?thesis .
qed

lemma form_field:
  assumes "parse eventSchema v = Inr w" "(k, s) \<in> set event_form_fields"
  shows "parse s (js_get k v) = Inr (js_get k w)"
proof -
  have "parse (ZObject False event_form_fields) v = Inr w"
    using assms(1) by (simp add: eventSchema_def p_refine)
  then show ?thesis
    using object_get[OF _ distinct_event_form] assms(2) distinct_event_form by (metis map_of_eq_Some_iff)
qed

lemma form_object: "parse eventSchema v = Inr w \<Longrightarrow> \<exists>fs. w = JObj fs"
  by (auto simp: eventSchema_def p_refine p_object)

end

text \<open>Lookups in the mapped event and in the defaults of the form.\<close>

lemma mapped_event_get:
  "js_get ''name'' (mapped_event raw) = js_or (js_get ''name_kh'' raw) (JStr ''Unnamed Event'')"
  "js_get ''description'' (mapped_event raw) = or_nullish (js_get ''description'' raw) JUndef"
  "js_get ''start_date'' (mapped_event raw) = js_or (js_get ''start_date'' raw) (JStr [])"
  "js_get ''end_date'' (mapped_event raw) = js_or (js_get ''end_date'' raw) (JStr [])"
  "js_get ''event_type'' (mapped_event raw) = or_nullish (js_get ''type'' raw) (js_get ''event_type'' raw)"
  "js_get ''location'' (mapped_event raw) = or_nullish (js_get ''location'' raw) JUndef"
  "js_get ''age_mode'' (mapped_event raw) = or_nullish (js_get ''age_mode'' raw) JNull"
  "js_get ''age_min'' (mapped_event raw) = or_nullish (js_get ''age_min'' raw) JNull"
  "js_get ''age_max'' (mapped_event raw) = or_nullish (js_get ''age_max'' raw) JNull"
  by (simp_all add: mapped_event_def)

lemma mapped_event_phase:
  assumes "p \<in> set EVENT_PHASES"
  shows "js_get (p @ ''_status'') (mapped_event raw) = js_get (p @ ''_status'') raw"
    "js_get (p @ ''_open_date'') (mapped_event raw) = or_nullish (js_get (p @ ''_open_date'') raw) JNull"
    "js_get (p @ ''_close_date'') (mapped_event raw) = or_nullish (js_get (p @ ''_close_date'') raw) JNull"
  using assms by (auto simp: mapped_event_def raw_phase_def EVENT_PHASES_def)

lemma edit_defaults_get:
  "getValue ''name'' (edit_event_defaults ev) = js_get ''name'' ev"
  "getValue ''description'' (edit_event_defaults ev) = js_or (js_get ''description'' ev) (JStr [])"
  "getValue ''start_date'' (edit_event_defaults ev) = js_get ''start_date'' ev"
  "getValue ''end_date'' (edit_event_defaults ev) = js_get ''end_date'' ev"
  "getValue ''event_type'' (edit_event_defaults ev) = js_get ''event_type'' ev"
  "getValue ''location'' (edit_event_defaults ev) = js_or (js_get ''location'' ev) (JStr [])"
  "getValue ''age_mode'' (edit_event_defaults ev) = or_nullish (js_get ''age_mode'' ev) (JStr ''BIRTH_YEAR'')"
  "getValue ''age_min'' (edit_event_defaults ev) = number_text (js_get ''age_min'' ev)"
  "getValue ''age_max'' (edit_event_defaults ev) = number_text (js_get ''age_max'' ev)"
  by (simp_all add: edit_event_defaults_def)

lemma edit_defaults_phase:
  assumes "p \<in> set EVENT_PHASES"
  shows "getValue (p @ ''_status'') (edit_event_defaults ev) = or_nullish (js_get (p @ ''_status'') ev) (JStr ''AUTO'')"
    "getValue (p @ ''_open_date'') (edit_event_defaults ev) = js_or (js_get (p @ ''_open_date'') ev) (JStr [])"
    "getValue (p @ ''_close_date'') (edit_event_defaults ev) = js_or (js_get (p @ ''_close_date'') ev) (JStr [])"
  using assms by (auto simp: edit_event_defaults_def phase_defaults_def EVENT_PHASES_def)

context zod_parser
begin

lemma nonempty_text: "parse (ZString [MinLen (Suc n)]) v = Inr x \<Longrightarrow> \<exists>c s. x = JStr (c # s)"
  by (auto simp: p_string neq_Nil_conv Suc_le_length_iff split: if_splits)

lemma optional_text: "parse opt_text v = Inr x \<Longrightarrow> x = JUndef \<or> (\<exists>s. x = JStr s)"
  by (auto simp: opt_text_def accepts split: sum.splits if_splits)

lemma enum_value: "parse (ZEnum es) v = Inr x \<Longrightarrow> \<exists>s \<in> set es. x = JStr s"
  by (auto simp: p_enum)

end

lemma or_null_chain: "js_or (or_nullish (js_or v JNull) JUndef) (JStr []) = js_or v (JStr [])"
  by (cases v) (auto simp: js_or_def)

lemma create_body_keys:
  "k \<in> {''name_kh'', ''type'', ''description'', ''start_date'', ''end_date'', ''location'', ''age_mode'', ''age_min'', ''age_max''} \<Longrightarrow>
     k \<in> fst ` set (spread_fields (create_body dto))"
  by (auto simp: create_body_def)

lemma create_body_phase_key:
  assumes "k \<in> set PHASE_KEYS" "js_get k dto \<noteq> JUndef"
  shows "k \<in> fst ` set (spread_fields (create_body dto))"
proof -
  have "map_of (phasePayload dto) k \<noteq> None" using assms by (simp add: phasePayload_get)
  then have "k \<in> fst ` set (phasePayload dto)" by (simp add: map_of_eq_None_iff)
  then show ?thesis by (auto simp: create_body_def)
qed

lemma phase_key_cases:
  assumes "k \<in> set PHASE_KEYS"
  obtains p where "p \<in> set EVENT_PHASES" "k = p @ ''_status''"
    | p where "p \<in> set EVENT_PHASES" "k = p @ ''_open_date''"
    | p where "p \<in> set EVENT_PHASES" "k = p @ ''_close_date''"
  using assms unfolding PHASE_KEYS_def phase_fields_def by auto

context zod_parser
begin

lemma event_base_roundtrip:
  assumes w: "parse eventSchema v = Inr w"
    and ages: "js_get ''age_min'' w = JStr (show_int a)" "js_get ''age_max'' w = JStr (show_int b)"
    and st: "stores (create_body (event_payload w)) raw"
    and ev: "mapRawEvent parse raw = Inr ev"
    and k: "k \<in> {''name'', ''description'', ''start_date'', ''end_date'', ''event_type'', ''location'', ''age_mode'', ''age_min'', ''age_max''}"
  shows "getValue k (edit_event_defaults ev) = js_or (js_get k w) (JStr [])"
proof -
  obtain fs where fs: "w = JObj fs" using form_object[OF w] by blast
  have r: "js_get j raw = js_get j (create_body (event_payload w))"
    if "j \<in> {''name_kh'', ''type'', ''description'', ''start_date'', ''end_date'', ''location'', ''age_mode'', ''age_min'', ''age_max''}" for j
    using st create_body_keys[OF that] by (auto simp: stores_def)
  have m: "js_get j ev = js_get j (mapped_event raw)" if "j \<in> fst ` set public_fields" for j
    by (rule mapped_field[OF ev that])
  have pf: "''name'' \<in> fst ` set public_fields" "''description'' \<in> fst ` set public_fields"
    "''start_date'' \<in> fst ` set public_fields" "''end_date'' \<in> fst ` set public_fields"
    "''event_type'' \<in> fst ` set public_fields" "''location'' \<in> fst ` set public_fields"
    "''age_mode'' \<in> fst ` set public_fields" "''age_min'' \<in> fst ` set public_fields"
    "''age_max'' \<in> fst ` set public_fields"
    by (simp_all add: public_fields_def)
  have ff: "(''name'', ZString [MinLen 3]) \<in> set event_form_fields" "(''description'', opt_text) \<in> set event_form_fields"
    "(''start_date'', ZString [MinLen 1]) \<in> set event_form_fields" "(''end_date'', ZString [MinLen 1]) \<in> set event_form_fields"
    "(''event_type'', ZEnum EventType) \<in> set event_form_fields" "(''location'', ZString [MinLen 2]) \<in> set event_form_fields"
    "(''age_mode'', ZEnum AgeMode) \<in> set event_form_fields"
    by (simp_all add: event_form_fields_def)
  note ft = form_field[OF w]
  obtain nm st0 en lo where t: "js_get ''name'' w = JStr nm" "nm \<noteq> []" "js_get ''start_date'' w = JStr st0" "st0 \<noteq> []"
    "js_get ''end_date'' w = JStr en" "en \<noteq> []" "js_get ''location'' w = JStr lo" "lo \<noteq> []"
    using nonempty_text[of 2] nonempty_text[of 0] nonempty_text[of 1] ft[OF ff(1)] ft[OF ff(3)] ft[OF ff(4)] ft[OF ff(6)]
    by (metis One_nat_def Suc_1 list.distinct(1) numeral_3_eq_3)
  obtain ty am where e: "js_get ''event_type'' w = JStr ty" "js_get ''age_mode'' w = JStr am" "ty \<in> set EventType" "am \<in> set AgeMode"
    using enum_value[OF ft[OF ff(5)]] enum_value[OF ft[OF ff(7)]] by blast
  have ne: "ty \<noteq> []" "am \<noteq> []"
    using e(3,4) by (auto simp: EventType_def EVENT_TYPES_def utf8_def AgeMode_def)
  note ev' = event_payload_get[of _ fs, folded fs]
  have rr: "js_get ''name_kh'' raw = JStr nm" "js_get ''type'' raw = JStr ty"
    "js_get ''description'' raw = js_or (js_get ''description'' w) JNull"
    "js_get ''start_date'' raw = JStr st0" "js_get ''end_date'' raw = JStr en" "js_get ''location'' raw = JStr lo"
    "js_get ''age_mode'' raw = JStr am" "js_get ''age_min'' raw = JInt a" "js_get ''age_max'' raw = JInt b"
    using t e(1,2) ages by (simp_all add: r create_body_fields ev' js_or_def)
  have mm: "js_get ''name'' ev = JStr nm" "js_get ''event_type'' ev = JStr ty"
    "js_get ''description'' ev = or_nullish (js_or (js_get ''description'' w) JNull) JUndef"
    "js_get ''start_date'' ev = JStr st0" "js_get ''end_date'' ev = JStr en" "js_get ''location'' ev = JStr lo"
    "js_get ''age_mode'' ev = JStr am" "js_get ''age_min'' ev = JInt a" "js_get ''age_max'' ev = JInt b"
    using t by (simp_all add: m[OF pf(1)] m[OF pf(2)] m[OF pf(3)] m[OF pf(4)] m[OF pf(5)] m[OF pf(6)]
        m[OF pf(7)] m[OF pf(8)] m[OF pf(9)] mapped_event_get rr js_or_def)
  have ed: "getValue ''description'' (edit_event_defaults ev) = js_or (js_get ''description'' w) (JStr [])"
    by (simp add: edit_defaults_get mm or_null_chain)
  show ?thesis
    by (insert k, elim insertE emptyE)
      (simp_all add: ed edit_defaults_get(1,3-9) mm t e ne ages js_or_def number_text_def)
qed

end

lemma phase_form_field:
  assumes "p \<in> set EVENT_PHASES"
  shows "(p @ ''_status'', ZEnum PhaseStatus) \<in> set event_form_fields"
    "(p @ ''_open_date'', opt_text) \<in> set event_form_fields" "(p @ ''_close_date'', opt_text) \<in> set event_form_fields"
  using assms by (auto simp: event_form_fields_def phase_fields_def)

lemma phase_public_field:
  assumes "p \<in> set EVENT_PHASES"
  shows "p @ ''_status'' \<in> fst ` set public_fields"
    "p @ ''_open_date'' \<in> fst ` set public_fields" "p @ ''_close_date'' \<in> fst ` set public_fields"
  using assms by (auto simp: public_fields_def phase_fields_def EVENT_PHASES_def)

lemma phase_in_keys:
  assumes "p \<in> set EVENT_PHASES"
  shows "p @ ''_status'' \<in> set PHASE_KEYS" "p @ ''_open_date'' \<in> set PHASE_KEYS" "p @ ''_close_date'' \<in> set PHASE_KEYS"
  using assms by (auto simp: PHASE_KEYS_eq EVENT_PHASES_def)

context zod_parser
begin

lemma event_phase_roundtrip:
  assumes w: "parse eventSchema v = Inr w"
    and typed: "\<forall>k \<in> set PHASE_KEYS. js_get k w \<noteq> JUndef"
    and st: "stores (create_body (event_payload w)) raw"
    and ev: "mapRawEvent parse raw = Inr ev"
    and p: "p \<in> set EVENT_PHASES"
  shows "getValue (p @ ''_status'') (edit_event_defaults ev) = js_get (p @ ''_status'') w"
    "getValue (p @ ''_open_date'') (edit_event_defaults ev) = js_get (p @ ''_open_date'') w"
    "getValue (p @ ''_close_date'') (edit_event_defaults ev) = js_get (p @ ''_close_date'') w"
proof -
  obtain fs where fs: "w = JObj fs" using form_object[OF w] by blast
  note pk = phase_in_keys[OF p]
  have na: "k \<in> set PHASE_KEYS \<Longrightarrow> js_get k (event_payload w) = js_get k w" for k
    unfolding fs event_payload_get by (auto simp: PHASE_KEYS_eq)
  have r: "js_get k raw = (if js_get k w = JStr [] then JNull else js_get k w)" if "k \<in> set PHASE_KEYS" for k
  proof -
    have u: "js_get k (event_payload w) \<noteq> JUndef" using typed that na by simp
    have "js_get k raw = js_get k (create_body (event_payload w))"
      by (rule bspec[OF st[unfolded stores_def] create_body_phase_key[OF that u]])
    then show ?thesis using create_body_phase[OF that u] na[OF that] by simp
  qed
  have m: "js_get k ev = js_get k (mapped_event raw)" if "k \<in> fst ` set public_fields" for k
    by (rule mapped_field[OF ev that])
  note f = form_field[OF w phase_form_field(1)[OF p]] form_field[OF w phase_form_field(2)[OF p]]
    form_field[OF w phase_form_field(3)[OF p]]
  obtain s where s: "js_get (p @ ''_status'') w = JStr s" "s \<noteq> []"
    using enum_value[OF f(1)] by (auto simp: PhaseStatus_def)
  then show "getValue (p @ ''_status'') (edit_event_defaults ev) = js_get (p @ ''_status'') w"
    using r[OF pk(1)] m[OF phase_public_field(1)[OF p]] by (simp add: edit_defaults_phase[OF p] mapped_event_phase[OF p])
  obtain a where a: "js_get (p @ ''_open_date'') w = JStr a" using optional_text[OF f(2)] typed pk by blast
  then show "getValue (p @ ''_open_date'') (edit_event_defaults ev) = js_get (p @ ''_open_date'') w"
    using r[OF pk(2)] m[OF phase_public_field(2)[OF p]]
    by (cases a) (simp_all add: edit_defaults_phase[OF p] mapped_event_phase[OF p] js_or_def)
  obtain b where b: "js_get (p @ ''_close_date'') w = JStr b" using optional_text[OF f(3)] typed pk by blast
  then show "getValue (p @ ''_close_date'') (edit_event_defaults ev) = js_get (p @ ''_close_date'') w"
    using r[OF pk(3)] m[OF phase_public_field(3)[OF p]]
    by (cases b) (simp_all add: edit_defaults_phase[OF p] mapped_event_phase[OF p] js_or_def)
qed

lemma event_roundtrip:
  assumes w: "parse eventSchema v = Inr w"
    and typed: "\<forall>k \<in> set PHASE_KEYS. js_get k w \<noteq> JUndef"
    and ages: "js_get ''age_min'' w = JStr (show_int a)" "js_get ''age_max'' w = JStr (show_int b)"
    and st: "stores (create_body (event_payload w)) raw"
    and ev: "mapRawEvent parse raw = Inr ev"
    and k: "k \<in> set (map fst event_form_fields)"
  shows "getValue k (edit_event_defaults ev) = js_or (js_get k w) (JStr [])"
proof -
  have or_kept: "js_get j w = js_or (js_get j w) (JStr [])" if "\<exists>s. js_get j w = JStr s" for j
    using that by (auto simp: js_or_def)
  show ?thesis
  proof (cases "k \<in> set PHASE_KEYS")
    case False
    then have "k \<in> {''name'', ''description'', ''start_date'', ''end_date'', ''event_type'', ''location'', ''age_mode'', ''age_min'', ''age_max''}"
      using k by (simp only: event_form_keys set_append Un_iff simp_thms list.set)
    then show ?thesis by (rule event_base_roundtrip[OF w ages st ev])
  next
    case True
    note rt = event_phase_roundtrip[OF w typed st ev] and f = form_field[OF w phase_form_field(1)]
      form_field[OF w phase_form_field(2)] form_field[OF w phase_form_field(3)]
    from True show ?thesis
    proof (cases rule: phase_key_cases)
      case (1 p)
      then show ?thesis using rt(1)[OF 1(1)] or_kept enum_value[OF f(1)[OF 1(1)]] by metis
    next
      case (2 p)
      then show ?thesis using rt(2)[OF 2(1)] or_kept optional_text[OF f(2)[OF 2(1)]] typed True by metis
    next
      case (3 p)
      then show ?thesis using rt(3)[OF 3(1)] or_kept optional_text[OF f(3)[OF 3(1)]] typed True by metis
    qed
  qed
qed

text \<open>The windows of an accepted event are in order, and its age range is not reversed.\<close>

lemma event_windows_ordered:
  assumes "parse eventSchema v = Inr w"
  shows "\<not> both_before (js_get ''end_date'' w) (js_get ''start_date'' w) \<and>
    \<not> min_above_max (js_get ''age_min'' w) (js_get ''age_max'' w) \<and>
    (\<forall>p \<in> set EVENT_PHASES. \<not> both_before (js_get (p @ ''_close_date'') w) (js_get (p @ ''_open_date'') w))"
proof -
  have "event_issues w = []" using assms by (simp add: eventSchema_def p_refine)
  then show ?thesis by (auto simp: event_issues_def split: if_splits)
qed

end

text \<open>C28. Saving and reopening an event loses nothing: when the form schema accepts what was entered, the
  event's and every phase's window is in order and the age range is not reversed; and if the server stores
  the fields of the create request and its answer is accepted, the form for editing that
  event starts with exactly the values entered, for the name, the texts, the dates, the type, the age
  rule and all four phases, an empty date staying empty.\<close>

theorem event_form_roundtrip:
  assumes "zod_parser parse" "parse eventSchema (JObj f) = Inr w"
    and "\<forall>k \<in> set PHASE_KEYS. js_get k w \<noteq> JUndef"
    and "js_get ''age_min'' w = JStr (show_int a)" "js_get ''age_max'' w = JStr (show_int b)"
    and "stores (create_body (event_payload w)) raw"
    and "mapRawEvent parse raw = Inr ev"
  shows "(\<forall>k \<in> set (map fst event_form_fields). getValue k (edit_event_defaults ev) = js_or (js_get k w) (JStr [])) \<and>
    \<not> both_before (js_get ''end_date'' w) (js_get ''start_date'' w) \<and>
    \<not> min_above_max (js_get ''age_min'' w) (js_get ''age_max'' w) \<and>
    (\<forall>p \<in> set EVENT_PHASES. \<not> both_before (js_get (p @ ''_close_date'') w) (js_get (p @ ''_open_date'') w))"
  using zod_parser.event_roundtrip[OF assms(1-7)] zod_parser.event_windows_ordered[OF assms(1,2)]
  by blast

definition sample_event :: form_values where
  "sample_event =
     [(''name'', JStr ''Games''), (''description'', JStr []), (''start_date'', JStr ''2026-03-01''),
      (''end_date'', JStr ''2026-03-09''), (''event_type'', JStr (hd EventType)), (''location'', JStr ''Takeo''),
      (''age_mode'', JStr ''EXACT_AGE''), (''age_min'', JStr ''12''), (''age_max'', JStr ''18'')] @
     phase_fields (JStr ''OPEN'') (JStr [])"

definition sample_raw :: js where
  "sample_raw = js_set ''id'' (JInt 3) (create_body (event_payload (JObj sample_event)))"

lemma sample_event_accepted: "zparse eventSchema (JObj sample_event) = Inr (JObj sample_event)"
  by code_simp

lemma sample_raw_mapped: "\<exists>ev. mapRawEvent zparse sample_raw = Inr ev"
proof -
  have "(case mapRawEvent zparse sample_raw of Inr _ \<Rightarrow> True | Inl _ \<Rightarrow> False)" by code_simp
  then show ?thesis by (auto split: sum.splits)
qed

lemma event_form_roundtrip_witness:
  "\<exists>ev. mapRawEvent zparse sample_raw = Inr ev \<and>
     getValue ''registration_open_date'' (edit_event_defaults ev) = JStr []  \<and>
     getValue ''age_min'' (edit_event_defaults ev) = JStr ''12''"
proof -
  obtain ev where ev: "mapRawEvent zparse sample_raw = Inr ev" using sample_raw_mapped by blast
  have t: "\<forall>k \<in> set PHASE_KEYS. js_get k (JObj sample_event) \<noteq> JUndef"
    by (simp add: PHASE_KEYS_eq sample_event_def phase_fields_def EVENT_PHASES_def)
  have a: "js_get ''age_min'' (JObj sample_event) = JStr (show_int 12)"
    "js_get ''age_max'' (JObj sample_event) = JStr (show_int 18)"
    by code_simp+
  have s: "stores (create_body (event_payload (JObj sample_event))) sample_raw"
    unfolding stores_def sample_raw_def by code_simp
  have "show_int 12 = ''12''" by code_simp
  moreover have "js_get ''registration_open_date'' (JObj sample_event) = JStr []"
    by (simp add: sample_event_def phase_fields_def EVENT_PHASES_def)
  ultimately show ?thesis
    using event_form_roundtrip[OF zp.zod_parser_axioms sample_event_accepted t a s ev] ev a(1)
    by (auto simp: event_form_keys PHASE_KEYS_eq js_or_def)
qed

end
