(* ===== verification/Event_Pages.thy ===== *)
theory Event_Pages
  imports Event_Catalog
begin

text \<open>
  The pages of modules/events: the list with its filters, pages and modal, the phase
  chips and selectors, the detail page, and the panels that give an event its sports
  and a sport its organizations. A page is a function from a click, an input or a late
  answer to the next state and the requests that leave.
\<close>

section \<open>The list page\<close>

record event_list =
  el_modal :: bool
  el_editing :: "js option"
  el_query :: string
  el_status :: "ev_status option"
  el_page :: nat

definition el_start :: event_list where
  "el_start = \<lparr> el_modal = False, el_editing = None, el_query = [], el_status = None, el_page = 1 \<rparr>"

datatype list_event =
    El_create | El_edit js | El_delete int bool | El_close
  | El_query string | El_status "ev_status option" | El_clear | El_prev | El_next

definition el_filtered :: "int \<Rightarrow> js list \<Rightarrow> event_list \<Rightarrow> js list" where
  "el_filtered now events s = event_filtered now (el_query s) (el_status s) events"

definition el_pages :: "int \<Rightarrow> js list \<Rightarrow> event_list \<Rightarrow> nat" where
  "el_pages now events s = ev_total_pages (length (el_filtered now events s))"

definition el_shown :: "int \<Rightarrow> js list \<Rightarrow> event_list \<Rightarrow> js list" where
  "el_shown now events s = ev_page_data (el_page s) (el_filtered now events s)"

definition delete_request :: "int \<Rightarrow> request" where
  "delete_request i = body_req ''delete'' ep_event_delete (JObj [(''event_id'', JInt i)])"

text \<open>
  The buttons of administrators are rendered for them only, the page buttons only above a list
  that is not empty; the clear button calls both handlers of the filters.
\<close>

fun el_step :: "string \<Rightarrow> int \<Rightarrow> js list \<Rightarrow> list_event \<Rightarrow> event_list \<Rightarrow> event_list \<times> request list" where
  "el_step role now events El_create s =
     (if is_admin role then (s\<lparr>el_editing := None, el_modal := True\<rparr>, []) else (s, []))"
| "el_step role now events (El_edit e) s =
     (if is_admin role then (s\<lparr>el_editing := Some e, el_modal := True\<rparr>, []) else (s, []))"
| "el_step role now events (El_delete i confirmed) s =
     (s, if is_admin role \<and> confirmed then [delete_request i] else [])"
| "el_step role now events El_close s = (s\<lparr>el_modal := False, el_editing := None\<rparr>, [])"
| "el_step role now events (El_query q) s = (s\<lparr>el_query := q, el_page := 1\<rparr>, [])"
| "el_step role now events (El_status st) s = (s\<lparr>el_status := st, el_page := 1\<rparr>, [])"
| "el_step role now events El_clear s = (s\<lparr>el_query := [], el_status := None, el_page := 1\<rparr>, [])"
| "el_step role now events El_prev s =
     (if el_filtered now events s \<noteq> [] \<and> 1 < el_page s then (s\<lparr>el_page := max 1 (el_page s - 1)\<rparr>, []) else (s, []))"
| "el_step role now events El_next s =
     (if el_filtered now events s \<noteq> [] \<and> el_page s < el_pages now events s
      then (s\<lparr>el_page := min (el_pages now events s) (el_page s + 1)\<rparr>, []) else (s, []))"

text \<open>A run: between two clicks time passes and the list of events may be refetched.\<close>

definition el_run :: "string \<Rightarrow> (int \<times> js list \<times> list_event) list \<Rightarrow> event_list \<Rightarrow> event_list" where
  "el_run role ts s = fold (\<lambda>(now, events, ev). \<lambda>s. fst (el_step role now events ev s)) ts s"

definition clicks :: "string \<Rightarrow> int \<Rightarrow> js list \<Rightarrow> list_event list \<Rightarrow> event_list \<Rightarrow> event_list" where
  "clicks role now events evs s = fold (\<lambda>ev s. fst (el_step role now events ev s)) evs s"

text \<open>The card shown instead of a table row on small screens computes the status by itself.\<close>

definition card_status :: "int \<Rightarrow> js \<Rightarrow> ev_status" where
  "card_status now ev =
     (let start = date_ms (js_str (js_get ''start_date'' ev)); end_d = date_ms (js_str (js_get ''end_date'' ev)) in
      if before_t now start then Upcoming
      else if at_or_after now start \<and> until_t now end_d then Ongoing
      else Completed)"

section \<open>Phases of an event\<close>

definition phase_shown_open :: "js \<Rightarrow> string \<Rightarrow> js" where
  "phase_shown_open event phase = or_nullish (js_get (phase @ ''_is_open'') event) (JBool False)"

definition phase_shown_status :: "js \<Rightarrow> string \<Rightarrow> js" where
  "phase_shown_status event phase = or_nullish (js_get (phase @ ''_status'') event) (JStr ''AUTO'')"

text \<open>Choosing a status in the panel of the detail page.\<close>

definition phase_choice :: "js \<Rightarrow> string \<Rightarrow> string \<Rightarrow> js" where
  "phase_choice event phase st =
     JObj [(''id'', js_get ''id'' event), (''phase'', JStr phase), (''status'', JStr st)]"

definition canManage :: "string \<Rightarrow> bool" where
  "canManage role \<longleftrightarrow> role = ''admin'' \<or> role = ''super_admin'' \<or> role = ''federation''"

definition badge_variant :: "string \<Rightarrow> string" where
  "badge_variant ty =
     (case map_of (zip EventType [''default'', ''info'', ''warning'', ''success'']) ty of
        Some v \<Rightarrow> v | None \<Rightarrow> ''secondary'')"

section \<open>The detail page\<close>

record event_detail =
  ed_sport :: js
  ed_edit :: bool

definition ed_start :: event_detail where "ed_start = \<lparr> ed_sport = JNull, ed_edit = False \<rparr>"

datatype detail_event =
    Ed_publish | Ed_edit | Ed_close | Ed_select js | Ed_phase string string

text \<open>The paths of these two requests carry the id of the loaded event.\<close>

definition ep_event_of :: "js \<Rightarrow> string" where
  "ep_event_of event = ep_events @ ''/'' @ js_string (js_get ''id'' event)"

fun ed_step :: "string \<Rightarrow> js \<Rightarrow> detail_event \<Rightarrow> event_detail \<Rightarrow> event_detail \<times> request list" where
  "ed_step role event Ed_publish s =
     (s, if canManage role then [body_req ''patch'' (ep_event_of event) (update_body (publish_dto event))] else [])"
| "ed_step role event Ed_edit s = ((if canManage role then s\<lparr>ed_edit := True\<rparr> else s), [])"
| "ed_step role event Ed_close s = (s\<lparr>ed_edit := False\<rparr>, [])"
| "ed_step role event (Ed_select sport) s = (s\<lparr>ed_sport := sport\<rparr>, [])"
| "ed_step role event (Ed_phase phase st) s =
     (s, if canManage role then [body_req ''patch'' (ep_event_of event @ ''/phase'') (phase_body (phase_choice event phase st))] else [])"

definition selectedSportName :: "js list \<Rightarrow> js \<Rightarrow> js" where
  "selectedSportName eventSports sel =
     (case find (\<lambda>s. js_get ''sports_id'' s = sel) eventSports of
        Some s \<Rightarrow> js_or (js_get ''name_kh'' s) (JStr []) | None \<Rightarrow> JStr [])"

text \<open>The panel of a sport's organizations is shown for a chosen sport.\<close>

definition org_panel_shown :: "event_detail \<Rightarrow> bool" where
  "org_panel_shown s = truthy (ed_sport s)"

section \<open>The sports of an event\<close>

record sport_panel =
  sp_new :: string
  sp_adding :: bool

definition sp_start :: sport_panel where "sp_start = \<lparr> sp_new = [], sp_adding = False \<rparr>"

datatype panel_event = Pick "string option" | Add | Added bool | Remove js bool

definition add_sport_request :: "int \<Rightarrow> string \<Rightarrow> request" where
  "add_sport_request e v =
     body_req ''post'' ep_sportsEvents (JObj [(''events_id'', JInt e), (''sports_id'', JNum (to_number v))])"

definition remove_sport_request :: "js \<Rightarrow> request" where
  "remove_sport_request i = body_req ''delete'' (ep_sportsEvents @ ''/'' @ js_string i) JUndef"

text \<open>A failed addition keeps the choice.\<close>

fun sp_step :: "string \<Rightarrow> int \<Rightarrow> panel_event \<Rightarrow> sport_panel \<Rightarrow> sport_panel \<times> request list" where
  "sp_step role e (Pick v) s = ((if is_admin role then s\<lparr>sp_new := or_else v []\<rparr> else s), [])"
| "sp_step role e Add s =
     (if is_admin role \<and> sp_new s \<noteq> [] \<and> \<not> sp_adding s
      then (s\<lparr>sp_adding := True\<rparr>, [add_sport_request e (sp_new s)]) else (s, []))"
| "sp_step role e (Added ok) s = ((if ok then s\<lparr>sp_new := [], sp_adding := False\<rparr> else s\<lparr>sp_adding := False\<rparr>), [])"
| "sp_step role e (Remove i confirmed) s = (s, if is_admin role \<and> confirmed then [remove_sport_request i] else [])"

section \<open>The organizations of a sport\<close>

record org_panel =
  op_new :: string
  op_search :: string
  op_adding :: bool

definition op_start :: org_panel where "op_start = \<lparr> op_new = [], op_search = [], op_adding = False \<rparr>"

datatype orgs_event = Op_pick "string option" | Op_search string | Op_add | Op_added bool | Op_remove js bool

definition add_org_request :: "int \<Rightarrow> js \<Rightarrow> string \<Rightarrow> request" where
  "add_org_request e sport v =
     body_req ''post'' ep_event_addOrgToSport
       (JObj [(''events_id'', JInt e), (''sports_id'', sport), (''org_id'', JNum (to_number v))])"

definition delete_link_request :: "js \<Rightarrow> request" where
  "delete_link_request link = body_req ''delete'' ep_event_deleteOrgLink (JObj [(''association_id'', link)])"

text \<open>Success and failure both clear the choice.\<close>

fun op_step :: "string \<Rightarrow> int \<Rightarrow> js \<Rightarrow> orgs_event \<Rightarrow> org_panel \<Rightarrow> org_panel \<times> request list" where
  "op_step role e sport (Op_pick v) s = ((if is_admin role then s\<lparr>op_new := or_else v []\<rparr> else s), [])"
| "op_step role e sport (Op_search q) s = ((if is_admin role then s\<lparr>op_search := q\<rparr> else s), [])"
| "op_step role e sport Op_add s =
     (if is_admin role \<and> op_new s \<noteq> [] \<and> \<not> op_adding s
      then (s\<lparr>op_adding := True\<rparr>, [add_org_request e sport (op_new s)]) else (s, []))"
| "op_step role e sport (Op_added ok) s = (s\<lparr>op_new := [], op_adding := False\<rparr>, [])"
| "op_step role e sport (Op_remove org confirmed) s =
     (s, if is_admin role \<and> confirmed then [delete_link_request (removed_link org)] else [])"

section \<open>Lemmas\<close>

lemma card_status_agrees: "card_status = list_status"
  by (rule ext)+ (simp add: card_status_def list_status_def)

lemma el_run_Nil [simp]: "el_run role [] s = s"
  by (simp add: el_run_def)

lemma el_run_Cons [simp]:
  "el_run role ((now, events, ev) # ts) s = el_run role ts (fst (el_step role now events ev s))"
  by (simp add: el_run_def)

lemma clicks_simps [simp]:
  "clicks role now events [] s = s"
  "clicks role now events (ev # evs) s = clicks role now events evs (fst (el_step role now events ev s))"
  by (simp_all add: clicks_def)

lemma el_step_page: "1 \<le> el_page s \<Longrightarrow> 1 \<le> el_page (fst (el_step role now events ev s))"
  by (cases ev) (auto simp: el_pages_def ev_total_pages_def)

lemma el_run_page: "1 \<le> el_page s \<Longrightarrow> 1 \<le> el_page (el_run role ts s)"
proof (induction ts arbitrary: s)
  case (Cons x ts)
  obtain now events ev where x: "x = (now, events, ev)" by (metis prod_cases3)
  have "1 \<le> el_page (fst (el_step role now events ev s))" using Cons.prems by (rule el_step_page)
  with Cons.IH show ?case by (simp add: x)
qed simp

text \<open>Previous and next change nothing but the page.\<close>

lemma paging_keeps_filter:
  "ev \<in> {El_prev, El_next} \<Longrightarrow>
     el_filtered now events (fst (el_step role now events ev s)) = el_filtered now events s"
  by (auto simp: el_filtered_def)

lemma go_on:
  assumes "el_filtered now events s \<noteq> []" "el_page s + n \<le> el_pages now events s"
  shows "el_page (clicks role now events (replicate n El_next) s) = el_page s + n \<and>
    el_filtered now events (clicks role now events (replicate n El_next) s) = el_filtered now events s"
  using assms
proof (induction n arbitrary: s)
  case (Suc n)
  let ?t = "fst (el_step role now events El_next s)"
  have t: "el_page ?t = el_page s + 1" using Suc.prems by simp
  have f: "el_filtered now events ?t = el_filtered now events s" by (rule paging_keeps_filter) simp
  then have "el_pages now events ?t = el_pages now events s" by (simp add: el_pages_def)
  with Suc t f show ?case by simp
qed simp

lemma go_back:
  assumes "el_filtered now events s \<noteq> []" "n < el_page s"
  shows "el_page (clicks role now events (replicate n El_prev) s) = el_page s - n \<and>
    el_filtered now events (clicks role now events (replicate n El_prev) s) = el_filtered now events s"
  using assms
proof (induction n arbitrary: s)
  case (Suc n)
  let ?t = "fst (el_step role now events El_prev s)"
  have t: "el_page ?t = el_page s - 1" using Suc.prems by simp
  have f: "el_filtered now events ?t = el_filtered now events s" by (rule paging_keeps_filter) simp
  with Suc t show ?case by simp
qed simp

lemma reach_page:
  assumes "el_filtered now events s \<noteq> []" "1 \<le> p" "p \<le> el_pages now events s" "1 \<le> el_page s"
  obtains evs where "set evs \<subseteq> {El_prev, El_next}" "length evs \<le> max (el_page s) (el_pages now events s) - 1"
    "el_page (clicks role now events evs s) = p"
    "el_filtered now events (clicks role now events evs s) = el_filtered now events s"
proof (cases "el_page s \<le> p")
  case True
  then show thesis
    using go_on[OF assms(1), of "p - el_page s" role] assms
    by (intro that[of "replicate (p - el_page s) El_next"]) auto
next
  case False
  then show thesis
    using go_back[OF assms(1), of "el_page s - p" role] assms
    by (intro that[of "replicate (el_page s - p) El_prev"]) auto
qed

lemma on_its_page: "i < length xs \<Longrightarrow> xs ! i \<in> set (ev_page_data (i div 10 + 1) xs)"
proof -
  assume i: "i < length xs"
  have n: "i mod 10 < length (ev_page_data (i div 10 + 1) xs)"
    using i by (simp add: ev_page_data_def) (metis minus_mult_div_eq_mod mult.commute diff_less_mono div_times_less_eq_dividend le_refl nat_less_le times_div_less_eq_dividend)
  have "ev_page_data (i div 10 + 1) xs ! (i mod 10) = xs ! i"
    using i n by (simp add: ev_page_data_def)
  then show ?thesis using n nth_mem by metis
qed

text \<open>A page beyond the last one is empty: after the only event of the last page is deleted the table
  shows nothing, below a count that is not zero, until the user goes back.\<close>

lemma page_out_of_range: "el_pages now events s < el_page s \<Longrightarrow> el_shown now events s = []"
proof -
  assume a: "el_pages now events s < el_page s"
  have "length (el_filtered now events s) \<le> el_pages now events s * 10"
    by (simp add: el_pages_def ev_total_pages_def)
  also have "\<dots> \<le> (el_page s - 1) * 10" using a by simp
  finally show ?thesis by (simp add: el_shown_def ev_page_data_def)
qed

definition plain_event :: "int \<Rightarrow> js" where
  "plain_event i = JObj [(''id'', JInt i), (''name'', JStr ''Games'')]"

lemma deleted_last_of_page:
  "let s = fst (el_step ''admin'' 0 (map plain_event [0..10]) El_next el_start)
   in el_filtered 0 (map plain_event [0..9]) s \<noteq> [] \<and> el_shown 0 (map plain_event [0..9]) s = []"
  by code_simp

text \<open>The panel of a sport stays open when the sport is removed from the event; its title is empty.\<close>

lemma removed_sport_panel_stays:
  assumes "k \<noteq> 0" "\<forall>s \<in> set eventSports. js_get ''sports_id'' s \<noteq> JInt k"
  shows "org_panel_shown (fst (ed_step role event (Ed_select (JInt k)) d)) \<and>
    selectedSportName eventSports (JInt k) = JStr []"
proof -
  have "find (\<lambda>s. js_get ''sports_id'' s = JInt k) eventSports = None"
    using assms(2) by (simp add: find_None_iff)
  then show ?thesis using assms(1) by (simp add: org_panel_shown_def selectedSportName_def)
qed

text \<open>A federation is shown the phase selectors, whose requests the backend answers only for administrators;
  the choice of a phase status asks for no change of its dates.\<close>

lemma federation_changes_phases:
  "snd (ed_step ''federation'' event (Ed_phase phase st) d) =
     [body_req ''patch'' (ep_event_of event @ ''/phase'')
        (JObj [(''phase'', JStr phase), (''status'', JStr st), (''open_date'', JNull), (''close_date'', JNull)])]"
  by (simp add: canManage_def phase_body_def phase_choice_def js_or_def)

text \<open>C29. Every event can be brought on screen: however the list was used before, with the events refetched,
  deleted or filtered meanwhile, an event that matches the current filters is shown after clicking
  Previous and Next at most as often as there are pages, and a page shows at most ten.\<close>

theorem event_paging_reaches_all:
  assumes "e \<in> set (el_filtered now events (el_run role ts el_start))"
  shows "\<exists>evs. set evs \<subseteq> {El_prev, El_next} \<and>
    length evs \<le> max (el_page (el_run role ts el_start)) (el_pages now events (el_run role ts el_start)) - 1 \<and>
    e \<in> set (el_shown now events (clicks role now events evs (el_run role ts el_start))) \<and>
    length (el_shown now events (clicks role now events evs (el_run role ts el_start))) \<le> 10"
proof -
  let ?s = "el_run role ts el_start"
  let ?xs = "el_filtered now events ?s"
  obtain i where i: "i < length ?xs" "e = ?xs ! i" using assms by (auto simp: in_set_conv_nth)
  have p: "i div 10 + 1 \<le> el_pages now events ?s" using i(1) by (simp add: el_pages_def ev_total_pages_def)
  have s: "1 \<le> el_page ?s" by (rule el_run_page) (simp add: el_start_def)
  have ne: "?xs \<noteq> []" using i(1) by auto
  obtain evs where evs: "set evs \<subseteq> {El_prev, El_next}" "length evs \<le> max (el_page ?s) (el_pages now events ?s) - 1"
    "el_page (clicks role now events evs ?s) = i div 10 + 1" "el_filtered now events (clicks role now events evs ?s) = ?xs"
    by (rule reach_page[OF ne _ p s]) simp_all
  moreover have "e \<in> set (el_shown now events (clicks role now events evs ?s))"
    using on_its_page[OF i(1)] i(2) evs(3,4) by (simp add: el_shown_def)
  moreover have "length (el_shown now events (clicks role now events evs ?s)) \<le> 10"
    by (simp add: el_shown_def ev_page_data_def)
  ultimately show ?thesis by blast
qed

lemma event_paging_reaches_all_witness:
  "\<exists>evs. set evs \<subseteq> {El_prev, El_next} \<and> length evs \<le> 1 \<and>
     plain_event 10 \<in> set (el_shown 0 (map plain_event [0..10]) (clicks ''admin'' 0 (map plain_event [0..10]) evs
       (el_run ''admin'' [(0, [], El_query ''game'')] el_start)))"
proof -
  let ?s = "el_run ''admin'' [(0, [], El_query ''game'')] el_start"
  have m: "plain_event 10 \<in> set (el_filtered 0 (map plain_event [0..10]) ?s)" by code_simp
  have n: "max (el_page ?s) (el_pages 0 (map plain_event [0..10]) ?s) - 1 = 1" by code_simp
  show ?thesis using event_paging_reaches_all[OF m] unfolding n by blast
qed

end
