(* ===== verification/Masks.thy ===== *)
theory Masks
  imports Survey_Steps
begin

text \<open>
  The maskers of personal data in shared/utils, the second phone mask of the participant
  page, and the choice of an error text. The lemmas say exactly which part of a value a
  mask shows: two values have the same mask if and only if they agree on that part.
\<close>

section \<open>Maskers\<close>

text \<open>A missing value reads as the empty text.\<close>

definition maskPhone :: "string option \<Rightarrow> string" where
  "maskPhone phone =
     (let digits = filter is_digit (or_else phone []) in
      if length digits < 4 then ''***'' else ''*** *** '' @ slice_last 3 digits)"

definition maskNationalId :: "string option \<Rightarrow> string" where
  "maskNationalId i =
     (let s = trim (or_else i []) in
      if length s \<le> 4 then ''***'' else ''**** **** '' @ slice_last 4 s)"

definition last_index :: "char \<Rightarrow> string \<Rightarrow> int" where
  "last_index c s = (if c \<in> set s then int (length s) - 1 - int (length (takeWhile (\<lambda>d. d \<noteq> c) (rev s))) else -1)"

definition maskEmail :: "string option \<Rightarrow> string" where
  "maskEmail email =
     (case email of
        None \<Rightarrow> ''***''
      | Some e \<Rightarrow>
          if e = [] \<or> CHR ''@'' \<notin> set e then ''***''
          else
            let parts = split_on (CHR ''@'') e; lcl = parts ! 0; domain = parts ! 1;
                maskedLocal = (if length lcl \<le> 2 then lcl @ ''***'' else take 2 lcl @ ''***'');
                dotIndex = last_index (CHR ''.'') domain;
                maskedDomain = (if dotIndex > 0 then ''***'' @ drop (nat dotIndex) domain else ''***'')
            in maskedLocal @ ''@'' @ maskedDomain)"

text \<open>The mask of the participant page: one bullet for every hidden character.\<close>

definition bullets :: "nat \<Rightarrow> string" where
  "bullets n = concat (replicate n (utf8 [226, 128, 162]))"

definition detail_maskPhone :: "string \<Rightarrow> string" where
  "detail_maskPhone phone =
     (if length phone \<le> 3 then bullets 3 else bullets (length phone - 3) @ slice_last 3 phone)"

definition shown_phone :: "bool \<Rightarrow> string \<Rightarrow> string" where
  "shown_phone phoneShown phone =
     (if phone \<noteq> [] then (if phoneShown then phone else detail_maskPhone phone) else utf8 [226, 128, 148])"

section \<open>Error texts\<close>

text \<open>The body of an error response carries its code beside the detail; the map of codes is empty.\<close>

definition ERROR_CODE_KEYS :: "(string \<times> string) list" where "ERROR_CODE_KEYS = []"

definition extractApiErrorCode :: "js_error \<Rightarrow> js \<Rightarrow> string option" where
  "extractApiErrorCode error body =
     (case error of
        AxiosError _ _ _ \<Rightarrow>
          (case js_get ''code'' body of JStr c \<Rightarrow> if c \<noteq> [] then Some c else None | _ \<Rightarrow> None)
      | _ \<Rightarrow> None)"

definition apiErrorKey :: "js_error \<Rightarrow> js \<Rightarrow> string" where
  "apiErrorKey error body =
     (case extractApiErrorCode error body of
        Some code \<Rightarrow> (case map_of ERROR_CODE_KEYS code of Some k \<Rightarrow> if k \<noteq> [] then k else ''generic'' | None \<Rightarrow> ''generic'')
      | None \<Rightarrow> ''generic'')"

section \<open>What a mask shows\<close>

lemma slice_last_eq_length: "n \<le> length s \<Longrightarrow> length (slice_last n s) = n"
  by (simp add: slice_last_def)

definition phone_part :: "string option \<Rightarrow> string option" where
  "phone_part phone =
     (let digits = filter is_digit (or_else phone []) in if length digits < 4 then None else Some (slice_last 3 digits))"

lemma maskPhone_part: "maskPhone p = (case phone_part p of None \<Rightarrow> ''***'' | Some t \<Rightarrow> ''*** *** '' @ t)"
  by (simp add: maskPhone_def phone_part_def Let_def)

lemma maskPhone_eq: "maskPhone p = maskPhone q \<longleftrightarrow> phone_part p = phone_part q"
  by (auto simp: maskPhone_part split: option.splits)

definition id_part :: "string option \<Rightarrow> string option" where
  "id_part i = (let s = trim (or_else i []) in if length s \<le> 4 then None else Some (slice_last 4 s))"

lemma maskNationalId_part:
  "maskNationalId i = (case id_part i of None \<Rightarrow> ''***'' | Some t \<Rightarrow> ''**** **** '' @ t)"
  by (simp add: maskNationalId_def id_part_def Let_def)

lemma maskNationalId_eq: "maskNationalId i = maskNationalId j \<longleftrightarrow> id_part i = id_part j"
  by (auto simp: maskNationalId_part split: option.splits)

text \<open>Of an address the mask shows two characters of the name and the last label of the domain.\<close>

definition email_part :: "string option \<Rightarrow> (string \<times> string) option" where
  "email_part email =
     (case email of
        None \<Rightarrow> None
      | Some e \<Rightarrow>
          if CHR ''@'' \<notin> set e then None
          else let parts = split_on (CHR ''@'') e; d = last_index (CHR ''.'') (parts ! 1)
               in Some (take 2 (parts ! 0), if d > 0 then drop (nat d) (parts ! 1) else []))"

lemma maskEmail_part:
  "maskEmail email = (case email_part email of None \<Rightarrow> ''***'' | Some (a, b) \<Rightarrow> a @ ''***@***'' @ b)"
  by (auto simp: maskEmail_def email_part_def Let_def split: option.splits)

lemma email_part_no_at:
  assumes "email_part email = Some (a, b)"
  shows "CHR ''@'' \<notin> set a" "length a \<le> 2"
proof -
  obtain e where e: "email = Some e" "a = take 2 (split_on (CHR ''@'') e ! 0)"
    using assms by (auto simp: email_part_def Let_def split: option.splits if_splits)
  have "CHR ''@'' \<notin> set (split_on (CHR ''@'') e ! 0)"
    by (rule split_on_elem_no_sep[of _ _ e]) (rule nth_mem, simp)
  then show "CHR ''@'' \<notin> set a" "length a \<le> 2" using e(2) by (auto dest: in_set_takeD)
qed

lemma at_split:
  assumes "a @ CHR ''@'' # x = b @ CHR ''@'' # y" "CHR ''@'' \<notin> set a" "CHR ''@'' \<notin> set b"
  shows "a = b \<and> x = y"
  using split_on_append[of "CHR ''@''" a x] split_on_append[of "CHR ''@''" b y] assms
  by (metis append_same_eq list.sel(1) split_on_append same_append_eq list.sel(3))

lemma maskEmail_eq: "maskEmail e = maskEmail f \<longleftrightarrow> email_part e = email_part f"
proof -
  have n: "a @ ''***@***'' @ b \<noteq> ''***''" for a b :: string
  proof
    assume "a @ ''***@***'' @ b = ''***''"
    then have "length (a @ ''***@***'' @ b) = length ''***''" by simp
    then show False by simp
  qed
  have i: "a = c \<and> b = d"
    if "a @ ''***@***'' @ b = c @ ''***@***'' @ d" "CHR ''@'' \<notin> set a" "CHR ''@'' \<notin> set c" for a b c d :: string
    using at_split[of "a @ ''***''" "''***'' @ b" "c @ ''***''" "''***'' @ d"] that by simp
  show ?thesis
  proof (cases "email_part e"; cases "email_part f")
    fix x y
    assume xy: "email_part e = Some x" "email_part f = Some y"
    obtain a b c d where p: "x = (a, b)" "y = (c, d)" by (cases x, cases y) blast
    show ?thesis
      using i[of a b c d] email_part_no_at(1)[of e a b] email_part_no_at(1)[of f c d] xy p
      by (auto simp: maskEmail_part)
  qed (auto simp: maskEmail_part n n[symmetric] split: prod.splits)
qed

text \<open>The mask of the participant page tells numbers of different length apart, and of any two numbers it
  hides all but the last three characters.\<close>

lemma length_bullets [simp]: "length (bullets n) = 3 * n"
  by (simp add: bullets_def utf8_def length_concat sum_list_replicate)

lemma detail_mask_leaks_length:
  assumes "3 < length p" "3 < length q" "detail_maskPhone p = detail_maskPhone q"
  shows "length p = length q"
proof -
  have "length (detail_maskPhone p) = length (detail_maskPhone q)" using assms(3) by simp
  then show ?thesis using assms(1,2) by (simp add: detail_maskPhone_def slice_last_def)
qed

text \<open>Whatever the error, the text is the generic one: no code has a text yet.\<close>

lemma apiErrorKey_generic: "apiErrorKey e body = ''generic''"
  by (simp add: apiErrorKey_def ERROR_CODE_KEYS_def split: option.split)

text \<open>The masks of lists show nothing beyond a fixed small part of a value: two phone numbers have the same
  mask exactly if both have fewer than four digits or both end in the same three digits, two identity
  numbers if both have at most four characters or agree in the last four, two addresses if they agree in
  the first two characters of the name and in the last label of the domain.\<close>

theorem masks_show_only_their_part:
  "(maskPhone p = maskPhone q \<longleftrightarrow> phone_part p = phone_part q) \<and>
   (maskNationalId i = maskNationalId j \<longleftrightarrow> id_part i = id_part j) \<and>
   (maskEmail e = maskEmail f \<longleftrightarrow> email_part e = email_part f)"
  by (simp add: maskPhone_eq maskNationalId_eq maskEmail_eq)

end
