(* ===== verification/File_Upload.thy ===== *)
theory File_Upload
  imports Http Survey_Steps
begin

text \<open>
  Uploading a file: the checks and the request of core/lib/upload/fileStorage.ts, the
  control shared/ui/file-upload.tsx, and the form field behind it in the documents step of
  the registration. The answer of an upload is an event of its own: it may come after
  the user removed the file or chose another one.
\<close>

section \<open>The upload service\<close>

record file_info =
  f_name :: string
  f_type :: string
  f_size :: nat

record upload_constraints =
  allowedTypes :: "string list"
  maxSize :: nat
  uc_label :: string

definition PHOTO :: upload_constraints where
  "PHOTO = \<lparr> allowedTypes = [''image/jpeg'', ''image/png'', ''image/webp''], maxSize = 2 * 1024 * 1024,
     uc_label = ''JPG, PNG, WebP'' \<rparr>"

definition DOCUMENT :: upload_constraints where
  "DOCUMENT = \<lparr> allowedTypes = [''image/jpeg'', ''image/png'', ''image/webp'', ''application/pdf''],
     maxSize = 5 * 1024 * 1024, uc_label = ''JPG, PNG, WebP, PDF'' \<rparr>"

text \<open>The multipart body with the file.\<close>

definition upload_request :: "file_info \<Rightarrow> request" where
  "upload_request file = body_req ''post'' (api_v1 ''files'') (JObj [(''file'', JObj
     [(''name'', JStr (f_name file)), (''type'', JStr (f_type file)), (''size'', JInt (int (f_size file)))])])"

definition uploadFile :: "backend \<Rightarrow> upload_constraints \<Rightarrow> file_info \<Rightarrow> (js_error, js) result" where
  "uploadFile srv c file =
     (if f_type file \<notin> set (allowedTypes c)
      then Inl (OtherError (''Invalid file type. Allowed: '' @ uc_label c @ ''.''))
      else if f_size file > maxSize c
      then Inl (OtherError (''File is too large. Maximum size is '' @ show_nat (maxSize c div 1024 div 1024) @ ''MB.''))
      else bind_r (srv (upload_request file)) (member ''url''))"

definition uploadPhoto :: "backend \<Rightarrow> file_info \<Rightarrow> (js_error, js) result" where
  "uploadPhoto srv file = uploadFile srv PHOTO file"

definition uploadDocument :: "backend \<Rightarrow> file_info \<Rightarrow> (js_error, js) result" where
  "uploadDocument srv file = uploadFile srv DOCUMENT file"

section \<open>The control and its field\<close>

datatype upload_variant = Hero | Tile

text \<open>A running upload keeps the file, the value of the field and the preview it had when it began.\<close>

record running_upload =
  ru_file :: file_info
  ru_value :: js
  ru_objectUrl :: js

text \<open>The field of the form holds a path or null.\<close>

record upload_state =
  up_field :: js
  up_drag :: bool
  up_uploading :: bool
  up_error :: "string option"
  up_preview :: js
  up_fileName :: "string option"
  up_running :: "running_upload list"

definition upload_start :: "js \<Rightarrow> upload_state" where
  "upload_start field =
     \<lparr> up_field = field, up_drag = False, up_uploading = False, up_error = None, up_preview = js_or field JNull,
       up_fileName = None, up_running = [] \<rparr>"

definition MAX_SIZE :: nat where "MAX_SIZE = 5 * 1024 * 1024"

definition is_image :: "file_info \<Rightarrow> bool" where
  "is_image file = starts_with (f_type file) ''image/''"

definition onChange :: "js \<Rightarrow> upload_state \<Rightarrow> upload_state" where
  "onChange v s = s\<lparr>up_field := js_or v JNull\<rparr>"

definition handleFile :: "upload_variant \<Rightarrow> file_info \<Rightarrow> upload_state \<Rightarrow> upload_state" where
  "handleFile var file s =
     (if f_size file > MAX_SIZE then s\<lparr>up_error := Some ''File must be under 5MB''\<rparr>
      else if \<not> is_image file \<and> var = Hero then s\<lparr>up_error := Some ''Please select an image file''\<rparr>
      else
        let objectUrl = (if is_image file then JStr (''blob:'' @ f_name file) else JNull) in
        s\<lparr>up_uploading := True, up_error := None,
          up_preview := (if truthy objectUrl then objectUrl else up_preview s),
          up_fileName := Some (f_name file),
          up_running := up_running s @ [\<lparr> ru_file = file, ru_value = up_field s, ru_objectUrl = objectUrl \<rparr>]\<rparr>)"

definition upload_done :: "running_upload \<Rightarrow> (js_error, js) result \<Rightarrow> upload_state \<Rightarrow> upload_state" where
  "upload_done u answer s =
     (case answer of
        Inr path \<Rightarrow> (onChange path s)\<lparr>up_uploading := False\<rparr>
      | Inl _ \<Rightarrow> s\<lparr>up_error := Some ''Upload failed'', up_preview := js_or (ru_value u) JNull,
                  up_fileName := None, up_uploading := False\<rparr>)"

definition handleRemove :: "upload_state \<Rightarrow> upload_state" where
  "handleRemove s = onChange (JStr []) (s\<lparr>up_preview := JNull, up_fileName := None, up_error := None\<rparr>)"

text \<open>What is rendered: a preview, a file name, or the area that takes a file.\<close>

definition shows_file :: "upload_variant \<Rightarrow> upload_state \<Rightarrow> bool" where
  "shows_file var s \<longleftrightarrow> (truthy (up_preview s) \<and> var = Hero) \<or> (up_fileName s \<noteq> None \<and> up_fileName s \<noteq> Some [] \<and> var = Tile)"

text \<open>The i-th running upload is answered by a server; the label of the field opens the file dialog too.\<close>

datatype upload_event = Choose file_info | Drop "file_info option" | DragOver | DragLeave | Answered nat backend | RemoveFile

fun upload_step ::
  "upload_variant \<Rightarrow> (backend \<Rightarrow> file_info \<Rightarrow> (js_error, js) result) \<Rightarrow> upload_event \<Rightarrow> upload_state \<Rightarrow> upload_state" where
  "upload_step var onUpload (Choose file) s = (if shows_file var s then s else handleFile var file s)"
| "upload_step var onUpload (Drop f) s =
     (if shows_file var s then s
      else case f of None \<Rightarrow> s\<lparr>up_drag := False\<rparr> | Some file \<Rightarrow> handleFile var file (s\<lparr>up_drag := False\<rparr>))"
| "upload_step var onUpload DragOver s = (if shows_file var s then s else s\<lparr>up_drag := True\<rparr>)"
| "upload_step var onUpload DragLeave s = (if shows_file var s then s else s\<lparr>up_drag := False\<rparr>)"
| "upload_step var onUpload (Answered i srv) s =
     (if i < length (up_running s)
      then upload_done (up_running s ! i) (onUpload srv (ru_file (up_running s ! i)))
             (s\<lparr>up_running := take i (up_running s) @ drop (Suc i) (up_running s)\<rparr>)
      else s)"
| "upload_step var onUpload RemoveFile s = (if shows_file var s then handleRemove s else s)"

definition upload_run ::
  "upload_variant \<Rightarrow> (backend \<Rightarrow> file_info \<Rightarrow> (js_error, js) result) \<Rightarrow> upload_event list \<Rightarrow> upload_state \<Rightarrow> upload_state" where
  "upload_run var onUpload evs s = fold (upload_step var onUpload) evs s"

section \<open>Lemmas\<close>

lemma upload_run_simps [simp]:
  "upload_run var up [] s = s"
  "upload_run var up (ev # evs) s = upload_run var up evs (upload_step var up ev s)"
  by (simp_all add: upload_run_def)

text \<open>Only a file that meets the constraints reaches the server, and its path is what the server answered.\<close>

lemma uploadFile_Inr:
  "uploadFile srv c file = Inr path \<longleftrightarrow>
     f_type file \<in> set (allowedTypes c) \<and> f_size file \<le> maxSize c \<and>
     bind_r (srv (upload_request file)) (member ''url'') = Inr path"
  by (auto simp: uploadFile_def)

text \<open>What the control lets pass the service need not: a photo between two and five megabytes, which the
  control announces as accepted, always ends as a failed upload.\<close>

lemma big_photo_fails:
  assumes "2 * 1024 * 1024 < f_size file" "f_size file \<le> MAX_SIZE" "is_image file" "\<not> shows_file Hero s"
  shows "up_error (upload_step Hero uploadPhoto (Answered (length (up_running s)) srv)
    (upload_step Hero uploadPhoto (Choose file) s)) = Some ''Upload failed''"
proof -
  have "\<exists>e. uploadPhoto srv file = Inl e"
    using assms(1) by (simp add: uploadPhoto_def uploadFile_def PHOTO_def)
  then show ?thesis
    using assms(2-4) by (auto simp: handleFile_def upload_done_def nth_append Let_def split: if_splits)
qed

text \<open>A tile says uploaded as soon as the upload starts.\<close>

lemma tile_shown_before_answer:
  assumes "f_size file \<le> MAX_SIZE" "f_name file \<noteq> []" "up_fileName s = None"
  shows "shows_file Tile (upload_step Tile up (Choose file) s) \<and>
    up_uploading (upload_step Tile up (Choose file) s) \<and>
    up_field (upload_step Tile up (Choose file) s) = up_field s"
  using assms by (simp add: shows_file_def handleFile_def Let_def)

text \<open>A file that is removed while its upload runs comes back into the form, which then shows no file.\<close>

lemma removed_file_comes_back:
  assumes "f_size file \<le> MAX_SIZE" "is_image file" "up_preview s = JNull" "up_running s = []"
    and "up srv file = Inr (JStr path)" "path \<noteq> []"
  defines "t \<equiv> upload_run Hero up [Choose file, RemoveFile, Answered 0 srv] s"
  shows "up_field t = JStr path \<and> \<not> shows_file Hero t"
  using assms
  by (simp add: t_def shows_file_def handleFile_def handleRemove_def onChange_def upload_done_def js_or_def Let_def)

text \<open>A document that was uploaded is not shown after the step was left and entered again.\<close>

lemma document_not_shown_again: "\<not> shows_file Tile (upload_start (JStr path))"
  by (simp add: shows_file_def upload_start_def)

text \<open>The invariant: the field is unchanged, empty, or the path of a file the service accepted.\<close>

definition field_ok :: "upload_constraints \<Rightarrow> js \<Rightarrow> js \<Rightarrow> bool" where
  "field_ok c v0 v \<longleftrightarrow>
     v = v0 \<or> v = JNull \<or>
     (\<exists>file srv. f_type file \<in> set (allowedTypes c) \<and> f_size file \<le> maxSize c \<and>
        bind_r (srv (upload_request file)) (member ''url'') = Inr v)"

lemma upload_step_field:
  assumes "field_ok c v0 (up_field s)"
  shows "field_ok c v0 (up_field (upload_step var (\<lambda>srv. uploadFile srv c) ev s))"
proof (cases ev)
  case (Answered i srv)
  show ?thesis
  proof (cases "i < length (up_running s)")
    case True
    show ?thesis
    proof (cases "uploadFile srv c (ru_file (up_running s ! i))")
      case (Inr path)
      then show ?thesis
        using Answered True uploadFile_Inr[of srv c "ru_file (up_running s ! i)" path]
        by (auto simp: upload_done_def onChange_def js_or_def field_ok_def)
    qed (use assms Answered True in \<open>simp add: upload_done_def\<close>)
  qed (use assms Answered in simp)
qed (use assms in \<open>auto simp: handleFile_def handleRemove_def onChange_def js_or_def field_ok_def Let_def
       split: option.split\<close>)

lemma upload_run_field:
  "field_ok c v0 (up_field s) \<Longrightarrow> field_ok c v0 (up_field (upload_run var (\<lambda>srv. uploadFile srv c) evs s))"
proof (induction evs arbitrary: s)
  case (Cons ev evs)
  then show ?case using upload_step_field[of c v0 s var ev] by simp
qed simp

text \<open>The photo and document fields hold only accepted files: whatever files are chosen, dropped or removed,
  and in whatever order the uploads are answered, a field is what it was at the start, empty, or the path
  the server answered for a file whose type and size the upload service allows.\<close>

theorem uploaded_fields_valid:
  assumes "v = up_field (upload_run var (\<lambda>srv. uploadFile srv c) evs (upload_start v0))"
  shows "v = v0 \<or> v = JNull \<or>
    (\<exists>file srv. f_type file \<in> set (allowedTypes c) \<and> f_size file \<le> maxSize c \<and>
       bind_r (srv (upload_request file)) (member ''url'') = Inr v)"
  using upload_run_field[of c v0 "upload_start v0" var evs] assms by (simp add: field_ok_def upload_start_def)

definition sample_photo :: file_info where
  "sample_photo = \<lparr> f_name = ''me.png'', f_type = ''image/png'', f_size = 1000 \<rparr>"

definition url_server :: backend where
  "url_server rq = Inr (JObj [(''url'', JStr ''/api/v1/files/7'')])"

lemma uploaded_fields_valid_witness:
  "JStr ''/api/v1/files/7'' = JNull \<or>
    (\<exists>file srv. f_type file \<in> set (allowedTypes PHOTO) \<and> f_size file \<le> maxSize PHOTO \<and>
       bind_r (srv (upload_request file)) (member ''url'') = Inr (JStr ''/api/v1/files/7''))"
proof -
  have "JStr ''/api/v1/files/7'' =
      up_field (upload_run Hero (\<lambda>srv. uploadFile srv PHOTO) [Choose sample_photo, Answered 0 url_server] (upload_start JNull))"
    by (simp add: upload_start_def js_or_def shows_file_def handleFile_def Let_def sample_photo_def MAX_SIZE_def
        is_image_def starts_with_def upload_done_def uploadFile_def PHOTO_def url_server_def onChange_def)
  from uploaded_fields_valid[OF this] show ?thesis by simp
qed

end
