(* ===== verification/Shared_Controls.thy ===== *)
theory Shared_Controls
  imports Form Review_Groups
begin

text \<open>
  The shared controls that decide something: the select and text fields of forms
  (shared/form), and of shared/ui the confirmation dialog, the filter toolbar, the pagination
  bar, the toggle group, the grid of options and the columns of a table.
\<close>

section \<open>Form fields\<close>

definition stringFields :: "string list" where
  "stringFields = [''organizationId'', ''eventType'', ''gender'', ''idDocumentType'', ''role'', ''leaderRole'']"

text \<open>What choosing an option writes: outside the listed fields a text that reads as a number becomes one.\<close>

definition select_value :: "string \<Rightarrow> string \<Rightarrow> js" where
  "select_value name v =
     (if name \<in> set stringFields then JStr v
      else if to_number v \<noteq> NaN then JNum (to_number v) else JStr v)"

definition select_shown :: "js \<Rightarrow> string" where
  "select_shown field = js_string (js_or field (JStr []))"

definition select_label :: "(string \<times> string) list \<Rightarrow> string \<Rightarrow> js \<Rightarrow> string" where
  "select_label options placeholder field =
     (case map_of options (select_shown field) of Some l \<Rightarrow> if l \<noteq> [] then l else placeholder | None \<Rightarrow> placeholder)"

definition text_shown :: "js \<Rightarrow> js" where
  "text_shown field = or_nullish field (JStr [])"

text \<open>An id that is chosen stays the chosen option; the id zero is shown as no choice.\<close>

lemma chosen_id_shown: "name \<notin> set stringFields \<Longrightarrow> select_shown (select_value name (show_int i)) = (if i = 0 then [] else show_int i)"
  by (simp add: select_value_def select_shown_def js_or_def)

lemma chosen_text_shown:
  "name \<in> set stringFields \<or> to_number v = NaN \<Longrightarrow> select_shown (select_value name v) = v"
  by (cases v) (auto simp: select_value_def select_shown_def js_or_def)

text \<open>The empty option of a field outside the list writes the number zero.\<close>

lemma empty_option_writes_zero: "name \<notin> set stringFields \<Longrightarrow> select_value name [] = JInt 0"
  by (simp add: select_value_def) code_simp

section \<open>The confirmation dialog\<close>

record confirm_options =
  co_title :: "string option"
  co_message :: "string option"
  co_destructive :: bool

text \<open>A call of confirm returns a promise, here its number; an answer resolves it.\<close>

record confirm_state =
  cd_open :: bool
  cd_options :: "confirm_options option"
  cd_resolver :: "nat option"
  cd_next :: nat
  cd_answers :: "(nat \<times> bool) list"

definition cd_start :: confirm_state where
  "cd_start = \<lparr> cd_open = False, cd_options = None, cd_resolver = None, cd_next = 0, cd_answers = [] \<rparr>"

definition confirm_call :: "confirm_options option \<Rightarrow> confirm_state \<Rightarrow> confirm_state" where
  "confirm_call opts s =
     s\<lparr>cd_options := opts, cd_open := True, cd_resolver := Some (cd_next s), cd_next := Suc (cd_next s)\<rparr>"

definition confirm_settle :: "bool \<Rightarrow> confirm_state \<Rightarrow> confirm_state" where
  "confirm_settle v s =
     s\<lparr>cd_answers := (case cd_resolver s of Some i \<Rightarrow> cd_answers s @ [(i, v)] | None \<Rightarrow> cd_answers s),
       cd_resolver := None, cd_open := False\<rparr>"

definition handleOpenChange :: "bool \<Rightarrow> confirm_state \<Rightarrow> confirm_state" where
  "handleOpenChange nxt s = (if \<not> nxt then confirm_settle False s else s)"

text \<open>The buttons are part of the open dialog; code elsewhere may call confirm at any time.\<close>

inductive confirm_step :: "confirm_state \<Rightarrow> confirm_state \<Rightarrow> bool" where
  ask: "confirm_step s (confirm_call opts s)"
| button: "cd_open s \<Longrightarrow> confirm_step s (confirm_settle v s)"
| change: "confirm_step s (handleOpenChange nxt s)"

inductive confirm_reach :: "confirm_state \<Rightarrow> bool" where
  start: "confirm_reach cd_start"
| step: "confirm_reach s \<Longrightarrow> confirm_step s t \<Longrightarrow> confirm_reach t"

inductive_cases confirm_stepE: "confirm_step s t"

definition confirm_inv :: "confirm_state \<Rightarrow> bool" where
  "confirm_inv s \<longleftrightarrow>
     distinct (map fst (cd_answers s)) \<and> (\<forall>a \<in> set (cd_answers s). fst a < cd_next s) \<and>
     (cd_open s \<longleftrightarrow> cd_resolver s \<noteq> None) \<and>
     (\<forall>i. cd_resolver s = Some i \<longrightarrow> i < cd_next s \<and> i \<notin> fst ` set (cd_answers s))"

lemma confirm_inv_settle: "confirm_inv s \<Longrightarrow> confirm_inv (confirm_settle v s)"
  by (auto simp: confirm_inv_def confirm_settle_def split: option.splits)

lemma confirm_inv_call: "confirm_inv s \<Longrightarrow> confirm_inv (confirm_call opts s)"
  by (auto simp: confirm_inv_def confirm_call_def less_Suc_eq)

lemma confirm_step_inv: "confirm_step s t \<Longrightarrow> confirm_inv s \<Longrightarrow> confirm_inv t"
  by (cases rule: confirm_step.cases) (auto simp: confirm_inv_call confirm_inv_settle handleOpenChange_def)

lemma confirm_reach_inv: "confirm_reach s \<Longrightarrow> confirm_inv s"
proof (induction rule: confirm_reach.induct)
  case start
  show ?case by (simp add: confirm_inv_def cd_start_def)
qed (rule confirm_step_inv)

text \<open>A call that comes while the dialog is open replaces the resolver: the first call is never answered.\<close>

lemma superseded_step:
  "confirm_step s t \<Longrightarrow> i < cd_next s \<and> cd_resolver s \<noteq> Some i \<and> i \<notin> fst ` set (cd_answers s) \<Longrightarrow>
     i < cd_next t \<and> cd_resolver t \<noteq> Some i \<and> i \<notin> fst ` set (cd_answers t)"
  by (cases rule: confirm_step.cases)
    (auto simp: confirm_call_def confirm_settle_def handleOpenChange_def split: option.splits if_splits)

lemma superseded_never_answered:
  assumes "confirm_step\<^sup>*\<^sup>* (confirm_call o2 (confirm_call o1 s)) t" "confirm_inv s"
  shows "cd_next s \<notin> fst ` set (cd_answers t)"
proof -
  have "cd_next s < cd_next t \<and> cd_resolver t \<noteq> Some (cd_next s) \<and> cd_next s \<notin> fst ` set (cd_answers t)"
    using assms(1)
  proof (induction rule: rtranclp_induct)
    case base
    have "cd_next s \<notin> fst ` set (cd_answers s)" using assms(2) by (fastforce simp: confirm_inv_def)
    then show ?case by (simp add: confirm_call_def)
  next
    case (step y z)
    then show ?case using superseded_step by blast
  qed
  then show ?thesis by simp
qed

text \<open>The confirmation dialog answers a call at most once, a shown dialog always has a call waiting for
  it, and whichever way it is closed that call gets the button's answer, or a refusal when the dialog
  is dismissed.\<close>

theorem confirm_answers_once:
  assumes "confirm_reach s"
  shows "distinct (map fst (cd_answers s)) \<and>
    (cd_open s \<longleftrightarrow> (\<exists>i. cd_resolver s = Some i \<and> i \<notin> fst ` set (cd_answers s) \<and>
       (\<forall>v. (i, v) \<in> set (cd_answers (confirm_settle v s)) \<and> \<not> cd_open (confirm_settle v s)) \<and>
       (i, False) \<in> set (cd_answers (handleOpenChange False s))))"
proof -
  note inv = confirm_reach_inv[OF assms, unfolded confirm_inv_def]
  have d: "distinct (map fst (cd_answers s))" using inv by blast
  show ?thesis
  proof (cases "cd_resolver s")
    case None
    then have "\<not> cd_open s" using inv by blast
    then show ?thesis using d None by simp
  next
    case (Some i)
    then have "i \<notin> fst ` set (cd_answers s)" "cd_open s" using inv by blast+
    then show ?thesis using d Some by (simp add: confirm_settle_def handleOpenChange_def)
  qed
qed

lemma confirm_answers_once_witness:
  "cd_answers (confirm_settle True (confirm_call None cd_start)) = [(0, True)] \<and>
   cd_open (confirm_call None cd_start) \<and> distinct (map fst (cd_answers (confirm_call None cd_start)))"
proof -
  have "confirm_reach (confirm_call None cd_start)" by (rule confirm_reach.step[OF confirm_reach.start confirm_step.ask])
  from confirm_answers_once[OF this] show ?thesis by (simp add: confirm_settle_def confirm_call_def cd_start_def)
qed

section \<open>Filters and pages\<close>

record filter_config =
  fc_value :: string
  fc_options :: "(string \<times> string) list"
  fc_clearValue :: "string option"

definition filtersActive :: "filter_config list \<Rightarrow> bool" where
  "filtersActive fs =
     list_ex (\<lambda>f. Some (fc_value f) \<noteq>
       (case fc_clearValue f of Some c \<Rightarrow> Some c | None \<Rightarrow> (case fc_options f of [] \<Rightarrow> None | opt # _ \<Rightarrow> Some (fst opt)))) fs"

definition showClear :: "bool \<Rightarrow> string option \<Rightarrow> filter_config list \<Rightarrow> bool" where
  "showClear onClear search fs \<longleftrightarrow>
     onClear \<and> ((case search of Some q \<Rightarrow> trim q \<noteq> [] | None \<Rightarrow> False) \<or> filtersActive fs)"

text \<open>After the reset to the first options nothing is left to clear.\<close>

lemma cleared_toolbar:
  "list_all (\<lambda>f. fc_clearValue f = None \<and> fc_options f \<noteq> [] \<and> fc_value f = fst (hd (fc_options f))) fs \<Longrightarrow>
     \<not> showClear onClear (Some []) fs"
  by (induction fs) (auto simp: showClear_def filtersActive_def split: list.splits)

record page_bar =
  pb_from :: nat
  pb_to :: nat
  pb_prev :: "nat option"
  pb_next :: "nat option"

text \<open>The bar is hidden for a single page; a disabled button offers no page.\<close>

definition Pagination :: "nat \<Rightarrow> nat \<Rightarrow> nat \<Rightarrow> nat \<Rightarrow> page_bar option" where
  "Pagination page totalPages totalCount pageSize =
     (if totalPages \<le> 1 then None
      else Some \<lparr> pb_from = (page - 1) * pageSize + 1, pb_to = min (page * pageSize) totalCount,
                  pb_prev = (if page \<le> 1 then None else Some (page - 1)),
                  pb_next = (if totalPages \<le> page then None else Some (page + 1)) \<rparr>)"

lemma page_bar_bounds:
  assumes "Pagination page n t sz = Some b" "1 \<le> page" "(page - 1) * sz < t" "0 < sz"
  shows "1 \<le> pb_from b \<and> pb_from b \<le> pb_to b \<and> pb_to b \<le> t \<and> pb_to b - pb_from b < sz"
proof -
  have b: "pb_from b = (page - 1) * sz + 1" "pb_to b = min (page * sz) t"
    using assms(1) by (auto simp: Pagination_def split: if_splits)
  obtain a where a: "a = (page - 1) * sz" by simp
  have "page * sz = a + sz" using assms(2) a by (cases page) auto
  then show ?thesis using b assms(3,4) unfolding a[symmetric] by auto
qed

lemma page_bar_stays_in_range:
  assumes "Pagination page n t sz = Some b" "1 \<le> page" "page \<le> n"
  shows "(\<forall>p. pb_prev b = Some p \<or> pb_next b = Some p \<longrightarrow> 1 \<le> p \<and> p \<le> n)"
  using assms by (auto simp: Pagination_def split: if_splits)

section \<open>Choosing one of several options\<close>

definition grid_filtered :: "string \<Rightarrow> (string \<times> string) list \<Rightarrow> (string \<times> string) list" where
  "grid_filtered search options =
     (if trim search \<noteq> [] then filter (\<lambda>opt. contains_str (to_lower (snd opt)) (to_lower search)) options else options)"

definition grid_click :: "string option \<Rightarrow> string \<Rightarrow> string option" where
  "grid_click sel opt = (if sel = Some opt then None else Some opt)"

definition grid_selected :: "string option \<Rightarrow> (string \<times> string) list \<Rightarrow> (string \<times> string) option" where
  "grid_selected sel options = find (\<lambda>opt. Some (fst opt) = sel) options"

text \<open>The chip of the chosen option stays when a search hides its card.\<close>

lemma hidden_choice_stays:
  "distinct (map fst options) \<Longrightarrow> opt \<in> set options \<Longrightarrow> grid_selected (grid_click None (fst opt)) options = Some opt"
proof (induction options)
  case (Cons a options)
  then show ?case by (auto simp: grid_selected_def grid_click_def image_iff)
qed simp

lemma grid_click_twice: "grid_click (grid_click None opt) opt = None"
  by (simp add: grid_click_def)

text \<open>A table's cell and the columns of its cards on a phone.\<close>

record 'a table_column =
  tc_header :: string
  tc_accessor :: "'a \<Rightarrow> nat \<Rightarrow> js"
  tc_hideOnMobile :: bool
  tc_mobileLabel :: string

definition card_cells :: "'a table_column list \<Rightarrow> 'a \<Rightarrow> nat \<Rightarrow> (string \<times> js) list" where
  "card_cells cols item i =
     map (\<lambda>col. (if tc_mobileLabel col \<noteq> [] then tc_mobileLabel col else tc_header col, tc_accessor col item i))
       (filter (\<lambda>col. \<not> tc_hideOnMobile col) cols)"

definition row_keys :: "('a \<Rightarrow> string) \<Rightarrow> 'a list \<Rightarrow> string list" where
  "row_keys rowKey items = map (\<lambda>(i, item). rowKey item @ ''-'' @ show_nat i) (enumerate 0 items)"

text \<open>The keys of rows are distinct also when records repeat, for keys without a dash.\<close>

lemma row_keys_distinct:
  assumes "\<forall>x \<in> set items. CHR ''-'' \<notin> set (rowKey x)"
  shows "distinct (row_keys rowKey items)"
proof -
  have n: "row_keys rowKey items ! i = rowKey (items ! i) @ CHR ''-'' # show_nat i" if "i < length items" for i
    using that by (simp add: row_keys_def nth_enumerate_eq)
  have "i = j"
    if ij: "i < length items" "j < length items"
      "rowKey (items ! i) @ CHR ''-'' # show_nat i = rowKey (items ! j) @ CHR ''-'' # show_nat j" for i j
  proof -
    have "CHR ''-'' \<notin> set (show_nat k)" for k using show_nat_set by (fastforce simp: is_digit_def digit_chars_def)
    then have "split_on (CHR ''-'') (rowKey (items ! k) @ CHR ''-'' # show_nat k) = [rowKey (items ! k), show_nat k]"
      if "k < length items" for k
      using that assms by (simp add: split_on_append split_on_no_sep)
    from this[OF ij(1)] this[OF ij(2)] ij(3) show "i = j" by (metis list.inject show_nat_inj)
  qed
  moreover have "length (row_keys rowKey items) = length items" by (simp add: row_keys_def)
  ultimately show ?thesis using n by (metis distinct_conv_nth)
qed

end
