(* ===== verification/User_Admin.thy ===== *)
theory User_Admin
  imports Access_Control Shared_Controls Query_Cache Http Masks
begin

text \<open>
  User administration, modules/users: the schemas of answers and of the form, the mapper
  that binds a role to its organization or sport, the adapter, the mutations with the keys
  they touch, the list page and its form. Two checks belong to the schema package and are parameters:
  what counts as a uuid and what as an e-mail address.
\<close>

section \<open>Schemas\<close>

type_synonym text_check = "string \<Rightarrow> bool"

definition nameField :: schema where "nameField = ZString [MinLen 1, MaxLen 100]"
definition userRoleSchema :: schema where "userRoleSchema = ZEnum (map role_value all_roles)"

definition userPublicSchema :: "text_check \<Rightarrow> text_check \<Rightarrow> schema" where
  "userPublicSchema is_uuid is_email = ZObject True
     [(''id'', ZString [Matches is_uuid]), (''kh_family_name'', nameField), (''kh_given_name'', nameField),
      (''en_family_name'', nameField), (''en_given_name'', nameField),
      (''email'', ZString [Matches is_email, MaxLen 120]), (''username'', ZString [MinLen 1, MaxLen 50]),
      (''role'', userRoleSchema), (''organization_id'', znullable_optional zint), (''sport_id'', znullable_optional zint),
      (''photo_path'', znullable_optional (ZString [MaxLen 255])), (''full_name'', znullable_optional (ZString [MaxLen 255])),
      (''is_active'', ZBoolean), (''is_superuser'', ZBoolean), (''created_at'', zstr)]"

definition usersPublicSchema :: "text_check \<Rightarrow> text_check \<Rightarrow> schema" where
  "usersPublicSchema is_uuid is_email = ZObject True
     [(''data'', ZArray (userPublicSchema is_uuid is_email)), (''count'', ZNumber [NInt, NMin 0])]"

definition binding_field :: schema where
  "binding_field = ZOptional (ZOr (ZOr zint zstr) ZNull)"

definition user_form_fields :: "text_check \<Rightarrow> (string \<times> schema) list" where
  "user_form_fields is_email =
     [(''username'', ZString [MinLen 3, MaxLen 50]), (''email'', ZString [Matches is_email, MaxLen 120]),
      (''password'', ZOr (ZOptional (ZString [MaxLen 128])) (ZLiteral (JStr []))),
      (''kh_family_name'', nameField), (''kh_given_name'', nameField), (''en_family_name'', nameField),
      (''en_given_name'', nameField), (''role'', userRoleSchema),
      (''organization_id'', binding_field), (''sport_id'', binding_field)]"

definition user_issues :: "js \<Rightarrow> issue list" where
  "user_issues data =
     (if js_get ''role'' data = JStr (role_value FEDERATION) \<and> \<not> truthy (js_get ''sport_id'' data)
      then [([''sport_id''], ''errors.sportRequired'')] else []) @
     (if js_get ''role'' data = JStr (role_value ORGANIZATION) \<and> \<not> truthy (js_get ''organization_id'' data)
      then [([''organization_id''], ''errors.organizationRequired'')] else [])"

definition userFormSchema :: "text_check \<Rightarrow> schema" where
  "userFormSchema is_email = ZRefine (ZObject False (user_form_fields is_email)) user_issues"

section \<open>Mapper\<close>

text \<open>The sport and the organization a role is bound to.\<close>

definition resolveBindings :: "js \<Rightarrow> js \<Rightarrow> js \<Rightarrow> js \<times> js" where
  "resolveBindings role rawSportId rawOrgId =
     (if role = JStr (role_value FEDERATION)
      then (if truthy rawSportId then JNum (js_to_number rawSportId) else JNull, JNull)
      else if role = JStr (role_value ORGANIZATION)
      then (JNull, if truthy rawOrgId then JNum (js_to_number rawOrgId) else JNull)
      else (JNull, JNull))"

definition user_names :: "js \<Rightarrow> (string \<times> js) list" where
  "user_names v =
     [(''kh_family_name'', js_get ''kh_family_name'' v), (''kh_given_name'', js_get ''kh_given_name'' v),
      (''en_family_name'', js_get ''en_family_name'' v), (''en_given_name'', js_get ''en_given_name'' v),
      (''role'', js_get ''role'' v)]"

definition user_bindings :: "js \<Rightarrow> (string \<times> js) list" where
  "user_bindings v =
     (let b = resolveBindings (js_get ''role'' v) (js_get ''sport_id'' v) (js_get ''organization_id'' v)
      in [(''sport_id'', fst b), (''organization_id'', snd b)])"

definition user_createDto :: "js \<Rightarrow> js" where
  "user_createDto v = JObj
     ([(''username'', js_get ''username'' v), (''email'', js_get ''email'' v),
       (''password'', js_or (js_get ''password'' v) (JStr ''password123''))] @ user_names v @ user_bindings v)"

definition user_updateDto :: "js \<Rightarrow> js \<Rightarrow> js" where
  "user_updateDto i v = JObj
     ([(''id'', i), (''username'', js_get ''username'' v), (''email'', js_get ''email'' v)] @
      user_names v @ user_bindings v @
      (if truthy (js_get ''password'' v) then [(''password'', js_get ''password'' v)] else []))"

section \<open>Adapter\<close>

definition ep_users :: string where "ep_users = api_v1 ''users''"
definition ep_user :: "string \<Rightarrow> string" where "ep_user i = ep_users @ ''/'' @ i"
definition ep_users_update :: string where "ep_users_update = ep_users @ ''/update''"
definition ep_users_delete :: string where "ep_users_delete = ep_users @ ''/delete''"

definition users_getAll ::
  "parser \<Rightarrow> text_check \<Rightarrow> text_check \<Rightarrow> backend \<Rightarrow> (string \<times> js) list \<Rightarrow> (js_error, js) result" where
  "users_getAll parse is_uuid is_email srv params =
     parsed_call parse srv (usersPublicSchema is_uuid is_email) (get_req ep_users params)"

definition users_getById :: "parser \<Rightarrow> text_check \<Rightarrow> text_check \<Rightarrow> backend \<Rightarrow> string \<Rightarrow> (js_error, js) result" where
  "users_getById parse is_uuid is_email srv i =
     parsed_call parse srv (userPublicSchema is_uuid is_email) (get_req (ep_user i) [])"

definition users_create :: "parser \<Rightarrow> text_check \<Rightarrow> text_check \<Rightarrow> backend \<Rightarrow> js \<Rightarrow> (js_error, js) result" where
  "users_create parse is_uuid is_email srv dto =
     parsed_call parse srv (userPublicSchema is_uuid is_email) (body_req ''post'' ep_users dto)"

definition user_update_body :: "js \<Rightarrow> js" where
  "user_update_body dto = JObj [(''user_id'', js_get ''id'' dto), (''data'', js_omit ''id'' dto)]"

definition users_update :: "parser \<Rightarrow> text_check \<Rightarrow> text_check \<Rightarrow> backend \<Rightarrow> js \<Rightarrow> (js_error, js) result" where
  "users_update parse is_uuid is_email srv dto =
     parsed_call parse srv (userPublicSchema is_uuid is_email) (body_req ''patch'' ep_users_update (user_update_body dto))"

definition users_delete :: "backend \<Rightarrow> string \<Rightarrow> (js_error, unit) result" where
  "users_delete srv i = map_r (\<lambda>_. ()) (srv (body_req ''delete'' ep_users_delete (JObj [(''user_id'', JStr i)])))"

section \<open>Mutations and the cache\<close>

definition k_users :: qkey where "k_users = [JStr ''users'']"
definition k_users_list :: "js \<Rightarrow> qkey" where "k_users_list params = [JStr ''users'', JStr ''list'', params]"
definition k_users_detail :: "js \<Rightarrow> qkey" where "k_users_detail i = [JStr ''users'', JStr ''detail'', i]"

text \<open>The entries a success removes and the ones it marks stale.\<close>

datatype user_mutation = UserCreated | UserUpdated js | UserDeleted js

definition user_removes :: "user_mutation \<Rightarrow> qkey list" where
  "user_removes m =
     (case m of UserCreated \<Rightarrow> [] | UserUpdated updated \<Rightarrow> [k_users_detail (js_get ''id'' updated)] | UserDeleted i \<Rightarrow> [k_users_detail i])"

definition user_stale :: "user_mutation \<Rightarrow> qkey list" where
  "user_stale m = [k_users]"

definition removeQueries :: "(qkey \<Rightarrow> qkey \<Rightarrow> bool) \<Rightarrow> qkey list \<Rightarrow> qcache \<Rightarrow> qcache" where
  "removeQueries matches ks c = filter (\<lambda>e. \<not> list_ex (\<lambda>k. matches k (fst e)) ks) c"

text \<open>The mutations set no metadata; the hook shows a toast of its own beside the global one.\<close>

definition no_meta :: mutation_meta where
  "no_meta = \<lparr> suppressErrorToast = False, errorMessage_meta = None, successMessage = None, skipDashboardInvalidation = False \<rparr>"

definition user_error_toasts :: "string \<Rightarrow> string \<Rightarrow> toast list" where
  "user_error_toasts fallback failedToLoad = on_mutation_error fallback no_meta @ [ErrorToast failedToLoad]"

section \<open>The form and the list\<close>

definition edit_user_defaults :: "js \<Rightarrow> form_values" where
  "edit_user_defaults user =
     [(''username'', js_get ''username'' user), (''email'', js_get ''email'' user),
      (''kh_family_name'', or_nullish (js_get ''kh_family_name'' user) (JStr [])),
      (''kh_given_name'', or_nullish (js_get ''kh_given_name'' user) (JStr [])),
      (''en_family_name'', or_nullish (js_get ''en_family_name'' user) (JStr [])),
      (''en_given_name'', or_nullish (js_get ''en_given_name'' user) (JStr [])),
      (''role'', js_get ''role'' user),
      (''organization_id'', or_nullish (js_get ''organization_id'' user) (JStr [])),
      (''sport_id'', or_nullish (js_get ''sport_id'' user) (JStr []))]"

definition new_user_defaults :: form_values where
  "new_user_defaults =
     [(''role'', JStr (role_value ORGANIZATION)), (''username'', JStr []), (''email'', JStr []), (''password'', JStr []),
      (''kh_family_name'', JStr []), (''kh_given_name'', JStr []), (''en_family_name'', JStr []), (''en_given_name'', JStr []),
      (''organization_id'', JStr []), (''sport_id'', JStr [])]"

text \<open>The fields rendered: the password for a new user only, the bindings by the chosen role.\<close>

definition user_fields_shown :: "bool \<Rightarrow> js \<Rightarrow> string list" where
  "user_fields_shown isEditing role =
     [''username'', ''email''] @ (if isEditing then [] else [''password'']) @
     [''kh_family_name'', ''kh_given_name'', ''en_family_name'', ''en_given_name'', ''role''] @
     (if role = JStr (role_value FEDERATION) then [''sport_id''] else []) @
     (if role = JStr (role_value ORGANIZATION) then [''organization_id''] else [])"

text \<open>What a submit sends; None when the form is rejected.\<close>

definition user_onSubmit :: "parser \<Rightarrow> text_check \<Rightarrow> js option \<Rightarrow> form_values \<Rightarrow> request option" where
  "user_onSubmit parse is_email user f =
     map_option (\<lambda>values. case user of
         Some u \<Rightarrow> body_req ''patch'' ep_users_update (user_update_body (user_updateDto (js_get ''id'' u) values))
       | None \<Rightarrow> body_req ''post'' ep_users (user_createDto values))
     (submit_values parse (userFormSchema is_email) f)"

record users_modal =
  isFormOpen :: bool
  um_selected :: "js option"

definition initialModal :: users_modal where "initialModal = \<lparr> isFormOpen = False, um_selected = None \<rparr>"

datatype users_event = U_create | U_edit js | U_delete string bool | U_close | U_success

fun users_step :: "users_event \<Rightarrow> users_modal \<Rightarrow> users_modal \<times> request list" where
  "users_step U_create m = (\<lparr> isFormOpen = True, um_selected = None \<rparr>, [])"
| "users_step (U_edit u) m = (\<lparr> isFormOpen = True, um_selected = Some u \<rparr>, [])"
| "users_step (U_delete i confirmed) m =
     (m, if confirmed then [body_req ''delete'' ep_users_delete (JObj [(''user_id'', JStr i)])] else [])"
| "users_step U_close m = (initialModal, [])"
| "users_step U_success m = (initialModal, [])"

definition orgName :: "js list \<Rightarrow> js \<Rightarrow> js" where
  "orgName organizations i =
     (if is_nullish i then JNull
      else case find (\<lambda>o1. js_get ''id'' o1 = i) organizations of
             Some o1 \<Rightarrow> or_nullish (js_get ''name_kh'' o1) JNull | None \<Rightarrow> JNull)"

definition user_title :: "string \<Rightarrow> string \<Rightarrow> js \<Rightarrow> string" where
  "user_title family given user =
     (let t = join_with '' '' (map js_string (filter truthy [js_get family user, js_get given user]))
      in if t \<noteq> [] then t else js_string (js_get ''username'' user))"

definition user_email_shown :: "js \<Rightarrow> string" where
  "user_email_shown user = maskEmail (Some (js_str (js_get ''email'' user)))"

definition role_badge :: "string \<Rightarrow> string" where
  "role_badge role =
     (case map_of [(''super_admin'', ''superAdmin''), (''admin'', ''admin''), (''organization'', ''org''),
                   (''federation'', ''fed''), (''GUEST'', ''guest'')] role of
        Some l \<Rightarrow> l | None \<Rightarrow> ''guest'')"

section \<open>Lemmas\<close>

lemma user_form_distinct: "distinct (map fst (user_form_fields is_email))"
  by (simp add: user_form_fields_def)

text \<open>Saving without typing a password gives the new user a fixed one.\<close>

lemma default_password:
  "\<not> truthy (js_get ''password'' v) \<Longrightarrow> js_get ''password'' (user_createDto v) = JStr ''password123''"
  by (simp add: user_createDto_def js_or_def)

text \<open>A failed mutation shows two toasts.\<close>

lemma two_error_toasts: "length (user_error_toasts fb own) = 2"
  by (simp add: user_error_toasts_def on_mutation_error_def no_meta_def)

text \<open>After a deletion no detail entry of the user is left in the cache and every list of users is stale.\<close>

lemma deleted_user_forgotten:
  assumes "key_filter matches"
  shows "map_of (removeQueries matches (user_removes (UserDeleted i)) c) (k_users_detail i) = None"
    and "invalidated matches (user_stale (UserDeleted i)) (k_users_list params)"
proof -
  have "matches (k_users_detail i) (k_users_detail i)"
    using key_filter.prefix_matches[OF assms, of "k_users_detail i" "[]"] by simp
  then have "k_users_detail i \<notin> fst ` set (removeQueries matches (user_removes (UserDeleted i)) c)"
    by (auto simp: removeQueries_def user_removes_def)
  then show "map_of (removeQueries matches (user_removes (UserDeleted i)) c) (k_users_detail i) = None"
    by (simp add: map_of_eq_None_iff)
  show "invalidated matches (user_stale (UserDeleted i)) (k_users_list params)"
    using key_filter.prefix_matches[OF assms, of k_users "[JStr ''list'', params]"]
    by (simp add: invalidated_def user_stale_def k_users_def k_users_list_def)
qed

text \<open>The id of an update travels beside its fields, never among them.\<close>

lemma update_body_fields:
  "js_get ''user_id'' (user_update_body (user_updateDto i v)) = i"
  "k \<noteq> ''id'' \<Longrightarrow> js_get k (js_get ''data'' (user_update_body (user_updateDto i v))) = js_get k (user_updateDto i v)"
  by (simp_all add: user_update_body_def user_updateDto_def js_get_omit)

text \<open>The bindings a request carries.\<close>

lemma user_names_keys: "map_of (user_names v) ''sport_id'' = None" "map_of (user_names v) ''organization_id'' = None"
  by (simp_all add: user_names_def)

lemma create_bindings:
  "js_get ''sport_id'' (user_createDto v) = fst (resolveBindings (js_get ''role'' v) (js_get ''sport_id'' v) (js_get ''organization_id'' v))"
  "js_get ''organization_id'' (user_createDto v) = snd (resolveBindings (js_get ''role'' v) (js_get ''sport_id'' v) (js_get ''organization_id'' v))"
  by (simp_all add: user_createDto_def user_bindings_def user_names_def Let_def)

lemma update_bindings:
  "js_get ''sport_id'' (user_updateDto i v) = fst (resolveBindings (js_get ''role'' v) (js_get ''sport_id'' v) (js_get ''organization_id'' v))"
  "js_get ''organization_id'' (user_updateDto i v) = snd (resolveBindings (js_get ''role'' v) (js_get ''sport_id'' v) (js_get ''organization_id'' v))"
  by (simp_all add: user_updateDto_def user_bindings_def user_names_def Let_def)

definition bound_by_role :: "js \<Rightarrow> js \<Rightarrow> bool" where
  "bound_by_role v dto \<longleftrightarrow>
     js_get ''sport_id'' dto =
       (if js_get ''role'' v = JStr ''federation'' then JNum (js_to_number (js_get ''sport_id'' v)) else JNull) \<and>
     js_get ''organization_id'' dto =
       (if js_get ''role'' v = JStr ''organization'' then JNum (js_to_number (js_get ''organization_id'' v)) else JNull)"

lemma accepted_bindings:
  assumes "user_issues v = []"
  shows "bound_by_role v (user_createDto v)" "bound_by_role v (user_updateDto i v)"
  using assms
  by (auto simp: bound_by_role_def create_bindings update_bindings resolveBindings_def user_issues_def split: if_splits)

text \<open>A saved user is bound to exactly what its role needs: whatever the form holds, a request that leaves it
  carries a sport for a federation and an organization for an organization user, nothing of the sort for
  the other roles, and one of the five roles; an update names the edited user beside its fields and changes
  the password only if one was typed.\<close>

theorem user_bindings_follow_role:
  assumes "zod_parser parse" "user_onSubmit parse is_email user f = Some rq"
  shows "\<exists>v. parse (userFormSchema is_email) (JObj f) = Inr v \<and>
    js_get ''role'' v \<in> (\<lambda>r. JStr (role_value r)) ` set all_roles \<and>
    (case user of
       None \<Rightarrow> bound_by_role v (ht_body rq) \<and> js_get ''role'' (ht_body rq) = js_get ''role'' v
     | Some u \<Rightarrow>
         js_get ''user_id'' (ht_body rq) = js_get ''id'' u \<and>
         bound_by_role v (js_get ''data'' (ht_body rq)) \<and>
         js_get ''role'' (js_get ''data'' (ht_body rq)) = js_get ''role'' v \<and>
         js_get ''password'' (js_get ''data'' (ht_body rq)) =
           (if truthy (js_get ''password'' v) then js_get ''password'' v else JUndef))"
proof -
  obtain v where v: "parse (userFormSchema is_email) (JObj f) = Inr v"
    and rq: "rq = (case user of
         Some u \<Rightarrow> body_req ''patch'' ep_users_update (user_update_body (user_updateDto (js_get ''id'' u) v))
       | None \<Rightarrow> body_req ''post'' ep_users (user_createDto v))"
    using assms(2) by (auto simp: user_onSubmit_def submit_values_Some)
  have obj: "parse (ZObject False (user_form_fields is_email)) (JObj f) = Inr v" and iss: "user_issues v = []"
    using v zod_parser.p_refine[OF assms(1)] by (simp_all add: userFormSchema_def)
  have "parse userRoleSchema (js_get ''role'' (JObj f)) = Inr (js_get ''role'' v)"
    by (rule zod_parser.object_get[OF assms(1) obj user_form_distinct]) (simp add: user_form_fields_def)
  then have role: "js_get ''role'' v \<in> (\<lambda>r. JStr (role_value r)) ` set all_roles"
    by (auto simp: userRoleSchema_def zod_parser.p_enum[OF assms(1)])
  show ?thesis
  proof (cases user)
    case None
    then have "js_get ''role'' (ht_body rq) = js_get ''role'' v"
      by (simp add: rq body_req_def user_createDto_def user_names_def)
    then show ?thesis using v role None accepted_bindings(1)[OF iss] by (simp add: rq body_req_def)
  next
    case (Some u)
    let ?d = "user_updateDto (js_get ''id'' u) v"
    have b: "bound_by_role v (js_get ''data'' (user_update_body ?d))"
      using accepted_bindings(2)[OF iss, of "js_get ''id'' u"] by (simp add: bound_by_role_def update_body_fields(2))
    have "js_get ''role'' ?d = js_get ''role'' v" "js_get ''password'' ?d = (if truthy (js_get ''password'' v) then js_get ''password'' v else JUndef)"
      by (simp_all add: user_updateDto_def user_names_def user_bindings_def Let_def)
    then show ?thesis
      using v role Some b by (auto simp: rq body_req_def update_body_fields)
  qed
qed

definition sample_user_form :: form_values where
  "sample_user_form =
     [(''role'', JStr ''federation''), (''username'', JStr ''fed1''), (''email'', JStr ''a@b.co''), (''password'', JStr []),
      (''kh_family_name'', JStr ''K''), (''kh_given_name'', JStr ''K''), (''en_family_name'', JStr ''K''), (''en_given_name'', JStr ''K''),
      (''organization_id'', JInt 4), (''sport_id'', JInt 7)]"

lemma user_bindings_follow_role_witness:
  "\<exists>rq. user_onSubmit zparse (\<lambda>s. CHR ''@'' \<in> set s) None sample_user_form = Some rq \<and>
     js_get ''sport_id'' (ht_body rq) = JInt 7 \<and> js_get ''organization_id'' (ht_body rq) = JNull"
proof -
  let ?p = "zparse (userFormSchema (\<lambda>s. CHR ''@'' \<in> set s)) (JObj sample_user_form)"
  have "(case ?p of Inr w \<Rightarrow> js_get ''role'' w = JStr ''federation'' \<and> js_get ''sport_id'' w = JInt 7 | Inl _ \<Rightarrow> False)"
    by code_simp
  then obtain w where w: "?p = Inr w" "js_get ''role'' w = JStr ''federation''" "js_get ''sport_id'' w = JInt 7"
    by (auto split: sum.splits)
  then obtain rq where rq: "user_onSubmit zparse (\<lambda>s. CHR ''@'' \<in> set s) None sample_user_form = Some rq"
    by (simp add: user_onSubmit_def submit_values_def)
  from user_bindings_follow_role[OF zp.zod_parser_axioms rq] w
  show ?thesis using rq by (auto simp: bound_by_role_def)
qed

end
