(* ===== verification/Sport_Catalog.thy ===== *)
theory Sport_Catalog
  imports Access_Control Shared_Controls Query_Cache Registration
begin

text \<open>
  Sports and their categories, modules/sports: the schemas, the mapper of the two forms, the
  adapter, the mutations with the keys they touch, the list with the view of a federation, the
  categories of a sport, and the participants of a category with their filters and counts.
\<close>

section \<open>Schemas\<close>

definition Gender :: "string list" where "Gender = [''male'', ''female'', ''other'']"

definition lower_text :: "js \<Rightarrow> js" where
  "lower_text v = (case v of JStr s \<Rightarrow> JStr (to_lower s) | _ \<Rightarrow> v)"

definition genderSchema :: schema where
  "genderSchema = ZPreprocess lower_text (znullable_optional (ZEnum Gender))"

definition sportPublicSchema :: schema where
  "sportPublicSchema = ZObject True
     [(''id'', zint), (''name_kh'', ZString [MinLen 1, MaxLen 100]), (''name_en'', ZOptional zstr),
      (''description'', ZOptional zstr), (''sport_type'', ZOptional zstr), (''created_at'', ZOptional zstr),
      (''updated_at'', ZOptional zstr), (''category_count'', ZOptional zint)]"

definition sportsPublicSchema :: schema where
  "sportsPublicSchema = ZObject True [(''data'', ZArray sportPublicSchema), (''count'', ZNumber [NInt, NMin 0])]"

definition categoryPublicSchema :: schema where
  "categoryPublicSchema = ZObject False
     [(''id'', zint), (''category'', ZString [MinLen 1]), (''gender'', genderSchema),
      (''team_size_min'', znullable_optional zint), (''team_size_max'', znullable_optional zint),
      (''created_at'', ZOptional zstr), (''sport_name'', znullable_optional zstr)]"

definition categoriesPublicSchema :: schema where
  "categoriesPublicSchema = ZArray categoryPublicSchema"

definition named_ref :: schema where
  "named_ref = znullable_optional (ZObject False [(''id'', zint), (''name'', znullable_optional zstr)])"

definition sportParticipantSchema :: schema where
  "sportParticipantSchema = ZObject True
     [(''participant_id'', zint), (''name_kh'', zstr), (''name_en'', zstr), (''gender'', zstr),
      (''phone'', znullable_optional zstr), (''date_of_birth'', znullable_optional zstr), (''photoUrl'', znullable_optional zstr),
      (''role'', ZOr (ZLiteral (JStr ''athlete'')) (ZLiteral (JStr ''leader''))),
      (''sport'', named_ref), (''organization'', named_ref), (''event_id'', znullable_optional zint),
      (''category'', named_ref), (''leader_role'', znullable_optional zstr)]"

definition sportParticipantsPublicSchema :: schema where
  "sportParticipantsPublicSchema = ZObject True
     [(''status'', zstr), (''data'', ZArray sportParticipantSchema), (''count'', ZNumber [NInt, NMin 0]),
      (''total_pages'', ZOptional zint), (''has_next'', ZOptional ZBoolean), (''has_prev'', ZOptional ZBoolean),
      (''page'', ZOptional zint), (''page_size'', ZOptional zint)]"

definition sportFormSchema :: schema where
  "sportFormSchema = ZObject False
     [(''name_kh'', ZString [MinLen 2]), (''sport_type'', ZOr (ZOptional zstr) (ZLiteral (JStr [])))]"

definition size_value :: "js \<Rightarrow> js" where
  "size_value v = (if v = JStr [] \<or> is_nullish v then JNull else JNum (js_to_number v))"

definition teamSizeField :: schema where
  "teamSizeField = ZPreprocess size_value (ZNullable (ZNumber [NInt, NMin 1]))"

definition category_form_fields :: "(string \<times> schema) list" where
  "category_form_fields =
     [(''category'', ZString [MinLen 2]), (''gender'', genderSchema), (''categoryType'', ZEnum [''individual'', ''team'']),
      (''team_size_min'', ZOptional teamSizeField), (''team_size_max'', ZOptional teamSizeField)]"

definition categoryFormSchema :: schema where
  "categoryFormSchema = ZObject False category_form_fields"

section \<open>Mapper and forms\<close>

definition formDataToCreateSport :: "js \<Rightarrow> js" where
  "formDataToCreateSport v =
     JObj [(''name_kh'', js_get ''name_kh'' v), (''sport_type'', js_or (js_get ''sport_type'' v) JUndef)]"

definition formDataToUpdateSport :: "js \<Rightarrow> js \<Rightarrow> js" where
  "formDataToUpdateSport i v =
     JObj [(''id'', i), (''name_kh'', js_get ''name_kh'' v), (''sport_type'', js_or (js_get ''sport_type'' v) JUndef)]"

definition category_fields_of :: "js \<Rightarrow> (string \<times> js) list" where
  "category_fields_of v =
     (let isTeam = js_get ''categoryType'' v = JStr ''team'' in
      [(''category'', js_get ''category'' v), (''gender'', or_nullish (js_get ''gender'' v) JNull),
       (''team_size_min'', if isTeam then or_nullish (js_get ''team_size_min'' v) JNull else JNull),
       (''team_size_max'', if isTeam then or_nullish (js_get ''team_size_max'' v) JNull else JNull)])"

definition formDataToAddCategory :: "js \<Rightarrow> js \<Rightarrow> js" where
  "formDataToAddCategory sportId v = JObj ((''sport_id'', sportId) # category_fields_of v)"

definition formDataToUpdateCategory :: "js \<Rightarrow> js \<Rightarrow> js \<Rightarrow> js" where
  "formDataToUpdateCategory i sportId v = JObj ((''id'', i) # (''sport_id'', sportId) # category_fields_of v)"

definition sport_defaults :: "js option \<Rightarrow> form_values" where
  "sport_defaults sport =
     (case sport of
        Some s \<Rightarrow> [(''name_kh'', js_get ''name_kh'' s), (''sport_type'', js_or (js_get ''sport_type'' s) (JStr []))]
      | None \<Rightarrow> [(''name_kh'', JStr []), (''sport_type'', JStr [])])"

definition category_defaults :: "js option \<Rightarrow> form_values" where
  "category_defaults category =
     (case category of
        Some c \<Rightarrow>
          [(''category'', js_get ''category'' c), (''gender'', js_or (js_get ''gender'' c) JNull),
           (''categoryType'', JStr (if js_gt (or_nullish (js_get ''team_size_max'' c) (JInt 1)) 1 then ''team'' else ''individual'')),
           (''team_size_min'', or_nullish (js_get ''team_size_min'' c) JNull),
           (''team_size_max'', or_nullish (js_get ''team_size_max'' c) JNull)]
      | None \<Rightarrow>
          [(''category'', JStr []), (''gender'', JNull), (''categoryType'', JStr ''individual''),
           (''team_size_min'', JNull), (''team_size_max'', JNull)])"

definition GENDER_OPTIONS :: "string list" where "GENDER_OPTIONS = [[], ''male'', ''female'', ''other'']"

section \<open>Adapter\<close>

definition ep_sport :: "int \<Rightarrow> string" where "ep_sport i = ep_sports @ ''/'' @ show_int i"
definition ep_sport_categories :: "int \<Rightarrow> string" where "ep_sport_categories i = ep_sport i @ ''/categories''"
definition ep_category :: string where "ep_category = ep_sports @ ''/category''"
definition ep_participant :: string where "ep_participant = api_v1 ''registration''"

definition DEFAULT_LIST_PARAMS :: "(string \<times> js) list" where
  "DEFAULT_LIST_PARAMS = [(''skip'', JInt 0), (''limit'', JInt 200)]"

definition sports_getAll :: "parser \<Rightarrow> backend \<Rightarrow> (string \<times> js) list option \<Rightarrow> (js_error, js) result" where
  "sports_getAll parse srv params =
     parsed_call parse srv sportsPublicSchema (get_req ep_sports (or_else params DEFAULT_LIST_PARAMS))"

definition sports_getById :: "parser \<Rightarrow> backend \<Rightarrow> int \<Rightarrow> (js_error, js) result" where
  "sports_getById parse srv i = parsed_call parse srv sportPublicSchema (get_req (ep_sport i) [])"

definition sports_create :: "parser \<Rightarrow> backend \<Rightarrow> js \<Rightarrow> (js_error, js) result" where
  "sports_create parse srv dto = parsed_call parse srv sportPublicSchema (body_req ''post'' ep_sports dto)"

definition sports_update :: "parser \<Rightarrow> backend \<Rightarrow> js \<Rightarrow> (js_error, js) result" where
  "sports_update parse srv dto =
     parsed_call parse srv sportPublicSchema
       (body_req ''patch'' (ep_sports @ ''/'' @ js_string (js_get ''id'' dto)) (js_omit ''id'' dto))"

definition sports_delete :: "backend \<Rightarrow> int \<Rightarrow> (js_error, unit) result" where
  "sports_delete srv i = map_r (\<lambda>_. ()) (srv (body_req ''delete'' (ep_sport i) JUndef))"

definition getCategoriesBySportId :: "parser \<Rightarrow> backend \<Rightarrow> int \<Rightarrow> (js_error, js) result" where
  "getCategoriesBySportId parse srv i = parsed_call parse srv categoriesPublicSchema (get_req (ep_sport_categories i) [])"

definition getCategoryById :: "parser \<Rightarrow> backend \<Rightarrow> int \<Rightarrow> (js_error, js) result" where
  "getCategoryById parse srv i =
     parsed_call parse srv categoryPublicSchema (get_req (ep_category @ ''/'' @ show_int i) [])"

definition addCategory :: "parser \<Rightarrow> backend \<Rightarrow> js \<Rightarrow> (js_error, js) result" where
  "addCategory parse srv dto = parsed_call parse srv categoryPublicSchema (body_req ''post'' ep_category dto)"

definition updateCategory :: "parser \<Rightarrow> backend \<Rightarrow> js \<Rightarrow> (js_error, js) result" where
  "updateCategory parse srv dto = parsed_call parse srv categoryPublicSchema (body_req ''patch'' ep_category dto)"

definition deleteCategory :: "backend \<Rightarrow> js \<Rightarrow> (js_error, unit) result" where
  "deleteCategory srv dto = map_r (\<lambda>_. ()) (srv (body_req ''delete'' ep_category dto))"

definition getParticipants :: "parser \<Rightarrow> backend \<Rightarrow> js \<Rightarrow> (js_error, js) result" where
  "getParticipants parse srv params =
     parsed_call parse srv sportParticipantsPublicSchema (get_req ep_participant
       [(''role'', js_get ''role'' params), (''sport_id'', js_get ''sportId'' params), (''event_id'', js_get ''eventId'' params),
        (''organization_id'', js_get ''organizationId'' params), (''detailed'', JBool True),
        (''limit'', or_nullish (js_get ''limit'' params) (JInt 200))])"

section \<open>Keys and mutations\<close>

definition k_sports :: qkey where "k_sports = [JStr ''sports'']"
definition k_sport :: "js \<Rightarrow> qkey" where "k_sport i = [JStr ''sports'', i]"
definition k_sport_participants :: "js \<Rightarrow> string \<Rightarrow> qkey" where
  "k_sport_participants i role = [JStr ''sport-participants'', i, JStr role]"

datatype sport_mutation =
    SportSaved | SportDeleted | CategoryAdded int | CategoryUpdated js | CategoryDeleted int

definition sport_stale :: "sport_mutation \<Rightarrow> qkey list" where
  "sport_stale m =
     (case m of
        SportSaved \<Rightarrow> [k_sports]
      | SportDeleted \<Rightarrow> [k_sports]
      | CategoryAdded s \<Rightarrow> [k_categories_bySport s, k_sports]
      | CategoryUpdated s \<Rightarrow> (if truthy s then [[JStr ''categories'', s], k_sports] else [k_sports])
      | CategoryDeleted s \<Rightarrow> [k_categories_bySport s, k_sports])"

section \<open>The filters store\<close>

record sports_filters =
  sf_search :: string
  sf_page :: int

definition sf_initial :: sports_filters where "sf_initial = \<lparr> sf_search = [], sf_page = 1 \<rparr>"
definition sf_setSearch :: "string \<Rightarrow> sports_filters \<Rightarrow> sports_filters" where
  "sf_setSearch q s = s\<lparr>sf_search := q, sf_page := 1\<rparr>"
definition sf_setPage :: "int \<Rightarrow> sports_filters \<Rightarrow> sports_filters" where "sf_setPage p s = s\<lparr>sf_page := p\<rparr>"
definition sf_getQueryParams :: "sports_filters \<Rightarrow> (string \<times> js) list" where
  "sf_getQueryParams s = [(''skip'', JInt ((sf_page s - 1) * 200)), (''limit'', JInt 200)]"

section \<open>Pages\<close>

definition visibleSports :: "bool \<Rightarrow> js \<Rightarrow> js list \<Rightarrow> js list" where
  "visibleSports isFederation own sports = filter (\<lambda>s. \<not> isFederation \<or> js_get ''id'' s = own) sports"

datatype sport_page = SportLoading | SportNotFound | SportShown js

definition SportDetailPage :: "user_role option \<Rightarrow> js \<Rightarrow> int \<Rightarrow> bool \<Rightarrow> js \<Rightarrow> sport_page" where
  "SportDetailPage role own sportId isLoading sport =
     (if isLoading then SportLoading
      else if (role = Some FEDERATION \<and> own \<noteq> JInt sportId) \<or> \<not> truthy sport then SportNotFound
      else SportShown sport)"

text \<open>The modal of the sport list.\<close>

record sport_list =
  sl_modal :: bool
  sl_editing :: "js option"

datatype sport_list_event = Sl_create | Sl_edit js | Sl_delete js bool | Sl_close

fun sl_step :: "bool \<Rightarrow> sport_list_event \<Rightarrow> sport_list \<Rightarrow> sport_list \<times> request list" where
  "sl_step manage Sl_create s = ((if manage then \<lparr> sl_modal = True, sl_editing = None \<rparr> else s), [])"
| "sl_step manage (Sl_edit x) s = ((if manage then \<lparr> sl_modal = True, sl_editing = Some x \<rparr> else s), [])"
| "sl_step manage (Sl_delete x confirmed) s =
     (s, if manage \<and> confirmed then [body_req ''delete'' (ep_sports @ ''/'' @ js_string (js_get ''id'' x)) JUndef] else [])"
| "sl_step manage Sl_close s = (\<lparr> sl_modal = False, sl_editing = None \<rparr>, [])"

text \<open>The category list: its modal, and the category whose participants are unfolded.\<close>

record category_list =
  cl_modal :: bool
  cl_editing :: "js option"
  cl_selected :: "js option"

definition toggleSelect :: "js \<Rightarrow> js option \<Rightarrow> js option" where
  "toggleSelect cat cur =
     (case cur of
        Some c \<Rightarrow> if js_get ''id'' c = js_get ''id'' cat then None else Some cat
      | None \<Rightarrow> if js_get ''id'' cat = JUndef then None else Some cat)"

datatype category_event = Cl_create | Cl_edit js | Cl_delete js bool | Cl_close | Cl_row js

definition canViewParticipants :: "user_role option \<Rightarrow> bool" where
  "canViewParticipants role \<longleftrightarrow> role \<in> {Some ADMIN, Some SUPER_ADMIN, Some FEDERATION}"

definition isSportAdmin :: "user_role option \<Rightarrow> bool" where
  "isSportAdmin role \<longleftrightarrow> role \<in> {Some ADMIN, Some SUPER_ADMIN}"

fun cl_step :: "user_role option \<Rightarrow> category_event \<Rightarrow> category_list \<Rightarrow> category_list \<times> request list" where
  "cl_step role Cl_create s = ((if isSportAdmin role then s\<lparr>cl_editing := None, cl_modal := True\<rparr> else s), [])"
| "cl_step role (Cl_edit c) s = ((if isSportAdmin role then s\<lparr>cl_editing := Some c, cl_modal := True\<rparr> else s), [])"
| "cl_step role (Cl_delete i confirmed) s =
     (s, if isSportAdmin role \<and> confirmed then [body_req ''delete'' ep_category (JObj [(''category_id'', i)])] else [])"
| "cl_step role Cl_close s = (s\<lparr>cl_modal := False, cl_editing := None\<rparr>, [])"
| "cl_step role (Cl_row c) s = ((if canViewParticipants role then s\<lparr>cl_selected := toggleSelect c (cl_selected s)\<rparr> else s), [])"

definition gender_badge :: "js \<Rightarrow> string" where
  "gender_badge g =
     (if \<not> truthy g then ''any'' else js_string g)"

section \<open>Participants of a category\<close>

text \<open>Reading a date in the local calendar is a parameter, and so is today's date.\<close>

type_synonym calendar = "string \<Rightarrow> (int \<times> int \<times> int) option"

definition ageFromDob :: "calendar \<Rightarrow> int \<times> int \<times> int \<Rightarrow> js \<Rightarrow> int option" where
  "ageFromDob ymd today dob =
     (if \<not> truthy dob then None
      else case ymd (js_string dob) of
             None \<Rightarrow> None
           | Some (y, m, d) \<Rightarrow>
               let (ty, tm, td) = today; age = ty - y; mm = tm - m
               in Some (if mm < 0 \<or> (mm = 0 \<and> td < d) then age - 1 else age))"

record participant_filters =
  pf_type :: string
  pf_event :: string
  pf_org :: string
  pf_ageMin :: string
  pf_ageMax :: string

definition no_filters :: participant_filters where
  "no_filters = \<lparr> pf_type = ''all'', pf_event = [], pf_org = [], pf_ageMin = [], pf_ageMax = [] \<rparr>"

definition hasFilters :: "participant_filters \<Rightarrow> bool" where
  "hasFilters f \<longleftrightarrow>
     pf_type f \<noteq> ''all'' \<or> pf_event f \<noteq> [] \<or> pf_org f \<noteq> [] \<or> pf_ageMin f \<noteq> [] \<or> pf_ageMax f \<noteq> []"

definition resetFilters :: "participant_filters \<Rightarrow> participant_filters" where
  "resetFilters f = no_filters"

text \<open>The select of a filter has one value of its own for all.\<close>

definition ALL_ITEMS :: string where "ALL_ITEMS = ''__all__''"
definition filter_value :: "string option \<Rightarrow> string" where
  "filter_value v = (case v of None \<Rightarrow> [] | Some s \<Rightarrow> if s \<noteq> [] \<and> s \<noteq> ALL_ITEMS then s else [])"

definition below :: "int \<Rightarrow> jnum \<Rightarrow> bool" where
  "below a n = (case n of Fin r \<Rightarrow> of_int a < r | NaN \<Rightarrow> False | Inf b \<Rightarrow> b)"

definition above :: "int \<Rightarrow> jnum \<Rightarrow> bool" where
  "above a n = (case n of Fin r \<Rightarrow> r < of_int a | NaN \<Rightarrow> False | Inf b \<Rightarrow> \<not> b)"

definition age_bound :: "string \<Rightarrow> jnum option" where
  "age_bound s = (if s \<noteq> [] then Some (to_number s) else None)"

definition age_passes :: "int option \<Rightarrow> jnum option \<Rightarrow> jnum option \<Rightarrow> bool" where
  "age_passes age lo hi =
     (case age of
        None \<Rightarrow> False
      | Some a \<Rightarrow> (case lo of Some n \<Rightarrow> \<not> below a n | None \<Rightarrow> True) \<and> (case hi of Some n \<Rightarrow> \<not> above a n | None \<Rightarrow> True))"

definition participant_rows ::
  "calendar \<Rightarrow> int \<times> int \<times> int \<Rightarrow> js \<Rightarrow> js list \<Rightarrow> js list \<Rightarrow> participant_filters \<Rightarrow> js list" where
  "participant_rows ymd today category athletes leaders f =
     (let ofCategory = filter (\<lambda>a. js_get ''id'' (js_get ''category'' a) = js_get ''id'' category) athletes;
          list0 = (if pf_type f = ''athlete'' then ofCategory else if pf_type f = ''leader'' then leaders else ofCategory @ leaders);
          list1 = (if pf_event f \<noteq> []
                   then filter (\<lambda>p. js_string (or_nullish (js_get ''event_id'' p) (JStr [])) = pf_event f) list0 else list0);
          list2 = (if pf_org f \<noteq> []
                   then filter (\<lambda>p. js_string (or_nullish (js_get ''id'' (js_get ''organization'' p)) (JStr [])) = pf_org f) list1
                   else list1);
          lo = age_bound (pf_ageMin f); hi = age_bound (pf_ageMax f)
      in if lo \<noteq> None \<or> hi \<noteq> None
         then filter (\<lambda>p. age_passes (ageFromDob ymd today (js_get ''date_of_birth'' p)) lo hi) list2 else list2)"

record participant_summary =
  ps_athletes :: nat
  ps_leaders :: nat
  ps_male :: nat
  ps_female :: nat

definition rows_with :: "string \<Rightarrow> string list \<Rightarrow> js list \<Rightarrow> nat" where
  "rows_with k vs rows = length (filter (\<lambda>p. js_get k p \<in> set (map JStr vs)) rows)"

definition participant_summary_of :: "js list \<Rightarrow> participant_summary" where
  "participant_summary_of rows =
     \<lparr> ps_athletes = rows_with ''role'' [''athlete''] rows, ps_leaders = rows_with ''role'' [''leader''] rows,
       ps_male = rows_with ''gender'' [''MALE'', ''male''] rows, ps_female = rows_with ''gender'' [''FEMALE'', ''female''] rows \<rparr>"

definition openParticipant :: "user_role option \<Rightarrow> js \<Rightarrow> string option" where
  "openParticipant role p =
     (if isSportAdmin role
      then Some (''/registrations/'' @ js_string (js_get ''participant_id'' p) @ ''?role='' @ js_string (js_get ''role'' p))
      else None)"

definition genderKind :: "js \<Rightarrow> string option" where
  "genderKind gender =
     (if is_nullish gender then None
      else map_of [(''MALE'', ''male''), (''FEMALE'', ''female''), (''OTHER'', ''other'')] (to_upper (js_str gender)))"

definition participant_name :: "js \<Rightarrow> js" where
  "participant_name p =
     (let kh = js_get ''name_kh'' p in
      if \<not> is_nullish kh \<and> trim (js_str kh) \<noteq> [] then JStr (trim (js_str kh)) else js_get ''name_en'' p)"

text \<open>Underscores become spaces and every word starts with a capital letter.\<close>

definition word_char :: "char \<Rightarrow> bool" where
  "word_char c \<longleftrightarrow> c \<in> set lower_chars \<or> c \<in> set upper_chars \<or> is_digit c \<or> c = CHR ''_''"

fun capitalise :: "bool \<Rightarrow> string \<Rightarrow> string" where
  "capitalise inside [] = []"
| "capitalise inside (c # cs) =
     (if word_char c \<and> \<not> inside then to_upper [c] @ capitalise True cs else c # capitalise (word_char c) cs)"

definition role_text :: "string \<Rightarrow> string" where
  "role_text s = capitalise False (map (\<lambda>c. if c = CHR ''_'' then CHR '' '' else c) s)"

text \<open>The phone of a row: nothing without the capability, a button, or what the audited endpoint answered.\<close>

datatype phone_cell = NoPhone | RevealButton bool | Revealed js

record reveal_state =
  rv_pending :: bool
  rv_data :: "js option"

definition RevealablePhone :: "user_role option \<Rightarrow> reveal_state \<Rightarrow> phone_cell" where
  "RevealablePhone role s =
     (if \<not> can_cap role REVEAL_PII then NoPhone
      else case rv_data s of Some d \<Rightarrow> Revealed (js_get ''phone'' d) | None \<Rightarrow> RevealButton (\<not> rv_pending s))"

datatype reveal_event = RevealClick int | RevealAnswer "(js_error, js) result"

fun reveal_step :: "user_role option \<Rightarrow> reveal_event \<Rightarrow> reveal_state \<Rightarrow> reveal_state \<times> request list" where
  "reveal_step role (RevealClick i) s =
     (if RevealablePhone role s = RevealButton True
      then (s\<lparr>rv_pending := True, rv_data := None\<rparr>, [apiRevealParticipantPii i]) else (s, []))"
| "reveal_step role (RevealAnswer a) s =
     ((if rv_pending s
       then (case a of Inr d \<Rightarrow> s\<lparr>rv_pending := False, rv_data := Some d\<rparr> | Inl _ \<Rightarrow> s\<lparr>rv_pending := False\<rparr>)
       else s), [])"

section \<open>Lemmas\<close>

text \<open>Choosing the mixed gender by hand makes the form invalid: the empty option is written as a text that
  the schema does not accept. The form without a choice is valid.\<close>

lemma mixed_gender_rejected:
  assumes "zod_parser parse"
  shows "parse genderSchema (select_value ''gender'' (hd GENDER_OPTIONS)) \<noteq> Inr w"
    and "parse genderSchema JNull = Inr JNull"
  by (simp_all add: genderSchema_def zod_parser.accepts[OF assms] lower_text_def select_value_def stringFields_def
      GENDER_OPTIONS_def Gender_def to_lower_def)

text \<open>A team category without a maximum, or with the maximum one, opens as an individual one; saving
  the form as it opened then clears its sizes.\<close>

lemma small_team_reopens_individual:
  assumes "is_nullish (js_get ''team_size_max'' cat) \<or> js_get ''team_size_max'' cat = JInt 1"
  shows "getValue ''categoryType'' (category_defaults (Some cat)) = JStr ''individual''"
    and "js_get ''categoryType'' v = JStr ''individual'' \<Longrightarrow> js_get ''team_size_min'' (formDataToUpdateCategory i s v) = JNull"
  using assms by (cases "js_get ''team_size_max'' cat"; auto simp: category_defaults_def js_gt_def formDataToUpdateCategory_def
      category_fields_of_def Let_def)+

text \<open>The type of a sport cannot be emptied: an update without a value leaves the field out.\<close>

lemma sport_type_not_cleared: "js_get ''sport_type'' (formDataToUpdateSport i (JObj [(''name_kh'', n), (''sport_type'', JStr [])])) = JUndef"
  by (simp add: formDataToUpdateSport_def js_or_def)

text \<open>Nothing compares the two sizes.\<close>

lemma reversed_team_sizes_accepted:
  "zparse categoryFormSchema (JObj [(''category'', JStr ''Duo''), (''gender'', JNull), (''categoryType'', JStr ''team''),
     (''team_size_min'', JStr ''5''), (''team_size_max'', JStr ''2'')]) =
   Inr (JObj [(''category'', JStr ''Duo''), (''gender'', JNull), (''categoryType'', JStr ''team''),
     (''team_size_min'', JInt 5), (''team_size_max'', JInt 2)])"
  by code_simp

text \<open>A federation sees no sport but its own, in the list and on the page of a sport.\<close>

lemma federation_sees_own_sport:
  "s \<in> set (visibleSports True own sports) \<Longrightarrow> js_get ''id'' s = own"
  "SportDetailPage (Some FEDERATION) own i l sport = SportShown x \<Longrightarrow> own = JInt i"
  by (auto simp: visibleSports_def SportDetailPage_def split: if_splits)

text \<open>A revealed phone was asked for by a user with the capability.\<close>

lemma reveal_needs_capability:
  "snd (reveal_step role ev s) \<noteq> [] \<or> (\<exists>v. RevealablePhone role s = Revealed v) \<Longrightarrow> can_cap role REVEAL_PII"
  by (cases ev) (auto simp: RevealablePhone_def split: if_splits)

section \<open>The category form\<close>

lemma category_form_distinct: "distinct (map fst category_form_fields)"
  by (simp add: category_form_fields_def)

definition category_public_fields :: "(string \<times> schema) list" where
  "category_public_fields =
     [(''id'', zint), (''category'', ZString [MinLen 1]), (''gender'', genderSchema),
      (''team_size_min'', znullable_optional zint), (''team_size_max'', znullable_optional zint),
      (''created_at'', ZOptional zstr), (''sport_name'', znullable_optional zstr)]"

lemma categoryPublicSchema_fields: "categoryPublicSchema = ZObject False category_public_fields"
  by (simp add: categoryPublicSchema_def category_public_fields_def)

text \<open>The server keeps the fields of the request.\<close>

definition keeps_category :: "js \<Rightarrow> js \<Rightarrow> bool" where
  "keeps_category body raw \<longleftrightarrow>
     (\<forall>k \<in> {''category'', ''gender'', ''team_size_min'', ''team_size_max''}. js_get k raw = js_get k body)"

lemma category_body_get:
  "js_get ''category'' (formDataToAddCategory s v) = js_get ''category'' v"
  "js_get ''gender'' (formDataToAddCategory s v) = or_nullish (js_get ''gender'' v) JNull"
  "js_get ''team_size_min'' (formDataToAddCategory s v) =
     (if js_get ''categoryType'' v = JStr ''team'' then or_nullish (js_get ''team_size_min'' v) JNull else JNull)"
  "js_get ''team_size_max'' (formDataToAddCategory s v) =
     (if js_get ''categoryType'' v = JStr ''team'' then or_nullish (js_get ''team_size_max'' v) JNull else JNull)"
  by (simp_all add: formDataToAddCategory_def category_fields_of_def Let_def)

lemma category_defaults_get:
  "getValue ''category'' (category_defaults (Some c)) = js_get ''category'' c"
  "getValue ''gender'' (category_defaults (Some c)) = js_or (js_get ''gender'' c) JNull"
  "getValue ''categoryType'' (category_defaults (Some c)) =
     JStr (if js_gt (or_nullish (js_get ''team_size_max'' c) (JInt 1)) 1 then ''team'' else ''individual'')"
  "getValue ''team_size_min'' (category_defaults (Some c)) = or_nullish (js_get ''team_size_min'' c) JNull"
  "getValue ''team_size_max'' (category_defaults (Some c)) = or_nullish (js_get ''team_size_max'' c) JNull"
  by (simp_all add: category_defaults_def)

context zod_parser
begin

lemma gender_values: "parse genderSchema v = Inr w \<Longrightarrow> is_nullish w \<or> (\<exists>g \<in> set Gender. w = JStr g)"
  by (auto simp: genderSchema_def accepts split: if_splits)

lemma gender_again: "g \<in> set Gender \<Longrightarrow> parse genderSchema (JStr g) = Inr w \<Longrightarrow> w = JStr g"
  by (auto simp: genderSchema_def accepts lower_text_def Gender_def to_lower_def upper_chars_def lower_chars_def
      split: if_splits)

lemma gender_null: "parse genderSchema JNull = Inr w \<Longrightarrow> w = JNull"
  by (auto simp: genderSchema_def accepts lower_text_def)

lemma size_values:
  assumes "parse (ZOptional teamSizeField) v = Inr w"
  shows "is_nullish w \<or> (\<exists>r. w = JNum (Fin r) \<and> 1 \<le> r)"
  using assms by (auto simp: teamSizeField_def accepts list_all_iff split: if_splits)

lemma category_form_values:
  assumes "parse categoryFormSchema v = Inr w"
  shows "\<exists>s. js_get ''category'' w = JStr s"
    and "is_nullish (js_get ''gender'' w) \<or> (\<exists>g \<in> set Gender. js_get ''gender'' w = JStr g)"
    and "js_get ''categoryType'' w = JStr ''individual'' \<or> js_get ''categoryType'' w = JStr ''team''"
    and "is_nullish (js_get ''team_size_min'' w) \<or> (\<exists>r. js_get ''team_size_min'' w = JNum (Fin r) \<and> 1 \<le> r)"
    and "is_nullish (js_get ''team_size_max'' w) \<or> (\<exists>r. js_get ''team_size_max'' w = JNum (Fin r) \<and> 1 \<le> r)"
proof -
  note f = object_get[OF assms[unfolded categoryFormSchema_def] category_form_distinct]
  have g: "parse (ZString [MinLen 2]) (js_get ''category'' v) = Inr (js_get ''category'' w)"
    "parse genderSchema (js_get ''gender'' v) = Inr (js_get ''gender'' w)"
    "parse (ZEnum [''individual'', ''team'']) (js_get ''categoryType'' v) = Inr (js_get ''categoryType'' w)"
    "parse (ZOptional teamSizeField) (js_get ''team_size_min'' v) = Inr (js_get ''team_size_min'' w)"
    "parse (ZOptional teamSizeField) (js_get ''team_size_max'' v) = Inr (js_get ''team_size_max'' w)"
    by (rule f, simp add: category_form_fields_def)+
  show "\<exists>s. js_get ''category'' w = JStr s" using g(1) by (auto simp: p_string)
  show "is_nullish (js_get ''gender'' w) \<or> (\<exists>g \<in> set Gender. js_get ''gender'' w = JStr g)" by (rule gender_values[OF g(2)])
  show "js_get ''categoryType'' w = JStr ''individual'' \<or> js_get ''categoryType'' w = JStr ''team''"
    using g(3) by (auto simp: p_enum)
  show "is_nullish (js_get ''team_size_min'' w) \<or> (\<exists>r. js_get ''team_size_min'' w = JNum (Fin r) \<and> 1 \<le> r)"
    by (rule size_values[OF g(4)])
  show "is_nullish (js_get ''team_size_max'' w) \<or> (\<exists>r. js_get ''team_size_max'' w = JNum (Fin r) \<and> 1 \<le> r)"
    by (rule size_values[OF g(5)])
qed

lemma category_answer_get:
  assumes "parse categoryPublicSchema raw = Inr cat"
  shows "js_get ''category'' cat = js_get ''category'' raw"
    and "parse genderSchema (js_get ''gender'' raw) = Inr (js_get ''gender'' cat)"
    and "js_get ''team_size_min'' cat = js_get ''team_size_min'' raw"
    and "js_get ''team_size_max'' cat = js_get ''team_size_max'' raw"
proof -
  have d: "distinct (map fst category_public_fields)" by (simp add: category_public_fields_def)
  note f = object_get[OF assms[unfolded categoryPublicSchema_fields] d]
  have g: "parse (ZString [MinLen 1]) (js_get ''category'' raw) = Inr (js_get ''category'' cat)"
    "parse genderSchema (js_get ''gender'' raw) = Inr (js_get ''gender'' cat)"
    "parse (znullable_optional zint) (js_get ''team_size_min'' raw) = Inr (js_get ''team_size_min'' cat)"
    "parse (znullable_optional zint) (js_get ''team_size_max'' raw) = Inr (js_get ''team_size_max'' cat)"
    by (rule f, simp add: category_public_fields_def)+
  show "js_get ''category'' cat = js_get ''category'' raw" using g(1) by (auto simp: p_string split: if_splits)
  show "parse genderSchema (js_get ''gender'' raw) = Inr (js_get ''gender'' cat)" by (rule g(2))
  show "js_get ''team_size_min'' cat = js_get ''team_size_min'' raw" using g(3) by (auto simp: accepts split: if_splits)
  show "js_get ''team_size_max'' cat = js_get ''team_size_max'' raw" using g(4) by (auto simp: accepts split: if_splits)
qed

end

lemma nullish_or: "is_nullish a \<Longrightarrow> or_nullish a b = b" "or_nullish (or_nullish a JNull) JNull = or_nullish a JNull"
  by (cases a; simp)+

lemma category_roundtrip:
  assumes z: "zod_parser parse" and w: "parse categoryFormSchema (JObj f) = Inr w"
    and st: "keeps_category (formDataToAddCategory s w) raw" and c: "parse categoryPublicSchema raw = Inr cat"
    and team: "js_get ''categoryType'' w = JStr ''team'' \<Longrightarrow> js_gt (or_nullish (js_get ''team_size_max'' w) (JInt 1)) 1"
  shows "getValue ''category'' (category_defaults (Some cat)) = js_get ''category'' w"
    "getValue ''gender'' (category_defaults (Some cat)) = or_nullish (js_get ''gender'' w) JNull"
    "getValue ''categoryType'' (category_defaults (Some cat)) = js_get ''categoryType'' w"
    "k \<in> {''team_size_min'', ''team_size_max''} \<Longrightarrow> getValue k (category_defaults (Some cat)) =
       (if js_get ''categoryType'' w = JStr ''team'' then or_nullish (js_get k w) JNull else JNull)"
proof -
  note v = zod_parser.category_form_values[OF z w] and a = zod_parser.category_answer_get[OF z c]
  have r: "js_get ''category'' raw = js_get ''category'' w" "js_get ''gender'' raw = or_nullish (js_get ''gender'' w) JNull"
    "js_get ''team_size_min'' raw =
       (if js_get ''categoryType'' w = JStr ''team'' then or_nullish (js_get ''team_size_min'' w) JNull else JNull)"
    "js_get ''team_size_max'' raw =
       (if js_get ''categoryType'' w = JStr ''team'' then or_nullish (js_get ''team_size_max'' w) JNull else JNull)"
    using st by (simp_all add: keeps_category_def category_body_get)
  show "getValue ''category'' (category_defaults (Some cat)) = js_get ''category'' w"
    by (simp add: category_defaults_get a(1) r(1))
  show "getValue ''gender'' (category_defaults (Some cat)) = or_nullish (js_get ''gender'' w) JNull"
  proof (cases "is_nullish (js_get ''gender'' w)")
    case True
    then have "js_get ''gender'' cat = JNull" using zod_parser.gender_null[OF z] a(2) by (simp add: r(2) nullish_or)
    then show ?thesis using True by (simp add: category_defaults_get js_or_def nullish_or)
  next
    case False
    then obtain g where g: "g \<in> set Gender" "js_get ''gender'' w = JStr g" using v(2) by blast
    then have "js_get ''gender'' cat = JStr g" using zod_parser.gender_again[OF z g(1)] a(2) by (simp add: r(2))
    then show ?thesis using g by (auto simp: category_defaults_get js_or_def Gender_def)
  qed
  show "getValue ''categoryType'' (category_defaults (Some cat)) = js_get ''categoryType'' w"
  proof (cases "js_get ''categoryType'' w = JStr ''team''")
    case True
    have "or_nullish (or_nullish m JNull) (JInt 1) = or_nullish m (JInt 1)" for m by (cases m) auto
    then show ?thesis using True team by (simp add: category_defaults_get a(4) r(4))
  next
    case False
    then show ?thesis using v(3) by (simp add: category_defaults_get a(4) r(4) js_gt_def)
  qed
  show "k \<in> {''team_size_min'', ''team_size_max''} \<Longrightarrow> getValue k (category_defaults (Some cat)) =
       (if js_get ''categoryType'' w = JStr ''team'' then or_nullish (js_get k w) JNull else JNull)"
    by (elim insertE emptyE) (simp_all add: category_defaults_get a(3,4) r(3,4) nullish_or)
qed

text \<open>Saving and reopening a category loses nothing: when the form schema accepts what was entered, the
  server keeps the four fields of the request and its answer is accepted, the form for editing that
  category starts with exactly what was saved: the name, the gender, the kind of category, and the two
  team sizes, which are empty for an individual category. The condition on a team's maximum is needed,
  since a team is recognised on reopening by a maximum above one.\<close>

theorem category_form_roundtrip:
  assumes "zod_parser parse" "parse categoryFormSchema (JObj f) = Inr w"
    and "keeps_category (formDataToAddCategory s w) raw" "parse categoryPublicSchema raw = Inr cat"
    and "js_get ''categoryType'' w = JStr ''team'' \<Longrightarrow> js_gt (or_nullish (js_get ''team_size_max'' w) (JInt 1)) 1"
  shows "getValue ''category'' (category_defaults (Some cat)) = js_get ''category'' w \<and>
    getValue ''gender'' (category_defaults (Some cat)) = or_nullish (js_get ''gender'' w) JNull \<and>
    getValue ''categoryType'' (category_defaults (Some cat)) = js_get ''categoryType'' w \<and>
    (\<forall>k \<in> {''team_size_min'', ''team_size_max''}. getValue k (category_defaults (Some cat)) =
       (if js_get ''categoryType'' w = JStr ''team'' then or_nullish (js_get k w) JNull else JNull))"
  using category_roundtrip[OF assms] by blast

definition doubles :: "(string \<times> js) list" where
  "doubles = [(''category'', JStr ''Doubles''), (''gender'', JStr ''male''), (''categoryType'', JStr ''team''),
     (''team_size_min'', JInt 2), (''team_size_max'', JInt 3)]"

definition doubles_raw :: js where
  "doubles_raw = JObj [(''id'', JInt 9), (''category'', JStr ''Doubles''), (''gender'', JStr ''male''),
     (''team_size_min'', JInt 2), (''team_size_max'', JInt 3)]"

lemma category_form_roundtrip_witness:
  "getValue ''categoryType'' (category_defaults (Some doubles_raw)) = JStr ''team'' \<and>
   getValue ''team_size_max'' (category_defaults (Some doubles_raw)) = JInt 3"
proof -
  have "zparse categoryFormSchema (JObj doubles) = Inr (JObj doubles)" by code_simp
  moreover have "keeps_category (formDataToAddCategory (JInt 1) (JObj doubles)) doubles_raw"
    unfolding keeps_category_def by code_simp
  moreover have "zparse categoryPublicSchema doubles_raw = Inr doubles_raw" by code_simp
  moreover have "js_gt (or_nullish (js_get ''team_size_max'' (JObj doubles)) (JInt 1)) 1" by code_simp
  moreover have "js_get ''categoryType'' (JObj doubles) = JStr ''team''" "js_get ''team_size_max'' (JObj doubles) = JInt 3"
    by code_simp+
  ultimately show ?thesis
    using category_form_roundtrip[OF zp.zod_parser_axioms, of doubles "JObj doubles" "JInt 1" doubles_raw doubles_raw]
    by simp
qed

section \<open>The participants of a category\<close>

lemma participant_row_role:
  assumes z: "zod_parser parse" and a: "getParticipants parse srv params = Inr ans"
    and ps: "js_get ''data'' ans = JArr ps" and p: "p \<in> set ps"
  shows "js_get ''role'' p \<in> {JStr ''athlete'', JStr ''leader''}"
proof -
  define fs where "fs = [(''status'', zstr), (''data'', ZArray sportParticipantSchema), (''count'', ZNumber [NInt, NMin 0]),
      (''total_pages'', ZOptional zint), (''has_next'', ZOptional ZBoolean), (''has_prev'', ZOptional ZBoolean),
      (''page'', ZOptional zint), (''page_size'', ZOptional zint)]"
  define gs where "gs = [(''participant_id'', zint), (''name_kh'', zstr), (''name_en'', zstr), (''gender'', zstr),
      (''phone'', znullable_optional zstr), (''date_of_birth'', znullable_optional zstr), (''photoUrl'', znullable_optional zstr),
      (''role'', ZOr (ZLiteral (JStr ''athlete'')) (ZLiteral (JStr ''leader''))),
      (''sport'', named_ref), (''organization'', named_ref), (''event_id'', znullable_optional zint),
      (''category'', named_ref), (''leader_role'', znullable_optional zstr)]"
  obtain body where "parse sportParticipantsPublicSchema body = Inr ans"
    using a by (auto simp: getParticipants_def parsed_call_Inr)
  then have b: "parse (ZObject True fs) body = Inr ans" by (simp add: sportParticipantsPublicSchema_def fs_def)
  have "parse (ZArray sportParticipantSchema) (js_get ''data'' body) = Inr (js_get ''data'' ans)"
    by (rule zod_parser.object_get[OF z b]) (simp_all add: fs_def)
  then obtain x where "parse sportParticipantSchema x = Inr p"
    using zod_parser.array_elements[OF z _ ps p] by blast
  then have x: "parse (ZObject True gs) x = Inr p" by (simp add: sportParticipantSchema_def gs_def)
  have "parse (ZOr (ZLiteral (JStr ''athlete'')) (ZLiteral (JStr ''leader''))) (js_get ''role'' x) = Inr (js_get ''role'' p)"
    by (rule zod_parser.object_get[OF z x]) (simp_all add: gs_def)
  then show ?thesis by (auto simp: zod_parser.accepts[OF z] split: sum.splits)
qed

definition in_range :: "calendar \<Rightarrow> int \<times> int \<times> int \<Rightarrow> participant_filters \<Rightarrow> js \<Rightarrow> bool" where
  "in_range ymd today f p \<longleftrightarrow>
     pf_ageMin f = [] \<and> pf_ageMax f = [] \<or>
     age_passes (ageFromDob ymd today (js_get ''date_of_birth'' p)) (age_bound (pf_ageMin f)) (age_bound (pf_ageMax f))"

lemma if_filter: "(if c then filter P xs else xs) = filter (\<lambda>x. \<not> c \<or> P x) xs"
  by simp

lemma participant_rows_eq:
  "participant_rows ymd today cat as ls f =
     filter (\<lambda>p. (pf_event f = [] \<or> js_string (or_nullish (js_get ''event_id'' p) (JStr [])) = pf_event f) \<and>
                 (pf_org f = [] \<or> js_string (or_nullish (js_get ''id'' (js_get ''organization'' p)) (JStr [])) = pf_org f) \<and>
                 in_range ymd today f p)
       ((if pf_type f = ''leader'' then [] else filter (\<lambda>a. js_get ''id'' (js_get ''category'' a) = js_get ''id'' cat) as) @
        (if pf_type f = ''athlete'' then [] else ls))"
proof -
  have age: "age_bound (pf_ageMin f) \<noteq> None \<or> age_bound (pf_ageMax f) \<noteq> None \<longleftrightarrow> \<not> (pf_ageMin f = [] \<and> pf_ageMax f = [])"
    by (simp add: age_bound_def)
  show ?thesis
    unfolding participant_rows_def Let_def if_filter filter_filter age in_range_def
    by (intro arg_cong2[where f = filter] ext) (simp_all add: conj_ac)
qed

lemma rows_with_two: "JStr a \<noteq> JStr b \<Longrightarrow> rows_with k [a] rows + rows_with k [b] rows = rows_with k [a, b] rows"
  by (induction rows) (auto simp: rows_with_def)

text \<open>The participants of a category: the panel shows exactly the loaded athletes of this category and
  the loaded leaders of the sport that the type filter admits and that pass the event, organization
  and age filters, a participant without a readable birth date never passing an age filter; after a
  reset all of them are shown; and when the two lists come from the adapter, the athletes and leaders
  of the summary add up to the number of rows shown, and the male and female ones never exceed it.\<close>

theorem participant_counts_add_up:
  assumes "zod_parser parse"
    and "getParticipants parse srv params = Inr ans" "js_get ''data'' ans = JArr as"
    and "getParticipants parse srv params' = Inr ans'" "js_get ''data'' ans' = JArr ls"
    and "rows = participant_rows ymd today cat as ls f"
  shows "set rows = {p. (p \<in> set as \<and> js_get ''id'' (js_get ''category'' p) = js_get ''id'' cat \<and> pf_type f \<noteq> ''leader'' \<or>
         p \<in> set ls \<and> pf_type f \<noteq> ''athlete'') \<and>
       (pf_event f = [] \<or> js_string (or_nullish (js_get ''event_id'' p) (JStr [])) = pf_event f) \<and>
       (pf_org f = [] \<or> js_string (or_nullish (js_get ''id'' (js_get ''organization'' p)) (JStr [])) = pf_org f) \<and>
       in_range ymd today f p} \<and>
     participant_rows ymd today cat as ls (resetFilters f) =
       filter (\<lambda>a. js_get ''id'' (js_get ''category'' a) = js_get ''id'' cat) as @ ls \<and>
     ps_athletes (participant_summary_of rows) + ps_leaders (participant_summary_of rows) = length rows \<and>
     ps_male (participant_summary_of rows) + ps_female (participant_summary_of rows) \<le> length rows"
proof (intro conjI)
  have role: "js_get ''role'' p \<in> {JStr ''athlete'', JStr ''leader''}" if "p \<in> set rows" for p
    using that participant_row_role[OF assms(1,2,3)] participant_row_role[OF assms(1,4,5)]
    unfolding assms(6) participant_rows_eq by (auto split: if_splits)
  have "rows_with ''role'' [''athlete'', ''leader''] rows = length rows"
    using role by (simp add: rows_with_def filter_id_conv)
  then show "ps_athletes (participant_summary_of rows) + ps_leaders (participant_summary_of rows) = length rows"
    by (simp add: participant_summary_of_def rows_with_two)
  have "rows_with ''gender'' [''MALE'', ''male''] rows + rows_with ''gender'' [''FEMALE'', ''female''] rows \<le> length rows"
    by (induction rows) (auto simp: rows_with_def)
  then show "ps_male (participant_summary_of rows) + ps_female (participant_summary_of rows) \<le> length rows"
    by (simp add: participant_summary_of_def)
qed (auto simp: assms(6) participant_rows_eq resetFilters_def no_filters_def in_range_def split: if_splits)

definition participant_answer :: "string \<Rightarrow> js \<Rightarrow> js" where
  "participant_answer role cat =
     JObj [(''status'', JStr ''success''),
       (''data'', JArr [JObj [(''participant_id'', JInt 7), (''name_kh'', JStr ''A''), (''name_en'', JStr ''A''), (''gender'', JStr ''MALE''),
          (''role'', JStr role), (''category'', cat)]]),
       (''count'', JInt 1)]"

lemma participant_counts_add_up_witness:
  "\<exists>as ls. length (participant_rows (\<lambda>_. None) (2025, 1, 1) (JObj [(''id'', JInt 4)]) as ls no_filters) = 2 \<and>
     ps_athletes (participant_summary_of (participant_rows (\<lambda>_. None) (2025, 1, 1) (JObj [(''id'', JInt 4)]) as ls no_filters)) +
     ps_leaders (participant_summary_of (participant_rows (\<lambda>_. None) (2025, 1, 1) (JObj [(''id'', JInt 4)]) as ls no_filters)) = 2"
proof -
  define srv :: backend where
    "srv = (\<lambda>rq. Inr (participant_answer (if rq = get_req ep_participant [(''role'', JStr ''leader''), (''sport_id'', JInt 1),
        (''event_id'', JUndef), (''organization_id'', JUndef), (''detailed'', JBool True), (''limit'', JInt 200)]
      then ''leader'' else ''athlete'') (JObj [(''id'', JInt 4)])))"
  define a l where "a = participant_answer ''athlete'' (JObj [(''id'', JInt 4)])" and "l = participant_answer ''leader'' (JObj [(''id'', JInt 4)])"
  have z: "zparse sportParticipantsPublicSchema a = Inr a" "zparse sportParticipantsPublicSchema l = Inr l"
    unfolding a_def l_def by code_simp+
  have ga: "getParticipants zparse srv (JObj [(''role'', JStr ''athlete''), (''sportId'', JInt 1)]) = Inr a"
    and gl: "getParticipants zparse srv (JObj [(''role'', JStr ''leader''), (''sportId'', JInt 1)]) = Inr l"
    using z by (simp_all add: getParticipants_def parsed_call_Inr srv_def a_def l_def get_req_def)
  obtain as ls where d: "js_get ''data'' a = JArr as" "js_get ''data'' l = JArr ls"
    "length as = 1" "length ls = 1" "\<forall>p \<in> set as. js_get ''id'' (js_get ''category'' p) = JInt 4"
    by (simp add: a_def l_def participant_answer_def)
  have "length (participant_rows (\<lambda>_. None) (2025, 1, 1) (JObj [(''id'', JInt 4)]) as ls no_filters) = 2"
    using d(3-5) by (simp add: participant_rows_eq no_filters_def in_range_def filter_id_conv)
  then show ?thesis
    using participant_counts_add_up[OF zp.zod_parser_axioms ga d(1) gl d(2) refl, of "\<lambda>_. None" "(2025, 1, 1)" "JObj [(''id'', JInt 4)]" no_filters]
    by (metis (no_types, lifting))
qed

end
