(* ===== verification/Organizations.thy ===== *)
theory Organizations
  imports Access_Control Shared_Controls Review_Detail Registration
begin

text \<open>
  Organizations, modules/organizations: the schemas, the mapper and form, the adapter, the mutations
  with the keys they touch, the filters store, the list, and the page of one organization with its
  event filter, its three tables, its totals and the roster of a sport.
\<close>

section \<open>Schemas, mapper and form\<close>

definition InstituteType :: "string list" where
  "InstituteType = [''province'', ''ministry'', ''federation'', ''university'']"

definition organizationPublicSchema :: schema where
  "organizationPublicSchema = ZObject True
     [(''id'', zint), (''name_kh'', ZString [MinLen 1, MaxLen 100]), (''name_en'', znullable_optional zstr),
      (''type'', ZEnum InstituteType), (''code'', znullable_optional zstr), (''created_at'', zstr)]"

definition organizationsPublicSchema :: schema where
  "organizationsPublicSchema = ZObject True
     [(''data'', ZArray organizationPublicSchema), (''count'', ZNumber [NInt, NMin 0])]"

definition orgFormSchema :: schema where
  "orgFormSchema = ZObject False
     [(''name_kh'', ZString [MinLen 2]), (''name_en'', ZOr (ZOptional zstr) (ZLiteral (JStr []))), (''type'', ZEnum InstituteType)]"

definition instituteTypeOptions :: "(string \<times> string) list" where
  "instituteTypeOptions =
     [(''province'', ''types.province''), (''ministry'', ''types.ministry''), (''federation'', ''types.federation''),
      (''university'', ''types.university'')]"

definition org_createDto :: "js \<Rightarrow> js" where
  "org_createDto v = JObj [(''name_kh'', js_get ''name_kh'' v), (''name_en'', js_get ''name_en'' v), (''type'', js_get ''type'' v)]"

definition org_updateDto :: "js \<Rightarrow> js \<Rightarrow> js" where
  "org_updateDto i v =
     JObj [(''id'', i), (''name_kh'', js_get ''name_kh'' v), (''name_en'', js_get ''name_en'' v), (''type'', js_get ''type'' v)]"

definition org_defaults :: "js option \<Rightarrow> form_values" where
  "org_defaults org =
     (case org of
        Some o1 \<Rightarrow> [(''name_kh'', js_get ''name_kh'' o1), (''name_en'', js_or (js_get ''name_en'' o1) (JStr [])), (''type'', js_get ''type'' o1)]
      | None \<Rightarrow> [(''name_kh'', JStr []), (''name_en'', JStr []), (''type'', JStr ''province'')])"

section \<open>Adapter\<close>

definition ep_organization_byId :: "int \<Rightarrow> string" where "ep_organization_byId i = ep_organization @ ''/'' @ show_int i"
definition ep_organization_update :: string where "ep_organization_update = ep_organization @ ''/update''"
definition ep_organization_delete :: string where "ep_organization_delete = ep_organization @ ''/delete''"

definition ORG_LIST_PARAMS :: "(string \<times> js) list" where "ORG_LIST_PARAMS = [(''skip'', JInt 0), (''limit'', JInt 100)]"

definition org_getAll :: "zod_parse \<Rightarrow> backend \<Rightarrow> (string \<times> js) list option \<Rightarrow> (js_error, js) result" where
  "org_getAll parse srv params =
     parsed_call parse srv organizationsPublicSchema (get_req ep_organization (or_else params ORG_LIST_PARAMS))"
definition org_getById :: "zod_parse \<Rightarrow> backend \<Rightarrow> int \<Rightarrow> (js_error, js) result" where
  "org_getById parse srv i = parsed_call parse srv organizationPublicSchema (get_req (ep_organization_byId i) [])"
definition org_create :: "zod_parse \<Rightarrow> backend \<Rightarrow> js \<Rightarrow> (js_error, js) result" where
  "org_create parse srv dto = parsed_call parse srv organizationPublicSchema (body_req ''post'' ep_organization dto)"
definition org_update :: "zod_parse \<Rightarrow> backend \<Rightarrow> js \<Rightarrow> (js_error, js) result" where
  "org_update parse srv dto = parsed_call parse srv organizationPublicSchema (body_req ''patch'' ep_organization_update dto)"
definition apiDeleteOrganization :: "int \<Rightarrow> request" where
  "apiDeleteOrganization i = body_req ''delete'' ep_organization_delete (JObj [(''org_id'', JInt i)])"
definition org_delete :: "backend \<Rightarrow> int \<Rightarrow> (js_error, unit) result" where
  "org_delete srv i = map_r (\<lambda>_. ()) (srv (apiDeleteOrganization i))"

definition k_organizations :: qkey where "k_organizations = [JStr ''organizations'']"
definition k_organizations_list :: "js \<Rightarrow> qkey" where "k_organizations_list p = [JStr ''organizations'', JStr ''list'', p]"
definition k_organization :: "js \<Rightarrow> qkey" where "k_organization i = [JStr ''organizations'', JStr ''detail'', i]"

text \<open>After a successful write: the keys invalidated, the keys removed from the cache, and the toast.\<close>

datatype org_mutation = CreateOrg js | UpdateOrg js | DeleteOrg int

definition org_stale :: "org_mutation \<Rightarrow> qkey list" where "org_stale m = [k_organizations]"

definition org_removed :: "js \<Rightarrow> org_mutation \<Rightarrow> qkey list" where
  "org_removed updated m =
     (case m of CreateOrg _ \<Rightarrow> [] | UpdateOrg _ \<Rightarrow> [k_organization (js_get ''id'' updated)] | DeleteOrg i \<Rightarrow> [k_organization (JInt i)])"

definition org_toast :: "org_mutation \<Rightarrow> string" where
  "org_toast m = (case m of CreateOrg _ \<Rightarrow> ''created'' | UpdateOrg _ \<Rightarrow> ''updated'' | DeleteOrg _ \<Rightarrow> ''deleted'')"

definition useOrganization_enabled :: "jnum \<Rightarrow> bool" where
  "useOrganization_enabled i = (case i of Fin r \<Rightarrow> 0 < r | _ \<Rightarrow> False)"

section \<open>Filters store\<close>

record org_filters =
  of_search :: string
  of_sort :: "string option"
  of_page :: int

definition of_initial :: org_filters where "of_initial = \<lparr> of_search = [], of_sort = None, of_page = 1 \<rparr>"
definition of_setSearch :: "string \<Rightarrow> org_filters \<Rightarrow> org_filters" where "of_setSearch v s = s\<lparr>of_search := v, of_page := 1\<rparr>"
definition of_setSort :: "string option \<Rightarrow> org_filters \<Rightarrow> org_filters" where "of_setSort v s = s\<lparr>of_sort := v, of_page := 1\<rparr>"
definition of_setPage :: "int \<Rightarrow> org_filters \<Rightarrow> org_filters" where "of_setPage p s = s\<lparr>of_page := p\<rparr>"
definition of_reset :: "org_filters \<Rightarrow> org_filters" where "of_reset s = of_initial"
definition of_getQueryParams :: "org_filters \<Rightarrow> (string \<times> js) list" where
  "of_getQueryParams s =
     [(''skip'', JInt ((of_page s - 1) * 100)), (''limit'', JInt 100)] @
     (if of_search s \<noteq> [] then [(''name'', JStr (of_search s))] else [])"

section \<open>The list\<close>

record org_list =
  ol_open :: bool
  ol_editing :: "js option"

datatype org_list_event = Ol_create | Ol_edit js | Ol_delete int bool | Ol_close | Ol_row js

text \<open>Creating, editing and deleting are offered to an administrator; a row opens its page.\<close>

fun ol_step :: "user_role option \<Rightarrow> org_list_event \<Rightarrow> org_list \<Rightarrow> org_list \<times> request list \<times> string list" where
  "ol_step role Ol_create s = (if can_cap role CROSS_ORG_ADMIN then \<lparr>ol_open = True, ol_editing = None\<rparr> else s, [], [])"
| "ol_step role (Ol_edit org) s = (if can_cap role CROSS_ORG_ADMIN then \<lparr>ol_open = True, ol_editing = Some org\<rparr> else s, [], [])"
| "ol_step role (Ol_delete i confirmed) s =
     (s, if can_cap role CROSS_ORG_ADMIN \<and> confirmed then [apiDeleteOrganization i] else [], [])"
| "ol_step role Ol_close s = (\<lparr>ol_open = False, ol_editing = None\<rparr>, [], [])"
| "ol_step role (Ol_row org) s = (s, [], [''/organizations/'' @ js_string (js_get ''id'' org)])"

definition type_badge :: "string \<Rightarrow> string" where
  "type_badge t =
     or_else (map_of [(''province'', ''default''), (''ministry'', ''info''), (''federation'', ''success''), (''university'', ''warning'')] t)
       ''secondary''"

section \<open>The page of an organization\<close>

definition FETCH_LIMIT :: int where "FETCH_LIMIT = 2000"

text \<open>What the page asks for: the participations and sport submissions of the organization, and all
  category submissions.\<close>

definition org_page_requests :: "int \<Rightarrow> request list" where
  "org_page_requests orgId =
     [get_req ep_participation [(''organization_id'', JInt orgId), (''limit'', JInt FETCH_LIMIT)],
      get_req ep_sportSubmissions_list [(''organization_id'', JInt orgId)],
      get_req ep_categorySubmissions_list [(''limit'', JInt FETCH_LIMIT)]]"

text \<open>A map from event to name in order of first insertion; the comparison of two names is a parameter.\<close>

definition add_event :: "string \<Rightarrow> js \<Rightarrow> (js \<times> string) list \<Rightarrow> (js \<times> string) list" where
  "add_event k p m =
     (let i = js_get k p in
      if \<not> is_nullish i then AList.update i (js_str (or_nullish (js_get ''event_name'' p) (JStr (CHR ''#'' # js_string i)))) m else m)"

definition event_map :: "js list \<Rightarrow> js list \<Rightarrow> (js \<times> string) list" where
  "event_map parts subs = fold (add_event ''events_id'') subs (fold (add_event ''event_id'') parts [])"

definition eventOptions :: "(string \<Rightarrow> string \<Rightarrow> int) \<Rightarrow> js list \<Rightarrow> js list \<Rightarrow> (js \<times> string) list" where
  "eventOptions localeCompare parts subs = js_sort (\<lambda>a b. localeCompare (snd a) (snd b)) (event_map parts subs)"

definition eventFilter :: "string \<Rightarrow> jnum option" where
  "eventFilter eventId = (if eventId = ''all'' then None else Some (to_number eventId))"

definition in_event :: "jnum option \<Rightarrow> string \<Rightarrow> js \<Rightarrow> bool" where
  "in_event f k p \<longleftrightarrow> (case f of None \<Rightarrow> True | Some n \<Rightarrow> same_number (js_get k p) n)"

definition filteredParts :: "string \<Rightarrow> js list \<Rightarrow> js list" where
  "filteredParts eventId parts = filter (in_event (eventFilter eventId) ''event_id'') parts"

definition filteredSports :: "string \<Rightarrow> js list \<Rightarrow> js list" where
  "filteredSports eventId subs = filter (in_event (eventFilter eventId) ''events_id'') subs"

definition pair_key :: "string \<Rightarrow> string \<Rightarrow> js \<Rightarrow> string option" where
  "pair_key ek sk p =
     (if \<not> is_nullish (js_get ek p) \<and> \<not> is_nullish (js_get sk p)
      then Some (js_string (js_get ek p) @ '':'' @ js_string (js_get sk p)) else None)"

definition orgEventSportKeys :: "js list \<Rightarrow> js list \<Rightarrow> string set" where
  "orgEventSportKeys parts subs =
     set (List.map_filter (pair_key ''event_id'' ''sport_id'') parts) \<union> set (List.map_filter (pair_key ''events_id'' ''sports_id'') subs)"

definition filteredCategories :: "string \<Rightarrow> js list \<Rightarrow> js list \<Rightarrow> js list \<Rightarrow> js list" where
  "filteredCategories eventId parts subs cats =
     filter (\<lambda>c. (case pair_key ''events_id'' ''sports_id'' c of None \<Rightarrow> False | Some k \<Rightarrow> k \<in> orgEventSportKeys parts subs) \<and>
       in_event (eventFilter eventId) ''events_id'' c) cats"

definition num_or_0 :: "string \<Rightarrow> js \<Rightarrow> rat" where "num_or_0 k p = js_rat (or_nullish (js_get k p) (JInt 0))"

definition part_status :: "js \<Rightarrow> js" where "part_status p = or_nullish (js_get ''status'' p) (JStr ''SUBMITTED'')"

record org_totals =
  ot_events :: nat
  ot_sports :: nat
  ot_athletes :: rat
  ot_leaders :: rat
  ot_participants :: rat
  ot_am :: rat
  ot_af :: rat
  ot_lm :: rat
  ot_lf :: rat
  ot_pending :: nat
  ot_approved :: nat
  ot_rejected :: nat

definition present_ids :: "string \<Rightarrow> js list \<Rightarrow> js list" where
  "present_ids k ps = remdups (filter (\<lambda>x. \<not> is_nullish x) (map (js_get k) ps))"

definition sum_of :: "string \<Rightarrow> js list \<Rightarrow> rat" where "sum_of k ps = sum_list (map (num_or_0 k) ps)"

definition with_status :: "string \<Rightarrow> js list \<Rightarrow> nat" where
  "with_status st ps = length (filter (\<lambda>p. part_status p = JStr st) ps)"

definition org_totals_of :: "js list \<Rightarrow> js list \<Rightarrow> org_totals" where
  "org_totals_of parts filtered =
     (let am = sum_of ''athlete_male_count'' filtered; af = sum_of ''athlete_female_count'' filtered;
          lm = sum_of ''leader_male_count'' filtered; lf = sum_of ''leader_female_count'' filtered
      in \<lparr> ot_events = length (present_ids ''event_id'' parts), ot_sports = length (present_ids ''sport_id'' filtered),
           ot_athletes = am + af, ot_leaders = lm + lf, ot_participants = am + af + (lm + lf),
           ot_am = am, ot_af = af, ot_lm = lm, ot_lf = lf,
           ot_pending = with_status ''SUBMITTED'' filtered, ot_approved = with_status ''APPROVED'' filtered,
           ot_rejected = with_status ''REJECTED'' filtered \<rparr>)"

definition status_badge :: "js \<Rightarrow> string" where
  "status_badge st =
     or_else (map_of [(''SUBMITTED'', ''info''), (''APPROVED'', ''success''), (''REJECTED'', ''error''), (''FLAGGED'', ''warning''),
       (''REVISION_REQUESTED'', ''warning''), (''DRAFT'', ''muted'')] (js_string (or_nullish st (JStr ''SUBMITTED'')))) ''muted''"

definition org_count_cell :: "js \<Rightarrow> js \<Rightarrow> rat \<times> rat \<times> rat" where
  "org_count_cell male female =
     (let m = js_rat (or_nullish male (JInt 0)); f = js_rat (or_nullish female (JInt 0)) in (m + f, m, f))"

record org_page =
  opg_event :: string
  opg_tab :: string
  opg_roster :: "js option"

definition opg_start :: org_page where "opg_start = \<lparr> opg_event = ''all'', opg_tab = ''sport'', opg_roster = None \<rparr>"

definition roster_target :: "js \<Rightarrow> js option" where
  "roster_target p =
     (if is_nullish (js_get ''event_id'' p) \<or> is_nullish (js_get ''sport_id'' p) then None
      else Some (JObj [(''eventId'', js_get ''event_id'' p), (''sportId'', js_get ''sport_id'' p),
        (''sportName'', or_nullish (js_get ''sport_name'' p) (JStr ''-'')), (''eventName'', or_nullish (js_get ''event_name'' p) (JStr ''-''))]))"

datatype org_page_event = Op_tab string | Op_event string | Op_row js | Op_roster_close

fun opg_step :: "js list \<Rightarrow> js list \<Rightarrow> org_page_event \<Rightarrow> org_page \<Rightarrow> org_page" where
  "opg_step parts subs (Op_tab t) s = (if t \<in> {''sport'', ''survey'', ''category''} then s\<lparr>opg_tab := t\<rparr> else s)"
| "opg_step parts subs (Op_event v) s =
     (if v = ''all'' \<or> v \<in> set (map (\<lambda>e. js_string (fst e)) (event_map parts subs)) then s\<lparr>opg_event := v\<rparr>
      else if v = [] then s\<lparr>opg_event := ''all''\<rparr> else s)"
| "opg_step parts subs (Op_row p) s =
     (if opg_tab s = ''sport'' \<and> p \<in> set (filteredParts (opg_event s) parts)
      then (case roster_target p of Some r \<Rightarrow> s\<lparr>opg_roster := Some r\<rparr> | None \<Rightarrow> s) else s)"
| "opg_step parts subs Op_roster_close s = s\<lparr>opg_roster := None\<rparr>"

text \<open>The roster of a sport: the registrations asked for, the counts of the three choices and the rows.\<close>

definition roster_filter :: "int \<Rightarrow> js \<Rightarrow> js" where
  "roster_filter orgId t =
     JObj [(''organization_id'', JInt orgId), (''event_id'', js_get ''eventId'' t), (''sport_id'', js_get ''sportId'' t), (''limit'', JInt 500)]"

definition roster_rows :: "string \<Rightarrow> js list \<Rightarrow> js list" where
  "roster_rows role all_rows = (if role = ''all'' then all_rows else filter (\<lambda>r. js_get ''role'' r = JStr role) all_rows)"

definition roster_counts :: "js list \<Rightarrow> nat \<times> nat \<times> nat" where
  "roster_counts all_rows =
     (length all_rows, length (filter (\<lambda>r. js_get ''role'' r = JStr ''athlete'') all_rows),
      length (filter (\<lambda>r. js_get ''role'' r = JStr ''leader'') all_rows))"

definition roster_name :: "js \<Rightarrow> string" where
  "roster_name r =
     (let kh = trim (js_string (js_get ''kh_family_name'' r) @ '' '' @ js_string (js_get ''kh_given_name'' r));
          en = trim (js_string (js_get ''en_family_name'' r) @ '' '' @ js_string (js_get ''en_given_name'' r))
      in if kh \<noteq> [] then kh else en)"

section \<open>Lemmas\<close>

text \<open>The default list has at most a hundred organizations, and the store without a choice asks for the same page.\<close>

lemma initial_params: "of_getQueryParams of_initial = ORG_LIST_PARAMS"
  by (simp add: of_getQueryParams_def of_initial_def ORG_LIST_PARAMS_def)

lemma writes_need_admin: "fst (snd (ol_step role ev s)) \<noteq> [] \<Longrightarrow> can_cap role CROSS_ORG_ADMIN"
  by (cases ev) (auto split: if_splits)

text \<open>The options of the event filter: one for every event of the participations and the sport
  submissions, once each.\<close>

lemma update_keys: "fst ` set (AList.update k v m) = insert k (fst ` set m)"
  by (induction m) auto

lemma add_event_keys:
  "fst ` set (add_event k p m) = (if is_nullish (js_get k p) then {} else {js_get k p}) \<union> fst ` set m"
  by (simp add: add_event_def Let_def update_keys)

lemma add_events_keys:
  "fst ` set (fold (add_event k) ps m) = {x. \<not> is_nullish x \<and> x \<in> js_get k ` set ps} \<union> fst ` set m"
  by (induction ps arbitrary: m) (auto simp: add_event_keys)

lemma event_map_keys:
  "fst ` set (event_map parts subs) =
     {x. \<not> is_nullish x \<and> (x \<in> js_get ''event_id'' ` set parts \<or> x \<in> js_get ''events_id'' ` set subs)}"
  by (auto simp: event_map_def add_events_keys)

lemma add_events_distinct: "distinct (map fst m) \<Longrightarrow> distinct (map fst (fold (add_event k) ps m))"
  by (induction ps arbitrary: m) (simp_all add: add_event_def Let_def distinct_update)

lemma event_map_distinct: "distinct (map fst (event_map parts subs))"
  by (simp add: event_map_def add_events_distinct)

text \<open>A sum over the rows is the sum over the events of the sums over each event's rows, and the rows
  without an event.\<close>

lemma sum_if_one: "distinct ids \<Longrightarrow> sum_list (map (\<lambda>i. if x = i then c else 0) ids) = (if x \<in> set ids then c else (0 :: 'b :: comm_monoid_add))"
  by (induction ids) auto

lemma sum_list_add: "sum_list (map (\<lambda>i. f i + g i) ids) = sum_list (map f ids) + sum_list (map g ids)"
  for f g :: "'a \<Rightarrow> 'b :: comm_monoid_add"
  by (induction ids) (simp_all add: ac_simps)

lemma sum_by_event:
  fixes g :: "js \<Rightarrow> 'b :: comm_monoid_add"
  assumes "distinct ids" "\<forall>p \<in> set ps. is_nullish (f p) \<or> f p \<in> set ids" "\<forall>i \<in> set ids. \<not> is_nullish i"
  shows "sum_list (map g ps) =
    sum_list (map (\<lambda>i. sum_list (map g (filter (\<lambda>p. f p = i) ps))) ids) + sum_list (map g (filter (\<lambda>p. is_nullish (f p)) ps))"
  using assms(2)
proof (induction ps)
  case (Cons p ps)
  have "(\<lambda>i. sum_list (map g (filter (\<lambda>p. f p = i) (p # ps)))) =
      (\<lambda>i. (if f p = i then g p else 0) + sum_list (map g (filter (\<lambda>p. f p = i) ps)))"
    by (rule ext) simp
  moreover have "is_nullish (f p) \<Longrightarrow> f p \<notin> set ids" using assms(3) by blast
  ultimately show ?case
    using Cons sum_if_one[OF assms(1), of "f p" "g p"] by (auto simp: sum_list_add ac_simps)
qed simp

text \<open>Choosing an event keeps exactly its rows.\<close>

lemma show_int_not_all: "show_int i \<noteq> ''all''"
proof
  assume a: "show_int i = ''all''"
  have "to_number (show_int i) = Fin (of_int i)" by simp
  then have "to_number ''all'' = Fin (of_int i)" by (simp add: a)
  moreover have "to_number ''all'' = NaN" by code_simp
  ultimately show False by simp
qed

lemma js_string_JInt [simp]: "js_string (JInt i) = show_int i"
  by simp

lemma in_event_id: "in_event (eventFilter (show_int i)) k p \<longleftrightarrow> js_get k p = JInt i"
  by (auto simp: in_event_def eventFilter_def show_int_not_all same_number_def)

lemma participation_event:
  assumes z: "zod_parser parse" and a: "participation_getAll parse srv params = Inr ans"
    and d: "js_get ''data'' ans = JArr parts" and p: "p \<in> set parts"
  shows "js_get ''event_id'' p = JUndef \<or> (\<exists>i. js_get ''event_id'' p = JInt i)"
proof -
  define gs where "gs = [(''id'', zint), (''sports_Events_id'', opt_int), (''org_id'', opt_int), (''created_at'', zstr),
      (''status'', ZOptional zstr), (''review_note'', opt_str), (''reviewed_at'', opt_str),
      (''athlete_male_count'', opt_int), (''athlete_female_count'', opt_int),
      (''leader_male_count'', opt_int), (''leader_female_count'', opt_int),
      (''org_name'', opt_str), (''event_name'', opt_str),
      (''enroll_id'', ZOptional zint), (''sport_id'', ZOptional zint), (''event_id'', ZOptional zint),
      (''category_id'', opt_int), (''sport_name'', ZOptional zstr), (''category_name'', ZOptional zstr),
      (''participant_name'', ZOptional zstr)]"
  obtain body where "parse participationListSchema body = Inr ans"
    using a by (auto simp: participation_getAll_def parsed_call_Inr)
  then have "parse (ZArray participationSchema) (js_get ''data'' body) = Inr (js_get ''data'' ans)"
    unfolding participationListSchema_def by (rule zod_parser.object_get[OF z]) simp_all
  then obtain x where "parse participationSchema x = Inr p" using zod_parser.array_elements[OF z _ d p] by blast
  then have "parse (ZObject True gs) x = Inr p" by (simp add: participationSchema_def gs_def)
  then have "parse (ZOptional zint) (js_get ''event_id'' x) = Inr (js_get ''event_id'' p)"
    by (rule zod_parser.object_get[OF z]) (simp_all add: gs_def)
  then consider "js_get ''event_id'' p = JUndef"
    | r where "js_get ''event_id'' p = JNum (Fin r)" "of_int \<lfloor>r\<rfloor> = r"
    by (auto simp: zod_parser.accepts[OF z] split: if_splits)
  then show ?thesis
  proof cases
    case (2 r)
    then have "js_get ''event_id'' p = JInt \<lfloor>r\<rfloor>" by (simp only:)
    then show ?thesis by blast
  qed simp
qed

lemma map_filter_set: "k \<in> set (List.map_filter f xs) \<longleftrightarrow> (\<exists>x \<in> set xs. f x = Some k)"
  by (auto simp: List.map_filter_def image_iff)

lemma show_pair_inj: "show_int a @ '':'' @ show_int b = show_int c @ '':'' @ show_int d \<longleftrightarrow> a = c \<and> b = d"
proof
  assume e: "show_int a @ '':'' @ show_int b = show_int c @ '':'' @ show_int d"
  have "\<not> is_digit (CHR '':'')" by code_simp
  then have "list_all is_digit w \<Longrightarrow> CHR '':'' \<notin> set w" for w by (auto simp: list_all_iff)
  from this[OF show_nat_digits] have n: "CHR '':'' \<notin> set (show_int i)" for i by (simp add: show_int_def)
  have "split_on (CHR '':'') (show_int i @ '':'' @ show_int j) = [show_int i, show_int j]" for i j
    using split_on_append[OF n] split_on_no_sep[OF n] by simp
  then have "[show_int a, show_int b] = [show_int c, show_int d]" using e by metis
  then have "to_number (show_int a) = to_number (show_int c)" "to_number (show_int b) = to_number (show_int d)" by simp_all
  then show "a = c \<and> b = d" by simp
qed simp

text \<open>A category submission is shown when the organization takes part in its event and sport.\<close>

lemma category_rows:
  assumes "js_get ''events_id'' c = JInt e" "js_get ''sports_id'' c = JInt s"
    and "\<forall>p \<in> set parts. \<forall>k \<in> {''event_id'', ''sport_id''}. is_nullish (js_get k p) \<or> (\<exists>i. js_get k p = JInt i)"
    and "\<forall>p \<in> set subs. \<forall>k \<in> {''events_id'', ''sports_id''}. is_nullish (js_get k p) \<or> (\<exists>i. js_get k p = JInt i)"
  shows "c \<in> set (filteredCategories ''all'' parts subs cats) \<longleftrightarrow> c \<in> set cats \<and>
    ((\<exists>p \<in> set parts. js_get ''event_id'' p = JInt e \<and> js_get ''sport_id'' p = JInt s) \<or>
     (\<exists>p \<in> set subs. js_get ''events_id'' p = JInt e \<and> js_get ''sports_id'' p = JInt s))"
proof -
  have c: "pair_key ''events_id'' ''sports_id'' c = Some (show_int e @ '':'' @ show_int s)"
    using assms(1,2) by (simp add: pair_key_def)
  have pk: "pair_key ek sk p = Some (show_int e @ '':'' @ show_int s) \<longleftrightarrow> js_get ek p = JInt e \<and> js_get sk p = JInt s"
    if "is_nullish (js_get ek p) \<or> (\<exists>i. js_get ek p = JInt i)" "is_nullish (js_get sk p) \<or> (\<exists>i. js_get sk p = JInt i)" for ek sk p
    using that show_pair_inj by (auto simp: pair_key_def)
  have a: "in_event (eventFilter ''all'') k p" for k p by (simp add: in_event_def eventFilter_def)
  have "(\<exists>p \<in> set parts. pair_key ''event_id'' ''sport_id'' p = Some (show_int e @ '':'' @ show_int s)) \<longleftrightarrow>
      (\<exists>p \<in> set parts. js_get ''event_id'' p = JInt e \<and> js_get ''sport_id'' p = JInt s)"
    by (intro bex_cong refl pk) (use assms(3) in blast)+
  moreover have "(\<exists>p \<in> set subs. pair_key ''events_id'' ''sports_id'' p = Some (show_int e @ '':'' @ show_int s)) \<longleftrightarrow>
      (\<exists>p \<in> set subs. js_get ''events_id'' p = JInt e \<and> js_get ''sports_id'' p = JInt s)"
    by (intro bex_cong refl pk) (use assms(4) in blast)+
  ultimately show ?thesis
    unfolding filteredCategories_def orgEventSportKeys_def
    by (simp only: c a map_filter_set set_filter mem_Collect_eq Un_iff option.case simp_thms)
qed

text \<open>The totals of an organization's page add up: when the participations were validated by the adapter, choosing an
  event keeps exactly its rows, the event filter offers every event of the rows once, and for the four
  head counts the total over all events is the sum of the totals of the events offered and of the
  rows without an event; the participants shown are the athletes and leaders, and the three review
  counts never exceed the rows.\<close>

theorem organization_totals_add_up:
  assumes "zod_parser parse" "participation_getAll parse srv params = Inr ans" "js_get ''data'' ans = JArr parts"
    and "k \<in> {''athlete_male_count'', ''athlete_female_count'', ''leader_male_count'', ''leader_female_count''}"
    and "t = org_totals_of parts (filteredParts v parts)"
  shows "distinct (map fst (event_map parts subs)) \<and>
    (\<forall>p \<in> set parts. js_get ''event_id'' p \<noteq> JUndef \<longrightarrow> js_get ''event_id'' p \<in> fst ` set (event_map parts subs)) \<and>
    (\<forall>i. filteredParts (show_int i) parts = filter (\<lambda>p. js_get ''event_id'' p = JInt i) parts) \<and>
    sum_of k (filteredParts ''all'' parts) =
      sum_list (map (\<lambda>e. sum_of k (filter (\<lambda>p. js_get ''event_id'' p = fst e) parts)) (event_map parts subs)) +
      sum_of k (filter (\<lambda>p. is_nullish (js_get ''event_id'' p)) parts) \<and>
    ot_participants t = ot_athletes t + ot_leaders t \<and>
    ot_pending t + ot_approved t + ot_rejected t \<le> length (filteredParts v parts)"
proof (intro conjI)
  note ids = participation_event[OF assms(1-3)]
  have keys: "\<forall>p \<in> set parts. is_nullish (js_get ''event_id'' p) \<or> js_get ''event_id'' p \<in> set (map fst (event_map parts subs))"
    "\<forall>i \<in> set (map fst (event_map parts subs)). \<not> is_nullish i"
    unfolding set_map event_map_keys by auto
  have "filteredParts ''all'' parts = parts" by (simp add: filteredParts_def eventFilter_def in_event_def filter_id_conv)
  then show "sum_of k (filteredParts ''all'' parts) =
      sum_list (map (\<lambda>e. sum_of k (filter (\<lambda>p. js_get ''event_id'' p = fst e) parts)) (event_map parts subs)) +
      sum_of k (filter (\<lambda>p. is_nullish (js_get ''event_id'' p)) parts)"
    using sum_by_event[OF event_map_distinct keys, of "num_or_0 k"] by (simp add: sum_of_def comp_def)
  show "\<forall>p \<in> set parts. js_get ''event_id'' p \<noteq> JUndef \<longrightarrow> js_get ''event_id'' p \<in> fst ` set (event_map parts subs)"
    using ids keys(1) by fastforce
  have "with_status ''SUBMITTED'' ps + with_status ''APPROVED'' ps + with_status ''REJECTED'' ps \<le> length ps" for ps
    by (induction ps) (auto simp: with_status_def)
  then show "ot_pending t + ot_approved t + ot_rejected t \<le> length (filteredParts v parts)"
    by (simp add: assms(5) org_totals_of_def Let_def)
  have "in_event (eventFilter (show_int i)) ''event_id'' = (\<lambda>p. js_get ''event_id'' p = JInt i)" for i
    by (rule ext) (rule in_event_id)
  then show "\<forall>i. filteredParts (show_int i) parts = filter (\<lambda>p. js_get ''event_id'' p = JInt i) parts"
    by (simp add: filteredParts_def)
qed (simp_all add: event_map_distinct assms(5) org_totals_of_def Let_def)

definition sample_participations :: js where
  "sample_participations = JObj [(''data'', JArr
     [JObj [(''id'', JInt 1), (''created_at'', JStr ''d''), (''athlete_male_count'', JInt 4), (''event_id'', JInt 3)],
      JObj [(''id'', JInt 2), (''created_at'', JStr ''d''), (''athlete_male_count'', JInt 7), (''event_id'', JInt 5)],
      JObj [(''id'', JInt 6), (''created_at'', JStr ''d''), (''athlete_male_count'', JInt 1)]]), (''count'', JInt 3)]"

lemma organization_totals_add_up_witness:
  "sum_of ''athlete_male_count'' (filteredParts ''all'' (js_list (js_get ''data'' sample_participations))) = 12"
proof -
  define parts where "parts = js_list (js_get ''data'' sample_participations)"
  have "zparse participationListSchema sample_participations = Inr sample_participations" by code_simp
  then have a: "participation_getAll zparse (\<lambda>_. Inr sample_participations) [] = Inr sample_participations"
    by (simp add: participation_getAll_def parsed_call_Inr)
  have d: "js_get ''data'' sample_participations = JArr parts" by (simp add: parts_def sample_participations_def)
  have "map fst (event_map parts []) = [JInt 3, JInt 5]" unfolding parts_def by code_simp
  moreover have "sum_of ''athlete_male_count'' (filter (\<lambda>p. js_get ''event_id'' p = JInt 3) parts) = 4"
    "sum_of ''athlete_male_count'' (filter (\<lambda>p. js_get ''event_id'' p = JInt 5) parts) = 7"
    "sum_of ''athlete_male_count'' (filter (\<lambda>p. is_nullish (js_get ''event_id'' p)) parts) = 1"
    unfolding parts_def by code_simp+
  ultimately show ?thesis
    using organization_totals_add_up[OF zp.zod_parser_axioms a d, of "''athlete_male_count''" _ "''all''" "[]"]
    by (auto simp: parts_def map_eq_Cons_conv)
qed

text \<open>The number of events shown counts the participations only, while the filter also offers the events of
  the sport submissions.\<close>

lemma events_counted_less:
  "ot_events (org_totals_of [] []) = 0 \<and> event_map [] [JObj [(''events_id'', JInt 3)]] \<noteq> []"
  by code_simp

text \<open>The roster's three choices: all, the athletes, the leaders.\<close>

lemma roster_choices:
  "fst (roster_counts rs) = length (roster_rows ''all'' rs)"
  "fst (snd (roster_counts rs)) = length (roster_rows ''athlete'' rs)"
  "snd (snd (roster_counts rs)) = length (roster_rows ''leader'' rs)"
  by (simp_all add: roster_counts_def roster_rows_def)

end
