(* ===== verification/Organizer_Registration.thy ===== *)
theory Organizer_Registration
  imports Access_Control Http Query_Cache Step_Wizard
begin

text \<open>
  Organizers, modules/organizers: the registration page with its four steps, its request and the
  error it shows, the api, and the manager of organizer roles; with the check of the documents in
  the backend's organizer service, which decides what becomes of the page's requests.
\<close>

section \<open>Api\<close>

definition ep_organizer_register :: string where "ep_organizer_register = ''/api/v1/registration/organizer''"
definition ep_organizer_roles :: string where "ep_organizer_roles = ''/api/v1/organizer-roles''"
definition ep_organizer_role :: "int \<Rightarrow> string" where "ep_organizer_role i = ''/api/v1/organizer-roles/'' @ show_int i"

definition apiRegisterOrganizer :: "js \<Rightarrow> request" where
  "apiRegisterOrganizer payload = body_req ''post'' ep_organizer_register payload"

definition apiListOrganizerRoles :: "bool \<Rightarrow> request" where
  "apiListOrganizerRoles activeOnly = get_req ep_organizer_roles (if activeOnly then [] else [(''all'', JBool True)])"

definition apiCreateOrganizerRole :: "js \<Rightarrow> request" where
  "apiCreateOrganizerRole payload = body_req ''post'' ep_organizer_roles payload"

definition apiUpdateOrganizerRole :: "int \<Rightarrow> js \<Rightarrow> request" where
  "apiUpdateOrganizerRole i payload = body_req ''patch'' (ep_organizer_role i) payload"

definition k_organizer_roles :: qkey where "k_organizer_roles = [JStr ''organizer-roles'']"
definition k_organizer_roles_list :: "bool \<Rightarrow> qkey" where
  "k_organizer_roles_list activeOnly = [JStr ''organizer-roles'', JStr ''list'', JBool activeOnly]"

section \<open>The registration page\<close>

datatype organizer_step = OrgEvent | OrgPersonal | OrgRole | OrgReview

definition ORG_STEPS :: "organizer_step list" where "ORG_STEPS = [OrgEvent, OrgPersonal, OrgRole, OrgReview]"

record organizer_page =
  og_step :: organizer_step
  og_success :: bool
  og_serverError :: "js option"
  og_pending :: bool
  og_eventId :: string
  og_orgId :: "string option"
  og_khFamily :: string
  og_khGiven :: string
  og_enFamily :: string
  og_enGiven :: string
  og_gender :: string
  og_dateOfBirth :: string
  og_phone :: string
  og_idDocType :: string
  og_address :: string
  og_roleId :: string

text \<open>The organization of an organization's user is fixed when the page mounts.\<close>

definition og_start :: "user_role option \<Rightarrow> js \<Rightarrow> organizer_page" where
  "og_start role org_id =
     \<lparr> og_step = OrgEvent, og_success = False, og_serverError = None, og_pending = False, og_eventId = [],
       og_orgId = (if role = Some ORGANIZATION \<and> truthy org_id then Some (js_string org_id) else None),
       og_khFamily = [], og_khGiven = [], og_enFamily = [], og_enGiven = [], og_gender = [], og_dateOfBirth = [],
       og_phone = [], og_idDocType = ''IDCard'', og_address = [], og_roleId = [] \<rparr>"

definition open_events :: "js list \<Rightarrow> js list" where
  "open_events evs = filter (\<lambda>e. js_get ''registration_is_open'' e \<noteq> JBool False) evs"

definition canProceedEvent :: "organizer_page \<Rightarrow> bool" where
  "canProceedEvent s \<longleftrightarrow> og_eventId s \<noteq> []"

definition canProceedPersonal :: "organizer_page \<Rightarrow> bool" where
  "canProceedPersonal s \<longleftrightarrow>
     og_khFamily s \<noteq> [] \<and> og_khGiven s \<noteq> [] \<and> og_enFamily s \<noteq> [] \<and> og_enGiven s \<noteq> [] \<and>
     og_gender s \<noteq> [] \<and> og_dateOfBirth s \<noteq> [] \<and> og_phone s \<noteq> []"

definition canProceedRole :: "organizer_page \<Rightarrow> bool" where
  "canProceedRole s \<longleftrightarrow> og_roleId s \<noteq> []"

fun can_proceed :: "organizer_step \<Rightarrow> organizer_page \<Rightarrow> bool" where
  "can_proceed OrgEvent s = canProceedEvent s"
| "can_proceed OrgPersonal s = canProceedPersonal s"
| "can_proceed OrgRole s = canProceedRole s"
| "can_proceed OrgReview s = True"

definition og_handleNext :: "organizer_page \<Rightarrow> organizer_page" where
  "og_handleNext s =
     (let idx = index_of (og_step s) ORG_STEPS in
      if idx < int (length ORG_STEPS) - 1 then s\<lparr>og_step := ORG_STEPS ! nat (idx + 1)\<rparr> else s)"

definition og_handleBack :: "organizer_page \<Rightarrow> organizer_page" where
  "og_handleBack s =
     (let idx = index_of (og_step s) ORG_STEPS in if 0 < idx then s\<lparr>og_step := ORG_STEPS ! nat (idx - 1)\<rparr> else s)"

text \<open>The two buttons under the card, disabled as the page disables them; the step indicator does nothing.\<close>

definition next_button :: "organizer_page \<Rightarrow> organizer_page" where
  "next_button s = (if og_step s \<noteq> OrgReview \<and> can_proceed (og_step s) s then og_handleNext s else s)"

definition back_button :: "organizer_page \<Rightarrow> organizer_page" where
  "back_button s = (if og_step s = OrgEvent then s else og_handleBack s)"

definition og_indicator :: "nat \<Rightarrow> organizer_page \<Rightarrow> organizer_page" where
  "og_indicator i s = indicator_click (\<lambda>_ t. t) (length ORG_STEPS) (index_of (og_step s) ORG_STEPS) i s"

definition organizer_payload :: "organizer_page \<Rightarrow> js" where
  "organizer_payload s =
     JObj [(''eventId'', JNum (to_number (og_eventId s))),
       (''organizationId'', case og_orgId s of Some o1 \<Rightarrow> if o1 \<noteq> [] then JNum (to_number o1) else JNull | None \<Rightarrow> JNull),
       (''organizerRoleId'', JNum (to_number (og_roleId s))),
       (''lastNameKhmer'', JStr (og_khFamily s)), (''firstNameKhmer'', JStr (og_khGiven s)),
       (''lastNameLatin'', JStr (og_enFamily s)), (''firstNameLatin'', JStr (og_enGiven s)),
       (''gender'', JStr (og_gender s)), (''dateOfBirth'', JStr (og_dateOfBirth s)), (''phone'', JStr (og_phone s)),
       (''idDocType'', JStr (og_idDocType s)), (''nationality'', JStr ''Cambodian''),
       (''address'', if og_address s \<noteq> [] then JStr (og_address s) else JNull)]"

definition response_detail :: "js_error \<Rightarrow> js" where
  "response_detail e =
     (case e of
        AxiosError _ d _ \<Rightarrow> d
      | PlainObject v \<Rightarrow> js_get ''detail'' (js_get ''data'' (js_get ''response'' v))
      | _ \<Rightarrow> JUndef)"

definition organizer_error :: "js_error \<Rightarrow> js" where
  "organizer_error e =
     (case response_detail e of
        JStr t \<Rightarrow> JStr t
      | d \<Rightarrow> if truthy (js_get ''message'' d) then js_get ''message'' d else JStr ''toast.error'')"

text \<open>The inputs that each step shows. A select writes the value of one of its options.\<close>

datatype personal_field =
  KhFamilyName | KhGivenName | EnFamilyName | EnGivenName | GenderField | DateOfBirth | PhoneField | IdDocType | AddressField

fun set_personal :: "personal_field \<Rightarrow> string \<Rightarrow> organizer_page \<Rightarrow> organizer_page" where
  "set_personal KhFamilyName v s = s\<lparr>og_khFamily := v\<rparr>"
| "set_personal KhGivenName v s = s\<lparr>og_khGiven := v\<rparr>"
| "set_personal EnFamilyName v s = s\<lparr>og_enFamily := v\<rparr>"
| "set_personal EnGivenName v s = s\<lparr>og_enGiven := v\<rparr>"
| "set_personal GenderField v s = (if v \<in> {[], ''Male'', ''Female''} then s\<lparr>og_gender := v\<rparr> else s)"
| "set_personal DateOfBirth v s = s\<lparr>og_dateOfBirth := v\<rparr>"
| "set_personal PhoneField v s = s\<lparr>og_phone := v\<rparr>"
| "set_personal IdDocType v s = (if v \<in> {''IDCard'', ''Passport''} then s\<lparr>og_idDocType := v\<rparr> else s)"
| "set_personal AddressField v s = s\<lparr>og_address := v\<rparr>"

record og_context =
  ox_role :: "user_role option"
  ox_org :: js
  ox_events :: "js list"
  ox_orgs :: "js list"
  ox_roles :: "js list"

definition option_values :: "js list \<Rightarrow> string list" where
  "option_values xs = [] # map (\<lambda>x. js_string (js_get ''id'' x)) xs"

datatype og_event =
    Og_event string
  | Og_org string
  | Og_personal personal_field string
  | Og_role js
  | Og_next
  | Og_back
  | Og_indicator nat
  | Og_submit
  | Og_answer "(js_error, unit) result"
  | Og_another

fun og_step_page :: "og_context \<Rightarrow> og_event \<Rightarrow> organizer_page \<Rightarrow> organizer_page" where
  "og_step_page cx (Og_event v) s =
     (if og_step s = OrgEvent \<and> v \<in> set (option_values (open_events (ox_events cx))) then s\<lparr>og_eventId := v\<rparr> else s)"
| "og_step_page cx (Og_org v) s =
     (if og_step s = OrgEvent \<and> ox_role cx \<noteq> Some ORGANIZATION \<and> v \<in> set (option_values (ox_orgs cx))
      then s\<lparr>og_orgId := if v = [] then None else Some v\<rparr> else s)"
| "og_step_page cx (Og_personal f v) s = (if og_step s = OrgPersonal then set_personal f v s else s)"
| "og_step_page cx (Og_role r) s =
     (if og_step s = OrgRole \<and> r \<in> set (ox_roles cx) then s\<lparr>og_roleId := js_string (js_get ''id'' r)\<rparr> else s)"
| "og_step_page cx Og_next s = next_button s"
| "og_step_page cx Og_back s = back_button s"
| "og_step_page cx (Og_indicator i) s = og_indicator i s"
| "og_step_page cx Og_submit s =
     (if og_step s = OrgReview \<and> \<not> og_pending s then s\<lparr>og_serverError := None, og_pending := True\<rparr> else s)"
| "og_step_page cx (Og_answer a) s =
     (if og_pending s
      then (case a of Inr _ \<Rightarrow> s\<lparr>og_pending := False, og_success := True\<rparr>
                    | Inl e \<Rightarrow> s\<lparr>og_pending := False, og_serverError := Some (organizer_error e)\<rparr>)
      else s)"
| "og_step_page cx Og_another s = s"

text \<open>The page after a success shows one button, which reloads it.\<close>

definition og_act :: "og_context \<Rightarrow> og_event \<Rightarrow> organizer_page \<Rightarrow> organizer_page" where
  "og_act cx ev s =
     (if og_success s then (if ev = Og_another then og_start (ox_role cx) (ox_org cx) else s) else og_step_page cx ev s)"

definition og_request :: "og_event \<Rightarrow> organizer_page \<Rightarrow> request list" where
  "og_request ev s =
     (if \<not> og_success s \<and> ev = Og_submit \<and> og_step s = OrgReview \<and> \<not> og_pending s
      then [apiRegisterOrganizer (organizer_payload s)] else [])"

text \<open>The review of what was entered.\<close>

definition og_review_event :: "js list \<Rightarrow> organizer_page \<Rightarrow> js" where
  "og_review_event evs s =
     (let ev = or_else (find (\<lambda>e. js_string (js_get ''id'' e) = og_eventId s) (open_events evs)) JUndef in
      js_or (js_or (js_get ''name_en'' ev) (js_get ''name_kh'' ev)) (JStr (og_eventId s)))"

definition option_label :: "string \<Rightarrow> js \<Rightarrow> js" where
  "option_label word x =
     js_or (js_or (js_get ''name_en'' x) (js_get ''name_kh'' x)) (JStr (word @ '' #'' @ js_string (js_get ''id'' x)))"

section \<open>The backend's check of the documents\<close>

definition document_refusal :: "int \<Rightarrow> js \<Rightarrow> string option" where
  "document_refusal age data =
     (if age < 18
      then (if \<not> truthy (js_get ''birthCertificatePath'' data) then Some ''birth_certificate'' else None)
      else (if \<not> truthy (js_get ''nationalIdPath'' data) \<and> \<not> truthy (js_get ''passportPath'' data)
            then Some ''national_id_or_passport'' else None))"

section \<open>The role manager\<close>

record role_manager =
  rm_showForm :: bool
  rm_nameKh :: string
  rm_nameEn :: string
  rm_creating :: bool

definition rm_start :: role_manager where
  "rm_start = \<lparr> rm_showForm = False, rm_nameKh = [], rm_nameEn = [], rm_creating = False \<rparr>"

datatype role_event =
    Rm_add
  | Rm_cancel
  | Rm_kh string
  | Rm_en string
  | Rm_create
  | Rm_created "(js_error, unit) result"
  | Rm_toggle int bool

fun rm_step :: "role_event \<Rightarrow> role_manager \<Rightarrow> role_manager \<times> request list" where
  "rm_step Rm_add s = (s\<lparr>rm_showForm := \<not> rm_showForm s\<rparr>, [])"
| "rm_step Rm_cancel s = (s\<lparr>rm_showForm := False\<rparr>, [])"
| "rm_step (Rm_kh v) s = (if rm_showForm s then (s\<lparr>rm_nameKh := v\<rparr>, []) else (s, []))"
| "rm_step (Rm_en v) s = (if rm_showForm s then (s\<lparr>rm_nameEn := v\<rparr>, []) else (s, []))"
| "rm_step Rm_create s =
     (if rm_showForm s \<and> \<not> rm_creating s \<and> trim (rm_nameKh s) \<noteq> [] \<and> trim (rm_nameEn s) \<noteq> []
      then (s\<lparr>rm_creating := True\<rparr>,
            [apiCreateOrganizerRole (JObj [(''name_kh'', JStr (rm_nameKh s)), (''name_en'', JStr (rm_nameEn s))])])
      else (s, []))"
| "rm_step (Rm_created a) s =
     (if rm_creating s
      then (case a of Inr _ \<Rightarrow> rm_start | Inl _ \<Rightarrow> s\<lparr>rm_creating := False\<rparr>, [])
      else (s, []))"
| "rm_step (Rm_toggle i current) s = (s, [apiUpdateOrganizerRole i (JObj [(''active'', JBool (\<not> current))])])"

section \<open>The wizard's promise\<close>

lemma org_steps_index: "index_of p ORG_STEPS = (case p of OrgEvent \<Rightarrow> 0 | OrgPersonal \<Rightarrow> 1 | OrgRole \<Rightarrow> 2 | OrgReview \<Rightarrow> 3)"
  by (cases p) (simp_all add: ORG_STEPS_def)

lemma next_button_eq:
  "next_button s = (if can_proceed (og_step s) s
     then (case og_step s of OrgEvent \<Rightarrow> s\<lparr>og_step := OrgPersonal\<rparr> | OrgPersonal \<Rightarrow> s\<lparr>og_step := OrgRole\<rparr>
           | OrgRole \<Rightarrow> s\<lparr>og_step := OrgReview\<rparr> | OrgReview \<Rightarrow> s) else s)"
  by (cases "og_step s") (simp_all add: next_button_def og_handleNext_def org_steps_index, simp_all add: ORG_STEPS_def)

lemma back_button_eq:
  "back_button s = s\<lparr>og_step := (case og_step s of OrgEvent \<Rightarrow> OrgEvent | OrgPersonal \<Rightarrow> OrgEvent
     | OrgRole \<Rightarrow> OrgPersonal | OrgReview \<Rightarrow> OrgRole)\<rparr>"
  by (cases "og_step s") (simp_all add: back_button_def og_handleBack_def org_steps_index, simp_all add: ORG_STEPS_def)

lemma og_indicator_id [simp]: "og_indicator i s = s"
  by (simp add: og_indicator_def indicator_click_def)

lemma can_proceed_step [simp]: "can_proceed p (s\<lparr>og_step := q\<rparr>) = can_proceed p s"
  by (cases p) (simp_all add: canProceedEvent_def canProceedPersonal_def canProceedRole_def)

lemma org_steps_at [simp]:
  "length ORG_STEPS = 4" "ORG_STEPS ! 0 = OrgEvent" "ORG_STEPS ! Suc 0 = OrgPersonal" "ORG_STEPS ! Suc (Suc 0) = OrgRole"
  "ORG_STEPS ! 1 = OrgPersonal" "ORG_STEPS ! 2 = OrgRole" "ORG_STEPS ! 3 = OrgReview" "ORG_STEPS ! Suc 2 = OrgReview"
  by (simp_all add: ORG_STEPS_def)

lemma org_steps_distinct: "distinct ORG_STEPS" by (simp add: ORG_STEPS_def)

lemma org_steps_nth: "i < length ORG_STEPS \<Longrightarrow> q = ORG_STEPS ! i \<Longrightarrow> i = nat (index_of q ORG_STEPS)"
  using index_of_nth[of ORG_STEPS i] org_steps_distinct by simp

interpretation og: step_wizard "\<lambda>_. ORG_STEPS" og_step can_proceed next_button back_button og_indicator
proof
  fix s p i
  show "distinct ORG_STEPS" by (rule org_steps_distinct)
  show "can_proceed p (next_button s) = can_proceed p s"
    by (simp add: next_button_eq split: organizer_step.split)
  show "can_proceed p (back_button s) = can_proceed p s" by (simp add: back_button_eq)
  assume i: "i < length ORG_STEPS" "og_step s = ORG_STEPS ! i"
  have e: "i = nat (index_of (og_step s) ORG_STEPS)" by (rule org_steps_nth[OF i])
  show "og_step (next_button s) = og_step s \<or>
      can_proceed (og_step s) s \<and> Suc i < length ORG_STEPS \<and> og_step (next_button s) = ORG_STEPS ! Suc i"
    by (cases "og_step s") (simp_all add: next_button_eq e org_steps_index)
  show "og_step (back_button s) = ORG_STEPS ! (i - 1)"
    by (cases "og_step s") (simp_all add: back_button_eq e org_steps_index)
qed simp_all

lemma og_on: "og.on i s \<longleftrightarrow> i < 4 \<and> og_step s = ORG_STEPS ! i \<and> (\<forall>j < i. can_proceed (ORG_STEPS ! j) s)"
  by (simp add: og.on_def)

text \<open>The pages a user can reach while the session keeps its role and organization.\<close>

inductive og_reach :: "user_role option \<Rightarrow> js \<Rightarrow> organizer_page \<Rightarrow> bool" for role org where
  og_mount: "og_reach role org (og_start role org)"
| og_more: "og_reach role org s \<Longrightarrow> ox_role cx = role \<Longrightarrow> ox_org cx = org \<Longrightarrow> og_reach role org (og_act cx ev s)"

definition og_values_ok :: "user_role option \<Rightarrow> js \<Rightarrow> organizer_page \<Rightarrow> bool" where
  "og_values_ok role org s \<longleftrightarrow>
     og_gender s \<in> {[], ''Male'', ''Female''} \<and> og_idDocType s \<in> {''IDCard'', ''Passport''} \<and>
     (role = Some ORGANIZATION \<longrightarrow> og_orgId s = og_orgId (og_start role org))"

lemma og_start_on: "og.on 0 (og_start role org)"
  by (simp add: og_on og_start_def)

lemma set_personal_step [simp]: "og_step (set_personal f v s) = og_step s"
  by (cases f) simp_all

lemma set_personal_event [simp]: "canProceedEvent (set_personal f v s) = canProceedEvent s"
  by (cases f) (simp_all add: canProceedEvent_def)

lemma og_index: "og.on i s \<Longrightarrow> i = (case og_step s of OrgEvent \<Rightarrow> 0 | OrgPersonal \<Rightarrow> 1 | OrgRole \<Rightarrow> 2 | OrgReview \<Rightarrow> 3)"
  using org_steps_nth[of i "og_step s"] by (simp add: og_on org_steps_index split: organizer_step.splits)

lemma og_gates:
  "og.on i s \<longleftrightarrow> (case og_step s of OrgEvent \<Rightarrow> i = 0 | OrgPersonal \<Rightarrow> i = 1 \<and> canProceedEvent s
     | OrgRole \<Rightarrow> i = 2 \<and> canProceedEvent s \<and> canProceedPersonal s
     | OrgReview \<Rightarrow> i = 3 \<and> canProceedEvent s \<and> canProceedPersonal s \<and> canProceedRole s)"
proof -
  have "{..<2} = {0, 1::nat}" "{..<3} = {0, 1, 2::nat}" by auto
  then have "(\<forall>j < 2. P j) \<longleftrightarrow> P 0 \<and> P 1" "(\<forall>j < 3. P j) \<longleftrightarrow> P 0 \<and> P 1 \<and> P 2" for P :: "nat \<Rightarrow> bool"
    unfolding lessThan_iff[symmetric] Ball_def[symmetric] by simp_all
  note two = this
  show ?thesis
  proof (cases "i < 4 \<and> og_step s = ORG_STEPS ! i")
    case True
    then have "i = 0 \<or> i = 1 \<or> i = 2 \<or> i = 3" by linarith
    then show ?thesis using True by (elim disjE) (simp_all add: og_on two)
  next
    case False
    then show ?thesis by (cases "og_step s") (auto simp: og_on)
  qed
qed

lemma og_step_edits:
  "og_step s = OrgEvent \<Longrightarrow> og_step t = OrgEvent \<Longrightarrow> og.on i s \<Longrightarrow> og.on i t"
  "og_step s = OrgPersonal \<Longrightarrow> og_step t = OrgPersonal \<Longrightarrow> canProceedEvent t = canProceedEvent s \<Longrightarrow> og.on i s \<Longrightarrow> og.on i t"
  "og_step s = OrgRole \<Longrightarrow> og_step t = OrgRole \<Longrightarrow> canProceedEvent t = canProceedEvent s \<Longrightarrow>
     canProceedPersonal t = canProceedPersonal s \<Longrightarrow> og.on i s \<Longrightarrow> og.on i t"
  by (simp_all add: og_gates)

lemma on_same: "og_step t = og_step s \<Longrightarrow> (\<And>p. can_proceed p t = can_proceed p s) \<Longrightarrow> og.on i s \<Longrightarrow> og.on i t"
  by (simp add: og.on_def)

lemma can_proceed_flags [simp]:
  "can_proceed p (s\<lparr>og_serverError := x, og_pending := b\<rparr>) = can_proceed p s"
  "can_proceed p (s\<lparr>og_pending := b, og_serverError := x\<rparr>) = can_proceed p s"
  "can_proceed p (s\<lparr>og_pending := b, og_success := c\<rparr>) = can_proceed p s"
  by (cases p; simp add: canProceedEvent_def canProceedPersonal_def canProceedRole_def)+

lemma og_step_page_on:
  assumes "og.on i s" shows "\<exists>j. og.on j (og_step_page cx ev s)"
proof (cases ev)
  case Og_next
  then show ?thesis using og.on_nxt[OF assms] by auto
next
  case Og_back
  then show ?thesis using og.on_prev[OF assms] by auto
next
  case (Og_event v)
  then have "og.on i (og_step_page cx ev s)"
    using assms og_step_edits(1)[of s "s\<lparr>og_eventId := v\<rparr>" i] by simp
  then show ?thesis ..
next
  case (Og_org v)
  then have "og.on i (og_step_page cx ev s)"
    using assms og_step_edits(1)[of s "s\<lparr>og_orgId := if v = [] then None else Some v\<rparr>" i] by simp
  then show ?thesis ..
next
  case (Og_personal f v)
  then have "og.on i (og_step_page cx ev s)"
    using assms og_step_edits(2)[of s "set_personal f v s" i] by simp
  then show ?thesis ..
next
  case (Og_role r)
  then have "og.on i (og_step_page cx ev s)"
    using assms og_step_edits(3)[of s "s\<lparr>og_roleId := js_string (js_get ''id'' r)\<rparr>" i]
    by (simp add: canProceedEvent_def canProceedPersonal_def)
  then show ?thesis ..
next
  case Og_submit
  have "og.on i (s\<lparr>og_serverError := None, og_pending := True\<rparr>)" by (rule on_same[OF _ _ assms]) simp_all
  then show ?thesis using Og_submit assms by auto
next
  case (Og_answer a)
  have "og.on i (s\<lparr>og_pending := False, og_success := True\<rparr>)"
    "og.on i (s\<lparr>og_pending := False, og_serverError := Some e\<rparr>)" for e
    by (rule on_same[OF _ _ assms]; simp)+
  then show ?thesis using Og_answer assms by (auto split: sum.split)
qed (use assms in auto)

lemma set_personal_ok: "og_values_ok role org s \<Longrightarrow> og_values_ok role org (set_personal f v s)"
  by (cases f) (simp_all add: og_values_ok_def)

lemma og_step_page_ok:
  assumes "og_values_ok role org s" "ox_role cx = role"
  shows "og_values_ok role org (og_step_page cx ev s)"
proof (cases ev)
  case (Og_personal f v)
  then show ?thesis using assms set_personal_ok by simp
next
  case Og_next
  then show ?thesis using assms by (simp add: next_button_eq og_values_ok_def split: organizer_step.split)
qed (use assms in \<open>auto simp: og_values_ok_def back_button_eq split: sum.split\<close>)

lemma og_reach_inv: "og_reach role org s \<Longrightarrow> og_values_ok role org s \<and> (\<exists>i. og.on i s)"
proof (induction rule: og_reach.induct)
  case og_mount
  have "og_values_ok role org (og_start role org)" by (simp add: og_values_ok_def og_start_def)
  then show ?case using og_start_on by blast
next
  case (og_more s cx ev)
  have start: "og_values_ok role org (og_start role org)" by (simp add: og_values_ok_def og_start_def)
  show ?case
  proof (cases "og_success s")
    case True
    then show ?thesis using og_more start og_start_on by (auto simp: og_act_def)
  next
    case False
    obtain i where "og.on i s" using og_more.IH by blast
    then show ?thesis using False og_step_page_on[of i s cx ev] og_step_page_ok[of role org s cx ev] og_more
      by (simp add: og_act_def)
  qed
qed

lemma on_review_gates:
  "og.on i s \<Longrightarrow> og_step s = OrgReview \<Longrightarrow> canProceedEvent s \<and> canProceedPersonal s \<and> canProceedRole s"
  by (simp add: og_gates)


section \<open>What the page can send\<close>

lemma og_payload_get:
  "js_get ''eventId'' (organizer_payload s) = JNum (to_number (og_eventId s))"
  "js_get ''organizerRoleId'' (organizer_payload s) = JNum (to_number (og_roleId s))"
  "js_get ''organizationId'' (organizer_payload s) =
     (case og_orgId s of Some o1 \<Rightarrow> if o1 \<noteq> [] then JNum (to_number o1) else JNull | None \<Rightarrow> JNull)"
  "js_get ''lastNameKhmer'' (organizer_payload s) = JStr (og_khFamily s)"
  "js_get ''firstNameKhmer'' (organizer_payload s) = JStr (og_khGiven s)"
  "js_get ''lastNameLatin'' (organizer_payload s) = JStr (og_enFamily s)"
  "js_get ''firstNameLatin'' (organizer_payload s) = JStr (og_enGiven s)"
  "js_get ''gender'' (organizer_payload s) = JStr (og_gender s)"
  "js_get ''dateOfBirth'' (organizer_payload s) = JStr (og_dateOfBirth s)"
  "js_get ''phone'' (organizer_payload s) = JStr (og_phone s)"
  "js_get ''idDocType'' (organizer_payload s) = JStr (og_idDocType s)"
  by (simp_all add: organizer_payload_def)

text \<open>None of the five file fields is ever sent, so the backend refuses the documents at any age.\<close>

lemma organizer_documents_missing: "document_refusal age (organizer_payload s) \<noteq> None"
  by (simp add: document_refusal_def organizer_payload_def)

definition ORG_TEXTS :: "string list" where
  "ORG_TEXTS = [''lastNameKhmer'', ''firstNameKhmer'', ''lastNameLatin'', ''firstNameLatin'', ''gender'', ''dateOfBirth'', ''phone'']"

lemma organizer_texts:
  "canProceedPersonal s \<Longrightarrow> k \<in> set ORG_TEXTS \<Longrightarrow> truthy (js_get k (organizer_payload s))"
  unfolding ORG_TEXTS_def by (simp, elim disjE) (simp_all add: og_payload_get canProceedPersonal_def)

lemma own_organization:
  "og_reach (Some ORGANIZATION) (JInt i) s \<Longrightarrow> i \<noteq> 0 \<Longrightarrow> js_get ''organizationId'' (organizer_payload s) = JInt i"
  using og_reach_inv[of "Some ORGANIZATION" "JInt i" s]
  by (simp add: og_values_ok_def og_start_def og_payload_get)

text \<open>C27. The organizer page's requests: whatever the user does and however the events, organizations and
  roles offered change, a request leaves only from the review step and only one is pending; it is a
  post with an event, a role, all four names, a gender of the list, a birth date and a phone that
  are not empty, and an organization's user registers for the own organization only. But no file is
  ever part of it, so at every age the document check of the organizer service refuses it.\<close>

theorem organizer_requests_complete:
  assumes "og_reach role org s" "rq \<in> set (og_request ev s)"
  shows "rq = body_req ''post'' ''/api/v1/registration/organizer'' (organizer_payload s) \<and>
    og_step s = OrgReview \<and> \<not> og_pending s \<and> og_pending (og_act cx ev s) \<and> og_request Og_submit (og_act cx ev s) = [] \<and>
    og_eventId s \<noteq> [] \<and> og_roleId s \<noteq> [] \<and>
    (\<forall>k \<in> set ORG_TEXTS. truthy (js_get k (organizer_payload s))) \<and>
    js_get ''gender'' (organizer_payload s) \<in> {JStr ''Male'', JStr ''Female''} \<and>
    (\<forall>i. role = Some ORGANIZATION \<and> org = JInt i \<and> i \<noteq> 0 \<longrightarrow> js_get ''organizationId'' (organizer_payload s) = JInt i) \<and>
    document_refusal age (organizer_payload s) \<noteq> None"
proof -
  obtain i where i: "og.on i s" and v: "og_values_ok role org s" using og_reach_inv[OF assms(1)] by blast
  have r: "\<not> og_success s" "ev = Og_submit" "og_step s = OrgReview" "\<not> og_pending s"
    "rq = apiRegisterOrganizer (organizer_payload s)"
    using assms(2) by (auto simp: og_request_def split: if_splits)
  have g: "canProceedEvent s" "canProceedPersonal s" "canProceedRole s" using on_review_gates[OF i r(3)] by blast+
  have "js_get ''gender'' (organizer_payload s) \<in> {JStr ''Male'', JStr ''Female''}"
    using g(2) v by (auto simp: og_payload_get canProceedPersonal_def og_values_ok_def)
  moreover have p: "og_pending (og_act cx ev s)" using r by (simp add: og_act_def)
  moreover from p have "og_request Og_submit (og_act cx ev s) = []" by (simp add: og_request_def)
  moreover have "\<forall>i. role = Some ORGANIZATION \<and> org = JInt i \<and> i \<noteq> 0 \<longrightarrow>
      js_get ''organizationId'' (organizer_payload s) = JInt i"
    using own_organization assms(1) by blast
  moreover have "rq = body_req ''post'' ''/api/v1/registration/organizer'' (organizer_payload s)"
    using r(5) by (simp add: apiRegisterOrganizer_def ep_organizer_register_def)
  moreover have "og_eventId s \<noteq> []" "og_roleId s \<noteq> []"
    using g by (simp_all add: canProceedEvent_def canProceedRole_def)
  ultimately show ?thesis
    using r(3,4) organizer_texts[OF g(2)] organizer_documents_missing p by blast
qed

definition og_acts :: "og_context \<Rightarrow> og_event list \<Rightarrow> organizer_page \<Rightarrow> organizer_page" where
  "og_acts cx evs s = fold (og_act cx) evs s"

lemma og_acts_reach: "og_reach (ox_role cx) (ox_org cx) s \<Longrightarrow> og_reach (ox_role cx) (ox_org cx) (og_acts cx evs s)"
  by (induction evs arbitrary: s) (simp_all add: og_acts_def og_more)

definition sample_context :: og_context where
  "sample_context = \<lparr> ox_role = Some ORGANIZATION, ox_org = JInt 12,
     ox_events = [JObj [(''id'', JInt 3), (''registration_is_open'', JBool True)]], ox_orgs = [],
     ox_roles = [JObj [(''id'', JInt 5)]] \<rparr>"

definition sample_clicks :: "og_event list" where
  "sample_clicks =
     [Og_event ''3'', Og_next, Og_personal KhFamilyName ''A'', Og_personal KhGivenName ''B'', Og_personal EnFamilyName ''C'',
      Og_personal EnGivenName ''D'', Og_personal GenderField ''Male'', Og_personal DateOfBirth ''1990-01-01'',
      Og_personal PhoneField ''012345678'', Og_next, Og_role (JObj [(''id'', JInt 5)]), Og_next]"

lemma organizer_requests_complete_witness:
  "og_request Og_submit (og_acts sample_context sample_clicks (og_start (Some ORGANIZATION) (JInt 12))) \<noteq> [] \<and>
   js_get ''organizationId'' (organizer_payload (og_acts sample_context sample_clicks (og_start (Some ORGANIZATION) (JInt 12)))) = JInt 12 \<and>
   document_refusal 35 (organizer_payload (og_acts sample_context sample_clicks (og_start (Some ORGANIZATION) (JInt 12)))) \<noteq> None"
proof -
  define s where "s = og_acts sample_context sample_clicks (og_start (Some ORGANIZATION) (JInt 12))"
  have r: "og_reach (Some ORGANIZATION) (JInt 12) s"
    using og_acts_reach[of sample_context, OF og_mount] by (simp add: s_def sample_context_def)
  have "og_step s = OrgReview \<and> \<not> og_pending s \<and> \<not> og_success s" unfolding s_def by code_simp
  then have q: "og_request Og_submit s = [apiRegisterOrganizer (organizer_payload s)]" by (simp add: og_request_def)
  then show ?thesis
    using organizer_requests_complete[OF r, of "apiRegisterOrganizer (organizer_payload s)" Og_submit sample_context 35]
    by (simp add: s_def)
qed

text \<open>An organization's user whose session was not known when the page mounted sends no organization,
  although the page offers no choice.\<close>

lemma late_session_no_organization:
  "og_orgId (og_start None JUndef) = None"
  "ox_role cx = Some ORGANIZATION \<Longrightarrow> og_act cx (Og_org v) s = s"
  by (simp_all add: og_start_def og_act_def)

text \<open>An empty detail of an error response leaves nothing to show: the page tests the text for truth.\<close>

lemma empty_detail_shows_nothing: "\<not> truthy (organizer_error (AxiosError st (JStr []) m))"
  by (simp add: organizer_error_def response_detail_def)

text \<open>A refusal of the service is shown by its message, and the form keeps what was entered.\<close>

lemma refusal_shown:
  assumes "og_pending s" "\<not> og_success s" "js_get ''message'' d = JStr m" "m \<noteq> []" "d = JObj fs"
  shows "og_act cx (Og_answer (Inl (AxiosError st d t))) s = s\<lparr>og_pending := False, og_serverError := Some (JStr m)\<rparr>"
  using assms by (simp add: og_act_def organizer_error_def response_detail_def)

text \<open>Roles: names that are not blank are required but sent untrimmed, and a success also discards
  what was typed while the request ran.\<close>

lemma role_create_untrimmed:
  "rq \<in> set (snd (rm_step Rm_create s)) \<Longrightarrow>
     trim (rm_nameKh s) \<noteq> [] \<and> trim (rm_nameEn s) \<noteq> [] \<and> js_get ''name_kh'' (ht_body rq) = JStr (rm_nameKh s)"
  by (auto simp: apiCreateOrganizerRole_def body_req_def split: if_splits)

lemma role_created_discards:
  "rm_creating s \<Longrightarrow> fst (rm_step (Rm_created (Inr ())) (fst (rm_step (Rm_kh v) s))) = rm_start"
  by simp

end
