(* ===== verification/Athlete_Import.thy ===== *)
theory Athlete_Import
  imports Http Query_Cache Registration File_Upload
begin

text \<open>
  The bulk import of athletes, modules/import: the page with the choice of event, sport and category,
  the two runs (validate and import) with their multipart request, the template, and the table of the
  report. The answer of a run is an event of its own.
\<close>

section \<open>Requests\<close>

definition ep_import_template :: string where "ep_import_template = ''/api/v1/imports/athletes/template''"
definition ep_import_validate :: string where "ep_import_validate = ''/api/v1/imports/athletes/validate''"
definition ep_import_commit :: string where "ep_import_commit = ''/api/v1/imports/athletes''"

record import_context =
  ic_eventId :: jnum
  ic_organizationId :: "jnum option"
  ic_sportId :: jnum
  ic_categoryId :: "jnum option"
  ic_force :: "bool option"

datatype form_part = FilePart file_info | TextPart string

definition toFormData :: "file_info \<Rightarrow> import_context \<Rightarrow> (string \<times> form_part) list" where
  "toFormData file cx =
     [(''file'', FilePart file), (''eventId'', TextPart (js_string (JNum (ic_eventId cx))))] @
     (case ic_organizationId cx of Some o1 \<Rightarrow> [(''organizationId'', TextPart (js_string (JNum o1)))] | None \<Rightarrow> []) @
     [(''sportId'', TextPart (js_string (JNum (ic_sportId cx))))] @
     (case ic_categoryId cx of Some c \<Rightarrow> [(''categoryId'', TextPart (js_string (JNum c)))] | None \<Rightarrow> []) @
     [(''force'', TextPart (js_string (JBool (or_else (ic_force cx) False))))]"

datatype import_kind = Validate | Commit

record import_request =
  im_path :: string
  im_content :: string
  im_parts :: "(string \<times> form_part) list"

definition validateImport :: "file_info \<Rightarrow> import_context \<Rightarrow> import_request" where
  "validateImport file cx = \<lparr> im_path = ep_import_validate, im_content = ''multipart/form-data'', im_parts = toFormData file cx \<rparr>"

definition commitImport :: "file_info \<Rightarrow> import_context \<Rightarrow> import_request" where
  "commitImport file cx = \<lparr> im_path = ep_import_commit, im_content = ''multipart/form-data'', im_parts = toFormData file cx \<rparr>"

text \<open>What a finished run makes stale, and whether a failed one is announced by the global toast.\<close>

definition import_stale :: "import_kind \<Rightarrow> qkey list" where
  "import_stale k = (case k of Validate \<Rightarrow> [] | Commit \<Rightarrow> [[JStr ''registrations'']])"

definition import_suppresses_toast :: "import_kind \<Rightarrow> bool" where
  "import_suppresses_toast k = True"

section \<open>The page\<close>

definition pickName :: "string \<Rightarrow> js \<Rightarrow> js \<Rightarrow> js" where
  "pickName locale kh en = js_or (if locale = ''kh'' then js_or kh en else js_or en kh) (JStr [])"

record import_page =
  ip_event :: "jnum option"
  ip_org :: "jnum option"
  ip_sport :: "jnum option"
  ip_category :: "jnum option"
  ip_force :: bool
  ip_file :: "file_info option"
  ip_report :: "js option"
  ip_running :: "import_kind option"

definition ip_start :: import_page where
  "ip_start = \<lparr> ip_event = None, ip_org = None, ip_sport = None, ip_category = None, ip_force = False, ip_file = None,
     ip_report = None, ip_running = None \<rparr>"

definition ctxReady :: "import_page \<Rightarrow> bool" where
  "ctxReady s \<longleftrightarrow> ip_event s \<noteq> None \<and> ip_sport s \<noteq> None \<and> ip_category s \<noteq> None"

definition canRun :: "import_page \<Rightarrow> bool" where "canRun s \<longleftrightarrow> ctxReady s \<and> ip_file s \<noteq> None"
definition import_busy :: "import_page \<Rightarrow> bool" where "import_busy s \<longleftrightarrow> ip_running s \<noteq> None"

definition import_ctx :: "import_page \<Rightarrow> import_context" where
  "import_ctx s = \<lparr> ic_eventId = the (ip_event s), ic_organizationId = ip_org s, ic_sportId = the (ip_sport s),
     ic_categoryId = ip_category s, ic_force = Some (ip_force s) \<rparr>"

text \<open>The choices offered: the reference data, and the categories of the chosen event and sport.\<close>

record import_choices =
  ich_events :: "js list"
  ich_orgs :: "js list"
  ich_sports :: "js list"
  ich_categories :: "jnum \<Rightarrow> jnum \<Rightarrow> js list"

definition offered :: "js list \<Rightarrow> jnum \<Rightarrow> bool" where
  "offered xs n \<longleftrightarrow> n \<in> set (map (\<lambda>x. to_number (js_string (js_get ''id'' x))) xs)"

definition categories_offered :: "import_choices \<Rightarrow> import_page \<Rightarrow> js list" where
  "categories_offered ch s =
     (case (ip_event s, ip_sport s) of (Some e, Some sp) \<Rightarrow> ich_categories ch e sp | _ \<Rightarrow> [])"

datatype import_event =
    Im_event jnum
  | Im_org jnum
  | Im_sport jnum
  | Im_category jnum
  | Im_force bool
  | Im_file "file_info option"
  | Im_run import_kind
  | Im_answer "(js_error, js) result"

fun run_request :: "import_kind \<Rightarrow> import_page \<Rightarrow> import_request list" where
  "run_request Validate s =
     (case ip_file s of Some f \<Rightarrow> if ctxReady s then [validateImport f (import_ctx s)] else [] | None \<Rightarrow> [])"
| "run_request Commit s =
     (case ip_file s of Some f \<Rightarrow> if ctxReady s then [commitImport f (import_ctx s)] else [] | None \<Rightarrow> [])"

fun im_step :: "import_choices \<Rightarrow> import_event \<Rightarrow> import_page \<Rightarrow> import_page \<times> import_request list" where
  "im_step ch (Im_event e) s =
     (if offered (ich_events ch) e then (s\<lparr>ip_event := Some e, ip_sport := None, ip_category := None\<rparr>, []) else (s, []))"
| "im_step ch (Im_org o1) s = (if offered (ich_orgs ch) o1 then (s\<lparr>ip_org := Some o1\<rparr>, []) else (s, []))"
| "im_step ch (Im_sport sp) s =
     (if ip_event s \<noteq> None \<and> offered (ich_sports ch) sp then (s\<lparr>ip_sport := Some sp, ip_category := None\<rparr>, []) else (s, []))"
| "im_step ch (Im_category c) s =
     (if ip_sport s \<noteq> None \<and> offered (categories_offered ch s) c then (s\<lparr>ip_category := Some c\<rparr>, []) else (s, []))"
| "im_step ch (Im_force b) s = (s\<lparr>ip_force := b\<rparr>, [])"
| "im_step ch (Im_file f) s = (s\<lparr>ip_file := f, ip_report := None\<rparr>, [])"
| "im_step ch (Im_run k) s =
     (if canRun s \<and> \<not> import_busy s then (s\<lparr>ip_running := Some k\<rparr>, run_request k s) else (s, []))"
| "im_step ch (Im_answer a) s =
     (case ip_running s of
        None \<Rightarrow> (s, [])
      | Some k \<Rightarrow> (case a of Inr r \<Rightarrow> s\<lparr>ip_running := None, ip_report := Some r\<rparr> | Inl _ \<Rightarrow> s\<lparr>ip_running := None\<rparr>, []))"

definition im_run :: "import_choices \<Rightarrow> import_event list \<Rightarrow> import_page \<Rightarrow> import_page" where
  "im_run ch evs s = fold (\<lambda>ev t. fst (im_step ch ev t)) evs s"

text \<open>The table of the report: no row at all for an empty file, otherwise the number, the verdict and the errors.\<close>

definition report_errors :: "js \<Rightarrow> string list" where
  "report_errors r =
     map (\<lambda>e. (if truthy (js_get ''field'' e) then js_string (js_get ''field'' e) @ '': '' else []) @ js_string (js_get ''message'' e))
       (js_list (js_get ''errors'' r))"

definition ImportReportTable :: "js \<Rightarrow> (js \<times> bool \<times> string list) list option" where
  "ImportReportTable report =
     (if js_get ''total'' report = JInt 0 then None
      else Some (map (\<lambda>r. (js_get ''row'' r, truthy (js_get ''ok'' r), report_errors r)) (js_list (js_get ''rows'' report))))"

definition report_notice :: "js \<Rightarrow> string" where
  "report_notice report = (if truthy (js_get ''committed'' report) then ''committedNotice'' else ''dryRunNotice'')"

section \<open>Properties\<close>

text \<open>The choices made so far fit each other: a sport under an event, a category of that event and sport.\<close>

definition import_inv :: "import_choices \<Rightarrow> import_page \<Rightarrow> bool" where
  "import_inv ch s \<longleftrightarrow>
     (case ip_event s of None \<Rightarrow> ip_sport s = None \<and> ip_category s = None | Some e \<Rightarrow> offered (ich_events ch) e) \<and>
     (case ip_sport s of None \<Rightarrow> ip_category s = None | Some sp \<Rightarrow> offered (ich_sports ch) sp) \<and>
     (case ip_category s of None \<Rightarrow> True | Some c \<Rightarrow> offered (categories_offered ch s) c) \<and>
     (case ip_org s of None \<Rightarrow> True | Some o1 \<Rightarrow> offered (ich_orgs ch) o1)"

lemma import_start: "import_inv ch ip_start"
  by (simp add: import_inv_def ip_start_def)

lemma import_step_inv: "import_inv ch s \<Longrightarrow> import_inv ch (fst (im_step ch ev s))"
  by (cases ev) (auto simp: import_inv_def categories_offered_def split: option.splits sum.splits)

lemma import_run_inv: "import_inv ch s \<Longrightarrow> import_inv ch (im_run ch evs s)"
  by (induction evs arbitrary: s) (simp_all add: im_run_def import_step_inv)

lemma run_request_form:
  assumes "rq \<in> set (run_request k s)"
  obtains f e sp c where "ip_file s = Some f" "ip_event s = Some e" "ip_sport s = Some sp" "ip_category s = Some c"
    "im_parts rq = toFormData f (import_ctx s)"
    "im_path rq = (case k of Validate \<Rightarrow> ep_import_validate | Commit \<Rightarrow> ep_import_commit)"
proof -
  obtain f where f: "ip_file s = Some f" "ctxReady s"
    "rq = (case k of Validate \<Rightarrow> validateImport f (import_ctx s) | Commit \<Rightarrow> commitImport f (import_ctx s))"
    using assms by (cases k; cases "ip_file s") (auto split: if_splits)
  then show thesis
    using that by (cases k) (auto simp: ctxReady_def validateImport_def commitImport_def)
qed

text \<open>Changing the event, the sport, the category or the organization leaves the report of another choice
  on the page; only a new file removes it.\<close>

lemma report_outlives_choice:
  "ip_report (fst (im_step ch (Im_event e) s)) = ip_report s"
  "ip_report (fst (im_step ch (Im_sport sp) s)) = ip_report s"
  "ip_report (fst (im_step ch (Im_category c) s)) = ip_report s"
  "ip_report (fst (im_step ch (Im_file f) s)) = None"
  by simp_all

text \<open>A file chosen while a run is pending removes the old report, but the answer for the old file
  then shows under the new one.\<close>

lemma report_of_the_old_file:
  "ip_running s = Some k \<Longrightarrow>
     ip_file (im_run ch [Im_file (Some g), Im_answer (Inr r)] s) = Some g \<and> ip_report (im_run ch [Im_file (Some g), Im_answer (Inr r)] s) = Some r"
  by (simp add: im_run_def)

text \<open>A failed run changes nothing a user can see: the page keeps what it showed, and its mutation keeps
  the global toast away.\<close>

lemma failed_run_is_silent:
  "ip_running s = Some k \<Longrightarrow> fst (im_step ch (Im_answer (Inl e)) s) = s\<lparr>ip_running := None\<rparr> \<and> import_suppresses_toast k"
  by (simp add: import_suppresses_toast_def)

lemma import_without_validation:
  "canRun s \<Longrightarrow> \<not> import_busy s \<Longrightarrow> ip_report s = None \<Longrightarrow> snd (im_step ch (Im_run Commit) s) \<noteq> []"
  by (auto simp: canRun_def)

text \<open>An import request names what was chosen: after any sequence of choices, runs and answers, a request leaves
  only when no other is pending, with the chosen file, and with an event and a sport of the lists offered and a
  category among those of that very event and sport, since changing the event or the sport forgets what was
  chosen below it; it goes to the address of its kind of run, and no second one leaves before the answer.\<close>

theorem import_request_consistent:
  assumes "s = im_run ch evs ip_start" "rq \<in> set (snd (im_step ch ev s))"
  shows "\<exists>k f e sp c. ev = Im_run k \<and> ip_running s = None \<and> ip_file s = Some f \<and>
    im_path rq = (case k of Validate \<Rightarrow> ep_import_validate | Commit \<Rightarrow> ep_import_commit) \<and>
    offered (ich_events ch) e \<and> offered (ich_sports ch) sp \<and> offered (ich_categories ch e sp) c \<and>
    map_of (im_parts rq) ''file'' = Some (FilePart f) \<and>
    map_of (im_parts rq) ''eventId'' = Some (TextPart (js_string (JNum e))) \<and>
    map_of (im_parts rq) ''sportId'' = Some (TextPart (js_string (JNum sp))) \<and>
    map_of (im_parts rq) ''categoryId'' = Some (TextPart (js_string (JNum c))) \<and>
    map_of (im_parts rq) ''force'' = Some (TextPart (if ip_force s then ''true'' else ''false'')) \<and>
    (\<forall>k'. snd (im_step ch (Im_run k') (fst (im_step ch ev s))) = [])"
proof -
  have inv: "import_inv ch s" unfolding assms(1) by (rule import_run_inv[OF import_start])
  obtain k where k: "ev = Im_run k" "canRun s" "\<not> import_busy s" "rq \<in> set (run_request k s)"
    using assms(2) by (cases ev) (auto split: if_splits option.splits sum.splits)
  obtain f e sp c where r: "ip_file s = Some f" "ip_event s = Some e" "ip_sport s = Some sp" "ip_category s = Some c"
    "im_parts rq = toFormData f (import_ctx s)"
    "im_path rq = (case k of Validate \<Rightarrow> ep_import_validate | Commit \<Rightarrow> ep_import_commit)"
    using run_request_form[OF k(4)] by blast
  have "offered (ich_events ch) e" "offered (ich_sports ch) sp" "offered (ich_categories ch e sp) c"
    using inv r by (auto simp: import_inv_def categories_offered_def)
  moreover have "map_of (im_parts rq) ''file'' = Some (FilePart f) \<and>
      map_of (im_parts rq) ''eventId'' = Some (TextPart (js_string (JNum e))) \<and>
      map_of (im_parts rq) ''sportId'' = Some (TextPart (js_string (JNum sp))) \<and>
      map_of (im_parts rq) ''categoryId'' = Some (TextPart (js_string (JNum c))) \<and>
      map_of (im_parts rq) ''force'' = Some (TextPart (if ip_force s then ''true'' else ''false''))"
    using r by (simp add: toFormData_def import_ctx_def or_else_def split: option.split)
  moreover have "\<forall>k'. snd (im_step ch (Im_run k') (fst (im_step ch ev s))) = []"
    using k by (simp add: import_busy_def)
  ultimately show ?thesis using k r import_busy_def by blast
qed

definition import_sample :: import_choices where
  "import_sample = \<lparr> ich_events = [JObj [(''id'', JInt 3)]], ich_orgs = [], ich_sports = [JObj [(''id'', JInt 7)]],
     ich_categories = (\<lambda>e sp. if e = Fin 3 \<and> sp = Fin 7 then [JObj [(''id'', JInt 11)]] else []) \<rparr>"

lemma import_request_consistent_witness:
  "\<exists>s rq. s = im_run import_sample [Im_event (Fin 3), Im_sport (Fin 7), Im_category (Fin 11), Im_file (Some \<lparr>f_name = ''a.xlsx'', f_type = [], f_size = 9\<rparr>)] ip_start \<and>
     rq \<in> set (snd (im_step import_sample (Im_run Commit) s)) \<and>
     map_of (im_parts rq) ''categoryId'' \<noteq> None"
proof -
  define evs where "evs = [Im_event (Fin 3), Im_sport (Fin 7), Im_category (Fin 11), Im_file (Some \<lparr>f_name = ''a.xlsx'', f_type = [], f_size = 9\<rparr>)]"
  define s where "s = im_run import_sample evs ip_start"
  have "snd (im_step import_sample (Im_run Commit) s) \<noteq> []" unfolding s_def evs_def by code_simp
  then obtain rq where rq: "rq \<in> set (snd (im_step import_sample (Im_run Commit) s))"
    by (cases "snd (im_step import_sample (Im_run Commit) s)") auto
  have "map_of (im_parts rq) ''categoryId'' \<noteq> None" using import_request_consistent[OF s_def rq] by auto
  then show ?thesis using rq unfolding s_def evs_def by blast
qed

end
