(* ===== verification/Portal_Shell.thy ===== *)
theory Portal_Shell
  imports Event_Catalog Access_Control
begin

text \<open>
  The shell around the portal pages: the search palette (modules/search), the notification bell
  (modules/notifications) and the top bar with its breadcrumb (shared/layout/TopBar.tsx).
\<close>

section \<open>Search\<close>

definition SEARCH_TYPES :: "string list" where "SEARCH_TYPES = [''event'', ''organization'', ''athlete'']"

definition searchHitSchema :: schema where
  "searchHitSchema = ZObject True
     [(''type'', ZEnum SEARCH_TYPES), (''id'', zint), (''title'', zstr), (''subtitle'', znullable_optional zstr)]"

definition searchResponseSchema :: schema where
  "searchResponseSchema = ZObject True [(''data'', ZArray searchHitSchema), (''count'', ZNumber [NInt, NMin 0])]"

definition ep_search :: string where "ep_search = ''/api/v1/search''"

text \<open>The query goes in the body of a post, never in the address.\<close>

definition apiSearch :: "js \<Rightarrow> request" where
  "apiSearch payload = body_req ''post'' ep_search payload"

definition search_adapter :: "parser \<Rightarrow> backend \<Rightarrow> js \<Rightarrow> (js_error, js) result" where
  "search_adapter parse srv req = parsed_call parse srv searchResponseSchema (apiSearch req)"

definition MIN_QUERY_LENGTH :: nat where "MIN_QUERY_LENGTH = 2"

definition k_search :: "string \<Rightarrow> qkey" where "k_search q = [JStr ''search'', JStr q]"

text \<open>The query of the hook: its key, whether it runs, and its request.\<close>

definition search_enabled :: "string \<Rightarrow> bool \<Rightarrow> bool" where
  "search_enabled query enabled \<longleftrightarrow> enabled \<and> MIN_QUERY_LENGTH \<le> length (trim query)"

definition useSearch_fn :: "parser \<Rightarrow> backend \<Rightarrow> string \<Rightarrow> (js_error, js) result" where
  "useSearch_fn parse srv query = search_adapter parse srv (JObj [(''query'', JStr (trim query))])"

definition hrefForHit :: "js \<Rightarrow> string" where
  "hrefForHit hit =
     (let t = js_get ''type'' hit; i = js_string (js_get ''id'' hit) in
      if t = JStr ''event'' then ''/events/'' @ i
      else if t = JStr ''organization'' then ''/organizations/'' @ i
      else if t = JStr ''athlete'' then ''/registrations/'' @ i
      else ''/dashboard'')"

section \<open>The palette\<close>

definition grouped_hits :: "js list \<Rightarrow> (string \<times> js list) list" where
  "grouped_hits hits =
     filter (\<lambda>g. snd g \<noteq> []) (map (\<lambda>t. (t, filter (\<lambda>h. js_get ''type'' h = JStr t) hits)) SEARCH_TYPES)"

definition flat_hits :: "js list \<Rightarrow> js list" where
  "flat_hits hits = concat (map snd (grouped_hits hits))"

text \<open>The answers that have arrived are kept by their trimmed query.\<close>

record palette =
  cp_open :: bool
  cp_query :: string
  cp_debounced :: string
  cp_active :: nat
  cp_found :: "string \<Rightarrow> js list option"

definition cp_start :: palette where
  "cp_start = \<lparr> cp_open = False, cp_query = [], cp_debounced = [], cp_active = 0, cp_found = (\<lambda>_. None) \<rparr>"

definition cp_hits :: "palette \<Rightarrow> js list" where
  "cp_hits s = or_else (cp_found s (trim (cp_debounced s))) []"

definition cp_flat :: "palette \<Rightarrow> js list" where "cp_flat s = flat_hits (cp_hits s)"

text \<open>The effect on the number of rows keeps the highlighted one within them.\<close>

definition clamp_active :: "palette \<Rightarrow> palette \<Rightarrow> palette" where
  "clamp_active old s =
     (if length (cp_flat s) = length (cp_flat old) then s
      else s\<lparr>cp_active := (if cp_flat s = [] then 0 else min (cp_active s) (length (cp_flat s) - 1))\<rparr>)"

text \<open>Opening highlights the first row; closing forgets the query.\<close>

definition cp_setOpen :: "bool \<Rightarrow> palette \<Rightarrow> palette" where
  "cp_setOpen b s =
     (if b = cp_open s then s
      else if b then s\<lparr>cp_open := True, cp_active := 0\<rparr>
      else s\<lparr>cp_open := False, cp_query := [], cp_debounced := []\<rparr>)"

datatype palette_event =
    Cp_toggle
  | Cp_type string
  | Cp_debounce
  | Cp_answer string "(js_error, js list) result"
  | Cp_escape
  | Cp_down
  | Cp_up
  | Cp_enter
  | Cp_hover nat
  | Cp_click js
  | Cp_backdrop

definition palette_go :: "js \<Rightarrow> palette \<Rightarrow> palette \<times> string list" where
  "palette_go hit s = (cp_setOpen False s, [hrefForHit hit])"

fun cp_react :: "palette_event \<Rightarrow> palette \<Rightarrow> palette \<times> string list" where
  "cp_react Cp_toggle s = (cp_setOpen (\<not> cp_open s) s, [])"
| "cp_react (Cp_type q) s = (if cp_open s then s\<lparr>cp_query := q\<rparr> else s, [])"
| "cp_react Cp_debounce s = (s\<lparr>cp_debounced := cp_query s\<rparr>, [])"
| "cp_react (Cp_answer q a) s = ((case a of Inr hits \<Rightarrow> s\<lparr>cp_found := (cp_found s)(q := Some hits)\<rparr> | Inl _ \<Rightarrow> s), [])"
| "cp_react Cp_escape s = (if cp_open s then cp_setOpen False s else s, [])"
| "cp_react Cp_down s =
     (if cp_open s
      then s\<lparr>cp_active := (if cp_flat s \<noteq> [] then (cp_active s + 1) mod length (cp_flat s) else 0)\<rparr> else s, [])"
| "cp_react Cp_up s =
     (if cp_open s
      then s\<lparr>cp_active := (if cp_flat s \<noteq> [] then (cp_active s + length (cp_flat s) - 1) mod length (cp_flat s) else 0)\<rparr>
      else s, [])"
| "cp_react Cp_enter s =
     (if cp_open s \<and> cp_active s < length (cp_flat s) then palette_go (cp_flat s ! cp_active s) s else (s, []))"
| "cp_react (Cp_hover i) s = (if cp_open s \<and> i < length (cp_flat s) then s\<lparr>cp_active := i\<rparr> else s, [])"
| "cp_react (Cp_click hit) s = (if cp_open s \<and> hit \<in> set (cp_flat s) then palette_go hit s else (s, []))"
| "cp_react Cp_backdrop s = (cp_setOpen False s, [])"

definition cp_step :: "palette_event \<Rightarrow> palette \<Rightarrow> palette \<times> string list" where
  "cp_step ev s = (let (t, out) = cp_react ev s in (clamp_active s t, out))"

inductive cp_reach :: "palette \<Rightarrow> bool" where
  cp_mount: "cp_reach cp_start"
| cp_more: "cp_reach s \<Longrightarrow> cp_reach (fst (cp_step ev s))"

text \<open>What the panel says above the rows.\<close>

definition palette_note :: "bool \<Rightarrow> palette \<Rightarrow> string option" where
  "palette_note isFetching s =
     (let n = length (trim (cp_debounced s)); showMinChars = (0 < n \<and> n < 2) in
      if showMinChars then Some ''minChars''
      else if isFetching \<and> cp_flat s = [] then Some ''searching''
      else if \<not> isFetching \<and> 2 \<le> n \<and> cp_flat s = [] then Some ''empty''
      else None)"

section \<open>Notifications\<close>

definition ep_notifications :: string where "ep_notifications = ''/api/v1/notifications''"
definition ep_notification_read :: "int \<Rightarrow> string" where
  "ep_notification_read i = ep_notifications @ ''/'' @ show_int i @ ''/read''"
definition ep_notifications_readAll :: string where "ep_notifications_readAll = ep_notifications @ ''/read-all''"
definition ep_notifications_unread :: string where "ep_notifications_unread = ep_notifications @ ''/unread-count''"

definition fetchNotifications :: "(string \<times> js) list \<Rightarrow> request" where
  "fetchNotifications params = get_req ep_notifications params"
definition fetchUnreadCount :: request where "fetchUnreadCount = get_req ep_notifications_unread []"
definition markNotificationRead :: "int \<Rightarrow> request" where
  "markNotificationRead i = body_req ''post'' (ep_notification_read i) JUndef"
definition markAllNotificationsRead :: request where
  "markAllNotificationsRead = body_req ''post'' ep_notifications_readAll JUndef"

definition k_notifications_list :: "js \<Rightarrow> qkey" where
  "k_notifications_list params = [JStr ''notifications'', JStr ''list'', params]"
definition k_notifications_unread :: qkey where "k_notifications_unread = [JStr ''notifications'', JStr ''unread-count'']"
definition notification_stale :: "qkey list" where "notification_stale = [[JStr ''notifications'']]"

text \<open>Rounding is to the nearest whole number, halves upwards.\<close>

definition js_round :: "rat \<Rightarrow> int" where "js_round r = \<lfloor>r + 1 / 2\<rfloor>"

definition relativeTime :: "rat \<Rightarrow> rat \<Rightarrow> int \<times> string" where
  "relativeTime now_ms then_ms =
     (let d = js_round ((then_ms - now_ms) / 1000); a = \<bar>d\<bar> in
      if a < 60 then (d, ''second'')
      else if a < 3600 then (js_round (of_int d / 60), ''minute'')
      else if a < 86400 then (js_round (of_int d / 3600), ''hour'')
      else (js_round (of_int d / 86400), ''day''))"

definition badge_text :: "int \<Rightarrow> string option" where
  "badge_text unread = (if 0 < unread then Some (if 99 < unread then ''99+'' else show_int unread) else None)"

datatype bell_event = Bell_button | Bell_outside | Bell_item js | Bell_all bool

text \<open>The panel is open or closed; a click answers with requests and addresses.\<close>

fun bell_step :: "int \<Rightarrow> bell_event \<Rightarrow> bool \<Rightarrow> bool \<times> request list \<times> js list" where
  "bell_step unread Bell_button open1 = (\<not> open1, [], [])"
| "bell_step unread Bell_outside open1 = (False, [], [])"
| "bell_step unread (Bell_item n) open1 =
     (if open1
      then (\<not> truthy (js_get ''link'' n),
            if truthy (js_get ''read_at'' n) then [] else [markNotificationRead \<lfloor>js_rat (js_get ''id'' n)\<rfloor>],
            if truthy (js_get ''link'' n) then [js_get ''link'' n] else [])
      else (open1, [], []))"
| "bell_step unread (Bell_all pending) open1 =
     (open1, if open1 \<and> 0 < unread \<and> \<not> pending then [markAllNotificationsRead] else [], [])"

section \<open>The top bar\<close>

fun ROLE_LABELS :: "user_role \<Rightarrow> string" where
  "ROLE_LABELS SUPER_ADMIN = ''superAdmin''"
| "ROLE_LABELS ADMIN = ''admin''"
| "ROLE_LABELS ORGANIZATION = ''organization''"
| "ROLE_LABELS FEDERATION = ''federation''"
| "ROLE_LABELS GUEST = ''guest''"

definition SECTION_LABELS :: "(string \<times> string) list" where
  "SECTION_LABELS =
     [(''/dashboard'', ''dashboard''), (''/events'', ''events''), (''/sports'', ''sports''),
      (''/organizations'', ''organizations''), (''/users'', ''users''), (''/register'', ''athleteRegistration''),
      (''/leader-registration'', ''leaderRegistration''), (''/organizer-registration'', ''organizerRegistration''),
      (''/organizer-roles'', ''organizerRoles''), (''/by-sport'', ''bysport''), (''/by-number'', ''bynumber''),
      (''/by-category'', ''bycategory''), (''/open-survey'', ''openSurvey''), (''/participation'', ''submissions''),
      (''/sport-submissions'', ''sportSubmissions''), (''/category-submissions'', ''categorySubmissions''),
      (''/registrations'', ''registrations''), (''/reports'', ''reports''), (''/cards'', ''cards'')]"

definition DETAIL_BASES :: "string list" where
  "DETAIL_BASES = [''/events'', ''/sports'', ''/organizations'', ''/registrations'']"

definition path_segments :: "string \<Rightarrow> string list" where
  "path_segments p = filter (\<lambda>w. w \<noteq> []) (split_on (CHR ''/'') p)"

definition parseDetailRoute :: "string \<Rightarrow> (string \<times> string) option" where
  "parseDetailRoute pathname =
     (case path_segments pathname of
        s0 # s1 # _ \<Rightarrow>
          let base = ''/'' @ s0 in
          if base \<in> set DETAIL_BASES \<and> s1 \<noteq> [] \<and> list_all is_digit s1 then Some (base, s1) else None
      | _ \<Rightarrow> None)"

definition detailCacheKey :: "string \<times> string \<Rightarrow> qkey option" where
  "detailCacheKey d =
     (let i = JNum (to_number (snd d)) in
      if fst d = ''/events'' then Some [JStr ''events'', i]
      else if fst d = ''/sports'' then Some [JStr ''sports'', i]
      else if fst d = ''/organizations'' then Some [JStr ''organizations'', JStr ''detail'', i]
      else None)"

definition extractName :: "string \<Rightarrow> js \<Rightarrow> string option" where
  "extractName locale data =
     (case data of
        JObj _ \<Rightarrow>
          let kh = js_str (js_get ''name_kh'' data); en = js_str (js_get ''name_en'' data);
              picked = (if locale = ''kh'' then (if kh \<noteq> [] then kh else en) else (if en \<noteq> [] then en else kh))
          in (if picked \<noteq> [] then Some picked else None)
      | _ \<Rightarrow> None)"

text \<open>The cache is read for the key of the address, or for a key that nothing fills.\<close>

definition detailName :: "string \<Rightarrow> (qkey \<Rightarrow> js) \<Rightarrow> string \<Rightarrow> string option" where
  "detailName locale cache pathname =
     (case parseDetailRoute pathname of
        None \<Rightarrow> None
      | Some d \<Rightarrow>
          if fst d = ''/registrations'' then Some (''REG-'' @ pad_start 6 (CHR ''0'') (snd d))
          else extractName locale (cache (or_else (detailCacheKey d) [JStr ''breadcrumb'', JStr ''noop''])))"

record crumb =
  cr_label :: string
  cr_href :: "string option"

definition crumbs :: "user_role option \<Rightarrow> string \<Rightarrow> string option \<Rightarrow> crumb list" where
  "crumbs role pathname dname =
     (let onDashboard = (pathname = ''/dashboard'' \<or> pathname = ''/'');
          home = \<lparr> cr_label = ''dashboard'', cr_href = (if onDashboard then None else Some ''/dashboard'') \<rparr>
      in if onDashboard then [home]
         else
           let topHref = ''/'' @ (case path_segments pathname of [] \<Rightarrow> ''undefined'' | w # _ \<Rightarrow> w);
               match = find (\<lambda>i. topHref = fst i \<or> starts_with topHref (fst i @ ''/'')) SECTION_LABELS;
               sectionLabelKey = (if topHref = ''/participation'' \<and> role = Some ORGANIZATION then Some ''leaderRegistration''
                                  else map_option snd match)
           in home #
              (case sectionLabelKey of
                 Some k \<Rightarrow> [\<lparr> cr_label = k, cr_href = (if dname \<noteq> None then Some topHref else None) \<rparr>] | None \<Rightarrow> []) @
              (case dname of Some n \<Rightarrow> [\<lparr> cr_label = n, cr_href = None \<rparr>] | None \<Rightarrow> []))"

text \<open>A crumb is a link when it has an address and is not the last one.\<close>

definition crumb_links :: "crumb list \<Rightarrow> string option list" where
  "crumb_links cs = map (\<lambda>i. if i = length cs - 1 then None else cr_href (cs ! i)) [0..<length cs]"

text \<open>Splitting on runs of white space and dropping the empty pieces.\<close>

fun ws_words :: "string \<Rightarrow> string \<Rightarrow> string list" where
  "ws_words w [] = (if w = [] then [] else [w])"
| "ws_words w (c # cs) = (if js_ws c then (if w = [] then [] else [w]) @ ws_words [] cs else ws_words (w @ [c]) cs)"

definition getInitials :: "string \<Rightarrow> string" where
  "getInitials name =
     (let s = concat (map (\<lambda>w. to_upper (take 1 w)) (take 2 (ws_words [] name))) in if s \<noteq> [] then s else ''U'')"

definition displayName :: "js \<Rightarrow> js" where
  "displayName user =
     js_or (js_or (js_or (js_get ''khmer_name'' user) (js_get ''english_name'' user)) (js_get ''username'' user)) (JStr ''account'')"

definition roleLabel :: "user_role option \<Rightarrow> string" where
  "roleLabel role = (case role of Some r \<Rightarrow> ''roles.'' @ ROLE_LABELS r | None \<Rightarrow> ''role'')"

section \<open>Properties of the palette\<close>

lemma mset_filters:
  "distinct ts \<Longrightarrow> mset (concat (map (\<lambda>t. filter (\<lambda>h. f h = g t) xs) ts)) = mset (filter (\<lambda>h. \<exists>t \<in> set ts. f h = g t) xs)"
  if "inj g" for f :: "'a \<Rightarrow> 'b"
proof (induction ts)
  case (Cons t ts)
  have "f h = g t \<Longrightarrow> u \<in> set ts \<Longrightarrow> f h \<noteq> g u" for h u
    using Cons.prems that by (auto dest: injD)
  then have "mset (filter (\<lambda>h. \<exists>u \<in> set (t # ts). f h = g u) xs) =
      mset (filter (\<lambda>h. f h = g t) xs) + mset (filter (\<lambda>h. \<exists>u \<in> set ts. f h = g u) xs)"
    by (induction xs) auto
  then show ?case using Cons by simp
qed simp

lemma flat_hits_eq:
  "flat_hits hits = concat (map (\<lambda>t. filter (\<lambda>h. js_get ''type'' h = JStr t) hits) SEARCH_TYPES)"
  by (simp add: flat_hits_def grouped_hits_def SEARCH_TYPES_def)

text \<open>Grouping by type loses no hit of a validated answer.\<close>

lemma flat_hits_mset:
  assumes "\<forall>h \<in> set hits. \<exists>t \<in> set SEARCH_TYPES. js_get ''type'' h = JStr t"
  shows "mset (flat_hits hits) = mset hits"
proof -
  have "mset (flat_hits hits) = mset (filter (\<lambda>h. \<exists>t \<in> set SEARCH_TYPES. js_get ''type'' h = JStr t) hits)"
    unfolding flat_hits_eq by (rule mset_filters) (simp_all add: SEARCH_TYPES_def inj_def)
  also have "\<dots> = mset hits" using assms by (simp add: filter_id_conv)
  finally show ?thesis .
qed

lemma search_answer_types:
  assumes z: "zod_parser parse" and a: "search_adapter parse srv req = Inr ans" and d: "js_get ''data'' ans = JArr hits"
    and h: "h \<in> set hits"
  shows "\<exists>t \<in> set SEARCH_TYPES. js_get ''type'' h = JStr t"
proof -
  obtain body where "parse searchResponseSchema body = Inr ans"
    using a by (auto simp: search_adapter_def parsed_call_Inr)
  then have "parse (ZArray searchHitSchema) (js_get ''data'' body) = Inr (js_get ''data'' ans)"
    unfolding searchResponseSchema_def by (rule zod_parser.object_get[OF z]) simp_all
  then obtain x where "parse searchHitSchema x = Inr h" using zod_parser.array_elements[OF z _ d h] by blast
  then have "parse (ZEnum SEARCH_TYPES) (js_get ''type'' x) = Inr (js_get ''type'' h)"
    unfolding searchHitSchema_def by (rule zod_parser.object_get[OF z]) simp_all
  then show ?thesis by (auto simp: zod_parser.accepts[OF z])
qed

definition cp_inv :: "palette \<Rightarrow> bool" where
  "cp_inv s \<longleftrightarrow> cp_active s < max 1 (length (cp_flat s))"

lemma row_bound [simp]: "xs \<noteq> [] \<Longrightarrow> max (Suc 0) (length xs) = length xs"
  by (cases xs) simp_all

lemma clamp_inv:
  assumes "cp_active t < max 1 (length (cp_flat s)) \<or> length (cp_flat t) \<noteq> length (cp_flat s)"
  shows "cp_inv (clamp_active s t)"
proof -
  have f: "cp_flat (t\<lparr>cp_active := a\<rparr>) = cp_flat t" for a by (simp add: cp_flat_def cp_hits_def)
  have "min a (length xs - Suc 0) < length xs" if "xs \<noteq> []" for a and xs :: "js list"
    using that by (cases xs) auto
  then show ?thesis using assms by (auto simp: cp_inv_def clamp_active_def f)
qed

lemma react_active: "cp_inv s \<Longrightarrow> cp_active (fst (cp_react ev s)) < max 1 (length (cp_flat s))"
  by (cases ev) (auto simp: cp_inv_def cp_setOpen_def palette_go_def split: sum.splits)

lemma cp_step_fst: "fst (cp_step ev s) = clamp_active s (fst (cp_react ev s))"
  "snd (cp_step ev s) = snd (cp_react ev s)"
  by (simp_all add: cp_step_def split_beta)

lemma step_inv: "cp_inv s \<Longrightarrow> cp_inv (fst (cp_step ev s))"
  unfolding cp_step_fst by (rule clamp_inv) (blast intro: react_active)

lemma reach_inv: "cp_reach s \<Longrightarrow> cp_inv s"
  by (induction rule: cp_reach.induct) (simp_all add: step_inv, simp add: cp_inv_def cp_start_def)

lemma react_out:
  "out \<in> set (snd (cp_react ev s)) \<Longrightarrow> cp_open s \<and> (\<exists>hit \<in> set (cp_flat s). out = hrefForHit hit) \<and>
     \<not> cp_open (fst (cp_react ev s)) \<and> cp_query (fst (cp_react ev s)) = []"
  by (cases ev) (auto simp: palette_go_def cp_setOpen_def split: if_splits)

lemma clamp_rest [simp]: "cp_open (clamp_active s t) = cp_open t" "cp_query (clamp_active s t) = cp_query t"
  by (simp_all add: clamp_active_def)

lemma flat_active [simp]: "cp_flat (s\<lparr>cp_active := a\<rparr>) = cp_flat s"
  by (simp add: cp_flat_def cp_hits_def)

lemma mod_down_up: "i < n \<Longrightarrow> ((i + 1) mod n + n - 1) mod n = (i :: nat)"
proof (cases "i + 1 < n")
  case True
  then have "(i + 1) mod n + n - 1 = i + n" by simp
  moreover assume "i < n"
  ultimately show ?thesis by simp
next
  case False
  assume "i < n"
  then have "i + 1 = n" using False by simp
  then show ?thesis using \<open>i < n\<close> by auto
qed

lemma down_up:
  assumes "cp_inv s" "cp_open s" "cp_flat s \<noteq> []"
  shows "fst (cp_step Cp_up (fst (cp_step Cp_down s))) = s"
proof -
  have d: "fst (cp_step Cp_down s) = s\<lparr>cp_active := (cp_active s + 1) mod length (cp_flat s)\<rparr>"
    using assms(2,3) by (simp add: cp_step_def clamp_active_def)
  have "cp_active s < length (cp_flat s)" using assms by (simp add: cp_inv_def)
  then show ?thesis using assms(2,3) mod_down_up[of "cp_active s" "length (cp_flat s)"]
    by (simp add: d cp_step_def clamp_active_def)
qed

text \<open>The search palette: after any sequence of keys, clicks, timers and late answers the highlighted row is one
  of the rows shown (or the first place when there are none); the only addresses the palette opens are
  those of hits it shows, by Enter exactly that of the highlighted row, and it then closes and forgets the query;
  moving down and up again returns to the same row; and when the answer shown was validated by the
  adapter, the rows are exactly its hits, grouped by type.\<close>

theorem palette_opens_what_it_shows:
  assumes "cp_reach s"
  shows "cp_active s < max 1 (length (cp_flat s)) \<and>
    (\<forall>out \<in> set (snd (cp_step ev s)). cp_open s \<and> (\<exists>hit \<in> set (cp_flat s). out = hrefForHit hit) \<and>
       \<not> cp_open (fst (cp_step ev s)) \<and> cp_query (fst (cp_step ev s)) = []) \<and>
    (cp_open s \<and> cp_flat s \<noteq> [] \<longrightarrow> snd (cp_step Cp_enter s) = [hrefForHit (cp_flat s ! cp_active s)] \<and>
       fst (cp_step Cp_up (fst (cp_step Cp_down s))) = s) \<and>
    (\<forall>parse srv req ans. zod_parser parse \<and> search_adapter parse srv req = Inr ans \<and>
       js_get ''data'' ans = JArr (cp_hits s) \<longrightarrow> mset (cp_flat s) = mset (cp_hits s))"
proof (intro conjI ballI impI allI)
  have inv: "cp_inv s" by (rule reach_inv[OF assms])
  show "cp_active s < max 1 (length (cp_flat s))" using inv by (simp add: cp_inv_def)
  show "cp_open s" "\<exists>hit \<in> set (cp_flat s). out = hrefForHit hit" "\<not> cp_open (fst (cp_step ev s))"
    "cp_query (fst (cp_step ev s)) = []" if "out \<in> set (snd (cp_step ev s))" for out
    using that react_out[of out ev s] by (auto simp: cp_step_def Let_def split: prod.splits)
  show "snd (cp_step Cp_enter s) = [hrefForHit (cp_flat s ! cp_active s)]" if "cp_open s \<and> cp_flat s \<noteq> []"
    using that inv by (simp add: cp_step_def cp_inv_def palette_go_def)
  show "fst (cp_step Cp_up (fst (cp_step Cp_down s))) = s" if "cp_open s \<and> cp_flat s \<noteq> []"
    using that down_up[OF inv] by blast
  show "mset (cp_flat s) = mset (cp_hits s)"
    if "zod_parser parse \<and> search_adapter parse srv req = Inr ans \<and> js_get ''data'' ans = JArr (cp_hits s)" for parse srv req ans
    unfolding cp_flat_def by (rule flat_hits_mset) (use that search_answer_types in blast)
qed

definition sample_hits :: "js list" where
  "sample_hits = [JObj [(''type'', JStr ''athlete''), (''id'', JInt 4), (''title'', JStr ''A'')],
     JObj [(''type'', JStr ''event''), (''id'', JInt 3), (''title'', JStr ''B'')]]"

definition cp_run :: "palette_event list \<Rightarrow> palette \<Rightarrow> palette" where
  "cp_run evs s = fold (\<lambda>ev t. fst (cp_step ev t)) evs s"

lemma cp_run_reach: "cp_reach s \<Longrightarrow> cp_reach (cp_run evs s)"
  by (induction evs arbitrary: s) (simp_all add: cp_run_def cp_more)

lemma palette_opens_what_it_shows_witness:
  "snd (cp_step Cp_enter (cp_run [Cp_toggle, Cp_type ''an'', Cp_debounce, Cp_answer ''an'' (Inr sample_hits), Cp_down] cp_start)) =
     [''/registrations/4'']"
proof -
  define s where "s = cp_run [Cp_toggle, Cp_type ''an'', Cp_debounce, Cp_answer ''an'' (Inr sample_hits), Cp_down] cp_start"
  have r: "cp_reach s" unfolding s_def by (rule cp_run_reach[OF cp_mount])
  have "cp_open s \<and> cp_flat s \<noteq> []" unfolding s_def by code_simp
  moreover have "hrefForHit (cp_flat s ! cp_active s) = ''/registrations/4''" unfolding s_def by code_simp
  ultimately show ?thesis using palette_opens_what_it_shows[OF r, of Cp_enter] by (simp add: s_def)
qed

text \<open>Within the delay of the debounce the rows are those of the previous text: Enter opens one of them.\<close>

lemma enter_opens_previous_result:
  "snd (cp_step Cp_enter (cp_run [Cp_toggle, Cp_type ''an'', Cp_debounce, Cp_answer ''an'' (Inr sample_hits), Cp_type ''zz''] cp_start)) =
     [''/events/3'']"
  by code_simp

section \<open>Properties of the notifications\<close>

text \<open>Reading an item asks for it once it is unread, and leaves the panel open when it leads nowhere.\<close>

lemma bell_item:
  "bell_step u (Bell_item n) True =
     (\<not> truthy (js_get ''link'' n),
      if truthy (js_get ''read_at'' n) then [] else [markNotificationRead \<lfloor>js_rat (js_get ''id'' n)\<rfloor>],
      if truthy (js_get ''link'' n) then [js_get ''link'' n] else [])"
  by simp

text \<open>The invalidation after a reading reaches the lists and the count.\<close>

lemma notification_keys:
  "take 1 (k_notifications_list p) = hd notification_stale" "take 1 k_notifications_unread = hd notification_stale"
  by (simp_all add: k_notifications_list_def k_notifications_unread_def notification_stale_def)

text \<open>Fifty-nine and a half minutes and more are still told in minutes, as sixty of them.\<close>

lemma sixty_minutes: "relativeTime (3599 * 1000) 0 = (- 60, ''minute'')"
  by code_simp

section \<open>Properties of the top bar\<close>

lemma event_has_no_names:
  assumes z: "zod_parser parse" and m: "mapRawEvent parse raw = Inr ev"
  shows "js_get ''name_kh'' ev = JUndef \<and> js_get ''name_en'' ev = JUndef"
proof -
  have p: "parse eventPublicSchema (mapped_event raw) = Inr ev"
    using m by (auto simp: mapRawEvent_def parse_or_throw_def split: sum.splits)
  obtain es where es: "eventPublicSchema = ZObject False es" "''name_kh'' \<notin> fst ` set es" "''name_en'' \<notin> fst ` set es"
    by (simp add: eventPublicSchema_def phase_fields_def EVENT_PHASES_def)
  obtain rs where rs: "obj_fields parse es (mapped_event raw) = Some rs" "ev = JObj rs"
    using p unfolding es(1) zod_parser.p_object[OF z] by blast
  have "fst ` set rs \<subseteq> fst ` set es" by (rule zod_parser.fields_keys[OF z rs(1)])
  then have "map_of rs ''name_kh'' = None" "map_of rs ''name_en'' = None"
    using es(2,3) by (auto simp: map_of_eq_None_iff)
  then show ?thesis using rs(2) by (simp add: or_else_def)
qed

lemma no_name: "js_get ''name_kh'' d = JUndef \<Longrightarrow> js_get ''name_en'' d = JUndef \<Longrightarrow> extractName locale d = None"
  by (cases d) (simp_all add: extractName_def)

lemma split_slash: "CHR ''/'' \<notin> set w \<Longrightarrow> split_on (CHR ''/'') (w @ CHR ''/'' # s) = w # split_on (CHR ''/'') s"
  by (rule split_on_append)

lemma digit_no_slash: "list_all is_digit w \<Longrightarrow> CHR ''/'' \<notin> set w"
  by (auto simp: list_all_iff is_digit_def digit_chars_def)

lemma detail_segments:
  assumes "CHR ''/'' \<notin> set b" "b \<noteq> []" "list_all is_digit i" "i \<noteq> []"
  shows "path_segments (CHR ''/'' # b @ CHR ''/'' # i) = [b, i]"
  using assms split_slash[of "[]" "b @ CHR ''/'' # i"] split_slash[of b i] split_on_no_sep[OF digit_no_slash[of i]]
  by (simp add: path_segments_def)

lemma detail_route:
  assumes "base \<in> set DETAIL_BASES" "list_all is_digit i" "i \<noteq> []"
  shows "parseDetailRoute (base @ ''/'' @ i) = Some (base, i)"
    and "path_segments (base @ ''/'' @ i) = [tl base, i]"
proof -
  obtain b where b: "base = CHR ''/'' # b" "CHR ''/'' \<notin> set b" "b \<noteq> []"
    using assms(1) by (auto simp: DETAIL_BASES_def)
  show s: "path_segments (base @ ''/'' @ i) = [tl base, i]"
    using detail_segments[OF b(2,3) assms(2,3)] b(1) by simp
  show "parseDetailRoute (base @ ''/'' @ i) = Some (base, i)"
    unfolding parseDetailRoute_def s using assms b(1) by simp
qed

lemma section_of_base:
  assumes "base \<in> set DETAIL_BASES"
  shows "find (\<lambda>i. base = fst i \<or> starts_with base (fst i @ ''/'')) SECTION_LABELS = Some (base, tl base)"
  using assms unfolding DETAIL_BASES_def
  by (simp, elim disjE) (simp_all add: SECTION_LABELS_def starts_with_def)

lemma detail_crumbs:
  assumes "base \<in> set DETAIL_BASES" "list_all is_digit i" "i \<noteq> []"
  shows "crumbs role (base @ ''/'' @ i) dname =
    \<lparr> cr_label = ''dashboard'', cr_href = Some ''/dashboard'' \<rparr> #
    \<lparr> cr_label = tl base, cr_href = (if dname \<noteq> None then Some base else None) \<rparr> #
    (case dname of Some n \<Rightarrow> [\<lparr> cr_label = n, cr_href = None \<rparr>] | None \<Rightarrow> [])"
proof -
  have h: "CHR ''/'' # tl base = base" "base \<noteq> ''/participation''"
    using assms(1) by (auto simp: DETAIL_BASES_def)
  have "base @ ''/'' @ i \<noteq> ''/dashboard''" "base @ ''/'' @ i \<noteq> ''/''"
    using assms(1) by (auto simp: DETAIL_BASES_def)
  then show ?thesis
    unfolding crumbs_def Let_def detail_route(2)[OF assms] using h section_of_base[OF assms(1)] by simp
qed

text \<open>The breadcrumb of a record's page: dashboard, section, and the name of the record read from the cache entry that the page fills,
  the first two being links; without a name the section is the last crumb. The page of a registration ends in a padded
  number that depends on the address alone, never on what is cached. The page of an event never shows its
  name: what its query caches is the validated event, which has a single name field, while the top bar
  reads two others.\<close>

theorem breadcrumb_trail:
  assumes "zod_parser parse" "base \<in> set DETAIL_BASES" "list_all is_digit i" "i \<noteq> []"
    and "base = ''/events'' \<Longrightarrow> \<exists>raw. mapRawEvent parse raw = Inr (cache [JStr ''events'', JNum (to_number i)])"
  shows "map cr_label (crumbs role (base @ ''/'' @ i) (detailName locale cache (base @ ''/'' @ i))) =
      [''dashboard'', tl base] @
      (if base = ''/registrations'' then [''REG-'' @ pad_start 6 (CHR ''0'') i]
       else if base = ''/events'' then []
       else if base = ''/sports'' then (case extractName locale (cache [JStr ''sports'', JNum (to_number i)]) of Some n \<Rightarrow> [n] | None \<Rightarrow> [])
       else (case extractName locale (cache [JStr ''organizations'', JStr ''detail'', JNum (to_number i)]) of Some n \<Rightarrow> [n] | None \<Rightarrow> [])) \<and>
    crumb_links (crumbs role (base @ ''/'' @ i) (detailName locale cache (base @ ''/'' @ i))) =
      (if detailName locale cache (base @ ''/'' @ i) = None then [Some ''/dashboard'', None]
       else [Some ''/dashboard'', Some base, None])"
proof
  have d: "detailName locale cache (base @ ''/'' @ i) =
      (if base = ''/registrations'' then Some (''REG-'' @ pad_start 6 (CHR ''0'') i)
       else if base = ''/events'' then None
       else if base = ''/sports'' then extractName locale (cache [JStr ''sports'', JNum (to_number i)])
       else extractName locale (cache [JStr ''organizations'', JStr ''detail'', JNum (to_number i)]))"
  proof (cases "base = ''/events''")
    case True
    obtain raw where "mapRawEvent parse raw = Inr (cache [JStr ''events'', JNum (to_number i)])" using assms(5) True by blast
    then have "extractName locale (cache [JStr ''events'', JNum (to_number i)]) = None"
      using event_has_no_names[OF assms(1)] no_name by blast
    then show ?thesis unfolding detailName_def detail_route(1)[OF assms(2-4)]
      using True by (simp add: detailCacheKey_def or_else_def)
  next
    case False
    then show ?thesis unfolding detailName_def detail_route(1)[OF assms(2-4)] using assms(2)
      by (auto simp: detailCacheKey_def or_else_def DETAIL_BASES_def)
  qed
  show "map cr_label (crumbs role (base @ ''/'' @ i) (detailName locale cache (base @ ''/'' @ i))) =
      [''dashboard'', tl base] @
      (if base = ''/registrations'' then [''REG-'' @ pad_start 6 (CHR ''0'') i]
       else if base = ''/events'' then []
       else if base = ''/sports'' then (case extractName locale (cache [JStr ''sports'', JNum (to_number i)]) of Some n \<Rightarrow> [n] | None \<Rightarrow> [])
       else (case extractName locale (cache [JStr ''organizations'', JStr ''detail'', JNum (to_number i)]) of Some n \<Rightarrow> [n] | None \<Rightarrow> []))"
    unfolding detail_crumbs[OF assms(2-4)] d by (simp split: option.split)
  show "crumb_links (crumbs role (base @ ''/'' @ i) (detailName locale cache (base @ ''/'' @ i))) =
      (if detailName locale cache (base @ ''/'' @ i) = None then [Some ''/dashboard'', None]
       else [Some ''/dashboard'', Some base, None])"
    unfolding detail_crumbs[OF assms(2-4)] by (auto simp: crumb_links_def upt_rec split: option.split)
qed

lemma breadcrumb_trail_witness:
  "map cr_label (crumbs (Some ADMIN) ''/sports/7'' (detailName ''kh'' (\<lambda>_. JObj [(''name_kh'', JStr ''Judo'')]) ''/sports/7'')) =
     [''dashboard'', ''sports'', ''Judo'']"
  using breadcrumb_trail[OF zp.zod_parser_axioms, of "''/sports''" "''7''" "\<lambda>_. JObj [(''name_kh'', JStr ''Judo'')]" "Some ADMIN" "''kh''"]
  by (simp add: DETAIL_BASES_def is_digit_def digit_chars_def extractName_def)

end
