(* ===== verification/Reports.thy ===== *)
theory Reports
  imports Organizer_Registration Survey_Steps
begin

text \<open>
  Reports, modules/reports: the cards, the dialog that asks for an event, an organization, a
  format and a source, the download hook with its request and the name of the saved file, and
  the query of the survey status; with the backend route that answers the request
  (src/backend/src/api/v1/routes/reports.py) and what it hands to the worker.
  The page is a state with the user's actions and the answers as events. A running download is
  not cancelled when the dialog closes: it stays in the list of running ones and its answer is
  saved whenever it comes.
\<close>

section \<open>The cards\<close>

record report_card =
  rc_id :: string
  rc_key :: string
  rc_titleKh :: string
  rc_descEn :: string
  rc_supportsSource :: bool

definition report_card :: "string \<Rightarrow> string \<Rightarrow> string \<Rightarrow> string \<Rightarrow> bool \<Rightarrow> report_card" where
  "report_card i k t d src =
     \<lparr> rc_id = i, rc_key = k, rc_titleKh = t, rc_descEn = d, rc_supportsSource = src \<rparr>"

definition REPORT_CARDS :: "report_card list" where
  "REPORT_CARDS =
    [report_card ''RPT-1'' ''sport-list'' (utf8 [
       225, 158, 133, 225, 159, 139, 225, 158, 148, 225, 159, 146, 225, 158, 154, 225, 158, 182, 225, 158, 148, 225,
       159, 129, 225, 158, 145, 225, 158, 182, 225, 158, 128, 225, 159, 146, 225, 158, 159, 225, 158, 182]) ''Sport registration list'' False,
     report_card ''RPT-2'' ''totals'' (utf8 [
       225, 158, 133, 225, 159, 146, 225, 158, 147, 225, 159, 136, 225, 158, 147, 225, 159, 146, 225, 158, 129, 225,
       158, 188, 225, 158, 152]) ''Total counts matrix'' True,
     report_card ''RPT-3'' ''counts'' (utf8 [
       225, 158, 133, 225, 159, 139, 225, 158, 133, 225, 159, 146, 225, 158, 147, 225, 159, 136, 225, 158, 147]) ''Number per organization'' False,
     report_card ''RPT-4'' ''album'' (utf8 [
       225, 158, 162, 225, 158, 182, 225, 158, 155, 225, 159, 139, 225, 158, 148, 225, 158, 187, 225, 158, 152]) ''Photo album with full details'' False,
     report_card ''RPT-5'' ''name-list'' (utf8 [
       225, 158, 154, 225, 158, 182, 225, 158, 153, 225, 158, 147, 225, 158, 182, 225, 158, 152, 225, 158, 188, 225,
       158, 152]) ''Combined roster'' False,
     report_card ''RPT-6'' ''leaders'' (utf8 [
       225, 158, 144, 225, 159, 146, 225, 158, 147, 225, 158, 182, 225, 158, 128, 225, 159, 138, 225, 158, 138, 225,
       159, 146, 225, 158, 128, 225, 158, 147, 225, 158, 182, 225, 159, 134, 225, 158, 128, 225, 159, 146, 225, 158,
       154, 225, 159, 129, 225, 158, 148, 225, 159, 128, 225, 158, 148, 225, 159, 146, 225, 158, 154, 225, 158, 182,
       225, 158, 148, 225, 159, 129, 225, 158, 145, 225, 158, 182, 225, 158, 128, 225, 159, 146, 225, 158, 159, 225,
       158, 182]) ''Leadership all sports'' False,
     report_card ''RPT-7'' ''coach-athlete'' (utf8 [
       225, 158, 130, 225, 159, 146, 225, 158, 154, 225, 158, 188, 225, 158, 148, 225, 158, 128, 225, 159, 146, 225,
       158, 147, 225, 159, 128, 225, 158, 128, 32, 225, 158, 162, 225, 158, 143, 225, 159, 146, 225, 158, 143, 225,
       158, 150, 225, 158, 155, 225, 158, 183, 225, 158, 128]) ''Coaches and athletes'' False,
     report_card ''RPT-8'' ''delegation'' (utf8 [
       225, 158, 148, 225, 159, 146, 225, 158, 154, 225, 158, 182, 225, 158, 143, 225, 159, 146, 225, 158, 151, 225,
       158, 188, 32, 225, 158, 162, 225, 159, 146, 225, 158, 147, 225, 158, 182, 225, 158, 148, 225, 158, 128, 225,
       159, 146, 225, 158, 143, 225, 159, 146, 225, 158, 147, 225, 158, 182, 225, 159, 134]) ''Delegates and leaders'' False]"

section \<open>The dialog\<close>

datatype report_format = FXlsx | FPdf
datatype report_source = Planned | Actual

primrec format_text :: "report_format \<Rightarrow> string" where
  "format_text FXlsx = ''xlsx''"
| "format_text FPdf = ''pdf''"

primrec source_text :: "report_source \<Rightarrow> string" where
  "source_text Planned = ''planned''"
| "source_text Actual = ''actual''"

record report_modal =
  rm_eventId :: string
  rm_orgId :: string
  rm_format :: report_format
  rm_source :: report_source

definition modal_fresh :: report_modal where
  "modal_fresh = \<lparr> rm_eventId = [], rm_orgId = [], rm_format = FXlsx, rm_source = Planned \<rparr>"

record report_params =
  rp_event_id :: jnum
  rp_org_id :: "jnum option"
  rp_source :: "report_source option"
  rp_format :: report_format

text \<open>What Generate hands over; nothing without an event.\<close>

definition handleGenerate :: "bool \<Rightarrow> bool \<Rightarrow> report_modal \<Rightarrow> report_params option" where
  "handleGenerate isAdmin supportsSource m =
     (if rm_eventId m = [] then None
      else Some
        \<lparr> rp_event_id = to_number (rm_eventId m),
          rp_org_id = (if isAdmin \<and> rm_orgId m \<noteq> [] then Some (to_number (rm_orgId m)) else None),
          rp_source = (if supportsSource then Some (rm_source m) else None),
          rp_format = rm_format m \<rparr>)"

section \<open>The download hook\<close>

definition ep_report :: "string \<Rightarrow> string" where "ep_report key = ''/api/v1/reports/'' @ key"
definition ep_survey_status :: "int \<Rightarrow> string" where
  "ep_survey_status i = ''/api/v1/events/'' @ show_int i @ ''/survey-status''"

definition apiDownloadReport :: "string \<Rightarrow> (string \<times> js) list \<Rightarrow> request" where
  "apiDownloadReport key params = get_req (ep_report key) params"

definition apiGetSurveyStatus :: "int \<Rightarrow> request" where
  "apiGetSurveyStatus eventId = get_req (ep_survey_status eventId) []"

definition report_query :: "report_params \<Rightarrow> (string \<times> js) list" where
  "report_query p =
     [(''event_id'', JNum (rp_event_id p))] @
     (case rp_org_id p of Some n \<Rightarrow> if truthy (JNum n) then [(''org_id'', JNum n)] else [] | None \<Rightarrow> []) @
     (case rp_source p of Some src \<Rightarrow> [(''source'', JStr (source_text src))] | None \<Rightarrow> []) @
     [(''format'', JStr (format_text (rp_format p)))]"

definition report_request :: "string \<Rightarrow> report_params \<Rightarrow> request" where
  "report_request key p = apiDownloadReport key (report_query p)"

definition download_name :: "string \<Rightarrow> report_params \<Rightarrow> string" where
  "download_name key p = key @ ''_'' @ js_string (JNum (rp_event_id p)) @ ''.'' @ format_text (rp_format p)"

definition useSurveyStatus_enabled :: "jnum \<Rightarrow> bool \<Rightarrow> bool" where
  "useSurveyStatus_enabled eventId enabled \<longleftrightarrow> truthy (JNum eventId) \<and> enabled"

section \<open>The page\<close>

text \<open>
  The hook shows the state of the last download it was asked for; reset forgets it. The
  downloads under way are numbered in the order they were started.
\<close>

datatype download_status = MPending | MSuccess | MError

record reports_page =
  rs_card :: "report_card option"
  rs_modal :: report_modal
  rs_next :: nat
  rs_observed :: "(nat \<times> download_status) option"
  rs_running :: "(nat \<times> string \<times> report_params) list"
  rs_saved :: "(string \<times> js) list"

definition reports_start :: reports_page where
  "reports_start =
     \<lparr> rs_card = None, rs_modal = modal_fresh, rs_next = 0, rs_observed = None, rs_running = [], rs_saved = [] \<rparr>"

definition isGenerating :: "reports_page \<Rightarrow> bool" where
  "isGenerating s \<longleftrightarrow> map_option snd (rs_observed s) = Some MPending"

definition isDone :: "reports_page \<Rightarrow> bool" where
  "isDone s \<longleftrightarrow> map_option snd (rs_observed s) = Some MSuccess"

record reports_context =
  rx_isAdmin :: bool
  rx_events :: "js list"
  rx_orgs :: "js list"

definition reports_context :: "user_role option \<Rightarrow> js list \<Rightarrow> js list \<Rightarrow> reports_context" where
  "reports_context role evs orgs =
     \<lparr> rx_isAdmin = can_cap role CROSS_ORG_ADMIN, rx_events = evs, rx_orgs = orgs \<rparr>"

datatype reports_event =
    Rp_open report_card
  | Rp_event string
  | Rp_org string
  | Rp_format report_format
  | Rp_source report_source
  | Rp_generate
  | Rp_close
  | Rp_answer nat "(js_error, js) result"

definition form_shown :: "reports_page \<Rightarrow> bool" where
  "form_shown s \<longleftrightarrow> rs_card s \<noteq> None \<and> \<not> isDone s"

text \<open>The button of the form is disabled without an event and while a download runs; the one after a success is not.\<close>

definition generate_enabled :: "reports_page \<Rightarrow> bool" where
  "generate_enabled s \<longleftrightarrow> rs_card s \<noteq> None \<and> (isDone s \<or> rm_eventId (rs_modal s) \<noteq> [] \<and> \<not> isGenerating s)"

definition reports_generate :: "reports_context \<Rightarrow> reports_page \<Rightarrow> reports_page" where
  "reports_generate cx s =
     (case rs_card s of
        None \<Rightarrow> s
      | Some c \<Rightarrow>
          (case handleGenerate (rx_isAdmin cx) (rc_supportsSource c) (rs_modal s) of
             None \<Rightarrow> s
           | Some p \<Rightarrow> s\<lparr>rs_next := Suc (rs_next s), rs_observed := Some (rs_next s, MPending),
                         rs_running := rs_running s @ [(rs_next s, rc_key c, p)]\<rparr>))"

definition handleClose :: "reports_page \<Rightarrow> reports_page" where
  "handleClose s = s\<lparr>rs_observed := None, rs_modal := modal_fresh, rs_card := None\<rparr>"

definition observe :: "nat \<Rightarrow> download_status \<Rightarrow> (nat \<times> download_status) option \<Rightarrow> (nat \<times> download_status) option" where
  "observe i st ob = (case ob of Some (j, st') \<Rightarrow> if j = i then Some (i, st) else ob | None \<Rightarrow> None)"

definition reports_answer :: "nat \<Rightarrow> (js_error, js) result \<Rightarrow> reports_page \<Rightarrow> reports_page" where
  "reports_answer i r s =
     (case map_of (rs_running s) i of
        None \<Rightarrow> s
      | Some (key, p) \<Rightarrow>
          (let s' = s\<lparr>rs_running := filter (\<lambda>(j, _). j \<noteq> i) (rs_running s)\<rparr> in
           case r of
             Inr blob \<Rightarrow> s'\<lparr>rs_observed := observe i MSuccess (rs_observed s),
                            rs_saved := rs_saved s @ [(download_name key p, blob)]\<rparr>
           | Inl _ \<Rightarrow> s'\<lparr>rs_observed := observe i MError (rs_observed s)\<rparr>))"

fun reports_step :: "reports_context \<Rightarrow> reports_event \<Rightarrow> reports_page \<Rightarrow> reports_page" where
  "reports_step cx (Rp_open c) s =
     (if c \<in> set REPORT_CARDS
      then s\<lparr>rs_card := Some c, rs_modal := if rs_card s = None then modal_fresh else rs_modal s\<rparr> else s)"
| "reports_step cx (Rp_event v) s =
     (if form_shown s \<and> v \<in> set (option_values (rx_events cx)) then s\<lparr>rs_modal := (rs_modal s)\<lparr>rm_eventId := v\<rparr>\<rparr> else s)"
| "reports_step cx (Rp_org v) s =
     (if form_shown s \<and> rx_isAdmin cx \<and> v \<in> set (option_values (rx_orgs cx))
      then s\<lparr>rs_modal := (rs_modal s)\<lparr>rm_orgId := v\<rparr>\<rparr> else s)"
| "reports_step cx (Rp_format f) s = (if form_shown s then s\<lparr>rs_modal := (rs_modal s)\<lparr>rm_format := f\<rparr>\<rparr> else s)"
| "reports_step cx (Rp_source src) s =
     (if form_shown s \<and> map_option rc_supportsSource (rs_card s) = Some True
      then s\<lparr>rs_modal := (rs_modal s)\<lparr>rm_source := src\<rparr>\<rparr> else s)"
| "reports_step cx Rp_generate s = (if generate_enabled s then reports_generate cx s else s)"
| "reports_step cx Rp_close s = (if rs_card s = None then s else handleClose s)"
| "reports_step cx (Rp_answer i r) s = reports_answer i r s"

inductive reports_reach :: "reports_context \<Rightarrow> reports_page \<Rightarrow> bool" for cx where
  start: "reports_reach cx reports_start"
| step: "reports_reach cx s \<Longrightarrow> reports_reach cx (reports_step cx ev s)"

section \<open>The backend route\<close>

text \<open>
  The route reads its query as integers and as texts of two patterns, answers 422 where one
  does not fit, then consults the rate limit (a parameter, as is the existence of an event), the
  catalogue of keys and the user's organization. What it queues is the job; the organization it
  worked out is not part of it.
\<close>

definition REPORT_KEYS :: "string list" where
  "REPORT_KEYS = [''sport-list'', ''totals'', ''counts'', ''album'', ''name-list'', ''leaders'', ''coach-athlete'', ''delegation'']"

record be_user =
  bu_id :: string
  bu_role :: user_role
  bu_organization_id :: "int option"
  bu_sport_id :: "int option"

type_synonym http_exception = "nat \<times> string"

definition get_effective_org_id :: "be_user \<Rightarrow> int option \<Rightarrow> (http_exception, int option) result" where
  "get_effective_org_id u client_org_id =
     (if bu_role u = ORGANIZATION
      then (case bu_organization_id u of
              None \<Rightarrow> Inl (400, ''Your account has no organization linked. Contact an admin.'')
            | Some i \<Rightarrow> Inr (Some i))
      else Inr client_org_id)"

record report_job =
  rj_key :: string
  rj_event_id :: int
  rj_actor :: be_user
  rj_source :: "string option"
  rj_fmt :: string

definition job_answer :: "string \<Rightarrow> js" where
  "job_answer job_id = JObj [(''job_id'', JStr job_id), (''status'', JStr ''queued'')]"

definition generate_report ::
  "http_exception option \<Rightarrow> (int \<Rightarrow> bool) \<Rightarrow> string \<Rightarrow> be_user \<Rightarrow> string \<Rightarrow> int \<Rightarrow> int option \<Rightarrow> string option \<Rightarrow> string \<Rightarrow>
    (http_exception, report_job \<times> js) result" where
  "generate_report limited event_exists job_id u key event_id org_id source fmt =
     (case limited of
        Some e \<Rightarrow> Inl e
      | None \<Rightarrow>
          if key \<notin> set REPORT_KEYS then Inl (400, ''Unknown report key: '' @ key)
          else bind_r (get_effective_org_id u org_id) (\<lambda>_.
            if \<not> event_exists event_id then Inl (404, ''Event not found'')
            else Inr (\<lparr> rj_key = key, rj_event_id = event_id, rj_actor = u, rj_source = source, rj_fmt = fmt \<rparr>,
                      job_answer job_id)))"

text \<open>The declared query of the route: an optional value is the first component of the pair absent or read.\<close>

fun int_query :: "js \<Rightarrow> int option" where
  "int_query (JNum (Fin r)) = (if r = of_int \<lfloor>r\<rfloor> then Some \<lfloor>r\<rfloor> else None)"
| "int_query _ = None"

fun text_query :: "string list \<Rightarrow> js \<Rightarrow> string option" where
  "text_query allowed (JStr t) = (if t \<in> set allowed then Some t else None)"
| "text_query _ _ = None"

definition optional_query :: "(js \<Rightarrow> 'a option) \<Rightarrow> js \<Rightarrow> 'a option option" where
  "optional_query rd v = (if v = JUndef then Some None else map_option Some (rd v))"

definition report_route ::
  "http_exception option \<Rightarrow> (int \<Rightarrow> bool) \<Rightarrow> string \<Rightarrow> be_user \<Rightarrow> string \<Rightarrow> (string \<times> js) list \<Rightarrow>
    (http_exception, report_job \<times> js) result" where
  "report_route limited event_exists job_id u key query =
     (case (int_query (js_get ''event_id'' (JObj query)),
            optional_query int_query (js_get ''org_id'' (JObj query)),
            optional_query (text_query [''planned'', ''actual'']) (js_get ''source'' (JObj query)),
            optional_query (text_query [''xlsx'', ''pdf'']) (js_get ''format'' (JObj query))) of
        (Some e, Some org, Some src, Some fmt) \<Rightarrow>
          generate_report limited event_exists job_id u key e org src (or_else fmt ''xlsx'')
      | _ \<Rightarrow> Inl (422, ''Validation error''))"

text \<open>The name under which the worker stores the document of a job.\<close>

definition artifact_name :: "report_job \<Rightarrow> string" where
  "artifact_name j =
     (if rj_fmt j = ''xlsx'' then rj_key j @ ''_'' @ show_int (rj_event_id j) @ ''.xlsx''
      else rj_key j @ ''_'' @ show_int (rj_event_id j) @ ''.pdf'')"

section \<open>Lemmas\<close>

lemma card_keys: "map rc_key REPORT_CARDS = REPORT_KEYS"
  by (simp add: REPORT_CARDS_def REPORT_KEYS_def report_card_def)

lemma card_key_known: "c \<in> set REPORT_CARDS \<Longrightarrow> rc_key c \<in> set REPORT_KEYS"
  unfolding card_keys[symmetric] by simp

lemma source_only_totals: "c \<in> set REPORT_CARDS \<Longrightarrow> rc_supportsSource c \<longleftrightarrow> rc_key c = ''totals''"
  by (auto simp: REPORT_CARDS_def report_card_def)

definition id_offered :: "js list \<Rightarrow> jnum \<Rightarrow> bool" where
  "id_offered xs n \<longleftrightarrow> (\<exists>x \<in> set xs. js_string (js_get ''id'' x) \<noteq> [] \<and> n = to_number (js_string (js_get ''id'' x)))"

text \<open>What the page keeps of every download under way.\<close>

definition download_ok :: "reports_context \<Rightarrow> string \<times> report_params \<Rightarrow> bool" where
  "download_ok cx d =
     (case d of (key, p) \<Rightarrow>
        key \<in> set REPORT_KEYS \<and> id_offered (rx_events cx) (rp_event_id p) \<and>
        (\<forall>n. rp_org_id p = Some n \<longrightarrow> rx_isAdmin cx \<and> id_offered (rx_orgs cx) n) \<and>
        (rp_source p \<noteq> None \<longleftrightarrow> key = ''totals''))"

definition modal_ok :: "reports_context \<Rightarrow> report_modal \<Rightarrow> bool" where
  "modal_ok cx m \<longleftrightarrow> rm_eventId m \<in> set (option_values (rx_events cx)) \<and> rm_orgId m \<in> set (option_values (rx_orgs cx))"

lemma modal_fresh_ok [simp]: "modal_ok cx modal_fresh"
  by (simp add: modal_ok_def modal_fresh_def option_values_def)

lemma option_offered: "v \<in> set (option_values xs) \<Longrightarrow> v \<noteq> [] \<Longrightarrow> id_offered xs (to_number v)"
  by (auto simp: option_values_def id_offered_def)

lemma handleGenerate_ok:
  assumes "modal_ok cx m" "c \<in> set REPORT_CARDS" "handleGenerate (rx_isAdmin cx) (rc_supportsSource c) m = Some p"
  shows "download_ok cx (rc_key c, p)"
  using assms option_offered card_key_known[OF assms(2)] source_only_totals[OF assms(2)]
  by (auto simp: handleGenerate_def download_ok_def modal_ok_def split: if_splits)


definition reports_inv :: "reports_context \<Rightarrow> reports_page \<Rightarrow> bool" where
  "reports_inv cx s \<longleftrightarrow>
     modal_ok cx (rs_modal s) \<and>
     (\<forall>c. rs_card s = Some c \<longrightarrow> c \<in> set REPORT_CARDS) \<and>
     (\<forall>(i, d) \<in> set (rs_running s). i < rs_next s \<and> download_ok cx d) \<and>
     distinct (map fst (rs_running s)) \<and>
     (\<forall>i. rs_observed s = Some (i, MPending) \<longrightarrow> i \<in> fst ` set (rs_running s)) \<and>
     (\<forall>i st. rs_observed s = Some (i, st) \<longrightarrow> i < rs_next s) \<and>
     (rs_card s = None \<longrightarrow> rs_observed s = None)"

lemma generate_inv: "reports_inv cx s \<Longrightarrow> reports_inv cx (reports_generate cx s)"
  by (auto simp: reports_inv_def reports_generate_def handleGenerate_ok less_SucI split: option.splits)

lemma observe_Some: "observe i st ob = Some (j, st') \<Longrightarrow> ob = Some (j, st') \<and> j \<noteq> i \<or> j = i \<and> st' = st \<and> (\<exists>st0. ob = Some (i, st0))"
  by (auto simp: observe_def split: option.splits if_splits)

lemma observe_None [simp]: "observe i st None = None"
  by (simp add: observe_def)

lemma settled_inv:
  assumes "reports_inv cx s" "st \<noteq> MPending"
  shows "reports_inv cx (s\<lparr>rs_running := filter (\<lambda>(j, _). j \<noteq> i) (rs_running s), rs_observed := observe i st (rs_observed s)\<rparr>)"
proof -
  have "distinct (map fst (filter (\<lambda>(j, _). j \<noteq> i) (rs_running s)))"
    using assms(1) by (simp add: reports_inv_def distinct_map_filter)
  moreover have "fst ` set (filter (\<lambda>(j, _). j \<noteq> i) (rs_running s)) = fst ` set (rs_running s) - {i}" by force
  ultimately show ?thesis
    using assms unfolding reports_inv_def by (auto dest!: observe_Some)
qed

lemma saved_irrelevant: "reports_inv cx (s\<lparr>rs_saved := x\<rparr>) \<longleftrightarrow> reports_inv cx s"
  by (simp add: reports_inv_def)

lemma answer_inv:
  assumes "reports_inv cx s"
  shows "reports_inv cx (reports_answer i r s)"
proof (cases "map_of (rs_running s) i")
  case (Some d)
  show ?thesis
  proof (cases r)
    case (Inr blob)
    have "reports_inv cx (s\<lparr>rs_running := filter (\<lambda>(j, _). j \<noteq> i) (rs_running s), rs_observed := observe i MSuccess (rs_observed s)\<rparr>
        \<lparr>rs_saved := rs_saved s @ [(download_name (fst d) (snd d), blob)]\<rparr>)"
      unfolding saved_irrelevant by (rule settled_inv[OF assms]) simp
    then show ?thesis using Some Inr by (simp add: reports_answer_def Let_def split_beta)
  next
    case (Inl e)
    then show ?thesis using Some settled_inv[OF assms, of MError i] by (simp add: reports_answer_def Let_def split_beta)
  qed
qed (simp add: assms reports_answer_def)

lemma reports_inv_step: "reports_inv cx s \<Longrightarrow> reports_inv cx (reports_step cx ev s)"
proof (cases ev)
  case (Rp_answer i r)
  then show "reports_inv cx s \<Longrightarrow> ?thesis" by (simp add: answer_inv)
next
  case Rp_generate
  then show "reports_inv cx s \<Longrightarrow> ?thesis" by (simp add: generate_inv)
qed (auto simp: reports_inv_def handleClose_def modal_ok_def modal_fresh_def option_values_def)

lemma reports_reach_inv: "reports_reach cx s \<Longrightarrow> reports_inv cx s"
proof (induction rule: reports_reach.induct)
  case start
  show ?case by (simp add: reports_inv_def reports_start_def)
qed (rule reports_inv_step)

section \<open>From the page to the worker\<close>

lemma int_query_int [simp]: "int_query (JNum (Fin (of_int n))) = Some n"
  by simp

text \<open>Reference data as the backend sends it: records with integer ids.\<close>

definition int_ids :: "js list \<Rightarrow> bool" where
  "int_ids xs \<longleftrightarrow> (\<forall>x \<in> set xs. \<exists>n. js_get ''id'' x = JInt n)"

lemma offered_int: "id_offered xs m \<Longrightarrow> int_ids xs \<Longrightarrow> \<exists>n. m = Fin (of_int n) \<and> JInt n \<in> js_get ''id'' ` set xs"
  by (force simp: id_offered_def int_ids_def)

lemma source_known: "source_text src \<in> set [''planned'', ''actual'']"
  by (cases src) simp_all

lemma format_known: "format_text f \<in> set [''xlsx'', ''pdf'']"
  by (cases f) simp_all

lemma query_fields:
  "js_get ''event_id'' (JObj (report_query p)) = JNum (rp_event_id p)"
  "js_get ''org_id'' (JObj (report_query p)) =
     (case rp_org_id p of Some n \<Rightarrow> if truthy (JNum n) then JNum n else JUndef | None \<Rightarrow> JUndef)"
  "js_get ''source'' (JObj (report_query p)) =
     (case rp_source p of Some src \<Rightarrow> JStr (source_text src) | None \<Rightarrow> JUndef)"
  "js_get ''format'' (JObj (report_query p)) = JStr (format_text (rp_format p))"
  by (auto simp: report_query_def split: option.split)

definition org_known :: "be_user \<Rightarrow> bool" where
  "org_known u \<longleftrightarrow> (bu_role u = ORGANIZATION \<longrightarrow> bu_organization_id u \<noteq> None)"

lemma effective_org: "org_known u \<Longrightarrow> bind_r (get_effective_org_id u c) (\<lambda>_. x) = x"
  by (auto simp: org_known_def get_effective_org_id_def)

text \<open>The job the route queues for a request of the page.\<close>

definition page_job :: "be_user \<Rightarrow> string \<Rightarrow> report_params \<Rightarrow> report_job" where
  "page_job u key p =
     \<lparr> rj_key = key, rj_event_id = (case rp_event_id p of Fin r \<Rightarrow> \<lfloor>r\<rfloor> | _ \<Rightarrow> 0), rj_actor = u,
       rj_source = map_option source_text (rp_source p), rj_fmt = format_text (rp_format p) \<rparr>"

lemma route_accepts:
  assumes "download_ok cx (key, p)" "int_ids (rx_events cx)" "int_ids (rx_orgs cx)" "org_known u"
    and "\<And>n. JInt n \<in> js_get ''id'' ` set (rx_events cx) \<Longrightarrow> event_exists n"
  shows "report_route None event_exists job_id u key (report_query p) = Inr (page_job u key p, job_answer job_id)"
proof -
  obtain e where e: "rp_event_id p = Fin (of_int e)" "event_exists e"
    using offered_int[of "rx_events cx" "rp_event_id p"] assms(1,2,5) unfolding download_ok_def by blast
  have "\<exists>org. optional_query int_query (js_get ''org_id'' (JObj (report_query p))) = Some org"
  proof (cases "rp_org_id p")
    case (Some n)
    then have "id_offered (rx_orgs cx) n" using assms(1) by (simp add: download_ok_def)
    then obtain k where "n = Fin (of_int k)" using offered_int assms(3) by blast
    then show ?thesis unfolding query_fields using Some by (simp add: optional_query_def)
  qed (unfold query_fields, simp add: optional_query_def)
  moreover have "optional_query (text_query [''planned'', ''actual'']) (js_get ''source'' (JObj (report_query p))) =
      Some (map_option source_text (rp_source p))"
    unfolding query_fields using source_known by (auto simp: optional_query_def split: option.split)
  moreover have "optional_query (text_query [''xlsx'', ''pdf'']) (js_get ''format'' (JObj (report_query p))) =
      Some (Some (format_text (rp_format p)))"
    unfolding query_fields using format_known by (auto simp: optional_query_def)
  ultimately show ?thesis
    using assms(1) effective_org[OF assms(4)] e
    by (auto simp: report_route_def generate_report_def page_job_def query_fields(1)[simplified] download_ok_def)
qed

lemma names_agree:
  assumes "id_offered xs (rp_event_id p)" "int_ids xs"
  shows "download_name key p = artifact_name (page_job u key p)"
proof -
  obtain n where "rp_event_id p = Fin (of_int n)" using offered_int[OF assms] by blast
  then show ?thesis by (cases "rp_format p") (simp_all add: download_name_def artifact_name_def page_job_def)
qed

lemma download_under_way: "reports_reach cx s \<Longrightarrow> (i, d) \<in> set (rs_running s) \<Longrightarrow> download_ok cx d \<and> map_of (rs_running s) i = Some d"
  using reports_reach_inv[of cx s] by (auto simp: reports_inv_def)

text \<open>C32. A report from the dialog to the saved file. Every download a user can start, closed dialogs included, is accepted
  by the backend route unless the rate limit stops it or the user has no organization: the job has the card's key, the
  chosen event, format and source. What the page then saves, under the very name the worker gives the finished document,
  is the description of the queued job. And the job is the same without the organization, which only an administrator can choose.\<close>

theorem report_download_end_to_end:
  assumes "reports_reach (reports_context role evs orgs) s" "(i, key, p) \<in> set (rs_running s)"
    and "int_ids evs" "int_ids orgs" "\<And>n. JInt n \<in> js_get ''id'' ` set evs \<Longrightarrow> event_exists n" "org_known u"
  shows "\<exists>job. report_route None event_exists job_id u key (report_query p) = Inr (job, job_answer job_id) \<and>
      report_route None event_exists job_id u key (report_query (p\<lparr>rp_org_id := None\<rparr>)) = Inr (job, job_answer job_id) \<and>
      rj_key job = key \<and> JInt (rj_event_id job) = JNum (rp_event_id p) \<and>
      rj_source job = map_option source_text (rp_source p) \<and> rj_fmt job = format_text (rp_format p) \<and>
      rs_saved (reports_step (reports_context role evs orgs) (Rp_answer i (Inr (job_answer job_id))) s) =
        rs_saved s @ [(artifact_name job, job_answer job_id)] \<and>
      (rp_org_id p \<noteq> None \<longrightarrow> can_cap role CROSS_ORG_ADMIN)"
proof -
  let ?cx = "reports_context role evs orgs"
  have cx: "rx_events ?cx = evs" "rx_orgs ?cx = orgs" "rx_isAdmin ?cx = can_cap role CROSS_ORG_ADMIN"
    by (simp_all add: reports_context_def)
  note ok = download_under_way[OF assms(1,2)]
  have dk: "download_ok ?cx (key, p)" "download_ok ?cx (key, p\<lparr>rp_org_id := None\<rparr>)"
    using ok by (simp_all add: download_ok_def)
  have "id_offered evs (rp_event_id p)" using ok by (simp add: download_ok_def cx)
  then obtain n where "rp_event_id p = Fin (of_int n)" using offered_int assms(3) by blast
  then have "JInt (rj_event_id (page_job u key p)) = JNum (rp_event_id p)" by (simp add: page_job_def)
  moreover have "page_job u key (p\<lparr>rp_org_id := None\<rparr>) = page_job u key p" by (simp add: page_job_def)
  moreover have "rs_saved (reports_step ?cx (Rp_answer i (Inr (job_answer job_id))) s) =
      rs_saved s @ [(artifact_name (page_job u key p), job_answer job_id)]"
    using ok names_agree[OF \<open>id_offered evs (rp_event_id p)\<close> assms(3)] by (simp add: reports_answer_def Let_def)
  moreover have "rp_org_id p \<noteq> None \<longrightarrow> can_cap role CROSS_ORG_ADMIN" using ok by (auto simp: download_ok_def cx)
  ultimately show ?thesis
    using route_accepts[OF dk(1), where u = u] route_accepts[OF dk(2), where u = u] assms(3-6)
    by (intro exI[of _ "page_job u key p"]) (auto simp: cx page_job_def)
qed

definition sample_reports :: reports_page where
  "sample_reports =
     fold (reports_step (reports_context (Some ADMIN) [JObj [(''id'', JInt 5)]] [JObj [(''id'', JInt 3)]]))
       [Rp_open (REPORT_CARDS ! 1), Rp_event ''5'', Rp_org ''3'', Rp_source Actual, Rp_generate, Rp_close] reports_start"

lemma reports_reach_fold: "reports_reach cx s \<Longrightarrow> reports_reach cx (fold (reports_step cx) evs s)"
  by (induction evs arbitrary: s) (auto intro: reports_reach.step)

lemma sample_reports_running:
  "rs_running sample_reports =
     [(0, ''totals'', \<lparr> rp_event_id = Fin 5, rp_org_id = Some (Fin 3), rp_source = Some Actual, rp_format = FXlsx \<rparr>)]"
  "rs_saved sample_reports = []" "rs_card sample_reports = None"
  by code_simp+

lemma report_download_end_to_end_witness:
  "\<exists>job. rj_key job = ''totals'' \<and> rj_event_id job = 5 \<and> rj_source job = Some ''actual'' \<and>
     rs_saved (reports_step (reports_context (Some ADMIN) [JObj [(''id'', JInt 5)]] [JObj [(''id'', JInt 3)]])
       (Rp_answer 0 (Inr (job_answer ''j1''))) sample_reports) = [(artifact_name job, job_answer ''j1'')]"
proof -
  let ?u = "\<lparr> bu_id = ''u'', bu_role = ADMIN, bu_organization_id = None, bu_sport_id = None \<rparr>"
  have r: "reports_reach (reports_context (Some ADMIN) [JObj [(''id'', JInt 5)]] [JObj [(''id'', JInt 3)]]) sample_reports"
    unfolding sample_reports_def by (rule reports_reach_fold[OF reports_reach.start])
  show ?thesis
    using report_download_end_to_end[OF r, of 0 "''totals''"
        "\<lparr> rp_event_id = Fin 5, rp_org_id = Some (Fin 3), rp_source = Some Actual, rp_format = FXlsx \<rparr>" "\<lambda>_. True" ?u "''j1''"]
    by (auto simp: sample_reports_running int_ids_def org_known_def)
qed

section \<open>What else the page does\<close>

text \<open>The names of saved files do not tell organizations and sources apart.\<close>

lemma download_name_ignores:
  "download_name key (p\<lparr>rp_org_id := a, rp_source := b\<rparr>) = download_name key p"
  by (simp add: download_name_def)

text \<open>While the form's button is on no download is shown as running, and closing forgets the dialog but not the running downloads.\<close>

lemma generate_not_twice:
  "reports_reach cx s \<Longrightarrow> isGenerating s \<Longrightarrow> reports_step cx Rp_generate s = s"
  by (auto simp: generate_enabled_def isGenerating_def isDone_def)

lemma close_keeps_downloads:
  "rs_running (reports_step cx Rp_close s) = rs_running s" "rs_saved (reports_step cx Rp_close s) = rs_saved s"
  by (simp_all add: handleClose_def)

text \<open>The selects stay open while a download runs; after a success the button asks for what they say now.\<close>

lemma again_downloads_another_event:
  "map (\<lambda>(_, key, p). (key, rp_event_id p))
     (rs_running (fold (reports_step (reports_context (Some ADMIN) [JObj [(''id'', JInt 5)], JObj [(''id'', JInt 6)]] []))
       [Rp_open (REPORT_CARDS ! 0), Rp_event ''5'', Rp_generate, Rp_event ''6'', Rp_answer 0 (Inr JNull), Rp_generate] reports_start)) =
   [(''sport-list'', Fin 6)]"
  by code_simp

text \<open>An organization's user without an organization is refused with 400.\<close>

lemma report_without_organization:
  "bu_role u = ORGANIZATION \<Longrightarrow> bu_organization_id u = None \<Longrightarrow> key \<in> set REPORT_KEYS \<Longrightarrow>
     \<exists>m. generate_report None ex j u key e org src f = Inl (400, m)"
  by (simp add: generate_report_def get_effective_org_id_def)

end
