(* ===== verification/Participants.thy ===== *)
theory Participants
  imports Access_Control Masks Registration Shared_Controls
begin

text \<open>
  The registered participants, modules/registration: the list page with its search, filters and
  pages, the page of one participant and its edit form; with the part of the backend that the
  edit form talks to (app/application/participants): the projection of a stored row, the
  validation of the update request and the update itself. The rows, requests and schemas are
  those of the theory Registration.
\<close>

section \<open>The list page\<close>

definition LIST_GENDERS :: "string list" where "LIST_GENDERS = [''MALE'', ''FEMALE'', ''OTHER'']"

definition gender_text :: "string \<Rightarrow> string" where
  "gender_text g = take 1 g @ to_lower (drop 1 g)"

definition PARTICIPANTS_PAGE_SIZE :: nat where "PARTICIPANTS_PAGE_SIZE = 10"

record participant_list =
  pl_search :: string
  pl_page :: nat
  pl_showFilters :: bool
  pl_category :: string
  pl_gender :: string

definition pl_start :: participant_list where
  "pl_start = \<lparr> pl_search = [], pl_page = 0, pl_showFilters = False, pl_category = [], pl_gender = [] \<rparr>"

text \<open>An empty text is sent as no value.\<close>

definition some_text :: "string \<Rightarrow> js" where
  "some_text t = (if t \<noteq> [] then JStr t else JUndef)"

definition pl_organization :: "user_role option \<Rightarrow> js \<Rightarrow> js" where
  "pl_organization role user =
     (if can_cap role CROSS_ORG_ADMIN then JUndef else js_or (js_get ''org_id'' user) JUndef)"

definition pl_query :: "user_role option \<Rightarrow> js \<Rightarrow> participant_list \<Rightarrow> js" where
  "pl_query role user s =
     JObj [(''search'', some_text (pl_search s)),
           (''organization_id'', pl_organization role user),
           (''category_id'', if pl_category s \<noteq> [] then JNum (to_number (pl_category s)) else JUndef),
           (''gender'', some_text (pl_gender s)),
           (''skip'', JInt (int (pl_page s * PARTICIPANTS_PAGE_SIZE))),
           (''limit'', JInt (int PARTICIPANTS_PAGE_SIZE))]"

definition pl_request :: "user_role option \<Rightarrow> js \<Rightarrow> participant_list \<Rightarrow> request" where
  "pl_request role user s = apiSearchRegistrations (pl_query role user s)"

definition pl_rows :: "js \<Rightarrow> js" where
  "pl_rows response = js_or (js_get ''data'' response) (JArr [])"

text \<open>The count of a validated answer is a whole number from 0 up.\<close>

fun answer_count :: "js \<Rightarrow> nat" where
  "answer_count (JNum (Fin r)) = nat \<lfloor>r\<rfloor>"
| "answer_count _ = 0"

definition pl_totalCount :: "js \<Rightarrow> nat" where
  "pl_totalCount response = answer_count (js_get ''count'' response)"

definition pl_totalPages :: "js \<Rightarrow> nat" where
  "pl_totalPages response = nat \<lceil>rat_of_nat (pl_totalCount response) / rat_of_nat PARTICIPANTS_PAGE_SIZE\<rceil>"

definition pl_bar :: "js \<Rightarrow> participant_list \<Rightarrow> page_bar option" where
  "pl_bar response s =
     Pagination (pl_page s + 1) (pl_totalPages response) (pl_totalCount response) PARTICIPANTS_PAGE_SIZE"

definition hasActiveFilters :: "participant_list \<Rightarrow> bool" where
  "hasActiveFilters s \<longleftrightarrow> pl_category s \<noteq> [] \<or> pl_gender s \<noteq> []"

definition clearFilters :: "participant_list \<Rightarrow> participant_list" where
  "clearFilters s = s\<lparr>pl_category := [], pl_gender := [], pl_page := 0\<rparr>"

definition openDetail :: "int \<Rightarrow> string \<Rightarrow> string" where
  "openDetail i role = ''/registrations/'' @ show_int i @ ''?role='' @ role"

datatype list_action =
    Pl_search string
  | Pl_toggle
  | Pl_gender string
  | Pl_category string
  | Pl_clear
  | Pl_prev
  | Pl_next
  | Pl_open int string
  | Pl_delete int bool

datatype list_effect = Pl_navigate string | Pl_send request

definition pl_go :: "nat option \<Rightarrow> participant_list \<Rightarrow> participant_list" where
  "pl_go target s = (case target of Some p \<Rightarrow> s\<lparr>pl_page := p - 1\<rparr> | None \<Rightarrow> s)"

text \<open>The inputs of the filters are rendered when they are shown, the buttons of the bar when they are enabled.\<close>

fun pl_step :: "js \<Rightarrow> list_action \<Rightarrow> participant_list \<Rightarrow> participant_list \<times> list_effect list" where
  "pl_step response (Pl_search t) s = (s\<lparr>pl_search := t, pl_page := 0\<rparr>, [])"
| "pl_step response Pl_toggle s = (s\<lparr>pl_showFilters := \<not> pl_showFilters s\<rparr>, [])"
| "pl_step response (Pl_gender g) s =
     (if pl_showFilters s \<and> g \<in> set ([] # LIST_GENDERS) then (s\<lparr>pl_gender := g, pl_page := 0\<rparr>, []) else (s, []))"
| "pl_step response (Pl_category c) s =
     (if pl_showFilters s then (s\<lparr>pl_category := c, pl_page := 0\<rparr>, []) else (s, []))"
| "pl_step response Pl_clear s =
     (if pl_showFilters s \<and> hasActiveFilters s then (clearFilters s, []) else (s, []))"
| "pl_step response Pl_prev s = (pl_go (Option.bind (pl_bar response s) pb_prev) s, [])"
| "pl_step response Pl_next s = (pl_go (Option.bind (pl_bar response s) pb_next) s, [])"
| "pl_step response (Pl_open i role) s = (s, [Pl_navigate (openDetail i role)])"
| "pl_step response (Pl_delete i confirmed) s = (s, if confirmed then [Pl_send (apiDeleteRegistration i)] else [])"

text \<open>The cells of a row.\<close>

definition list_role_text :: "js \<Rightarrow> string" where
  "list_role_text p = (if js_get ''role'' p = JStr ''athlete'' then ''athlete'' else ''leader'')"

definition em_dash :: js where "em_dash = JStr (utf8 [226, 128, 148])"

definition list_sport :: "js \<Rightarrow> js" where "list_sport p = js_or (js_get ''sport_name'' p) em_dash"
definition list_event_name :: "js \<Rightarrow> js" where "list_event_name p = js_or (js_get ''event_name'' p) em_dash"

section \<open>The page of one participant\<close>

text \<open>The route reads the id of the path and the role of the query.\<close>

definition route_role :: "string option \<Rightarrow> string" where
  "route_role q = (if q = Some ''leader'' then ''leader'' else ''athlete'')"

definition route_enrollId :: "string \<Rightarrow> jnum" where
  "route_enrollId param = to_number param"

definition detail_isLeader :: "js \<Rightarrow> bool" where
  "detail_isLeader p \<longleftrightarrow> js_get ''role'' p = JStr ''leader''"

definition nameLatin :: "js \<Rightarrow> js" where
  "nameLatin p = js_or (js_get ''name_en'' p)
     (JStr (js_string (js_get ''en_family_name'' p) @ '' '' @ js_string (js_get ''en_given_name'' p)))"

definition nameKhmer :: "js \<Rightarrow> js" where
  "nameKhmer p = js_or (js_get ''name_kh'' p)
     (JStr (js_string (js_get ''kh_family_name'' p) @ '' '' @ js_string (js_get ''kh_given_name'' p)))"

definition roleDisplay :: "js \<Rightarrow> string" where
  "roleDisplay p =
     (if detail_isLeader p then ''leader''
      else if js_get ''gender'' p = JStr ''MALE'' then ''athleteMale''
      else if js_get ''gender'' p = JStr ''FEMALE'' then ''athleteFemale''
      else ''athlete'')"

definition detail_documents :: "js \<Rightarrow> (string \<times> js) list" where
  "detail_documents p =
     filter (\<lambda>d. truthy (snd d))
       [(''documents.photo'', or_nullish (js_get ''photoUrl'' p) (js_get ''photo_url'' p)),
        (''documents.birthCertificate'', js_get ''birthCertificateUrl'' p),
        (''documents.nationalId'', js_get ''nationalIdUrl'' p),
        (''documents.passport'', js_get ''passportUrl'' p),
        (''documents.nationality'', js_get ''nationalityDocumentUrl'' p)]"

definition detail_participation :: "js \<Rightarrow> (string \<times> js) list" where
  "detail_participation p =
     [(''fields.event'', js_or (js_get ''event_name'' p) em_dash),
      (''fields.sport'', js_or (js_or (js_get ''name'' (js_get ''sport'' p)) (js_get ''sport_name'' p)) em_dash),
      (if detail_isLeader p then (''fields.leaderRole'', js_or (js_get ''leader_role'' p) em_dash)
       else (''fields.category'', js_or (js_get ''name'' (js_get ''category'' p)) em_dash)),
      (''fields.organization'', js_or (js_get ''name'' (js_get ''organization'' p)) em_dash)]"

definition detail_phone :: "bool \<Rightarrow> js \<Rightarrow> string" where
  "detail_phone phoneShown p = shown_phone phoneShown (js_str (js_get ''phone'' p))"

text \<open>The personal fields: the gender as the answer spells it, and the role with its own reading of the gender.\<close>

definition detail_personal :: "bool \<Rightarrow> js \<Rightarrow> (string \<times> js) list" where
  "detail_personal phoneShown p =
     [(''fields.gender'', js_or (js_get ''gender'' p) em_dash),
      (''fields.dateOfBirth'', js_or (js_get ''date_of_birth'' p) em_dash),
      (''fields.phone'', JStr (detail_phone phoneShown p)),
      (''fields.role'', JStr (roleDisplay p))]"

section \<open>The edit form\<close>

definition EDIT_GENDER_OPTIONS :: "string list" where
  "EDIT_GENDER_OPTIONS = [''MALE'', ''FEMALE'', ''OTHER'']"

definition LEADER_ROLE_OPTIONS :: "string list" where
  "LEADER_ROLE_OPTIONS = [''coach'', ''manager'', ''delegate'', ''team_lead'', ''coach_trainer'', ''teacher_assistant'']"

record edit_values =
  ev_kh_family_name :: string
  ev_kh_given_name :: string
  ev_en_family_name :: string
  ev_en_given_name :: string
  ev_phone :: string
  ev_gender :: string
  ev_date_of_birth :: string
  ev_leader_role :: string

definition text_or_empty :: "js \<Rightarrow> string" where
  "text_or_empty v = js_str (or_nullish v (JStr []))"

definition edit_defaults :: "js \<Rightarrow> edit_values" where
  "edit_defaults p =
     \<lparr> ev_kh_family_name = text_or_empty (js_get ''kh_family_name'' p),
       ev_kh_given_name = text_or_empty (js_get ''kh_given_name'' p),
       ev_en_family_name = text_or_empty (js_get ''en_family_name'' p),
       ev_en_given_name = text_or_empty (js_get ''en_given_name'' p),
       ev_phone = text_or_empty (js_get ''phone'' p),
       ev_gender = to_upper (text_or_empty (js_get ''gender'' p)),
       ev_date_of_birth = text_or_empty (js_get ''date_of_birth'' p),
       ev_leader_role = text_or_empty (js_get ''leader_role'' p) \<rparr>"

definition edit_payload :: "bool \<Rightarrow> edit_values \<Rightarrow> js" where
  "edit_payload isLeader v =
     JObj ([(''kh_family_name'', JStr (ev_kh_family_name v)),
            (''kh_given_name'', JStr (ev_kh_given_name v)),
            (''en_family_name'', JStr (ev_en_family_name v)),
            (''en_given_name'', JStr (ev_en_given_name v)),
            (''phone'', JStr (ev_phone v)),
            (''gender'', JStr (ev_gender v)),
            (''date_of_birth'', JStr (ev_date_of_birth v))] @
           (if isLeader \<and> ev_leader_role v \<noteq> [] then [(''leader_role'', JStr (ev_leader_role v))] else []))"

text \<open>The defaults are read once, when the page mounts the form.\<close>

record edit_form =
  ef_open :: bool
  ef_defaults :: edit_values
  ef_values :: edit_values
  ef_pending :: bool
  ef_error :: bool

definition edit_mount :: "js \<Rightarrow> edit_form" where
  "edit_mount p =
     \<lparr> ef_open = False, ef_defaults = edit_defaults p, ef_values = edit_defaults p, ef_pending = False, ef_error = False \<rparr>"

definition edit_isDirty :: "edit_form \<Rightarrow> bool" where
  "edit_isDirty f \<longleftrightarrow> ef_values f \<noteq> ef_defaults f"

datatype edit_event =
    Ef_open
  | Ef_change "edit_values \<Rightarrow> edit_values"
  | Ef_cancel
  | Ef_save
  | Ef_saved "(js_error, js) result"

fun edit_step :: "js \<Rightarrow> edit_event \<Rightarrow> edit_form \<Rightarrow> edit_form \<times> request list" where
  "edit_step p Ef_open f = (f\<lparr>ef_open := True\<rparr>, [])"
| "edit_step p (Ef_change g) f = (if ef_open f then f\<lparr>ef_values := g (ef_values f)\<rparr> else f, [])"
| "edit_step p Ef_cancel f = (if \<not> ef_pending f then f\<lparr>ef_open := False\<rparr> else f, [])"
| "edit_step p Ef_save f =
     (if ef_open f \<and> \<not> ef_pending f \<and> edit_isDirty f
      then (f\<lparr>ef_pending := True, ef_error := False\<rparr>,
            [apiUpdateRegistration (case js_get ''id'' p of JNum (Fin r) \<Rightarrow> \<lfloor>r\<rfloor> | _ \<Rightarrow> 0) (js_str (js_get ''role'' p))
               (edit_payload (detail_isLeader p) (ef_values f))])
      else (f, []))"
| "edit_step p (Ef_saved r) f =
     (case r of Inr _ \<Rightarrow> f\<lparr>ef_pending := False, ef_open := False\<rparr> | Inl _ \<Rightarrow> f\<lparr>ef_pending := False, ef_error := True\<rparr>, [])"

section \<open>The participant in the backend\<close>

datatype be_gender = BMale | BFemale | BMixed

primrec gender_value :: "be_gender \<Rightarrow> string" where
  "gender_value BMale = ''MALE''"
| "gender_value BFemale = ''FEMALE''"
| "gender_value BMixed = ''MIXED''"

definition all_genders :: "be_gender list" where "all_genders = [BMale, BFemale, BMixed]"

definition LeaderRole :: "string list" where
  "LeaderRole = [''coach'', ''manager'', ''delegate'', ''team_lead'', ''coach_trainer'', ''teacher_assistant'']"

text \<open>
  A stored enrollment with its participation: the columns the form edits, and the others, which
  the projection passes on, by name. Dates are kept as the text of their day.
\<close>

record participant_row =
  pr_id :: int
  pr_kh_family_name :: string
  pr_kh_given_name :: string
  pr_en_family_name :: string
  pr_en_given_name :: string
  pr_phonenumber :: string
  pr_gender :: be_gender
  pr_date_of_birth :: string
  pr_leader_role :: "string option"
  pr_others :: "(string \<times> js) list"

text \<open>Python's title on ASCII texts: letters after a letter become small, others capital.\<close>

definition ascii_letter :: "char \<Rightarrow> bool" where
  "ascii_letter c \<longleftrightarrow> c \<in> set lower_chars \<or> c \<in> set upper_chars"

fun py_title :: "bool \<Rightarrow> string \<Rightarrow> string" where
  "py_title inside [] = []"
| "py_title inside (c # cs) = (if inside then to_lower [c] else to_upper [c]) @ py_title (ascii_letter c) cs"

definition other_column :: "participant_row \<Rightarrow> string \<Rightarrow> js" where
  "other_column r k = or_nullish (js_get k (JObj (pr_others r))) JNull"

definition row_ref :: "participant_row \<Rightarrow> string \<Rightarrow> string \<Rightarrow> js" where
  "row_ref r k n =
     (if truthy (other_column r k) then JObj [(''id'', other_column r k), (''name'', other_column r n)] else JNull)"

definition format_row :: "participant_row \<Rightarrow> string \<Rightarrow> js" where
  "format_row r role =
     JObj ([(''participant_id'', JInt (pr_id r)), (''id'', JInt (pr_id r)),
            (''created_at'', other_column r ''created_at''), (''photo_url'', other_column r ''photoUrl''),
            (''sport_name'', other_column r ''sport_name''), (''event_name'', other_column r ''event_name''),
            (''kh_family_name'', JStr (pr_kh_family_name r)), (''kh_given_name'', JStr (pr_kh_given_name r)),
            (''en_family_name'', JStr (pr_en_family_name r)), (''en_given_name'', JStr (pr_en_given_name r)),
            (''name_kh'', JStr (pr_kh_family_name r @ '' '' @ pr_kh_given_name r)),
            (''name_en'', JStr (pr_en_family_name r @ '' '' @ pr_en_given_name r)),
            (''gender'', JStr (py_title False (gender_value (pr_gender r)))),
            (''phone'', JStr (pr_phonenumber r)), (''date_of_birth'', JStr (pr_date_of_birth r))] @
           map (\<lambda>k. (k, other_column r k))
             [''photoUrl'', ''nationalityDocumentUrl'', ''birthCertificateUrl'', ''nationalIdUrl'', ''passportUrl''] @
           [(''role'', JStr role), (''sport'', row_ref r ''sport_id'' ''sport_name''),
            (''organization'', row_ref r ''org_id'' ''org_name''), (''event_id'', other_column r ''event_id'')] @
           (if role = ''athlete'' then [(''category'', row_ref r ''category_id'' ''category_name'')]
            else [(''leader_role'', case pr_leader_role r of Some t \<Rightarrow> JStr t | None \<Rightarrow> JNull)]))"

text \<open>
  The update request: the gender is put in capitals when that gives a value of the enumeration,
  and must be one; the day must be a date, whose syntax is a parameter.
\<close>

record update_request =
  uq_text :: "string \<Rightarrow> string option"
  uq_gender :: "be_gender option"
  uq_date_of_birth :: "string option"
  uq_leader_role :: "string option"

definition update_text :: "js \<Rightarrow> string \<Rightarrow> string option option" where
  "update_text d k =
     (case js_get k d of JUndef \<Rightarrow> Some None | JNull \<Rightarrow> Some None | JStr t \<Rightarrow> Some (Some t) | _ \<Rightarrow> None)"

definition fit_to_gender_enum :: "string \<Rightarrow> string" where
  "fit_to_gender_enum v = (if to_upper v \<in> gender_value ` set all_genders then to_upper v else v)"

definition gender_of :: "string \<Rightarrow> be_gender option" where
  "gender_of v = find (\<lambda>g. gender_value g = v) all_genders"

definition UPDATE_TEXTS :: "string list" where
  "UPDATE_TEXTS = [''kh_family_name'', ''kh_given_name'', ''en_family_name'', ''en_given_name'', ''phone'']"

definition read_update :: "(string \<Rightarrow> bool) \<Rightarrow> js \<Rightarrow> update_request option" where
  "read_update is_date d =
     (case (update_text d ''gender'', update_text d ''date_of_birth'', update_text d ''leader_role'') of
        (Some g, Some dob, Some lr) \<Rightarrow>
          (if (\<forall>k \<in> set UPDATE_TEXTS. update_text d k \<noteq> None) \<and>
              (\<forall>v \<in> set_option g. gender_of (fit_to_gender_enum v) \<noteq> None) \<and>
              (\<forall>v \<in> set_option dob. is_date v) \<and> (\<forall>v \<in> set_option lr. v \<in> set LeaderRole)
           then Some \<lparr> uq_text = (\<lambda>k. or_else (update_text d k) None),
                       uq_gender = Option.bind g (\<lambda>v. gender_of (fit_to_gender_enum v)),
                       uq_date_of_birth = dob, uq_leader_role = lr \<rparr>
           else None)
      | _ \<Rightarrow> None)"

definition update_row :: "string \<Rightarrow> update_request \<Rightarrow> participant_row \<Rightarrow> participant_row" where
  "update_row role q r =
     r\<lparr>pr_kh_family_name := or_else (uq_text q ''kh_family_name'') (pr_kh_family_name r),
       pr_kh_given_name := or_else (uq_text q ''kh_given_name'') (pr_kh_given_name r),
       pr_en_family_name := or_else (uq_text q ''en_family_name'') (pr_en_family_name r),
       pr_en_given_name := or_else (uq_text q ''en_given_name'') (pr_en_given_name r),
       pr_phonenumber := or_else (uq_text q ''phone'') (pr_phonenumber r),
       pr_gender := or_else (uq_gender q) (pr_gender r),
       pr_date_of_birth := or_else (uq_date_of_birth q) (pr_date_of_birth r),
       pr_leader_role := (if role = ''athlete'' then pr_leader_role r
                          else case uq_leader_role q of Some t \<Rightarrow> Some t | None \<Rightarrow> pr_leader_role r)\<rparr>"

text \<open>A request the validation refuses answers 422, a failing commit 500; otherwise the row is read again.\<close>

definition update_participant ::
  "(string \<Rightarrow> bool) \<Rightarrow> (participant_row \<Rightarrow> bool) \<Rightarrow> string \<Rightarrow> js \<Rightarrow> participant_row \<Rightarrow> (nat, participant_row \<times> js) result" where
  "update_participant is_date commits role d r =
     (case read_update is_date d of
        None \<Rightarrow> Inl 422
      | Some q \<Rightarrow>
          if commits (update_row role q r)
          then Inr (update_row role q r, JObj [(''status'', JStr ''success''), (''data'', format_row (update_row role q r) role)])
          else Inl 500)"

section \<open>Lemmas\<close>

lemma gender_title [simp]: "to_upper (py_title False (gender_value g)) = gender_value g"
  by (induct g; code_simp)

lemma title_not_capital [simp]:
  "py_title False (gender_value g) \<noteq> ''MALE''" "py_title False (gender_value g) \<noteq> ''FEMALE''"
  by (induct g; code_simp)+

lemma title_nonempty: "py_title False (gender_value g) \<noteq> []"
proof
  assume "py_title False (gender_value g) = []"
  then have "gender_value g = to_upper []" by (metis gender_title)
  then show False by (cases g) (simp_all add: to_upper_def)
qed

lemma fit_value [simp]: "fit_to_gender_enum (gender_value g) = gender_value g"
  by (induct g; code_simp)

lemma gender_of_value [simp]: "gender_of (gender_value g) = Some g"
  by (cases g) (simp_all add: gender_of_def all_genders_def)

lemma other_gender_refused: "gender_of (fit_to_gender_enum ''OTHER'') = None" "gender_of (fit_to_gender_enum []) = None"
  by code_simp+

text \<open>The texts the edit form shows for a stored row.\<close>

definition stored_values :: "string \<Rightarrow> participant_row \<Rightarrow> edit_values" where
  "stored_values role r =
     \<lparr> ev_kh_family_name = pr_kh_family_name r, ev_kh_given_name = pr_kh_given_name r,
       ev_en_family_name = pr_en_family_name r, ev_en_given_name = pr_en_given_name r,
       ev_phone = pr_phonenumber r, ev_gender = gender_value (pr_gender r), ev_date_of_birth = pr_date_of_birth r,
       ev_leader_role = (if role = ''athlete'' then [] else or_else (pr_leader_role r) []) \<rparr>"

lemma format_row_get:
  "js_get ''kh_family_name'' (format_row r role) = JStr (pr_kh_family_name r)"
  "js_get ''kh_given_name'' (format_row r role) = JStr (pr_kh_given_name r)"
  "js_get ''en_family_name'' (format_row r role) = JStr (pr_en_family_name r)"
  "js_get ''en_given_name'' (format_row r role) = JStr (pr_en_given_name r)"
  "js_get ''phone'' (format_row r role) = JStr (pr_phonenumber r)"
  "js_get ''gender'' (format_row r role) = JStr (py_title False (gender_value (pr_gender r)))"
  "js_get ''date_of_birth'' (format_row r role) = JStr (pr_date_of_birth r)"
  "js_get ''role'' (format_row r role) = JStr role"
  "js_get ''leader_role'' (format_row r role) =
     (if role = ''athlete'' then JUndef else case pr_leader_role r of Some t \<Rightarrow> JStr t | None \<Rightarrow> JNull)"
  by (simp_all add: format_row_def or_else_def)

text \<open>A validated record keeps the text fields of the answer.\<close>

definition DETAIL_TEXTS :: "string list" where
  "DETAIL_TEXTS = [''role'', ''kh_family_name'', ''kh_given_name'', ''en_family_name'', ''en_given_name'', ''gender'',
     ''phone'', ''date_of_birth'', ''leader_role'']"

lemma detail_schema_texts:
  "\<exists>fs. participantDetailSchema = ZObject False fs \<and> distinct (map fst fs) \<and>
     (\<forall>k \<in> set DETAIL_TEXTS. map_of fs k = Some zstr \<or> map_of fs k = Some (znullable_optional zstr))"
  by (simp add: participantDetailSchema_def DETAIL_TEXTS_def)

context zod_parser
begin

lemma text_kept:
  assumes "parse s v = Inr w" "s = zstr \<or> s = znullable_optional zstr"
  shows "w = v"
  using assms by (auto simp: accepts split: if_splits)

lemma detail_text:
  assumes "parse participantDetailSchema d = Inr p" "k \<in> set DETAIL_TEXTS"
  shows "js_get k p = js_get k d"
proof -
  obtain fs where fs: "participantDetailSchema = ZObject False fs" "distinct (map fst fs)"
      "map_of fs k = Some zstr \<or> map_of fs k = Some (znullable_optional zstr)"
    using detail_schema_texts assms(2) by blast
  then show ?thesis using object_get[OF assms(1)[unfolded fs(1)] fs(2), of k] text_kept by blast
qed

end

lemma detail_of_row:
  assumes "zod_parser parse" "repo_getById parse srv i role = Inr p"
    and "srv (apiGetRegistration i role) = Inr (JObj [(''status'', JStr ''success''), (''data'', format_row r role)])"
    and "k \<in> set DETAIL_TEXTS"
  shows "js_get k p = js_get k (format_row r role)"
proof -
  obtain w where w: "parse participantDetailResponseSchema (JObj [(''status'', JStr ''success''), (''data'', format_row r role)]) = Inr w"
      "p = js_get ''data'' w"
    using assms(2,3) unfolding repo_getById_def by (auto simp: parsed_call_def split: sum.splits)
  have "parse participantDetailSchema (format_row r role) = Inr p"
    using zod_parser.object_get[OF assms(1) w(1)[unfolded participantDetailResponseSchema_def], of "''data''"] w(2) by simp
  then show ?thesis by (rule zod_parser.detail_text[OF assms(1) _ assms(4)])
qed

lemma edit_shows_stored:
  assumes "\<And>k. k \<in> set DETAIL_TEXTS \<Longrightarrow> js_get k p = js_get k (format_row r role)"
  shows "edit_defaults p = stored_values role r"
proof -
  have "ev_leader_role (edit_defaults p) = (if role = ''athlete'' then [] else or_else (pr_leader_role r) [])"
    using assms[of "''leader_role''"] format_row_get(9)[of r role]
    by (auto simp: edit_defaults_def text_or_empty_def DETAIL_TEXTS_def split: option.split)
  then show ?thesis
    using assms format_row_get[of r role]
    by (simp add: edit_defaults_def stored_values_def text_or_empty_def DETAIL_TEXTS_def)
qed

text \<open>What the values of the form make of a stored row.\<close>

definition edited_row :: "string \<Rightarrow> edit_values \<Rightarrow> be_gender \<Rightarrow> participant_row \<Rightarrow> participant_row" where
  "edited_row role v g r =
     r\<lparr>pr_kh_family_name := ev_kh_family_name v, pr_kh_given_name := ev_kh_given_name v,
       pr_en_family_name := ev_en_family_name v, pr_en_given_name := ev_en_given_name v,
       pr_phonenumber := ev_phone v, pr_gender := g, pr_date_of_birth := ev_date_of_birth v,
       pr_leader_role := (if role = ''leader'' \<and> ev_leader_role v \<noteq> [] then Some (ev_leader_role v) else pr_leader_role r)\<rparr>"

lemma payload_texts:
  "update_text (edit_payload l v) ''kh_family_name'' = Some (Some (ev_kh_family_name v))"
  "update_text (edit_payload l v) ''kh_given_name'' = Some (Some (ev_kh_given_name v))"
  "update_text (edit_payload l v) ''en_family_name'' = Some (Some (ev_en_family_name v))"
  "update_text (edit_payload l v) ''en_given_name'' = Some (Some (ev_en_given_name v))"
  "update_text (edit_payload l v) ''phone'' = Some (Some (ev_phone v))"
  "update_text (edit_payload l v) ''gender'' = Some (Some (ev_gender v))"
  "update_text (edit_payload l v) ''date_of_birth'' = Some (Some (ev_date_of_birth v))"
  "update_text (edit_payload l v) ''leader_role'' = Some (if l \<and> ev_leader_role v \<noteq> [] then Some (ev_leader_role v) else None)"
  by (simp_all add: update_text_def edit_payload_def or_else_def)

lemma read_payload:
  assumes "ev_gender v = gender_value g" "is_date (ev_date_of_birth v)"
    and "l \<longrightarrow> ev_leader_role v \<noteq> [] \<longrightarrow> ev_leader_role v \<in> set LeaderRole"
  shows "\<exists>q. read_update is_date (edit_payload l v) = Some q \<and>
     uq_text q = (\<lambda>k. or_else (update_text (edit_payload l v) k) None) \<and> uq_gender q = Some g \<and>
     uq_date_of_birth q = Some (ev_date_of_birth v) \<and>
     uq_leader_role q = (if l \<and> ev_leader_role v \<noteq> [] then Some (ev_leader_role v) else None)"
  using assms by (simp add: read_update_def payload_texts UPDATE_TEXTS_def)

lemma refuse_payload:
  "gender_of (fit_to_gender_enum (ev_gender v)) = None \<Longrightarrow> read_update is_date (edit_payload l v) = None"
  by (auto simp: read_update_def payload_texts)

lemma update_from_form:
  assumes "ev_gender v = gender_value g" "is_date (ev_date_of_birth v)" "role \<in> {''athlete'', ''leader''}"
    and "role = ''leader'' \<longrightarrow> ev_leader_role v \<noteq> [] \<longrightarrow> ev_leader_role v \<in> set LeaderRole"
    and "commits (edited_row role v g r)"
  shows "\<exists>body. update_participant is_date commits role (edit_payload (role = ''leader'') v) r = Inr (edited_row role v g r, body)"
proof -
  obtain q where q: "read_update is_date (edit_payload (role = ''leader'') v) = Some q"
      "uq_text q = (\<lambda>k. or_else (update_text (edit_payload (role = ''leader'') v) k) None)" "uq_gender q = Some g"
      "uq_date_of_birth q = Some (ev_date_of_birth v)"
      "uq_leader_role q = (if role = ''leader'' \<and> ev_leader_role v \<noteq> [] then Some (ev_leader_role v) else None)"
    using read_payload[where l = "role = ''leader''" and is_date = is_date, OF assms(1,2,4)] by blast
  have "update_row role q r = edited_row role v g r"
    using assms(3) q by (auto simp: update_row_def edited_row_def payload_texts)
  then show ?thesis using q(1) assms(5) by (simp add: update_participant_def)
qed

lemma edited_row_stored:
  "stored_values role (edited_row role v g r) =
     (if role = ''leader'' \<and> ev_leader_role v \<noteq> [] then v\<lparr>ev_gender := gender_value g\<rparr>
      else v\<lparr>ev_gender := gender_value g, ev_leader_role := ev_leader_role (stored_values role r)\<rparr>)"
  by (auto simp: stored_values_def edited_row_def)

text \<open>C31. Editing a participant from the stored row to the stored row. The form opens with exactly the stored values, the
  gender in capitals as its options have it. Saving any values the backend can read stores exactly them and the form then
  opens with them again, but a leader role that was emptied stays as it was; the gender that the form offers beside the
  two is refused. The page shows the stored gender in title case, the stored date and phone number, and under the role
  only athlete or leader: the text with an athlete's gender never appears there, since the answer spells it differently.\<close>

theorem participant_edit_roundtrip:
  assumes "zod_parser parse" "role \<in> {''athlete'', ''leader''}" "repo_getById parse srv i role = Inr p"
    and "srv (apiGetRegistration i role) = Inr (JObj [(''status'', JStr ''success''), (''data'', format_row r role)])"
    and "ev_gender v = gender_value g" "is_date (ev_date_of_birth v)"
    and "ev_leader_role v = [] \<or> ev_leader_role v \<in> set LEADER_ROLE_OPTIONS" "commits (edited_row role v g r)"
  shows "edit_defaults p = stored_values role r \<and>
    (\<exists>r' body. update_participant is_date commits role (edit_payload (detail_isLeader p) v) r = Inr (r', body) \<and>
       stored_values role r' =
         v\<lparr>ev_leader_role := if role = ''leader'' \<and> ev_leader_role v \<noteq> [] then ev_leader_role v
                            else ev_leader_role (stored_values role r)\<rparr>) \<and>
    update_participant is_date commits role (edit_payload (detail_isLeader p) (v\<lparr>ev_gender := ''OTHER''\<rparr>)) r = Inl 422 \<and>
    detail_personal shown p =
      [(''fields.gender'', JStr (py_title False (gender_value (pr_gender r)))),
       (''fields.dateOfBirth'', if pr_date_of_birth r = [] then em_dash else JStr (pr_date_of_birth r)),
       (''fields.phone'', JStr (shown_phone shown (pr_phonenumber r))),
       (''fields.role'', JStr (if role = ''leader'' then ''leader'' else ''athlete''))]"
proof -
  have d: "k \<in> set DETAIL_TEXTS \<Longrightarrow> js_get k p = js_get k (format_row r role)" for k
    using detail_of_row[OF assms(1,3,4)] by blast
  have role: "js_get ''role'' p = JStr role" and
    gender: "js_get ''gender'' p = JStr (py_title False (gender_value (pr_gender r)))" and
    others: "js_get ''date_of_birth'' p = JStr (pr_date_of_birth r)" "js_get ''phone'' p = JStr (pr_phonenumber r)"
    using d[of "''role''"] d[of "''gender''"] d[of "''date_of_birth''"] d[of "''phone''"] by (simp_all add: DETAIL_TEXTS_def format_row_get)
  then have l: "detail_isLeader p \<longleftrightarrow> role = ''leader''" by (simp add: detail_isLeader_def)
  have "ev_leader_role v \<noteq> [] \<Longrightarrow> ev_leader_role v \<in> set LeaderRole"
    using assms(7) by (auto simp: LeaderRole_def LEADER_ROLE_OPTIONS_def)
  then obtain body where "update_participant is_date commits role (edit_payload (role = ''leader'') v) r = Inr (edited_row role v g r, body)"
    using update_from_form[where is_date = is_date and commits = commits, OF assms(5,6,2) _ assms(8)] by blast
  moreover have "stored_values role (edited_row role v g r) =
      v\<lparr>ev_leader_role := if role = ''leader'' \<and> ev_leader_role v \<noteq> [] then ev_leader_role v
                         else ev_leader_role (stored_values role r)\<rparr>"
    unfolding edited_row_stored using assms(5) by simp
  moreover have "update_participant is_date commits role (edit_payload (role = ''leader'') (v\<lparr>ev_gender := ''OTHER''\<rparr>)) r = Inl 422"
    using refuse_payload[of "v\<lparr>ev_gender := ''OTHER''\<rparr>"] other_gender_refused(1) by (simp add: update_participant_def)
  moreover have "detail_personal shown p =
      [(''fields.gender'', JStr (py_title False (gender_value (pr_gender r)))),
       (''fields.dateOfBirth'', if pr_date_of_birth r = [] then em_dash else JStr (pr_date_of_birth r)),
       (''fields.phone'', JStr (shown_phone shown (pr_phonenumber r))),
       (''fields.role'', JStr (if role = ''leader'' then ''leader'' else ''athlete''))]"
    using l gender others title_nonempty[of "pr_gender r"]
    by (simp add: detail_personal_def detail_phone_def roleDisplay_def js_or_def)
  ultimately show ?thesis unfolding l using edit_shows_stored[OF d] by blast
qed

definition sample_row :: participant_row where
  "sample_row =
     \<lparr> pr_id = 7, pr_kh_family_name = ''Sok'', pr_kh_given_name = ''Dara'', pr_en_family_name = ''Sok'',
       pr_en_given_name = ''Dara'', pr_phonenumber = ''012345678'', pr_gender = BMale,
       pr_date_of_birth = ''2001-02-03'', pr_leader_role = Some ''coach'', pr_others = [] \<rparr>"

definition sample_row_server :: backend where
  "sample_row_server rq = Inr (JObj [(''status'', JStr ''success''), (''data'', format_row sample_row ''leader'')])"

lemma sample_row_read: "\<exists>p. repo_getById zparse sample_row_server 7 ''leader'' = Inr p"
proof -
  have "\<not> Option.is_none (case repo_getById zparse sample_row_server 7 ''leader'' of Inr d \<Rightarrow> Some d | Inl e \<Rightarrow> None)"
    by code_simp
  then show ?thesis by (cases "repo_getById zparse sample_row_server 7 ''leader''") auto
qed

lemma participant_edit_roundtrip_witness:
  "\<exists>p. repo_getById zparse sample_row_server 7 ''leader'' = Inr p \<and>
     edit_defaults p = stored_values ''leader'' sample_row \<and>
     map snd (detail_personal False p) = [JStr ''Male'', JStr ''2001-02-03'', JStr (shown_phone False ''012345678''), JStr ''leader''] \<and>
     (\<exists>r' body. update_participant (\<lambda>_. True) (\<lambda>_. True) ''leader''
        (edit_payload (detail_isLeader p) (stored_values ''leader'' sample_row\<lparr>ev_gender := ''FEMALE'', ev_leader_role := ''manager''\<rparr>))
        sample_row = Inr (r', body) \<and>
        ev_leader_role (stored_values ''leader'' r') = ''manager'' \<and> ev_gender (stored_values ''leader'' r') = ''FEMALE'')"
proof -
  obtain p where p: "repo_getById zparse sample_row_server 7 ''leader'' = Inr p" using sample_row_read by blast
  let ?v = "stored_values ''leader'' sample_row\<lparr>ev_gender := ''FEMALE'', ev_leader_role := ''manager''\<rparr>"
  note t = participant_edit_roundtrip[OF zp.zod_parser_axioms _ p, of sample_row ?v BFemale "\<lambda>_. True" "\<lambda>_. True", where shown = False]
  then obtain r' body where "update_participant (\<lambda>_. True) (\<lambda>_. True) ''leader'' (edit_payload (detail_isLeader p) ?v) sample_row = Inr (r', body)"
      "stored_values ''leader'' r' = ?v"
    by (auto simp: sample_row_server_def LEADER_ROLE_OPTIONS_def)
  moreover have title: "py_title False (gender_value (pr_gender sample_row)) = ''Male''" "pr_date_of_birth sample_row = ''2001-02-03''"
    "pr_phonenumber sample_row = ''012345678''" by code_simp+
  moreover have "edit_defaults p = stored_values ''leader'' sample_row"
    "map snd (detail_personal False p) = [JStr ''Male'', JStr ''2001-02-03'', JStr (shown_phone False ''012345678''), JStr ''leader'']"
    using t title by (simp_all add: sample_row_server_def LEADER_ROLE_OPTIONS_def)
  ultimately show ?thesis using p by fastforce
qed

section \<open>What else the pages do\<close>

text \<open>The request of a list without administrator's rights names the user's organization; filters start over at the first row.\<close>

lemma list_scoped:
  "\<not> can_cap role CROSS_ORG_ADMIN \<Longrightarrow> truthy (js_get ''org_id'' user) \<Longrightarrow>
     js_get ''organization_id'' (ht_body (pl_request role user s)) = js_get ''org_id'' user"
  by (simp add: pl_request_def search_body pl_query_def pl_organization_def js_or_def or_else_def)

lemma filters_restart:
  "ev \<in> {Pl_search t, Pl_gender g, Pl_category c, Pl_clear} \<Longrightarrow> fst (pl_step resp ev s) = s \<or> pl_page (fst (pl_step resp ev s)) = 0"
  by (auto simp: clearFilters_def)

text \<open>The page number is not lowered when rows go: the only row of the second page deleted, the list is empty without a bar to leave it.\<close>

lemma list_stuck_past_end:
  assumes "js_get ''count'' resp = JInt 10" "pl_page s = 1"
  shows "pl_bar resp s = None \<and> pl_page (fst (pl_step resp Pl_prev s)) = 1 \<and>
    js_get ''offset'' (ht_body (pl_request role user s)) = JInt 10"
proof -
  have "pl_totalPages resp = 1" using assms(1) by (simp add: pl_totalPages_def pl_totalCount_def PARTICIPANTS_PAGE_SIZE_def)
  then have "pl_bar resp s = None" by (simp add: pl_bar_def Pagination_def)
  then show ?thesis using assms(2)
    by (simp add: pl_go_def pl_request_def search_body pl_query_def PARTICIPANTS_PAGE_SIZE_def or_else_def)
qed

text \<open>While its number is in range, the bar only offers pages that are.\<close>

lemma list_bar_in_range:
  assumes "pl_page s < pl_totalPages resp"
  shows "pl_page (fst (pl_step resp Pl_next s)) < pl_totalPages resp" "pl_page (fst (pl_step resp Pl_prev s)) < pl_totalPages resp"
  using assms page_bar_stays_in_range[of "pl_page s + 1" "pl_totalPages resp" "pl_totalCount resp" PARTICIPANTS_PAGE_SIZE]
  by (fastforce simp: pl_bar_def pl_go_def split: option.split bind_splits)+

text \<open>The filters offer a gender no stored row has; the labels are the backend's own spelling of the others.\<close>

lemma other_gender_never_stored: "''OTHER'' \<in> set LIST_GENDERS" "gender_value g \<noteq> ''OTHER''"
  by (simp_all add: LIST_GENDERS_def, induct g, simp_all)

text \<open>A cancelled edit stays in the form and can be saved when it is opened again; so can one that was saved already.\<close>

lemma cancelled_edit_stays:
  "\<not> ef_pending f \<Longrightarrow> ef_values (fst (edit_step p Ef_open (fst (edit_step p Ef_cancel f)))) = ef_values f"
  by simp

lemma saved_edit_still_dirty:
  "edit_isDirty f \<Longrightarrow> edit_isDirty (fst (edit_step p (Ef_saved (Inr b)) f))"
  by (simp add: edit_isDirty_def)

lemma one_update_at_a_time: "ef_pending f \<Longrightarrow> edit_step p Ef_save f = (f, [])"
  by simp

text \<open>An emptied leader role is not part of the request.\<close>

lemma empty_role_not_sent: "ev_leader_role v = [] \<Longrightarrow> \<not> has_key ''leader_role'' (edit_payload l v)"
  by (simp add: edit_payload_def has_key_def)

end
