(* ===== verification/Dashboard.thy ===== *)
theory Dashboard
  imports Participants Reports "HOL-Library.Multiset"
begin

text \<open>
  The dashboard, modules/dashboard and the pending-review count of modules/common: schemas,
  adapters, hooks, the page with its statistics, chart and tables, and the row of statistics of
  shared/ui; with the backend's dashboard route and the queries that scope it
  (src/backend/src/api/v1/routes/dashboard.py and services/dashboard_service.py), over tables
  as lists. The short-lived cache in front of the queries is left out.
\<close>

section \<open>Schemas and adapters\<close>

definition dashboardStatsSchema :: schema where
  "dashboardStatsSchema = ZObject False
     [(''events'', znum), (''sports'', znum), (''participants'', znum), (''registrations'', znum),
      (''organizations'', znum), (''athletes'', znum), (''leaders'', znum)]"

definition genderDistributionSchema :: schema where
  "genderDistributionSchema = ZObject False [(''male'', znum), (''female'', znum), (''other'', znum)]"

definition topOrganizationSchema :: schema where
  "topOrganizationSchema = ZObject False [(''name'', zstr), (''participants'', znum), (''type'', zstr)]"

definition recentEnrollmentSchema :: schema where
  "recentEnrollmentSchema = ZObject False
     [(''id'', znum), (''khName'', zstr), (''enName'', zstr), (''gender'', zstr), (''phone'', zstr), (''createdAt'', zstr)]"

definition dashboardDataSchema :: schema where
  "dashboardDataSchema = ZObject False
     [(''stats'', dashboardStatsSchema), (''genderDistribution'', genderDistributionSchema),
      (''topOrganizations'', ZArray topOrganizationSchema), (''recentEnrollments'', ZArray recentEnrollmentSchema)]"

definition dashboardResponseSchema :: schema where
  "dashboardResponseSchema = ZObject False [(''success'', ZBoolean), (''data'', dashboardDataSchema)]"

definition registrationWindowStatusSchema :: schema where
  "registrationWindowStatusSchema = ZEnum [''open'', ''closed'', ''scheduled'', ''unknown'']"

definition registrationWindowSchema :: schema where
  "registrationWindowSchema = ZObject False
     [(''status'', registrationWindowStatusSchema), (''opensOn'', znullable_optional zstr), (''closesOn'', znullable_optional zstr)]"

definition registrationWindowResponseSchema :: schema where
  "registrationWindowResponseSchema = ZObject False [(''success'', ZBoolean), (''data'', registrationWindowSchema)]"

definition reviewPendingCountSchema :: schema where
  "reviewPendingCountSchema = ZObject False [(''pending'', znum), (''byNumber'', znum), (''byCategory'', znum)]"

definition reviewPendingCountResponseSchema :: schema where
  "reviewPendingCountResponseSchema = ZObject False [(''success'', ZBoolean), (''data'', reviewPendingCountSchema)]"

definition ep_dashboard :: string where "ep_dashboard = ''/api/v1/dashboard''"
definition ep_dashboard_reviewPendingCount :: string where
  "ep_dashboard_reviewPendingCount = ''/api/v1/dashboard/review-pending-count''"
definition ep_dashboard_registrationWindow :: string where
  "ep_dashboard_registrationWindow = ''/api/v1/dashboard/registration-window''"

definition apiGetDashboardData :: "(string \<times> js) list \<Rightarrow> request" where
  "apiGetDashboardData params = get_req ep_dashboard params"

definition apiGetRegistrationWindow :: request where
  "apiGetRegistrationWindow = get_req ep_dashboard_registrationWindow []"

definition apiGetReviewPendingCount :: request where
  "apiGetReviewPendingCount = get_req ep_dashboard_reviewPendingCount []"

text \<open>The enveloped answer when it is valid and says success.\<close>

definition enveloped :: "parser \<Rightarrow> schema \<Rightarrow> js \<Rightarrow> js option" where
  "enveloped parse sch raw =
     (case parse sch raw of
        Inr w \<Rightarrow> if js_get ''success'' w = JBool True then Some (js_get ''data'' w) else None
      | Inl _ \<Rightarrow> None)"

definition bare_or_throw :: "parser \<Rightarrow> schema \<Rightarrow> js \<Rightarrow> (js_error, js) result" where
  "bare_or_throw parse sch raw = (case parse sch raw of Inr w \<Rightarrow> Inr w | Inl _ \<Rightarrow> Inl (OtherError ''ZodError''))"

definition getDashboardData :: "parser \<Rightarrow> backend \<Rightarrow> (string \<times> js) list \<Rightarrow> (js_error, js) result" where
  "getDashboardData parse srv params =
     bind_r (srv (apiGetDashboardData params)) (\<lambda>raw.
       case enveloped parse dashboardResponseSchema raw of
         Some d \<Rightarrow> Inr d
       | None \<Rightarrow> bare_or_throw parse dashboardDataSchema raw)"

definition NEUTRAL :: js where "NEUTRAL = JObj [(''status'', JStr ''unknown'')]"

definition getRegistrationWindow :: "parser \<Rightarrow> backend \<Rightarrow> (js_error, js) result" where
  "getRegistrationWindow parse srv =
     bind_r (srv apiGetRegistrationWindow) (\<lambda>raw.
       case enveloped parse registrationWindowResponseSchema raw of
         Some d \<Rightarrow> Inr d
       | None \<Rightarrow> (case parse registrationWindowSchema raw of Inr b \<Rightarrow> Inr b | Inl _ \<Rightarrow> Inr NEUTRAL))"

definition getPendingCount :: "parser \<Rightarrow> backend \<Rightarrow> (js_error, js) result" where
  "getPendingCount parse srv =
     bind_r (srv apiGetReviewPendingCount) (\<lambda>raw.
       case enveloped parse reviewPendingCountResponseSchema raw of
         Some d \<Rightarrow> Inr d
       | None \<Rightarrow> bare_or_throw parse reviewPendingCountSchema raw)"

section \<open>Hooks\<close>

definition dashboard_orgId :: "js \<Rightarrow> js" where
  "dashboard_orgId user = or_nullish (js_get ''organization_id'' user) (js_get ''org_id'' user)"

definition dashboard_params :: "user_role option \<Rightarrow> js \<Rightarrow> (string \<times> js) list" where
  "dashboard_params role user =
     (if role = Some ORGANIZATION \<and> truthy (dashboard_orgId user) then [(''orgId'', dashboard_orgId user)] else [])"

definition useDashboard :: "parser \<Rightarrow> backend \<Rightarrow> user_role option \<Rightarrow> js \<Rightarrow> (js_error, js) result option" where
  "useDashboard parse srv role user =
     (if truthy user then Some (getDashboardData parse srv (dashboard_params role user)) else None)"

text \<open>The data of a hook whose query has not answered, or failed, is undefined.\<close>

definition useRegistrationWindow :: "js \<Rightarrow> js" where
  "useRegistrationWindow query_data = or_nullish query_data NEUTRAL"

definition review_pending_enabled :: "user_role option \<Rightarrow> bool" where
  "review_pending_enabled role \<longleftrightarrow> role = Some ADMIN \<or> role = Some SUPER_ADMIN"

definition useReviewPendingCount :: "user_role option \<Rightarrow> parser \<Rightarrow> backend \<Rightarrow> js" where
  "useReviewPendingCount role parse srv =
     (if review_pending_enabled role
      then (case getPendingCount parse srv of Inr d \<Rightarrow> or_nullish (js_get ''pending'' d) (JInt 0) | Inl _ \<Rightarrow> JInt 0)
      else JInt 0)"

section \<open>The page\<close>

datatype dashboard_view = Dv_nothing | Dv_loading | Dv_error | Dv_data js

definition DashboardPage :: "js \<Rightarrow> bool \<Rightarrow> bool \<Rightarrow> js \<Rightarrow> dashboard_view" where
  "DashboardPage user isLoading failed data =
     (if \<not> truthy user then Dv_nothing
      else if isLoading then Dv_loading
      else if failed then Dv_error
      else if truthy data then Dv_data data else Dv_nothing)"

definition quickAction :: "user_role option \<Rightarrow> string option" where
  "quickAction role =
     (if role = Some ADMIN \<or> role = Some SUPER_ADMIN then Some ''/events''
      else if role = Some ORGANIZATION then Some ''/by-sport''
      else if role = Some FEDERATION then Some ''/by-category''
      else None)"

definition welcome_name :: "js \<Rightarrow> js" where
  "welcome_name user = js_or (js_or (js_get ''kh_given_name'' user) (js_get ''khmer_name'' user)) (js_get ''username'' user)"

definition stats_items :: "user_role option \<Rightarrow> js \<Rightarrow> (string \<times> js) list" where
  "stats_items role stats =
     (let athletes = or_nullish (js_get ''athletes'' stats) (js_get ''participants'' stats);
          registrations = or_nullish (js_get ''registrations'' stats) (JInt 0) in
      if role = Some ORGANIZATION then
        [(''myEvents'', js_get ''events'' stats), (''mySubmissions'', registrations), (''myAthletes'', athletes),
         (''myLeaders'', or_nullish (js_get ''leaders'' stats) (JInt 0))]
      else if role = Some FEDERATION then
        [(''assignedEvents'', js_get ''events'' stats), (''categorySurveys'', registrations), (''myAthletes'', athletes)]
      else
        [(''totalEvents'', js_get ''events'' stats), (''totalOrganizations'', js_get ''organizations'' stats),
         (''pendingSubmissions'', registrations), (''totalAthletesRegistered'', athletes)])"

definition stats_columns :: "user_role option \<Rightarrow> nat" where
  "stats_columns role = (if role = Some FEDERATION then 3 else 4)"

text \<open>The row of statistics: its colours go round by position, its placeholders while it loads.\<close>

definition DEFAULT_COLORS :: "string list" where "DEFAULT_COLORS = [''primary'', ''emerald'', ''amber'', ''blue'']"

definition stat_color :: "string option \<Rightarrow> nat \<Rightarrow> string" where
  "stat_color color index = or_else color (DEFAULT_COLORS ! (index mod length DEFAULT_COLORS))"

definition skeleton_count :: "nat option \<Rightarrow> 'a list \<Rightarrow> nat \<Rightarrow> nat" where
  "skeleton_count loadingCount its columns =
     (case loadingCount of Some n \<Rightarrow> n | None \<Rightarrow> if length its \<noteq> 0 then length its else columns)"

text \<open>The cards above the charts.\<close>

definition insight_cards :: "bool \<Rightarrow> js \<Rightarrow> js \<Rightarrow> (string \<times> js) list" where
  "insight_cards isAdmin pendingCount registrationWindow =
     (if isAdmin then [(''pendingReview'', pendingCount)] else []) @
     [(''registrationWindow'', JStr (''registrationStatus.'' @ js_string (js_get ''status'' registrationWindow)))]"

section \<open>The chart\<close>

record gender_data =
  gd_male :: rat
  gd_female :: rat
  gd_other :: rat

definition gd_total :: "gender_data \<Rightarrow> rat" where
  "gd_total d = gd_male d + gd_female d + gd_other d"

text \<open>The segments with their share in percent; nothing without members.\<close>

definition chart_segments :: "gender_data \<Rightarrow> (string \<times> rat) list option" where
  "chart_segments d =
     (if gd_total d = 0 then None
      else Some [(''male'', gd_male d / gd_total d * 100), (''female'', gd_female d / gd_total d * 100),
                 (''other'', gd_other d / gd_total d * 100)])"

text \<open>The arcs as start and length on a circle, drawn from the last to the first.\<close>

definition chart_arcs :: "rat \<Rightarrow> gender_data \<Rightarrow> (string \<times> rat \<times> rat) list" where
  "chart_arcs circumference d =
     (let malePerc = gd_male d / gd_total d * 100; femalePerc = gd_female d / gd_total d * 100;
          otherPerc = gd_other d / gd_total d * 100 in
      [(''other'', (malePerc + femalePerc) / 100 * circumference, otherPerc / 100 * circumference),
       (''female'', malePerc / 100 * circumference, femalePerc / 100 * circumference),
       (''male'', 0, malePerc / 100 * circumference)])"

section \<open>The tables\<close>

definition max_participants :: "rat list \<Rightarrow> rat" where
  "max_participants ps = (let m = fold (\<lambda>p m. max m p) ps 0 in if m \<noteq> 0 then m else 1)"

definition bar_width :: "rat list \<Rightarrow> rat \<Rightarrow> rat" where
  "bar_width ps p = p / max_participants ps * 100"

definition rank_mark :: "nat \<Rightarrow> nat option" where
  "rank_mark index = (if index < 3 then None else Some (index + 1))"

definition recent_badge :: "string \<Rightarrow> string" where
  "recent_badge gender =
     (if gender = ''Male'' \<or> gender = utf8 [225, 158, 148, 225, 159, 146, 225, 158, 154, 225, 158, 187, 225, 158, 159]
      then ''success'' else ''info'')"

section \<open>The backend\<close>

record enroll_row =
  er_id :: int
  er_kh_family_name :: string
  er_kh_given_name :: string
  er_en_family_name :: string
  er_en_given_name :: string
  er_gender :: be_gender
  er_phonenumber :: string
  er_created_at :: string

record organization_row =
  or_id :: int
  or_name_kh :: string
  or_type :: string

text \<open>The tables the queries read: an athlete is an id with its enrollment, a participation the athlete with the organization.\<close>

record dashboard_db =
  db_enrollments :: "enroll_row list"
  db_athletes :: "(int \<times> int) list"
  db_participations :: "(int \<times> int) list"
  db_organizations :: "organization_row list"
  db_events :: nat
  db_sports :: nat
  db_leaders :: nat

definition scoped_participations :: "dashboard_db \<Rightarrow> int option \<Rightarrow> (int \<times> int) list" where
  "scoped_participations db org_id =
     filter (\<lambda>p. case org_id of None \<Rightarrow> True | Some i \<Rightarrow> snd p = i) (db_participations db)"

definition get_dashboard_stats :: "dashboard_db \<Rightarrow> int option \<Rightarrow> js" where
  "get_dashboard_stats db org_id =
     JObj [(''events'', JInt (int (db_events db))), (''sports'', JInt (int (db_sports db))),
           (''participants'', JInt (int (length (scoped_participations db org_id)))),
           (''registrations'', JInt (int (length (db_enrollments db)))),
           (''organizations'', JInt (int (length (db_organizations db)))),
           (''athletes'', JInt (int (length (remdups (map fst (scoped_participations db org_id)))))),
           (''leaders'', JInt (int (db_leaders db)))]"

text \<open>The latest first; rows of one moment by id.\<close>

definition latest_first :: "enroll_row list \<Rightarrow> enroll_row list" where
  "latest_first xs = rev (sort_key er_created_at (sort_key er_id xs))"

definition get_dashboard_recent_enrollments :: "dashboard_db \<Rightarrow> nat \<Rightarrow> enroll_row list" where
  "get_dashboard_recent_enrollments db limit = take limit (latest_first (db_enrollments db))"

definition format_recent_enrollments :: "enroll_row list \<Rightarrow> js list" where
  "format_recent_enrollments = map (\<lambda>e.
     JObj [(''id'', JInt (er_id e)),
           (''khName'', JStr (er_kh_family_name e @ '' '' @ er_kh_given_name e)),
           (''enName'', JStr (er_en_family_name e @ '' '' @ er_en_given_name e)),
           (''gender'', JStr (gender_value (er_gender e))), (''phone'', JStr (er_phonenumber e)),
           (''createdAt'', JStr (er_created_at e))])"

definition participant_count :: "dashboard_db \<Rightarrow> organization_row \<Rightarrow> nat" where
  "participant_count db og = length (filter (\<lambda>p. snd p = or_id og) (db_participations db))"

definition get_dashboard_top_organizations :: "dashboard_db \<Rightarrow> nat \<Rightarrow> int option \<Rightarrow> (organization_row \<times> nat) list" where
  "get_dashboard_top_organizations db limit org_id =
     take limit (map (\<lambda>og. (og, participant_count db og))
       (rev (sort_key (participant_count db) (sort_key or_id
          (filter (\<lambda>og. case org_id of None \<Rightarrow> True | Some i \<Rightarrow> or_id og = i) (db_organizations db))))))"

definition format_top_organizations :: "(organization_row \<times> nat) list \<Rightarrow> js list" where
  "format_top_organizations = map (\<lambda>(og, n).
     JObj [(''name'', JStr (or_name_kh og)), (''participants'', JInt (int n)), (''type'', JStr (or_type og))])"

text \<open>The genders that are counted: one for every enrollment, or one for every participation of the organization.\<close>

definition counted_genders :: "dashboard_db \<Rightarrow> int option \<Rightarrow> be_gender list" where
  "counted_genders db org_id =
     (case org_id of
        None \<Rightarrow> map er_gender (db_enrollments db)
      | Some i \<Rightarrow>
          concat (map (\<lambda>e. concat (map (\<lambda>a.
            if snd a = er_id e
            then map (\<lambda>_. er_gender e) (filter (\<lambda>p. fst p = fst a \<and> snd p = i) (db_participations db)) else [])
            (db_athletes db))) (db_enrollments db)))"

definition add_gender :: "be_gender \<times> nat \<Rightarrow> (string \<times> nat) list \<Rightarrow> (string \<times> nat) list" where
  "add_gender gc distribution =
     (case gc of (g, n) \<Rightarrow>
        if to_lower (gender_value g) \<in> fst ` set distribution
        then AList.update (to_lower (gender_value g)) n distribution else distribution)"

definition get_dashboard_gender_distribution :: "dashboard_db \<Rightarrow> int option \<Rightarrow> (string \<times> nat) list" where
  "get_dashboard_gender_distribution db org_id =
     fold add_gender
       (map (\<lambda>g. (g, count_list (counted_genders db org_id) g)) (remdups (counted_genders db org_id)))
       [(''male'', 0), (''female'', 0), (''other'', 0)]"

definition gender_json :: "(string \<times> nat) list \<Rightarrow> js" where
  "gender_json d = JObj (map (\<lambda>(k, n). (k, JInt (int n))) d)"

text \<open>The lists of events and sports travel along unread; they are a parameter.\<close>

definition get_dashboard :: "(string \<times> js) list \<Rightarrow> dashboard_db \<Rightarrow> be_user \<Rightarrow> (http_exception, js) result" where
  "get_dashboard unread db u =
     map_r (\<lambda>org_id.
       JObj [(''success'', JBool True),
             (''data'', JObj (
                [(''stats'', get_dashboard_stats db org_id),
                 (''topOrganizations'', JArr (format_top_organizations (get_dashboard_top_organizations db 5 org_id))),
                 (''recentEnrollments'', JArr (format_recent_enrollments (get_dashboard_recent_enrollments db 10))),
                 (''genderDistribution'', gender_json (get_dashboard_gender_distribution db org_id))] @ unread))])
       (get_effective_org_id u None)"

section \<open>Lemmas\<close>

text \<open>The genders in the order the fold meets them do not matter: each writes its own key.\<close>

lemma add_gender_keys [simp]: "fst ` set (add_gender gc d) = fst ` set d"
  by (cases gc) (auto simp: add_gender_def dom_update)

lemma key_texts: "to_lower ''MALE'' = ''male''" "to_lower ''FEMALE'' = ''female''" "to_lower ''MIXED'' = ''mixed''"
  by code_simp+

definition three_keys :: "(string \<times> nat) list \<Rightarrow> bool" where
  "three_keys d \<longleftrightarrow> fst ` set d = {''male'', ''female'', ''other''}"

lemma three_keys_mem: "three_keys d \<Longrightarrow> (k \<in> fst ` set d) = (k = ''male'' \<or> k = ''female'' \<or> k = ''other'')"
  by (simp add: three_keys_def)

lemma three_keys_add: "three_keys d \<Longrightarrow> three_keys (add_gender gc d)"
  by (simp only: three_keys_def add_gender_keys)

lemma add_gender_cases:
  assumes "three_keys d"
  shows "add_gender (BMale, n) d = AList.update ''male'' n d" "add_gender (BFemale, n) d = AList.update ''female'' n d"
    "add_gender (BMixed, n) d = d"
  by (simp_all add: add_gender_def key_texts three_keys_mem[OF assms] del: image_iff)

lemma fold_add_gender:
  "three_keys d \<Longrightarrow> distinct gs \<Longrightarrow>
   map_of (fold add_gender (map (\<lambda>g. (g, f g)) gs) d) k =
     (if k = ''male'' \<and> BMale \<in> set gs then Some (f BMale)
      else if k = ''female'' \<and> BFemale \<in> set gs then Some (f BFemale) else map_of d k)"
proof (induction gs arbitrary: d)
  case (Cons g gs)
  note ih = Cons.IH[OF three_keys_add[OF Cons.prems(1)], of "(g, f g)"]
  show ?case using ih Cons.prems(2)
    by (cases g) (simp_all add: add_gender_cases[OF Cons.prems(1)] update_conv')
qed simp

lemma absent_count: "x \<notin> set xs \<Longrightarrow> count_list xs x = 0"
  by (simp add: count_list_0_iff)

lemma gender_distribution_get:
  "map_of (get_dashboard_gender_distribution db org_id) k =
     (if k = ''male'' then Some (count_list (counted_genders db org_id) BMale)
      else if k = ''female'' then Some (count_list (counted_genders db org_id) BFemale)
      else if k = ''other'' then Some 0 else None)"
proof -
  have "three_keys [(''male'', 0), (''female'', 0), (''other'', 0)]" by (auto simp: three_keys_def)
  then show ?thesis
    unfolding get_dashboard_gender_distribution_def by (simp add: fold_add_gender absent_count)
qed

lemma count_genders: "length gs = count_list gs BMale + count_list gs BFemale + count_list gs BMixed"
proof (induction gs)
  case (Cons g gs)
  then show ?case by (cases g) simp_all
qed simp

text \<open>What a schema accepts as it is.\<close>

context zod_parser
begin

lemma keeps_text: "parse zstr (JStr t) = Inr (JStr t)"
  by (simp add: p_string)

lemma keeps_num: "parse znum (JNum (Fin r)) = Inr (JNum (Fin r))"
  by (simp add: p_number)

lemma keeps_list: "list_all (\<lambda>x. parse s x = Inr x) xs \<Longrightarrow> parse (ZArray s) (JArr xs) = Inr (JArr xs)"
  by (simp add: p_array list_all2_same list_all_iff)

lemma object_keeps:
  assumes "list_all (\<lambda>(k, s). has_key k (JObj es) \<and> parse s (js_get k (JObj es)) = Inr (js_get k (JObj es))) fs"
  shows "parse (ZObject False fs) (JObj es) = Inr (JObj (map (\<lambda>(k, s). (k, js_get k (JObj es))) fs))"
proof -
  have "obj_fields parse fs (JObj es) = Some (map (\<lambda>(k, s). (k, js_get k (JObj es))) fs)"
    using assms by (induction fs) auto
  then show ?thesis by (simp add: p_object)
qed

end

text \<open>The distribution as the schema keeps it.\<close>

definition gender_shown :: "dashboard_db \<Rightarrow> int option \<Rightarrow> js" where
  "gender_shown db org_id =
     JObj [(''male'', JInt (int (count_list (counted_genders db org_id) BMale))),
           (''female'', JInt (int (count_list (counted_genders db org_id) BFemale))), (''other'', JInt 0)]"

lemma gender_json_get: "js_get k (gender_json d) = (case map_of d k of Some n \<Rightarrow> JInt (int n) | None \<Rightarrow> JUndef)"
  by (induction d) (auto simp: gender_json_def or_else_def split: option.splits)

lemma gender_json_has: "has_key k (gender_json d) \<longleftrightarrow> k \<in> fst ` set d"
  by (force simp: gender_json_def has_key_def)

lemma distribution_keys: "fst ` set (get_dashboard_gender_distribution db org_id) = {''male'', ''female'', ''other''}"
proof -
  have "three_keys d \<Longrightarrow> three_keys (fold add_gender xs d)" for d and xs :: "(be_gender \<times> nat) list"
    by (induction xs arbitrary: d) (simp_all add: three_keys_add)
  moreover have "three_keys [(''male'', 0), (''female'', 0), (''other'', 0)]" by (auto simp: three_keys_def)
  ultimately show ?thesis unfolding get_dashboard_gender_distribution_def three_keys_def by blast
qed

context zod_parser
begin

lemma stats_kept: "parse dashboardStatsSchema (get_dashboard_stats db org_id) = Inr (get_dashboard_stats db org_id)"
  unfolding dashboardStatsSchema_def get_dashboard_stats_def
  by (subst object_keeps) (simp_all add: has_key_def keeps_num)

lemma recent_kept:
  "parse (ZArray recentEnrollmentSchema) (JArr (format_recent_enrollments es)) = Inr (JArr (format_recent_enrollments es))"
proof (rule keeps_list)
  show "list_all (\<lambda>x. parse recentEnrollmentSchema x = Inr x) (format_recent_enrollments es)"
    unfolding format_recent_enrollments_def list_all_iff recentEnrollmentSchema_def
    by (auto simp: object_keeps has_key_def keeps_num keeps_text)
qed

lemma top_kept:
  "parse (ZArray topOrganizationSchema) (JArr (format_top_organizations os)) = Inr (JArr (format_top_organizations os))"
proof (rule keeps_list)
  show "list_all (\<lambda>x. parse topOrganizationSchema x = Inr x) (format_top_organizations os)"
    unfolding format_top_organizations_def list_all_iff topOrganizationSchema_def
    by (auto simp: object_keeps has_key_def keeps_num keeps_text)
qed

lemma gender_kept:
  "parse genderDistributionSchema (gender_json (get_dashboard_gender_distribution db org_id)) = Inr (gender_shown db org_id)"
proof -
  obtain es where es: "gender_json (get_dashboard_gender_distribution db org_id) = JObj es" by (simp add: gender_json_def)
  have g: "js_get ''male'' (JObj es) = JInt (int (count_list (counted_genders db org_id) BMale))"
    "js_get ''female'' (JObj es) = JInt (int (count_list (counted_genders db org_id) BFemale))"
    "js_get ''other'' (JObj es) = JInt 0"
    unfolding es[symmetric] gender_json_get gender_distribution_get by simp_all
  have h: "has_key ''male'' (JObj es)" "has_key ''female'' (JObj es)" "has_key ''other'' (JObj es)"
    unfolding es[symmetric] gender_json_has distribution_keys by simp_all
  have "parse genderDistributionSchema (JObj es) =
      Inr (JObj (map (\<lambda>(k, s). (k, js_get k (JObj es))) [(''male'', znum), (''female'', znum), (''other'', znum)]))"
    unfolding genderDistributionSchema_def
    by (rule object_keeps) (simp only: list.pred_inject prod.case g h keeps_num simp_thms)
  also have "\<dots> = Inr (gender_shown db org_id)"
    by (simp only: list.map prod.case g gender_shown_def)
  finally show ?thesis unfolding es .
qed

end

context zod_parser
begin

text \<open>The data the page gets from an answer of the route; the lists it does not read are dropped.\<close>

lemma dashboard_answer_kept:
  assumes "get_dashboard unread db u = Inr raw" "get_effective_org_id u None = Inr org_id"
  shows "enveloped parse dashboardResponseSchema raw = Some (JObj
     [(''stats'', get_dashboard_stats db org_id), (''genderDistribution'', gender_shown db org_id),
      (''topOrganizations'', JArr (format_top_organizations (get_dashboard_top_organizations db 5 org_id))),
      (''recentEnrollments'', JArr (format_recent_enrollments (get_dashboard_recent_enrollments db 10)))])"
    (is "_ = Some ?d")
proof -
  let ?es = "[(''stats'', get_dashboard_stats db org_id),
      (''topOrganizations'', JArr (format_top_organizations (get_dashboard_top_organizations db 5 org_id))),
      (''recentEnrollments'', JArr (format_recent_enrollments (get_dashboard_recent_enrollments db 10))),
      (''genderDistribution'', gender_json (get_dashboard_gender_distribution db org_id))] @ unread"
  have raw: "raw = JObj [(''success'', JBool True), (''data'', JObj ?es)]"
    using assms by (auto simp: get_dashboard_def)
  have d: "parse dashboardDataSchema (JObj ?es) = Inr ?d"
    unfolding dashboardDataSchema_def p_object
    by (simp add: stats_kept gender_kept top_kept recent_kept has_key_def)
  have "parse dashboardResponseSchema raw = Inr (JObj [(''success'', JBool True), (''data'', ?d)])"
  proof -
    have b: "parse ZBoolean (JBool True) = Inr (JBool True)" unfolding p_boolean by blast
    show ?thesis
      unfolding dashboardResponseSchema_def p_object raw using b d by (simp add: has_key_def)
  qed
  then show ?thesis by (simp add: enveloped_def)
qed

end

lemma dashboard_fetched:
  assumes "zod_parser parse" "get_dashboard unread db u = Inr raw" "srv (apiGetDashboardData params) = Inr raw"
    and "get_effective_org_id u None = Inr org_id"
  shows "getDashboardData parse srv params = Inr (JObj
     [(''stats'', get_dashboard_stats db org_id), (''genderDistribution'', gender_shown db org_id),
      (''topOrganizations'', JArr (format_top_organizations (get_dashboard_top_organizations db 5 org_id))),
      (''recentEnrollments'', JArr (format_recent_enrollments (get_dashboard_recent_enrollments db 10)))])"
  using zod_parser.dashboard_answer_kept[OF assms(1,2,4)] assms(3) by (simp add: getDashboardData_def)

lemma top_organizations_own:
  "(og, n) \<in> set (get_dashboard_top_organizations db limit (Some i)) \<Longrightarrow>
     og \<in> set (db_organizations db) \<and> or_id og = i \<and> n = length (filter (\<lambda>p. snd p = i) (db_participations db))"
  by (auto simp: get_dashboard_top_organizations_def participant_count_def dest!: in_set_takeD)

lemma latest_first_mset: "mset (latest_first xs) = mset xs"
  by (simp add: latest_first_def)

lemma latest_first_sorted: "sorted (rev (map er_created_at (latest_first xs)))"
  by (simp add: latest_first_def rev_map)

text \<open>The phone numbers of the answer, for the recent enrollments of whatever organization.\<close>

definition shown_phones :: "js \<Rightarrow> js list" where
  "shown_phones d =
     (case js_get ''recentEnrollments'' d of JArr es \<Rightarrow> map (js_get ''phone'') es | _ \<Rightarrow> [])"

definition plain_phones :: "dashboard_db \<Rightarrow> js list" where
  "plain_phones db = map (\<lambda>e. JStr (er_phonenumber e)) (take 10 (latest_first (db_enrollments db)))"

text \<open>C30. What an organization's user sees on the dashboard. The answer is always accepted. The organizations in it are its own,
  the athletes and participants are counted over its participations, and the chart's men and women with the mixed ones, whom
  the chart leaves out, are all of its participations. But the enrollments, with names and unmasked phone
  numbers, are the ten latest of the whole platform, and the submissions and leaders shown as its own are the platform's.\<close>

theorem dashboard_scope:
  assumes "zod_parser parse" "get_dashboard unread db u = Inr raw" "srv (apiGetDashboardData params) = Inr raw"
    and "bu_role u = ORGANIZATION" "bu_organization_id u = Some i"
  shows "\<exists>d. getDashboardData parse srv params = Inr d \<and>
    (\<exists>os. js_get ''topOrganizations'' d = JArr (format_top_organizations os) \<and> (\<forall>(og, n) \<in> set os. or_id og = i)) \<and>
    js_get ''participants'' (js_get ''stats'' d) = JInt (int (length (filter (\<lambda>p. snd p = i) (db_participations db)))) \<and>
    (\<exists>m f. js_get ''male'' (js_get ''genderDistribution'' d) = JInt (int m) \<and>
       js_get ''female'' (js_get ''genderDistribution'' d) = JInt (int f) \<and>
       js_get ''other'' (js_get ''genderDistribution'' d) = JInt 0 \<and>
       m + f + count_list (counted_genders db (Some i)) BMixed = length (counted_genders db (Some i))) \<and>
    shown_phones d = plain_phones db \<and>
    stats_items (Some ORGANIZATION) (js_get ''stats'' d) =
      [(''myEvents'', JInt (int (db_events db))), (''mySubmissions'', JInt (int (length (db_enrollments db)))),
       (''myAthletes'', js_get ''athletes'' (js_get ''stats'' d)), (''myLeaders'', JInt (int (db_leaders db)))]"
proof -
  let ?o = "Some i"
  let ?os = "get_dashboard_top_organizations db 5 ?o"
  let ?d = "JObj
     [(''stats'', get_dashboard_stats db ?o), (''genderDistribution'', gender_shown db ?o),
      (''topOrganizations'', JArr (format_top_organizations ?os)),
      (''recentEnrollments'', JArr (format_recent_enrollments (get_dashboard_recent_enrollments db 10)))]"
  have "get_effective_org_id u None = Inr ?o" using assms(4,5) by (simp add: get_effective_org_id_def)
  from dashboard_fetched[where srv = srv and params = params, OF assms(1-3) this] have "getDashboardData parse srv params = Inr ?d" .
  moreover have "\<exists>os. js_get ''topOrganizations'' ?d = JArr (format_top_organizations os) \<and> (\<forall>(og, n) \<in> set os. or_id og = i)"
    by (rule exI[of _ ?os]) (auto simp: or_else_def dest: top_organizations_own)
  moreover have "shown_phones ?d = plain_phones db"
    by (simp add: shown_phones_def plain_phones_def format_recent_enrollments_def get_dashboard_recent_enrollments_def or_else_def)
  moreover have "\<exists>m f. js_get ''male'' (js_get ''genderDistribution'' ?d) = JInt (int m) \<and>
       js_get ''female'' (js_get ''genderDistribution'' ?d) = JInt (int f) \<and>
       js_get ''other'' (js_get ''genderDistribution'' ?d) = JInt 0 \<and>
       m + f + count_list (counted_genders db (Some i)) BMixed = length (counted_genders db (Some i))"
    by (rule exI[of _ "count_list (counted_genders db ?o) BMale"], rule exI[of _ "count_list (counted_genders db ?o) BFemale"])
      (simp add: gender_shown_def or_else_def count_genders[of "counted_genders db ?o"])
  moreover have "stats_items (Some ORGANIZATION) (js_get ''stats'' ?d) =
      [(''myEvents'', JInt (int (db_events db))), (''mySubmissions'', JInt (int (length (db_enrollments db)))),
       (''myAthletes'', js_get ''athletes'' (js_get ''stats'' ?d)), (''myLeaders'', JInt (int (db_leaders db)))]"
    by (simp add: stats_items_def Let_def get_dashboard_stats_def or_else_def)
  moreover have "js_get ''participants'' (js_get ''stats'' ?d) = JInt (int (length (filter (\<lambda>p. snd p = i) (db_participations db))))"
    by (simp add: get_dashboard_stats_def scoped_participations_def or_else_def)
  ultimately show ?thesis by blast
qed

definition sample_db :: dashboard_db where
  "sample_db =
     \<lparr> db_enrollments = [
         \<lparr> er_id = 1, er_kh_family_name = ''A'', er_kh_given_name = ''B'', er_en_family_name = ''A'', er_en_given_name = ''B'',
            er_gender = BMale, er_phonenumber = ''011'', er_created_at = ''2025-01-01'' \<rparr>,
         \<lparr> er_id = 2, er_kh_family_name = ''C'', er_kh_given_name = ''D'', er_en_family_name = ''C'', er_en_given_name = ''D'',
            er_gender = BMixed, er_phonenumber = ''022'', er_created_at = ''2025-01-02'' \<rparr>],
       db_athletes = [(10, 1), (20, 2)], db_participations = [(10, 5), (20, 6)],
       db_organizations = [\<lparr> or_id = 5, or_name_kh = ''P'', or_type = ''province'' \<rparr>, \<lparr> or_id = 6, or_name_kh = ''Q'', or_type = ''province'' \<rparr>],
       db_events = 1, db_sports = 1, db_leaders = 3 \<rparr>"

definition sample_org_user :: be_user where
  "sample_org_user = \<lparr> bu_id = ''u'', bu_role = ORGANIZATION, bu_organization_id = Some 5, bu_sport_id = None \<rparr>"

lemma sample_phones: "plain_phones sample_db = [JStr ''022'', JStr ''011'']"
  by code_simp

lemma dashboard_scope_witness:
  "\<exists>raw d. get_dashboard [] sample_db sample_org_user = Inr raw \<and>
     getDashboardData zparse (\<lambda>_. Inr raw) [] = Inr d \<and> shown_phones d = [JStr ''022'', JStr ''011'']"
proof -
  have "get_effective_org_id sample_org_user None = Inr (Some 5)" by (simp add: get_effective_org_id_def sample_org_user_def)
  then obtain raw where r: "get_dashboard [] sample_db sample_org_user = Inr raw" by (simp add: get_dashboard_def)
  then show ?thesis
    using dashboard_scope[OF zp.zod_parser_axioms r, of "\<lambda>_. Inr raw" "[]" 5] unfolding sample_phones
    by (auto simp: sample_org_user_def)
qed

section \<open>What the page makes of it\<close>

text \<open>The shares of the chart make up a hundred and its arcs the whole circle, one after the other.\<close>

lemma chart_complete:
  assumes "chart_segments d = Some segs"
  shows "sum_list (map snd segs) = 100"
proof -
  have t: "gd_total d \<noteq> 0" "segs = [(''male'', gd_male d / gd_total d * 100), (''female'', gd_female d / gd_total d * 100),
      (''other'', gd_other d / gd_total d * 100)]"
    using assms by (auto simp: chart_segments_def split: if_splits)
  have "sum_list (map snd segs) = (gd_male d + gd_female d + gd_other d) / gd_total d * 100"
    by (simp add: t(2) add_divide_distrib algebra_simps)
  then show ?thesis using t(1) by (simp add: gd_total_def[symmetric])
qed

lemma percent: "(x * 100 + y * 100) / 100 * c = (x + y) * c" "x * 100 / 100 * c = x * (c::rat)"
  by (simp_all add: algebra_simps add_divide_distrib)

lemma arcs_adjoin:
  assumes "gd_total d \<noteq> 0" "chart_arcs c d = [(ko, os, ol), (kf, fs, fl), (km, ms, ml)]"
  shows "ms = 0 \<and> fs = ms + ml \<and> os = fs + fl \<and> os + ol = c"
proof -
  have e: "ms = 0" "ml = gd_male d / gd_total d * c" "fs = gd_male d / gd_total d * c" "fl = gd_female d / gd_total d * c"
    "os = (gd_male d / gd_total d + gd_female d / gd_total d) * c" "ol = gd_other d / gd_total d * c"
    using assms(2) unfolding chart_arcs_def Let_def percent by auto
  have "os + ol = (gd_male d + gd_female d + gd_other d) / gd_total d * c"
    by (simp add: e add_divide_distrib algebra_simps)
  also have "\<dots> = c" using assms(1) by (simp add: gd_total_def[symmetric])
  finally show ?thesis using e by (simp add: algebra_simps)
qed

text \<open>No bar of the table is wider than the row, and the first of a sorted answer fills it.\<close>

lemma fold_max_ge: "m \<le> fold (\<lambda>p m. max m p) ps m \<and> (\<forall>p \<in> set ps. p \<le> fold (\<lambda>p m. max m p) ps (m::rat))"
proof (induction ps arbitrary: m)
  case (Cons p ps)
  have "max m p \<le> fold (\<lambda>p m. max m p) ps (max m p)" using Cons.IH[of "max m p"] by blast
  then show ?case using Cons.IH[of "max m p"] by (auto intro: order_trans)
qed simp

lemma bar_within:
  assumes "p \<in> set ps" "\<forall>q \<in> set ps. 0 \<le> q"
  shows "0 \<le> bar_width ps p \<and> bar_width ps p \<le> 100"
proof -
  let ?m = "fold (\<lambda>p m. max m p) ps 0"
  have m: "0 \<le> ?m" "p \<le> ?m" "0 \<le> p" using fold_max_ge[of 0 ps] assms by auto
  have M: "max_participants ps = (if ?m \<noteq> 0 then ?m else 1)" by (simp add: max_participants_def)
  have "0 < max_participants ps" "p \<le> max_participants ps" using m M by auto
  then show ?thesis unfolding bar_width_def using m(3) by (simp add: divide_le_eq)
qed

text \<open>The status line is never without a status the messages have, whatever the server sends.\<close>

context zod_parser
begin

lemma window_status_parsed:
  "parse registrationWindowSchema raw = Inr b \<Longrightarrow>
     js_get ''status'' b \<in> JStr ` {''open'', ''closed'', ''scheduled'', ''unknown''}"
  using object_get[of False "[(''status'', registrationWindowStatusSchema), (''opensOn'', znullable_optional zstr),
      (''closesOn'', znullable_optional zstr)]" raw b "''status''"]
  by (auto simp: registrationWindowSchema_def registrationWindowStatusSchema_def p_enum)

lemma enveloped_window:
  assumes "enveloped parse registrationWindowResponseSchema raw = Some d"
  shows "\<exists>raw'. parse registrationWindowSchema raw' = Inr d"
proof -
  obtain w where w: "parse registrationWindowResponseSchema raw = Inr w" "d = js_get ''data'' w"
    using assms by (auto simp: enveloped_def split: sum.splits if_splits)
  show ?thesis using object_get[OF w(1)[unfolded registrationWindowResponseSchema_def], of "''data''"] w(2) by auto
qed

lemma window_status_known:
  assumes "getRegistrationWindow parse srv = Inr d"
  shows "js_get ''status'' d \<in> JStr ` {''open'', ''closed'', ''scheduled'', ''unknown''}"
proof -
  obtain raw where r: "(case enveloped parse registrationWindowResponseSchema raw of Some e \<Rightarrow> Inr e
      | None \<Rightarrow> (case parse registrationWindowSchema raw of Inr b \<Rightarrow> Inr b | Inl _ \<Rightarrow> Inr NEUTRAL)) = (Inr d :: (js_error, js) result)"
    using assms unfolding getRegistrationWindow_def by (cases "srv apiGetRegistrationWindow") auto
  show ?thesis
  proof (cases "enveloped parse registrationWindowResponseSchema raw")
    case (Some e)
    then show ?thesis using r enveloped_window window_status_parsed by (metis option.simps(5) sum.inject(2))
  next
    case None
    then show ?thesis using r window_status_parsed[of raw d] by (auto simp: NEUTRAL_def or_else_def split: sum.splits)
  qed
qed

end

text \<open>Only reviewers ask for the count; a failed answer shows none.\<close>

lemma pending_without_rights: "role \<notin> {Some ADMIN, Some SUPER_ADMIN} \<Longrightarrow> useReviewPendingCount role parse srv = JInt 0"
  by (simp add: useReviewPendingCount_def review_pending_enabled_def)

text \<open>The badge compares with a spelling the answer never has.\<close>

lemma recent_badge_info: "recent_badge (gender_value g) = ''info''"
  by (induct g) code_simp+

end
