(* ===== verification/Access_Policy.thy ===== *)
theory Access_Policy
  imports Reports
begin

text \<open>
  The access decisions of the backend: the policy engine with its rules
  (src/backend/app/domain/policies) and the gates the routes put in front of their work
  (src/backend/src/database/deps.py). The rules are values, so the engine is a function of a list
  of rules. The lemmas give the decision as a set of rules would (a grant and no refusal), the
  table of roles the default rules amount to, and compare the gates with the pages of the
  frontend that reach them.
\<close>

section \<open>Attributes and value objects\<close>

datatype policy_role = Role_super_admin | Role_admin | Role_organization | Role_federation

fun policy_role_value :: "policy_role \<Rightarrow> string" where
  "policy_role_value Role_super_admin = ''super_admin''"
| "policy_role_value Role_admin = ''admin''"
| "policy_role_value Role_organization = ''organization''"
| "policy_role_value Role_federation = ''federation''"

text \<open>The role of a string; None is the ValueError of another one.\<close>

definition policy_role_of :: "string \<Rightarrow> policy_role option" where
  "policy_role_of v =
     find (\<lambda>r. policy_role_value r = v) [Role_super_admin, Role_admin, Role_organization, Role_federation]"

datatype policy_action =
    Do_administer | Do_manage_global | Do_staff | Do_reveal_pii
  | Do_read | Do_create | Do_update | Do_delete | Do_review

fun action_value :: "policy_action \<Rightarrow> string" where
  "action_value Do_administer = ''administer''"
| "action_value Do_manage_global = ''manage_global''"
| "action_value Do_staff = ''staff''"
| "action_value Do_reveal_pii = ''reveal_pii''"
| "action_value Do_read = ''read''"
| "action_value Do_create = ''create''"
| "action_value Do_update = ''update''"
| "action_value Do_delete = ''delete''"
| "action_value Do_review = ''review''"

definition SCOPED_ACTIONS :: "policy_action list" where
  "SCOPED_ACTIONS = [Do_read, Do_create, Do_update, Do_delete, Do_review]"

datatype data_class = Class_public | Class_internal | Class_confidential | Class_restricted_pii

record subject =
  su_role :: policy_role
  su_user_id :: "string option"
  su_organization_id :: "int option"
  su_sport_id :: "int option"

record resource =
  rs_kind :: string
  rs_organization_id :: "int option"
  rs_sport_id :: "int option"
  rs_review_state :: "string option"
  rs_data_class :: data_class
  rs_owner_id :: "string option"

definition Resource :: "string \<Rightarrow> resource" where
  "Resource kind = \<lparr> rs_kind = kind, rs_organization_id = None, rs_sport_id = None, rs_review_state = None,
                     rs_data_class = Class_internal, rs_owner_id = None \<rparr>"

record decision =
  dc_allowed :: bool
  dc_reason :: string

definition allow :: "string \<Rightarrow> decision" where "allow reason = \<lparr> dc_allowed = True, dc_reason = reason \<rparr>"
definition deny :: "string \<Rightarrow> decision" where "deny reason = \<lparr> dc_allowed = False, dc_reason = reason \<rparr>"

text \<open>A rule allows, denies or abstains.\<close>

type_synonym rule = "subject \<Rightarrow> policy_action \<Rightarrow> resource \<Rightarrow> decision option"

section \<open>The rules\<close>

definition r_superadmin_allows_everything :: rule where
  "r_superadmin_allows_everything s a r =
     (if su_role s = Role_super_admin then Some (allow ''super_admin has unrestricted access'') else None)"

definition r_administer_is_superadmin_only :: rule where
  "r_administer_is_superadmin_only s a r =
     (if a = Do_administer \<and> su_role s \<noteq> Role_super_admin
      then Some (deny ''Super admin access required for this action.'') else None)"

definition r_manage_global :: rule where
  "r_manage_global s a r =
     (if a = Do_manage_global then
        (if su_role s = Role_admin then Some (allow ''admin may manage global resources'')
         else if su_role s \<in> {Role_organization, Role_federation}
         then Some (deny ''Admin access required for this action.'') else None)
      else None)"

definition r_reveal_pii :: rule where
  "r_reveal_pii s a r =
     (if a = Do_reveal_pii then
        (if su_role s = Role_admin then Some (allow ''admin may reveal restricted PII'')
         else if su_role s \<in> {Role_organization, Role_federation}
         then Some (deny ''Admin access required to reveal restricted PII.'') else None)
      else None)"

definition r_staff :: rule where
  "r_staff s a r =
     (if a = Do_staff then
        (if su_role s \<in> {Role_admin, Role_federation} then Some (allow ''staff role'')
         else if su_role s = Role_organization
         then Some (deny ''Staff access required for this action.'') else None)
      else None)"

definition r_scoped_admin :: rule where
  "r_scoped_admin s a r =
     (if a \<in> set SCOPED_ACTIONS \<and> su_role s = Role_admin then Some (allow ''admin may act on any scope'') else None)"

definition r_scoped_federation :: rule where
  "r_scoped_federation s a r =
     (if a \<in> set SCOPED_ACTIONS \<and> su_role s = Role_federation then
        (if rs_sport_id r = None then Some (allow ''federation may act on non-sport-scoped resources'')
         else if su_sport_id s \<noteq> None \<and> rs_sport_id r = su_sport_id s
         then Some (allow ''federation acting within its own sport'')
         else Some (deny ''Federation may only act within its own sport.''))
      else None)"

definition r_scoped_organization :: rule where
  "r_scoped_organization s a r =
     (if a \<in> set SCOPED_ACTIONS \<and> su_role s = Role_organization then
        (if rs_sport_id r \<noteq> None \<and> rs_organization_id r = None
         then Some (deny ''Organization users cannot manage sport-level resources.'')
         else if rs_organization_id r = None
         then (if a = Do_read then Some (allow ''organization may read non-org-scoped resources'')
               else Some (deny ''Organization users cannot manage global resources.''))
         else if rs_organization_id r = su_organization_id s
         then Some (allow ''organization acting within its own organization'')
         else Some (deny ''Access denied: you can only access your own organization's data.''))
      else None)"

definition r_restricted_pii_dataclass :: rule where
  "r_restricted_pii_dataclass s a r =
     (if rs_data_class r = Class_restricted_pii \<and> a = Do_reveal_pii then
        (if su_role s \<in> {Role_admin, Role_super_admin} then Some (allow ''privileged role may reveal restricted PII'')
         else Some (deny ''Restricted PII may only be revealed by an administrator.''))
      else None)"

definition DEFAULT_RULES :: "rule list" where
  "DEFAULT_RULES =
     [r_superadmin_allows_everything, r_administer_is_superadmin_only, r_manage_global, r_reveal_pii, r_staff,
      r_scoped_admin, r_scoped_federation, r_scoped_organization, r_restricted_pii_dataclass]"

section \<open>The engine\<close>

text \<open>The loop over the rules, with the first grant seen so far.\<close>

fun authorize_loop :: "rule list \<Rightarrow> decision option \<Rightarrow> subject \<Rightarrow> policy_action \<Rightarrow> resource \<Rightarrow> decision" where
  "authorize_loop [] first_allow s a r =
     (case first_allow of
        Some d \<Rightarrow> d
      | None \<Rightarrow> deny (''No policy grants '' @ action_value a @ '' on '' @ rs_kind r @ '' (deny-by-default).''))"
| "authorize_loop (q # qs) first_allow s a r =
     (case q s a r of
        None \<Rightarrow> authorize_loop qs first_allow s a r
      | Some verdict \<Rightarrow>
          if \<not> dc_allowed verdict then verdict
          else authorize_loop qs (case first_allow of None \<Rightarrow> Some verdict | Some d \<Rightarrow> Some d) s a r)"

definition authorize :: "rule list \<Rightarrow> subject \<Rightarrow> policy_action \<Rightarrow> resource \<Rightarrow> decision" where
  "authorize rules s a r = authorize_loop rules None s a r"

definition can :: "rule list \<Rightarrow> subject \<Rightarrow> policy_action \<Rightarrow> resource \<Rightarrow> bool" where
  "can rules s a r = dc_allowed (authorize rules s a r)"

definition policy_can :: "subject \<Rightarrow> policy_action \<Rightarrow> resource \<Rightarrow> bool" where
  "policy_can = can DEFAULT_RULES"

section \<open>The gates\<close>

text \<open>The error of an unknown role is an unhandled one.\<close>

definition subject_of :: "be_user \<Rightarrow> (http_exception, subject) result" where
  "subject_of u =
     (case policy_role_of (role_value (bu_role u)) of
        None \<Rightarrow> Inl (500, ''Internal Server Error'')
      | Some r \<Rightarrow> Inr \<lparr> su_role = r, su_user_id = Some (bu_id u), su_organization_id = bu_organization_id u,
                       su_sport_id = bu_sport_id u \<rparr>)"

definition require_admin :: "be_user \<Rightarrow> (http_exception, be_user) result" where
  "require_admin u = bind_r (subject_of u) (\<lambda>s.
     if \<not> policy_can s Do_manage_global (Resource ''admin'')
     then Inl (403, ''Admin access required for this action.'') else Inr u)"

definition require_superadmin :: "be_user \<Rightarrow> (http_exception, be_user) result" where
  "require_superadmin u = bind_r (subject_of u) (\<lambda>s.
     if \<not> policy_can s Do_administer (Resource ''superadmin'')
     then Inl (403, ''Super admin access required for this action.'') else Inr u)"

definition require_pii_reveal :: "be_user \<Rightarrow> (http_exception, be_user) result" where
  "require_pii_reveal u = bind_r (subject_of u) (\<lambda>s.
     if \<not> policy_can s Do_reveal_pii ((Resource ''participant_pii'')\<lparr>rs_data_class := Class_restricted_pii\<rparr>)
     then Inl (403, ''Admin access required for this action.'') else Inr u)"

definition require_staff :: "be_user \<Rightarrow> (http_exception, be_user) result" where
  "require_staff u = bind_r (subject_of u) (\<lambda>s.
     if \<not> policy_can s Do_staff (Resource ''staff'')
     then Inl (403, ''Staff access required for this action.'') else Inr u)"

definition get_effective_sport_id :: "be_user \<Rightarrow> int option \<Rightarrow> (http_exception, int option) result" where
  "get_effective_sport_id u client_sport_id =
     (if bu_role u = FEDERATION
      then (case bu_sport_id u of
              None \<Rightarrow> Inl (400, ''Your federation account has no sport linked. Contact an admin.'')
            | Some i \<Rightarrow> Inr (Some i))
      else if bu_role u = ORGANIZATION
      then Inl (403, ''Organization users cannot manage sport-level resources.'')
      else Inr client_sport_id)"

text \<open>The decision on the organization is a parameter, so that what a route needs of it can be stated.\<close>

definition enforce_org_access_with :: "(subject \<Rightarrow> policy_action \<Rightarrow> resource \<Rightarrow> bool) \<Rightarrow> be_user \<Rightarrow> int \<Rightarrow> (http_exception, int) result" where
  "enforce_org_access_with decide u requested_org_id =
     (if bu_role u = ORGANIZATION \<and> bu_organization_id u = None
      then Inl (400, ''Your account has no organization linked. Contact an admin.'')
      else bind_r (subject_of u) (\<lambda>s.
        if \<not> decide s Do_read ((Resource ''organization'')\<lparr>rs_organization_id := Some requested_org_id\<rparr>)
        then Inl (403, ''Access denied: you can only access your own organization's data.'')
        else Inr requested_org_id))"

definition enforce_org_access :: "be_user \<Rightarrow> int \<Rightarrow> (http_exception, int) result" where
  "enforce_org_access = enforce_org_access_with policy_can"

text \<open>The route of the by-category survey: the gate, then the sport the entry is stored for.\<close>

definition category_survey_sport :: "be_user \<Rightarrow> int option \<Rightarrow> (http_exception, int option) result" where
  "category_survey_sport u sport_id = bind_r (require_staff u) (\<lambda>v. get_effective_sport_id v sport_id)"


section \<open>Decisions as a set of verdicts\<close>

definition grants :: "rule list \<Rightarrow> subject \<Rightarrow> policy_action \<Rightarrow> resource \<Rightarrow> bool" where
  "grants rules s a r \<longleftrightarrow> (\<exists>q \<in> set rules. case q s a r of Some d \<Rightarrow> dc_allowed d | None \<Rightarrow> False)"

definition refuses :: "rule list \<Rightarrow> subject \<Rightarrow> policy_action \<Rightarrow> resource \<Rightarrow> bool" where
  "refuses rules s a r \<longleftrightarrow> (\<exists>q \<in> set rules. case q s a r of Some d \<Rightarrow> \<not> dc_allowed d | None \<Rightarrow> False)"

lemma grants_simps [simp]:
  "\<not> grants [] s a r"
  "grants (q # qs) s a r \<longleftrightarrow> (case q s a r of Some d \<Rightarrow> dc_allowed d | None \<Rightarrow> False) \<or> grants qs s a r"
  by (simp_all add: grants_def)

lemma refuses_simps [simp]:
  "\<not> refuses [] s a r"
  "refuses (q # qs) s a r \<longleftrightarrow> (case q s a r of Some d \<Rightarrow> \<not> dc_allowed d | None \<Rightarrow> False) \<or> refuses qs s a r"
  by (simp_all add: refuses_def)

lemma allow_deny_allowed [simp]: "dc_allowed (allow t)" "\<not> dc_allowed (deny t)"
  by (simp_all add: allow_def deny_def)

lemma authorize_loop_granted:
  "dc_allowed d \<Longrightarrow> dc_allowed (authorize_loop rules (Some d) s a r) \<longleftrightarrow> \<not> refuses rules s a r"
  by (induction rules) (simp_all split: option.split)

lemma authorize_loop_allowed:
  "dc_allowed (authorize_loop rules None s a r) \<longleftrightarrow> grants rules s a r \<and> \<not> refuses rules s a r"
proof (induction rules)
  case (Cons q qs)
  then show ?case
    by (cases "q s a r") (simp_all add: authorize_loop_granted)
qed simp

lemma can_iff: "can rules s a r \<longleftrightarrow> grants rules s a r \<and> \<not> refuses rules s a r"
  by (simp add: can_def authorize_def authorize_loop_allowed)

lemma verdicts_cong:
  assumes "set rules = set rules'"
  shows "grants rules s a r = grants rules' s a r" "refuses rules s a r = refuses rules' s a r"
  by (simp_all add: grants_def refuses_def assms)

text \<open>The reason of a refusal is that of the first rule that denies.\<close>

lemma authorize_first_deny:
  assumes "\<forall>q \<in> set earlier. case q s a r of Some d \<Rightarrow> dc_allowed d | None \<Rightarrow> True"
    and "q s a r = Some v" and "\<not> dc_allowed v"
  shows "authorize_loop (earlier @ q # later) first_allow s a r = v"
  using assms by (induction earlier arbitrary: first_allow) (auto split: option.splits)

section \<open>The table of roles\<close>

definition rbac :: "subject \<Rightarrow> policy_action \<Rightarrow> resource \<Rightarrow> bool" where
  "rbac s a r =
     (case su_role s of
        Role_super_admin \<Rightarrow> True
      | Role_admin \<Rightarrow> a \<noteq> Do_administer
      | Role_federation \<Rightarrow>
          a = Do_staff \<or> a \<in> set SCOPED_ACTIONS \<and> (rs_sport_id r = None \<or> rs_sport_id r = su_sport_id s)
      | Role_organization \<Rightarrow>
          a \<in> set SCOPED_ACTIONS \<and>
          (case rs_organization_id r of
             None \<Rightarrow> a = Do_read \<and> rs_sport_id r = None
           | Some i \<Rightarrow> su_organization_id s = Some i))"

lemmas policy_rule_defs =
  r_superadmin_allows_everything_def r_administer_is_superadmin_only_def r_manage_global_def r_reveal_pii_def
  r_staff_def r_scoped_admin_def r_scoped_federation_def r_scoped_organization_def r_restricted_pii_dataclass_def

lemma default_verdicts:
  "grants DEFAULT_RULES s a r \<and> \<not> refuses DEFAULT_RULES s a r \<longleftrightarrow> rbac s a r"
  unfolding DEFAULT_RULES_def
  by (cases a; cases "su_role s"; cases "rs_organization_id r"; cases "rs_sport_id r")
     (auto simp: policy_rule_defs rbac_def SCOPED_ACTIONS_def)

text \<open>C33. The policy engine decides by its rules as a set: it allows exactly what some rule grants and no rule refuses,
  whatever the order. With its default rules it is the role table: a super admin may do everything, an admin everything
  but administer, a federation acts as staff and on resources of no sport or its own sport, an organization on its own
  resources only and otherwise reads what belongs to no organization and no sport; nothing else is granted.\<close>

theorem policy_is_rbac:
  "(can rules s a r \<longleftrightarrow> grants rules s a r \<and> \<not> refuses rules s a r) \<and> (policy_can s a r \<longleftrightarrow> rbac s a r)"
  by (simp add: policy_can_def can_iff default_verdicts)

text \<open>So the order of the rules, and repeating one, decides nothing, a refusal anywhere in the list wins, rules in front
  that grant nothing only take away, and without rules nothing is allowed.\<close>

lemma policy_order_irrelevant:
  assumes "set rules' = set rules"
  shows "can rules' s a r \<longleftrightarrow> can rules s a r"
    and "refuses rules s a r \<Longrightarrow> \<not> can (earlier @ rules' @ later) s a r"
    and "can (earlier @ rules') s a r \<Longrightarrow> \<not> grants earlier s a r \<Longrightarrow> can rules s a r"
    and "\<not> can [] s a r"
  using assms by (auto simp: can_iff grants_def refuses_def)

lemma default_policy: "policy_can = rbac"
  by (intro ext) (simp add: policy_can_def can_iff default_verdicts)

section \<open>The gates\<close>

lemma subject_of_cases:
  "subject_of u = (if bu_role u = GUEST then Inl (500, ''Internal Server Error'')
     else Inr \<lparr> su_role = (case bu_role u of SUPER_ADMIN \<Rightarrow> Role_super_admin | ADMIN \<Rightarrow> Role_admin
                         | ORGANIZATION \<Rightarrow> Role_organization | _ \<Rightarrow> Role_federation),
                 su_user_id = Some (bu_id u), su_organization_id = bu_organization_id u,
                 su_sport_id = bu_sport_id u \<rparr>)"
  by (cases "bu_role u") (simp_all add: subject_of_def policy_role_of_def)

lemma gate_roles:
  "require_admin u = Inr v \<longleftrightarrow> v = u \<and> bu_role u \<in> {SUPER_ADMIN, ADMIN}"
  "require_superadmin u = Inr v \<longleftrightarrow> v = u \<and> bu_role u = SUPER_ADMIN"
  "require_pii_reveal u = Inr v \<longleftrightarrow> v = u \<and> bu_role u \<in> {SUPER_ADMIN, ADMIN}"
  "require_staff u = Inr v \<longleftrightarrow> v = u \<and> bu_role u \<in> {SUPER_ADMIN, ADMIN, FEDERATION}"
  by (cases "bu_role u";
      auto simp: require_admin_def require_superadmin_def require_pii_reveal_def require_staff_def
        subject_of_cases default_policy rbac_def SCOPED_ACTIONS_def)+

text \<open>The list of a by-category survey: the gate's sport is computed and not used.\<close>

definition list_category_survey :: "(int \<Rightarrow> int \<Rightarrow> 'a list) \<Rightarrow> be_user \<Rightarrow> int \<Rightarrow> int \<Rightarrow> (http_exception, 'a list) result" where
  "list_category_survey list_categories u event_id sport_id =
     bind_r (get_effective_sport_id u (Some sport_id)) (\<lambda>_. Inr (list_categories event_id sport_id))"

lemma category_survey_own_sport:
  "category_survey_sport u i = Inr x \<longleftrightarrow>
     (if bu_role u = FEDERATION then bu_sport_id u \<noteq> None \<and> x = bu_sport_id u
      else bu_role u \<in> {SUPER_ADMIN, ADMIN} \<and> x = i)"
  by (cases "bu_role u")
     (auto simp: category_survey_sport_def bind_r_eq_Inr gate_roles get_effective_sport_id_def split: option.splits)

text \<open>A federation stores its own sport only, and reads every sport.\<close>

lemma category_list_of_any_sport:
  assumes "bu_role u = FEDERATION" and "bu_sport_id u = Some j"
  shows "list_category_survey xs u e i = Inr (xs e i)"
  using assms by (simp add: list_category_survey_def get_effective_sport_id_def)

section \<open>What a route with an organization in its path needs of the policy\<close>

locale org_scoped_reads =
  fixes decide :: "subject \<Rightarrow> policy_action \<Rightarrow> resource \<Rightarrow> bool"
  assumes own_only: "su_role s = Role_organization \<Longrightarrow> rs_organization_id r = Some i \<Longrightarrow>
      decide s Do_read r \<longleftrightarrow> su_organization_id s = Some i"
    and others_pass: "su_role s \<noteq> Role_organization \<Longrightarrow> rs_sport_id r = None \<Longrightarrow> decide s Do_read r"
begin

lemma enforce_iff:
  "enforce_org_access_with decide u i = Inr j \<longleftrightarrow>
     j = i \<and> bu_role u \<noteq> GUEST \<and> (bu_role u = ORGANIZATION \<longrightarrow> bu_organization_id u = Some i)"
  by (cases "bu_role u") (auto simp: enforce_org_access_with_def subject_of_cases own_only others_pass Resource_def)

lemma enforce_foreign:
  assumes "bu_role u = ORGANIZATION" and "bu_organization_id u = Some k" and "k \<noteq> i"
  shows "enforce_org_access_with decide u i =
    Inl (403, ''Access denied: you can only access your own organization's data.'')"
  using assms by (simp add: enforce_org_access_with_def subject_of_cases own_only Resource_def)

lemma enforce_bind:
  "bind_r (enforce_org_access_with decide u i) f = Inr x \<longleftrightarrow>
     bu_role u \<noteq> GUEST \<and> (bu_role u = ORGANIZATION \<longrightarrow> bu_organization_id u = Some i) \<and> f i = Inr x"
  by (auto simp: bind_r_eq_Inr enforce_iff)

end

interpretation org_policy: org_scoped_reads policy_can
  by unfold_locales (auto simp: default_policy rbac_def SCOPED_ACTIONS_def split: policy_role.splits)

section \<open>The gates and the frontend's permissions\<close>

lemma gate_refusals:
  "g \<in> {require_admin, require_superadmin, require_pii_reveal, require_staff} \<Longrightarrow>
     g u = Inr u \<or> (\<exists>t. g u = Inl (if bu_role u = GUEST then 500 else 403, t))"
  by (cases "bu_role u")
     (auto simp: require_admin_def require_superadmin_def require_pii_reveal_def require_staff_def subject_of_cases
       split: if_splits)

text \<open>C34. The frontend's capabilities and the backend's gates admit the same users. Who has the capability to
  administer across organizations passes the admin gate and no one else does; the capability to reveal personal data is
  the gate of the reveal route; the permission for the users entry is the super-admin gate; the roles of the by-category
  survey page are those its staff gate admits. A gate that refuses answers 403, and 500 for a role the policy does not
  know. A by-category survey a federation stores is for the sport linked to its account whatever sport it sends, and
  none without such a sport; administrators store for the sport they send; no one else stores. The routes with an
  organization in the path admit an organization account for its own organization only and every cross-organization
  administrator for all.\<close>

theorem gates_match_capabilities:
  fixes u :: be_user
  shows "(can_cap (Some (bu_role u)) CROSS_ORG_ADMIN \<longleftrightarrow> require_admin u = Inr u) \<and>
    (can_cap (Some (bu_role u)) REVEAL_PII \<longleftrightarrow> require_pii_reveal u = Inr u) \<and>
    (canAccess (Some (bu_role u)) (FEATURE_ACCESS Fusers) \<longleftrightarrow> require_superadmin u = Inr u) \<and>
    (canAccess (Some (bu_role u)) (FEATURE_ACCESS Fbycategory) \<longleftrightarrow> require_staff u = Inr u) \<and>
    (\<forall>g \<in> {require_admin, require_superadmin, require_pii_reveal, require_staff}.
       g u = Inr u \<or> (\<exists>t. g u = Inl (if bu_role u = GUEST then 500 else 403, t))) \<and>
    (\<forall>sent stored. category_survey_sport u sent = Inr stored \<longleftrightarrow>
       (if bu_role u = FEDERATION then bu_sport_id u \<noteq> None \<and> stored = bu_sport_id u
        else can_cap (Some (bu_role u)) CROSS_ORG_ADMIN \<and> stored = sent)) \<and>
    (\<forall>i. enforce_org_access u i = Inr i \<longleftrightarrow>
       bu_role u \<noteq> GUEST \<and> (bu_role u = ORGANIZATION \<longrightarrow> bu_organization_id u = Some i)) \<and>
    (can_cap (Some (bu_role u)) CROSS_ORG_ADMIN \<longrightarrow> (\<forall>i. enforce_org_access u i = Inr i))"
proof -
  have cap: "can_cap (Some (bu_role u)) CROSS_ORG_ADMIN \<longleftrightarrow> bu_role u \<in> {SUPER_ADMIN, ADMIN}"
    by (auto simp: can_cap_def)
  have org: "enforce_org_access u i = Inr i \<longleftrightarrow>
      bu_role u \<noteq> GUEST \<and> (bu_role u = ORGANIZATION \<longrightarrow> bu_organization_id u = Some i)" for i
    unfolding enforce_org_access_def by (simp add: org_policy.enforce_iff)
  have "(can_cap (Some (bu_role u)) REVEAL_PII \<longleftrightarrow> require_pii_reveal u = Inr u) \<and>
    (canAccess (Some (bu_role u)) (FEATURE_ACCESS Fusers) \<longleftrightarrow> require_superadmin u = Inr u) \<and>
    (canAccess (Some (bu_role u)) (FEATURE_ACCESS Fbycategory) \<longleftrightarrow> require_staff u = Inr u)"
    by (auto simp: can_cap_def canAccess_def gate_roles)
  moreover have "\<forall>sent stored. category_survey_sport u sent = Inr stored \<longleftrightarrow>
       (if bu_role u = FEDERATION then bu_sport_id u \<noteq> None \<and> stored = bu_sport_id u
        else can_cap (Some (bu_role u)) CROSS_ORG_ADMIN \<and> stored = sent)"
    by (auto simp: category_survey_own_sport cap)
  ultimately show ?thesis using gate_refusals[of _ u] by (auto simp: cap gate_roles org)
qed

theorem gates_match_capabilities_witness:
  "\<exists>u :: be_user. bu_role u = FEDERATION \<and> require_staff u = Inr u \<and> require_admin u \<noteq> Inr u \<and>
     category_survey_sport u (Some 7) = Inr (Some 3) \<and> category_survey_sport u (Some 7) \<noteq> Inr (Some 7)"
proof -
  let ?u = "\<lparr> bu_id = ''u'', bu_role = FEDERATION, bu_organization_id = None, bu_sport_id = Some 3 \<rparr>"
  from gates_match_capabilities[of ?u] show ?thesis
    by (intro exI[of _ ?u]) (simp add: canAccess_def can_cap_def)
qed

end
