(* ===== verification/Site_Headers.thy ===== *)
theory Site_Headers
  imports Access_Control "HOL-Library.AList" "HOL-Library.Sublist"
begin

text \<open>
  The response headers of src/frontend/next.config.ts: the security headers of every route and the
  caching rules. Which paths a source pattern selects is decided by the framework; the locale
  \<^verbatim>\<open>route_matcher\<close> states its documented laws and is interpreted on a matcher of its own. A
  later entry that matches wins where it sets the same header.
\<close>

section \<open>The entries\<close>

text \<open>A path is the list of its segments. The sources in use: every path, one path, a prefix with anything below it, one
  of several prefixes, and any path that ends in one of several suffixes.\<close>

datatype source =
    Src_every
  | Src_path "string list"
  | Src_below "string list"
  | Src_below_one "string list"
  | Src_suffix "string list"

type_synonym header = "string \<times> string"

definition scriptSrc :: "bool \<Rightarrow> string" where
  "scriptSrc isDev =
     (if isDev then [CHR 0x27] @ ''self'' @ [CHR 0x27] @ '' '' @ [CHR 0x27] @ ''unsafe-eval'' @ [CHR 0x27] @ '' '' @ [CHR 0x27] @ ''unsafe-inline'' @ [CHR 0x27]
      else [CHR 0x27] @ ''self'' @ [CHR 0x27] @ '' '' @ [CHR 0x27] @ ''unsafe-inline'' @ [CHR 0x27] @ '' '' @ [CHR 0x27] @ ''strict-dynamic'' @ [CHR 0x27])"

text \<open>The content security policy as its directives with their sources.\<close>

definition csp_directives :: "bool \<Rightarrow> (string \<times> string) list" where
  "csp_directives isDev =
     [(''default-src'', [CHR 0x27] @ ''self'' @ [CHR 0x27]),
      (''script-src'', scriptSrc isDev),
      (''style-src'', [CHR 0x27] @ ''self'' @ [CHR 0x27] @ '' '' @ [CHR 0x27] @ ''unsafe-inline'' @ [CHR 0x27]),
      (''img-src'', [CHR 0x27] @ ''self'' @ [CHR 0x27] @ '' data: https: blob:''),
      (''font-src'', [CHR 0x27] @ ''self'' @ [CHR 0x27]),
      (''connect-src'', [CHR 0x27] @ ''self'' @ [CHR 0x27] @ '' https://api.cloudinary.com''),
      (''frame-src'', [CHR 0x27] @ ''none'' @ [CHR 0x27]),
      (''object-src'', [CHR 0x27] @ ''none'' @ [CHR 0x27]),
      (''base-uri'', [CHR 0x27] @ ''none'' @ [CHR 0x27]),
      (''form-action'', [CHR 0x27] @ ''self'' @ [CHR 0x27])]"

definition csp_text :: "(string \<times> string) list \<Rightarrow> string" where
  "csp_text ds = join_with ''; '' (map (\<lambda>(k, v). k @ '' '' @ v) ds)"

definition security_headers :: "bool \<Rightarrow> header list" where
  "security_headers isDev =
     [(''Content-Security-Policy'', csp_text (csp_directives isDev)),
      (''Strict-Transport-Security'', ''max-age=63072000; includeSubDomains; preload''),
      (''X-Frame-Options'', ''DENY''),
      (''X-Content-Type-Options'', ''nosniff''),
      (''Referrer-Policy'', ''strict-origin-when-cross-origin''),
      (''Permissions-Policy'', ''camera=(), microphone=(), geolocation=()''),
      (''Cross-Origin-Opener-Policy'', ''same-origin''),
      (''Cross-Origin-Resource-Policy'', ''same-origin''),
      (''Cross-Origin-Embedder-Policy'', ''require-corp'')]"

definition immutable_headers :: "header list" where
  "immutable_headers =
     [(''Cache-Control'', ''public, max-age=31536000, immutable''),
      (''CDN-Cache-Control'', ''public, max-age=31536000, immutable'')]"

definition MEDIA_SUFFIXES :: "string list" where
  "MEDIA_SUFFIXES = [''woff2'', ''woff'', ''ttf'', ''otf'', ''eot'', ''svg'', ''png'', ''jpg'', ''jpeg'', ''gif'', ''webp'', ''avif'', ''ico'']"

definition PORTAL_PREFIXES :: "string list" where
  "PORTAL_PREFIXES =
     [''dashboard'', ''events'', ''sports'', ''organizations'', ''users'', ''cards'', ''reports'', ''participation'',
      ''register'', ''by-number'', ''by-category'', ''by-sport'', ''leader-registration'', ''registrations'', ''open-survey'',
      ''category-submissions'', ''sport-submissions'', ''organizer-registration'', ''organizer-roles'']"

definition header_entries :: "bool \<Rightarrow> (source \<times> header list) list" where
  "header_entries isDev =
     [(Src_every, security_headers isDev),
      (Src_below [''_next'', ''static''], immutable_headers),
      (Src_suffix MEDIA_SUFFIXES, immutable_headers),
      (Src_below [''api''],
         [(''Cache-Control'', ''no-store, max-age=0''), (''CDN-Cache-Control'', ''no-store''), (''Surrogate-Control'', ''no-store'')]),
      (Src_path [''privacy''],
         [(''Cache-Control'', ''public, max-age=300, stale-while-revalidate=60''),
          (''CDN-Cache-Control'', ''public, s-maxage=3600, stale-while-revalidate=300'')]),
      (Src_path [''login''], [(''Cache-Control'', ''no-store''), (''CDN-Cache-Control'', ''no-store'')]),
      (Src_below_one PORTAL_PREFIXES,
         [(''Cache-Control'', ''no-store, max-age=0''), (''CDN-Cache-Control'', ''no-store'')])]"

section \<open>The headers of a path\<close>

definition set_header :: "header \<Rightarrow> header list \<Rightarrow> header list" where
  "set_header h hs = AList.update (fst h) (snd h) hs"

definition response_headers :: "(source \<Rightarrow> string list \<Rightarrow> bool) \<Rightarrow> bool \<Rightarrow> string list \<Rightarrow> header list" where
  "response_headers matches isDev path =
     fold set_header (concat (map snd (filter (\<lambda>e. matches (fst e) path) (header_entries isDev)))) []"

definition header_of :: "(source \<Rightarrow> string list \<Rightarrow> bool) \<Rightarrow> bool \<Rightarrow> string list \<Rightarrow> string \<Rightarrow> string option" where
  "header_of matches isDev path k = map_of (response_headers matches isDev path) k"

text \<open>The rewrite of the api to the backend.\<close>

definition api_rewrite :: "(source \<Rightarrow> string list \<Rightarrow> bool) \<Rightarrow> string option \<Rightarrow> string list \<Rightarrow> string option" where
  "api_rewrite matches target path =
     (if matches (Src_below [''api'']) path
      then Some ((case target of Some u \<Rightarrow> if u = [] then ''http://localhost:8000'' else u | None \<Rightarrow> ''http://localhost:8000'')
                 @ ''/api'' @ concat (map (\<lambda>s. CHR ''/'' # s) (tl path)))
      else None)"

lemma map_of_fold_set_header:
  "map_of (fold set_header hs acc) k = (case map_of (rev hs) k of Some v \<Rightarrow> Some v | None \<Rightarrow> map_of acc k)"
  by (induction hs arbitrary: acc)
     (auto simp: set_header_def update_conv' map_add_def split: option.split)

lemma api_segment:
  "to_lower ''api'' \<notin> to_lower ` set PORTAL_PREFIXES" "to_lower ''api'' \<noteq> to_lower ''privacy''" "to_lower ''api'' \<noteq> to_lower ''login''"
  by code_simp+

section \<open>The laws of the matcher\<close>

locale route_matcher =
  fixes matches :: "source \<Rightarrow> string list \<Rightarrow> bool"
  assumes every: "matches Src_every path"
    and path_self: "matches (Src_path ps) ps"
    and path_only: "matches (Src_path ps) path \<Longrightarrow> map to_lower path = map to_lower ps"
    and below: "matches (Src_below ps) (ps @ rest)"
    and below_only: "matches (Src_below ps) path \<Longrightarrow> map to_lower (take (length ps) path) = map to_lower ps"
    and below_one: "p \<in> set ps \<Longrightarrow> matches (Src_below_one ps) (p # rest)"
    and below_one_only: "matches (Src_below_one ps) path \<Longrightarrow> path \<noteq> [] \<and> to_lower (hd path) \<in> to_lower ` set ps"
    and suffix: "e \<in> set es \<Longrightarrow> t \<noteq> [] \<Longrightarrow> matches (Src_suffix es) (before @ [t @ e])"
    and suffix_only: "matches (Src_suffix es) path \<Longrightarrow>
      path \<noteq> [] \<and> (\<exists>e \<in> set es. \<exists>u. to_lower (last path) = u @ to_lower e)"

begin

lemma header_is:
  assumes "header_entries isDev = pre @ (src, hs) # post"
    and "matches src path" and "map_of (rev hs) k = Some v"
    and "\<And>src' hs'. (src', hs') \<in> set post \<Longrightarrow> matches src' path \<Longrightarrow> k \<notin> fst ` set hs'"
  shows "header_of matches isDev path k = Some v"
proof -
  have "map_of (rev (concat (map snd (filter (\<lambda>e. matches (fst e) path) post)))) k = None"
    using assms(4) by (force simp: map_of_eq_None_iff)
  with assms(1-3) show ?thesis by (simp add: header_of_def response_headers_def map_of_fold_set_header)
qed

lemma header_none:
  assumes "\<And>src hs. (src, hs) \<in> set (header_entries isDev) \<Longrightarrow> matches src path \<Longrightarrow> k \<notin> fst ` set hs"
  shows "header_of matches isDev path k = None"
proof -
  have "map_of (rev (concat (map snd (filter (\<lambda>e. matches (fst e) path) (header_entries isDev))))) k = None"
    using assms by (force simp: map_of_eq_None_iff)
  then show ?thesis by (simp add: header_of_def response_headers_def map_of_fold_set_header)
qed

lemma header_every:
  assumes "(k, v) \<in> set (security_headers isDev)"
  shows "header_of matches isDev path k = Some v"
  by (rule header_is[of isDev "[]", OF _ every])
     (use assms in \<open>auto simp: header_entries_def security_headers_def immutable_headers_def\<close>)

lemma header_portal:
  assumes "p \<in> set PORTAL_PREFIXES" and "(k, v) \<in> {(''Cache-Control'', ''no-store, max-age=0''), (''CDN-Cache-Control'', ''no-store'')}"
  shows "header_of matches isDev (p # rest) k = Some v"
  by (rule header_is[of isDev "butlast (header_entries isDev)", OF _ below_one[OF assms(1)]])
     (use assms(2) in \<open>auto simp: header_entries_def\<close>)

lemma header_api:
  assumes "(k, v) \<in> {(''Cache-Control'', ''no-store, max-age=0''), (''CDN-Cache-Control'', ''no-store''), (''Surrogate-Control'', ''no-store'')}"
  shows "header_of matches isDev (''api'' # rest) k = Some v"
proof -
  have n: "\<not> matches (Src_below_one PORTAL_PREFIXES) (''api'' # rest)"
    using below_one_only[of PORTAL_PREFIXES "''api'' # rest"] api_segment(1) by auto
  have l: "\<not> matches (Src_path [''privacy'']) (''api'' # rest)" "\<not> matches (Src_path [''login'']) (''api'' # rest)"
    using path_only[of "[''privacy'']" "''api'' # rest"] path_only[of "[''login'']" "''api'' # rest"] api_segment(2,3) by auto
  show ?thesis
    by (rule header_is[of isDev "take 3 (header_entries isDev)", OF _ below[of "[''api'']" rest, simplified]])
       (use n l assms in \<open>auto simp: header_entries_def\<close>)
qed

end

section \<open>A matcher, and what follows for the pages\<close>

fun site_match :: "source \<Rightarrow> string list \<Rightarrow> bool" where
  "site_match Src_every path = True"
| "site_match (Src_path ps) path = (path = ps)"
| "site_match (Src_below ps) path = (take (length ps) path = ps)"
| "site_match (Src_below_one ps) path = (path \<noteq> [] \<and> hd path \<in> set ps)"
| "site_match (Src_suffix es) path = (path \<noteq> [] \<and> list_ex (\<lambda>e. strict_suffix e (last path)) es)"

lemma suffix_to_lower: "strict_suffix e t \<Longrightarrow> \<exists>u. to_lower t = u @ to_lower e"
  by (auto simp: strict_suffix_def suffix_def to_lower_def)

interpretation site: route_matcher site_match
  by unfold_locales
     (auto simp: list_ex_iff strict_suffix_def suffix_def intro!: suffix_to_lower[unfolded strict_suffix_def suffix_def] bexI)

definition page_segments :: "string \<Rightarrow> string list" where
  "page_segments p = filter (\<lambda>t. t \<noteq> []) (split_on (CHR ''/'') p)"

definition never_cached :: "(source \<Rightarrow> string list \<Rightarrow> bool) \<Rightarrow> bool \<Rightarrow> string list \<Rightarrow> bool" where
  "never_cached matches isDev path \<longleftrightarrow>
     header_of matches isDev path ''Cache-Control'' = Some ''no-store, max-age=0'' \<and>
     header_of matches isDev path ''CDN-Cache-Control'' = Some ''no-store''"

lemma guarded_pages_listed:
  "list_all (\<lambda>g. fst g = ''/import'' \<or> hd (page_segments (fst g)) \<in> set PORTAL_PREFIXES \<and> page_segments (fst g) \<noteq> []) page_guard"
  by code_simp

lemma import_segment:
  "to_lower ''import'' \<notin> to_lower ` set PORTAL_PREFIXES"
  "to_lower ''import'' \<notin> to_lower ` {''_next'', ''api'', ''privacy'', ''login''}"
  "list_all (\<lambda>e. drop (6 - length e) (to_lower ''import'') \<noteq> to_lower e) MEDIA_SUFFIXES"
  "list_all (\<lambda>e. length (to_lower e) = length e \<and> length e \<le> 6) MEDIA_SUFFIXES"
  by code_simp+

context route_matcher
begin

lemma never_cached_portal: "p \<in> set (''api'' # PORTAL_PREFIXES) \<Longrightarrow> never_cached matches isDev (p # rest)"
  by (auto simp: never_cached_def header_portal header_api)

lemma import_not_media: "\<not> matches (Src_suffix MEDIA_SUFFIXES) [''import'']"
proof
  assume "matches (Src_suffix MEDIA_SUFFIXES) [''import'']"
  from suffix_only[OF this] obtain e u where e: "e \<in> set MEDIA_SUFFIXES" "to_lower ''import'' = u @ to_lower e" by auto
  have "length (to_lower ''import'') = 6" by code_simp
  with e import_segment(4) have "length u = 6 - length e" by (auto simp: list_all_iff)
  then have "drop (6 - length e) (to_lower ''import'') = to_lower e" using e(2) by simp
  with e(1) import_segment(3) show False by (auto simp: list_all_iff)
qed

lemma import_no_cache_rule: "header_of matches isDev [''import''] ''Cache-Control'' = None"
proof (rule header_none)
  fix src hs assume "(src, hs) \<in> set (header_entries isDev)" "matches src [''import'']"
  moreover have "\<not> matches (Src_below_one PORTAL_PREFIXES) [''import'']"
    using below_one_only[of PORTAL_PREFIXES "[''import'']"] import_segment(1) by auto
  moreover have "\<not> matches (Src_path [q]) [''import'']" if "q \<in> {''privacy'', ''login''}" for q
    using that path_only[of "[q]" "[''import'']"] import_segment(2) by auto
  moreover have "\<not> matches (Src_below [''api'']) [''import'']" "\<not> matches (Src_below [''_next'', ''static'']) [''import'']"
    using below_only[of "[''api'']" "[''import'']"] below_only[of "[''_next'', ''static'']" "[''import'']"] import_segment(2) by auto
  ultimately show "''Cache-Control'' \<notin> fst ` set hs"
    using import_not_media by (auto simp: header_entries_def security_headers_def)
qed

lemma guarded_never_cached:
  assumes "(page, g) \<in> set page_guard" and "page \<noteq> ''/import''"
  shows "never_cached matches isDev (page_segments page)"
proof -
  have "hd (page_segments page) \<in> set PORTAL_PREFIXES" "page_segments page \<noteq> []"
    using guarded_pages_listed assms by (auto simp: list_all_iff)
  then show ?thesis using never_cached_portal[of "hd (page_segments page)" isDev "tl (page_segments page)"] by simp
qed

end

text \<open>C35. Under any matcher that follows the documented laws, every path of the site carries the security headers
  unchanged; whatever lies under the api or under a listed portal prefix is never cached, also where its name ends like
  a picture; every page of the table of the portal pages is among them except the import page, which no caching rule covers.\<close>

theorem portal_never_cached:
  assumes "route_matcher m"
  shows "(\<forall>(k, v) \<in> set (security_headers isDev). header_of m isDev path k = Some v) \<and>
    (\<forall>p \<in> set (''api'' # PORTAL_PREFIXES). never_cached m isDev (p # rest)) \<and>
    (\<forall>(page, g) \<in> set page_guard. page \<noteq> ''/import'' \<longrightarrow> never_cached m isDev (page_segments page)) \<and>
    header_of m isDev [''import''] ''Cache-Control'' = None"
  using route_matcher.header_every[OF assms] route_matcher.never_cached_portal[OF assms]
    route_matcher.guarded_never_cached[OF assms] route_matcher.import_no_cache_rule[OF assms]
  by (auto simp del: set_simps)

theorem portal_never_cached_witness:
  "never_cached site_match False [''registrations'', ''5'', ''photo.png''] \<and>
   site_match (Src_suffix MEDIA_SUFFIXES) [''registrations'', ''5'', ''photo.png''] \<and>
   header_of site_match True [''cards''] ''X-Frame-Options'' = Some ''DENY''"
proof -
  have "site_match (Src_suffix MEDIA_SUFFIXES) [''registrations'', ''5'', ''photo.png'']" by code_simp
  moreover have "''registrations'' \<in> set PORTAL_PREFIXES" "(''X-Frame-Options'', ''DENY'') \<in> set (security_headers True)"
    by (simp_all add: PORTAL_PREFIXES_def security_headers_def)
  ultimately show ?thesis
    using portal_never_cached[OF site.route_matcher_axioms, of False _ "[''5'', ''photo.png'']"]
      portal_never_cached[OF site.route_matcher_axioms, of True "[''cards'']"] by fastforce
qed

section \<open>Frames\<close>

text \<open>A browser shows a document in a frame only where neither its own headers nor the policy of the embedding page forbid it.\<close>

definition frame_allowed :: "(source \<Rightarrow> string list \<Rightarrow> bool) \<Rightarrow> bool \<Rightarrow> string list \<Rightarrow> bool" where
  "frame_allowed matches isDev document \<longleftrightarrow>
     header_of matches isDev document ''X-Frame-Options'' \<noteq> Some ''DENY'' \<and>
     map_of (csp_directives isDev) ''frame-src'' \<noteq> Some ([CHR 0x27] @ ''none'' @ [CHR 0x27])"

context route_matcher
begin

lemma no_frames: "\<not> frame_allowed matches isDev document"
  using header_every[of "''X-Frame-Options''" "''DENY''" isDev document]
  by (simp add: frame_allowed_def security_headers_def)

end

end
