(* ===== verification/Identity_Cards.thy ===== *)
theory Identity_Cards
  imports Access_Policy Site_Headers
begin

text \<open>
  The identity cards, modules/cards: schemas, adapter and hook, the page that chooses an event
  and an organization and pages through the cards, the frame a card is drawn in with its
  messages, and the dialog of one card; with the shape of the answers of the backend routes
  (src/backend/src/api/v1/routes/card.py), which do not fit the schemas.
\<close>

section \<open>Schemas, api and adapter\<close>

definition cardDataSchema :: schema where
  "cardDataSchema = ZObject False
     [(''pId'', zstr), (''orgId'', zstr), (''eventId'', zstr), (''participantName'', zstr), (''prefix'', zstr),
      (''photoUrl'', ZOptional zstr), (''categoryLetter'', zstr), (''sportName'', zstr), (''cardUuid'', zstr),
      (''eventDateLine'', ZOptional zstr), (''subtitleKh'', ZOptional zstr), (''orgName'', ZOptional zstr),
      (''eventName'', ZOptional zstr)]"

definition paginatedCardsResponseSchema :: schema where
  "paginatedCardsResponseSchema = ZObject False
     [(''items'', ZArray cardDataSchema), (''total'', znum), (''page'', znum), (''page_size'', znum)]"

definition ep_card :: "string \<Rightarrow> string \<Rightarrow> string \<Rightarrow> string" where
  "ep_card pId orgId eventId = ''/api/v1/card/'' @ pId @ ''/'' @ orgId @ ''/'' @ eventId"
definition ep_cards :: "string \<Rightarrow> string \<Rightarrow> string" where
  "ep_cards orgId eventId = ''/api/v1/cards/'' @ orgId @ ''/'' @ eventId"

definition apiGetCard :: "string \<Rightarrow> string \<Rightarrow> string \<Rightarrow> request" where
  "apiGetCard pId orgId eventId = get_req (ep_card pId orgId eventId) []"

definition apiGetCards :: "string \<Rightarrow> string \<Rightarrow> (string \<times> js) list \<Rightarrow> request" where
  "apiGetCards orgId eventId params = get_req (ep_cards orgId eventId) params"

definition getCard :: "parser \<Rightarrow> backend \<Rightarrow> string \<Rightarrow> string \<Rightarrow> string \<Rightarrow> (js_error, js) result" where
  "getCard parse srv pId orgId eventId = parsed_call parse srv cardDataSchema (apiGetCard pId orgId eventId)"

definition getCards :: "parser \<Rightarrow> backend \<Rightarrow> string \<Rightarrow> string \<Rightarrow> nat \<Rightarrow> nat \<Rightarrow> (js_error, js) result" where
  "getCards parse srv orgId eventId page pageSize =
     parsed_call parse srv paginatedCardsResponseSchema
       (apiGetCards orgId eventId [(''page'', JInt (int page)), (''page_size'', JInt (int pageSize))])"

section \<open>The hook\<close>

text \<open>
  The query is off without an organization and an event; while another page loads the data of the
  page before stays. The data is None before any answer and after a failure.
\<close>

definition cards_enabled :: "string \<Rightarrow> string \<Rightarrow> bool" where
  "cards_enabled orgId eventId \<longleftrightarrow> orgId \<noteq> [] \<and> eventId \<noteq> []"

definition useCards_query :: "parser \<Rightarrow> backend \<Rightarrow> string \<Rightarrow> string \<Rightarrow> nat \<Rightarrow> js option" where
  "useCards_query parse srv orgId eventId page =
     (if cards_enabled orgId eventId
      then (case getCards parse srv orgId eventId page 12 of Inr d \<Rightarrow> Some d | Inl _ \<Rightarrow> None) else None)"

definition hook_cards :: "js option \<Rightarrow> js list" where
  "hook_cards data = (case data of Some d \<Rightarrow> (case js_get ''items'' d of JArr xs \<Rightarrow> xs | _ \<Rightarrow> []) | None \<Rightarrow> [])"

definition hook_total :: "js option \<Rightarrow> rat" where
  "hook_total data = (case data of Some d \<Rightarrow> (case js_get ''total'' d of JNum (Fin r) \<Rightarrow> r | _ \<Rightarrow> 0) | None \<Rightarrow> 0)"

section \<open>The page\<close>

record card_grid =
  cg_eventId :: string
  cg_orgId :: string
  cg_page :: int
  cg_search :: string
  cg_card :: "js option"

definition cg_start :: card_grid where
  "cg_start = \<lparr> cg_eventId = [], cg_orgId = [], cg_page = 1, cg_search = [], cg_card = None \<rparr>"

record cards_context =
  cx_isAdmin :: bool
  cx_user :: js
  cx_events :: "js list"
  cx_orgs :: "js list"

definition grid_eventId :: "cards_context \<Rightarrow> card_grid \<Rightarrow> string" where
  "grid_eventId cx s =
     (if cg_eventId s \<noteq> [] then cg_eventId s
      else case cx_events cx of e # _ \<Rightarrow> js_string (js_get ''id'' e) | [] \<Rightarrow> [])"

definition grid_orgId :: "cards_context \<Rightarrow> card_grid \<Rightarrow> string" where
  "grid_orgId cx s =
     (if cx_isAdmin cx then cg_orgId s
      else if truthy (js_get ''org_id'' (cx_user cx)) then js_string (js_get ''org_id'' (cx_user cx)) else [])"

definition card_by_id :: "string \<Rightarrow> js list \<Rightarrow> js option" where
  "card_by_id i xs = find (\<lambda>x. js_string (js_get ''id'' x) = i) xs"

definition selected_name :: "string \<Rightarrow> string \<Rightarrow> js list \<Rightarrow> js" where
  "selected_name k i xs = (case card_by_id i xs of Some x \<Rightarrow> js_get k x | None \<Rightarrow> JUndef)"

definition filteredCards :: "card_grid \<Rightarrow> js list \<Rightarrow> js list" where
  "filteredCards s cards =
     (if cg_search s = [] then cards
      else filter (\<lambda>c. contains_str (to_lower (js_str (js_get ''participantName'' c))) (to_lower (cg_search s))) cards)"

definition cards_totalPages :: "rat \<Rightarrow> int" where
  "cards_totalPages n = \<lceil>n / 12\<rceil>"

datatype grid_event =
    Cg_event string
  | Cg_org string
  | Cg_search string
  | Cg_view js
  | Cg_close
  | Cg_previous
  | Cg_next

text \<open>The organizations are offered to administrators; the page buttons are shown for more than one page.\<close>

fun cg_step :: "cards_context \<Rightarrow> js option \<Rightarrow> grid_event \<Rightarrow> card_grid \<Rightarrow> card_grid" where
  "cg_step cx data (Cg_event v) s =
     (if v \<in> set (map (\<lambda>e. js_string (js_get ''id'' e)) (cx_events cx)) then s\<lparr>cg_eventId := v\<rparr> else s)"
| "cg_step cx data (Cg_org v) s =
     (if cx_isAdmin cx \<and> v \<in> set (map (\<lambda>e. js_string (js_get ''id'' e)) (cx_orgs cx)) then s\<lparr>cg_orgId := v\<rparr> else s)"
| "cg_step cx data (Cg_search t) s = s\<lparr>cg_search := t\<rparr>"
| "cg_step cx data (Cg_view c) s = (if c \<in> set (filteredCards s (hook_cards data)) then s\<lparr>cg_card := Some c\<rparr> else s)"
| "cg_step cx data Cg_close s = s\<lparr>cg_card := None\<rparr>"
| "cg_step cx data Cg_previous s =
     (if 1 < cards_totalPages (hook_total data) \<and> cg_page s \<noteq> 1 then s\<lparr>cg_page := max 1 (cg_page s - 1)\<rparr> else s)"
| "cg_step cx data Cg_next s =
     (if 1 < cards_totalPages (hook_total data) \<and> cg_page s \<noteq> cards_totalPages (hook_total data)
      then s\<lparr>cg_page := min (cards_totalPages (hook_total data)) (cg_page s + 1)\<rparr> else s)"

datatype grid_view = Gv_loading | Gv_cards "js list" | Gv_none

definition grid_view :: "bool \<Rightarrow> card_grid \<Rightarrow> js option \<Rightarrow> grid_view" where
  "grid_view isLoading s data =
     (if isLoading then Gv_loading
      else if filteredCards s (hook_cards data) = [] then Gv_none else Gv_cards (filteredCards s (hook_cards data)))"

text \<open>The dialog of one card.\<close>

definition modal_title :: "js \<Rightarrow> string" where
  "modal_title c =
     (if truthy (js_get ''prefix'' c) then js_str (js_get ''prefix'' c) @ '' '' else []) @ js_str (js_get ''participantName'' c)"

definition modal_description :: "js \<Rightarrow> js" where
  "modal_description c = js_or (js_or (js_get ''orgName'' c) (js_get ''eventName'' c)) JUndef"

section \<open>The frame of a card\<close>

text \<open>
  The card travels to the document of the frame as a message, once that document has said it is
  ready: with the render that follows, and with every later one, as the card's fields are collected
  anew each time. A message of that type counts whatever window it comes from, and the card goes to
  whatever document the frame shows.
\<close>

record card_frame =
  fr_ready :: bool
  fr_card :: js
  fr_sent :: "js list"

definition frame_start :: "js \<Rightarrow> card_frame" where
  "frame_start c = \<lparr> fr_ready = False, fr_card = c, fr_sent = [] \<rparr>"

datatype frame_event = Fr_message js | Fr_render js

definition card_update :: "js \<Rightarrow> js" where
  "card_update cardData = js_merge (JObj [(''type'', JStr ''CARD_UPDATE'')]) cardData"

definition sendUpdate :: "card_frame \<Rightarrow> card_frame" where
  "sendUpdate f = (if fr_ready f then f\<lparr>fr_sent := fr_sent f @ [card_update (fr_card f)]\<rparr> else f)"

text \<open>Setting the flag again is no new render.\<close>

fun frame_step :: "frame_event \<Rightarrow> card_frame \<Rightarrow> card_frame" where
  "frame_step (Fr_message m) f =
     (if truthy m \<and> js_get ''type'' m = JStr ''CARD_READY'' \<and> \<not> fr_ready f then sendUpdate (f\<lparr>fr_ready := True\<rparr>) else f)"
| "frame_step (Fr_render c) f = sendUpdate (f\<lparr>fr_card := c\<rparr>)"

definition frame_opacity :: "card_frame \<Rightarrow> nat" where
  "frame_opacity f = (if fr_ready f then 1 else 0)"

section \<open>The backend routes\<close>

text \<open>The fields of the declared response model; others are dropped from the answer.\<close>

record card_row =
  kr_id :: int
  kr_name :: string
  kr_gender :: string
  kr_sport :: string
  kr_role :: string
  kr_org_name :: string
  kr_card_type :: string
  kr_profile_image :: "string option"

definition card_json :: "card_row \<Rightarrow> js" where
  "card_json r =
     JObj [(''id'', JInt (kr_id r)), (''name'', JStr (kr_name r)), (''gender'', JStr (kr_gender r)),
           (''sport'', JStr (kr_sport r)), (''role'', JStr (kr_role r)), (''org_name'', JStr (kr_org_name r)),
           (''card_type'', JStr (kr_card_type r)),
           (''profile_image'', case kr_profile_image r of Some t \<Rightarrow> JStr t | None \<Rightarrow> JNull)]"

definition get_cards_route :: "(int \<Rightarrow> int \<Rightarrow> card_row list \<times> nat) \<Rightarrow> be_user \<Rightarrow> int \<Rightarrow> int \<Rightarrow> (http_exception, js) result" where
  "get_cards_route rows u org_id event_id =
     bind_r (enforce_org_access u org_id) (\<lambda>_.
       if fst (rows org_id event_id) = [] then Inl (404, ''No cards found for this org/event'')
       else Inr (JObj [(''cards'', JArr (map card_json (fst (rows org_id event_id)))),
                       (''total'', JInt (int (snd (rows org_id event_id))))]))"

definition get_card_route :: "(string \<Rightarrow> int \<Rightarrow> int \<Rightarrow> card_row option) \<Rightarrow> be_user \<Rightarrow> string \<Rightarrow> int \<Rightarrow> int \<Rightarrow> (http_exception, js) result" where
  "get_card_route row u p_id org_id event_id =
     bind_r (enforce_org_access u org_id) (\<lambda>_.
       case row p_id org_id event_id of
         None \<Rightarrow> Inl (404, ''Card not found for this p_id or participant not in specified org/event'')
       | Some r \<Rightarrow> Inr (card_json r))"

section \<open>What the backend answers is never a page of cards\<close>

context zod_parser
begin

lemma cards_need_items:
  assumes "js_get ''items'' body = JUndef"
  shows "\<not> (\<exists>d. parse paginatedCardsResponseSchema body = Inr d)"
proof
  assume "\<exists>d. parse paginatedCardsResponseSchema body = Inr d"
  then obtain d where "parse paginatedCardsResponseSchema body = Inr d" by blast
  from object_get[OF this[unfolded paginatedCardsResponseSchema_def], of "''items''" "ZArray cardDataSchema"] assms
  show False by (simp add: p_array)
qed

lemma card_needs_pId:
  assumes "js_get ''pId'' body = JUndef"
  shows "\<not> (\<exists>d. parse cardDataSchema body = Inr d)"
proof
  assume "\<exists>d. parse cardDataSchema body = Inr d"
  then obtain d where "parse cardDataSchema body = Inr d" by blast
  from object_get[OF this[unfolded cardDataSchema_def], of "''pId''" zstr] assms
  show False by (simp add: p_string)
qed

end

lemma cards_answer_items: "get_cards_route rows u i e = Inr body \<Longrightarrow> js_get ''items'' body = JUndef"
  by (auto simp: get_cards_route_def bind_r_eq_Inr or_else_def split: if_splits)

lemma card_answer_pId: "get_card_route row u p i e = Inr body \<Longrightarrow> js_get ''pId'' body = JUndef"
  by (auto simp: get_card_route_def card_json_def bind_r_eq_Inr or_else_def split: option.splits)

lemma get_cards_route_Inr:
  "(\<exists>body. get_cards_route rows u i e = Inr body) \<longleftrightarrow>
     bu_role u \<noteq> GUEST \<and> (bu_role u = ORGANIZATION \<longrightarrow> bu_organization_id u = Some i) \<and> fst (rows i e) \<noteq> []"
  by (auto simp: get_cards_route_def enforce_org_access_def org_policy.enforce_bind)

text \<open>C38. The cards page cannot show a card. The route answers those who may see the organization, and only when it
  has cards there; but its answer has neither the list nor the identifiers the frontend asks for under the names it
  asks for them, so whatever was answered the query fails, the page says there are none for every event, organization,
  page and search text, and the request of a single card fails too.\<close>

theorem cards_never_shown:
  assumes "zod_parser parse"
    and "\<forall>rq body. srv rq = Inr body \<longrightarrow>
      (\<exists>i e. get_cards_route rows u i e = Inr body) \<or> (\<exists>p i e. get_card_route row u p i e = Inr body)"
  shows "(\<forall>orgId eventId page. useCards_query parse srv orgId eventId page = None) \<and>
    (\<forall>s orgId eventId page. grid_view False s (useCards_query parse srv orgId eventId page) = Gv_none) \<and>
    (\<forall>p orgId eventId. \<exists>err. getCard parse srv p orgId eventId = Inl err) \<and>
    (\<forall>i e. (\<exists>body. get_cards_route rows u i e = Inr body) \<longleftrightarrow>
       bu_role u \<noteq> GUEST \<and> (bu_role u = ORGANIZATION \<longrightarrow> bu_organization_id u = Some i) \<and> fst (rows i e) \<noteq> [])"
proof -
  have single_items: "js_get ''items'' body = JUndef" if "get_card_route row u p i e = Inr body" for p i e body
    using that by (auto simp: get_card_route_def card_json_def bind_r_eq_Inr or_else_def split: option.splits)
  have many_pId: "js_get ''pId'' body = JUndef" if "get_cards_route rows u i e = Inr body" for i e body
    using that by (auto simp: get_cards_route_def bind_r_eq_Inr or_else_def split: if_splits)
  have body: "js_get ''items'' body = JUndef \<and> js_get ''pId'' body = JUndef" if "srv rq = Inr body" for rq body
    using assms(2)[rule_format, OF that] cards_answer_items card_answer_pId single_items many_pId by blast
  have g: "\<nexists>d. getCards parse srv orgId eventId page 12 = Inr d" for orgId eventId page
    using body zod_parser.cards_need_items[OF assms(1)] by (auto simp: getCards_def parsed_call_Inr)
  have none: "useCards_query parse srv orgId eventId page = None" for orgId eventId page
    using g by (auto simp: useCards_query_def split: sum.split)
  have "\<exists>err. getCard parse srv p orgId eventId = Inl err" for p orgId eventId
    using body zod_parser.card_needs_pId[OF assms(1)]
    by (cases "getCard parse srv p orgId eventId") (auto simp: getCard_def parsed_call_Inr)
  moreover have "grid_view False s None = Gv_none" for s
    by (simp add: grid_view_def filteredCards_def hook_cards_def)
  ultimately show ?thesis using none get_cards_route_Inr by simp
qed

definition sample_cards :: "int \<Rightarrow> int \<Rightarrow> card_row list \<times> nat" where
  "sample_cards i e =
     ([\<lparr> kr_id = 1, kr_name = ''A B'', kr_gender = ''MALE'', kr_sport = ''S'', kr_role = ''Athlete'', kr_org_name = ''P'',
         kr_card_type = ''F'', kr_profile_image = None \<rparr>], 1)"

definition own_org_user :: be_user where
  "own_org_user = \<lparr> bu_id = ''u'', bu_role = ORGANIZATION, bu_organization_id = Some 5, bu_sport_id = None \<rparr>"

definition sample_cards_server :: backend where
  "sample_cards_server rq =
     (case get_cards_route sample_cards own_org_user 5 2 of Inr b \<Rightarrow> Inr b | Inl _ \<Rightarrow> Inl (OtherError []))"

theorem cards_never_shown_witness:
  "(\<exists>body. get_cards_route sample_cards own_org_user 5 2 = Inr body) \<and>
   \<not> (\<exists>body. get_cards_route sample_cards own_org_user 6 2 = Inr body) \<and>
   grid_view False cg_start (useCards_query zparse sample_cards_server ''5'' ''2'' 1) = Gv_none"
proof -
  have a: "\<forall>rq body. sample_cards_server rq = Inr body \<longrightarrow>
      (\<exists>i e. get_cards_route sample_cards own_org_user i e = Inr body) \<or>
      (\<exists>p i e. get_card_route (\<lambda>_ _ _. None) own_org_user p i e = Inr body)"
    by (auto simp: sample_cards_server_def split: sum.splits)
  note t = cards_never_shown[where srv = sample_cards_server, OF zp.zod_parser_axioms a]
  have "\<forall>i e. (\<exists>body. get_cards_route sample_cards own_org_user i e = Inr body) \<longleftrightarrow> i = 5"
    using t[THEN conjunct2, THEN conjunct2, THEN conjunct2] by (simp add: own_org_user_def sample_cards_def)
  then show ?thesis using t[THEN conjunct2, THEN conjunct1] by simp
qed

section \<open>The grid over any answers\<close>

text \<open>The page number stays at one or above whatever the answers are, and no selection moves it: after another event or
  organization was chosen the page asked for is still the old one.\<close>

lemma cg_step_keeps_page:
  "cg_page (cg_step cx data (Cg_event v) s) = cg_page s" "cg_page (cg_step cx data (Cg_org v) s) = cg_page s"
  "cg_page (cg_step cx data (Cg_search t) s) = cg_page s"
  by simp_all

lemma cg_page_bounds:
  assumes "1 \<le> cg_page s"
  shows "1 \<le> cg_page (cg_step cx data e s)"
    and "cg_page s \<le> cards_totalPages (hook_total data) \<Longrightarrow> cg_page (cg_step cx data e s) \<le> cards_totalPages (hook_total data)"
  using assms by (cases e; simp)+

lemma cg_pages_positive: "1 \<le> cg_page (fold (\<lambda>(data, e). cg_step cx data e) es cg_start)"
proof -
  have "1 \<le> cg_page s \<Longrightarrow> 1 \<le> cg_page (fold (\<lambda>(data, e). cg_step cx data e) es s)" for s
    by (induction es arbitrary: s) (auto simp: cg_page_bounds(1))
  then show ?thesis by (simp add: cg_start_def)
qed

text \<open>The search looks at the cards of the page only.\<close>

lemma search_of_page: "set (filteredCards s cards) \<subseteq> set cards"
  by (auto simp: filteredCards_def)

text \<open>A user who may not cross organizations asks for the own one whatever is selected.\<close>

lemma grid_own_org:
  "\<not> cx_isAdmin cx \<Longrightarrow> grid_orgId cx (fold (\<lambda>(data, e). cg_step cx data e) es s) = grid_orgId cx s"
  by (simp add: grid_orgId_def)

section \<open>The messages of the frame\<close>

inductive frame_reach :: "js \<Rightarrow> card_frame \<Rightarrow> bool" for c where
  start: "frame_reach c (frame_start c)"
| step: "frame_reach c f \<Longrightarrow> frame_reach c (frame_step e f)"

text \<open>Nothing is sent to a frame that was never ready; afterwards it was last sent the card that is shown.\<close>

lemma frame_told:
  "frame_reach c f \<Longrightarrow> (if fr_ready f then fr_sent f \<noteq> [] \<and> last (fr_sent f) = card_update (fr_card f) else fr_sent f = [])"
proof (induction rule: frame_reach.induct)
  case (step f e)
  then show ?case by (cases e) (auto simp: sendUpdate_def split: if_splits)
qed (simp add: frame_start_def)

lemma frame_card_payload:
  assumes "distinct (map fst fs)" and "''type'' \<notin> fst ` set fs"
  shows "js_get ''type'' (card_update (JObj fs)) = JStr ''CARD_UPDATE''"
    and "map_of fs k = Some v \<Longrightarrow> js_get k (card_update (JObj fs)) = v"
  using assms by (simp_all add: card_update_def js_get_merge_JObj map_of_eq_None_iff[THEN iffD2] or_else_def)

text \<open>The site forbids the frame: its document is served with a header against frames, and the page with a policy against them.\<close>

lemma card_template_blocked: "\<not> frame_allowed site_match isDev [''card-template.html'']"
  by (rule site.no_frames)

end
