(* ===== verification/Participation_Entry.thy ===== *)
theory Participation_Entry
  imports Access_Policy Review_Detail Survey_By_Number
begin

text \<open>
  The form with which an organization adds a participation (modules/participation,
  ParticipationForm.tsx) and the route both it and the by-number survey post to
  (src/backend/src/api/v1/routes/participation_per_sport.py). The lemmas set the two clients side
  by side: what the survey posts is read by the route, what the form posts never is.
\<close>

section \<open>The form\<close>

datatype entry_field = En_enroll_id | En_event_id | En_sport_id | En_category_id

fun entry_name :: "entry_field \<Rightarrow> string" where
  "entry_name En_enroll_id = ''enroll_id''"
| "entry_name En_event_id = ''event_id''"
| "entry_name En_sport_id = ''sport_id''"
| "entry_name En_category_id = ''category_id''"

definition ENTRY_FIELDS :: "entry_field list" where
  "ENTRY_FIELDS = [En_enroll_id, En_event_id, En_sport_id, En_category_id]"

fun entry_required :: "entry_field \<Rightarrow> bool" where
  "entry_required En_category_id = False"
| "entry_required _ = True"

record entry_form =
  en_values :: "entry_field \<Rightarrow> string"
  en_errors :: "entry_field list"
  en_open :: bool

definition entry_start :: entry_form where
  "entry_start = \<lparr> en_values = (\<lambda>_. []), en_errors = [], en_open = True \<rparr>"

text \<open>A registered number: the empty text is not a number.\<close>

definition valueAsNumber :: "string \<Rightarrow> js" where
  "valueAsNumber t = JNum (if t = [] then NaN else to_number t)"

definition entry_payload :: "(entry_field \<Rightarrow> string) \<Rightarrow> js" where
  "entry_payload vs = JObj (map (\<lambda>f. (entry_name f, valueAsNumber (vs f))) ENTRY_FIELDS)"

definition entry_missing :: "(entry_field \<Rightarrow> string) \<Rightarrow> entry_field list" where
  "entry_missing vs = filter (\<lambda>f. entry_required f \<and> vs f = []) ENTRY_FIELDS"

text \<open>A flat body as JSON: what is no finite number is null.\<close>

fun json_value :: "js \<Rightarrow> js" where
  "json_value (JNum n) = (if is_finite n then JNum n else JNull)"
| "json_value (JObj fs) = JObj (map (\<lambda>(k, v). (k, case v of JNum n \<Rightarrow> if is_finite n then v else JNull | _ \<Rightarrow> v)) fs)"
| "json_value v = v"

datatype entry_event = En_change entry_field string | En_submit

text \<open>A step gives the form after it and the request it sent; the answer to a request is a parameter.\<close>

fun entry_step :: "parser \<Rightarrow> backend \<Rightarrow> entry_event \<Rightarrow> entry_form \<Rightarrow> entry_form \<times> js option" where
  "entry_step parse srv (En_change f t) s = (s\<lparr>en_values := (en_values s)(f := t)\<rparr>, None)"
| "entry_step parse srv En_submit s =
     (if entry_missing (en_values s) \<noteq> [] then (s\<lparr>en_errors := entry_missing (en_values s)\<rparr>, None)
      else
        (case participation_create parse srv (json_value (entry_payload (en_values s))) of
           Inr _ \<Rightarrow> (entry_start\<lparr>en_open := False\<rparr>, Some (json_value (entry_payload (en_values s))))
         | Inl _ \<Rightarrow> (s\<lparr>en_errors := []\<rparr>, Some (json_value (entry_payload (en_values s))))))"

section \<open>The route\<close>

record participation_in =
  pi_org_id :: int
  pi_events_id :: int
  pi_sports_id :: int
  pi_organization_id :: int
  pi_counts :: "(string \<times> int option) list"

text \<open>A count may be absent, which is zero, or null. Only numbers are read: no client sends a text here.\<close>

fun count_body :: "js \<Rightarrow> int option option" where
  "count_body JUndef = Some (Some 0)"
| "count_body JNull = Some None"
| "count_body v = map_option Some (int_query v)"

definition PARTICIPATION_COUNTS :: "string list" where
  "PARTICIPATION_COUNTS = [''athlete_female_count'', ''leader_female_count'', ''athlete_male_count'', ''leader_male_count'']"

definition counts_body :: "js \<Rightarrow> (string \<times> int option) list option" where
  "counts_body body =
     (if list_all (\<lambda>k. count_body (js_get k body) \<noteq> None) PARTICIPATION_COUNTS
      then Some (map (\<lambda>k. (k, case count_body (js_get k body) of Some c \<Rightarrow> c | None \<Rightarrow> None)) PARTICIPATION_COUNTS)
      else None)"

definition participation_body :: "js \<Rightarrow> participation_in option" where
  "participation_body body =
     (case (int_query (js_get ''org_id'' body), int_query (js_get ''events_id'' body), int_query (js_get ''sports_id'' body),
            int_query (js_get ''organization_id'' body), counts_body body) of
        (Some o1, Some e, Some s, Some g, Some cs) \<Rightarrow>
          Some \<lparr> pi_org_id = o1, pi_events_id = e, pi_sports_id = s, pi_organization_id = g, pi_counts = cs \<rparr>
      | _ \<Rightarrow> None)"

text \<open>The limiter, the table of events (whether the by-number phase is open) and the insert are parameters.\<close>

definition create_participation_per_sport ::
  "http_exception option \<Rightarrow> (int \<Rightarrow> bool option) \<Rightarrow> (participation_in \<Rightarrow> (http_exception, js) result) \<Rightarrow> be_user \<Rightarrow> js \<Rightarrow>
    (http_exception, js) result" where
  "create_participation_per_sport limited find_event insert_row u body =
     (case participation_body body of
        None \<Rightarrow> Inl (422, ''Validation error'')
      | Some obj_in \<Rightarrow>
          (case limited of
             Some e \<Rightarrow> Inl e
           | None \<Rightarrow>
               bind_r (enforce_org_access u (pi_org_id obj_in)) (\<lambda>_.
                 case find_event (pi_events_id obj_in) of
                   None \<Rightarrow> Inl (404, ''Event not found'')
                 | Some survey_number_is_open \<Rightarrow>
                     if \<not> survey_number_is_open
                     then Inl (403, ''Survey by number phase is not currently open for this event.'')
                     else insert_row obj_in)))"

section \<open>What the route makes of the two clients\<close>

lemma entry_not_read: "participation_body (json_value (entry_payload vs)) = None"
proof -
  have "js_get ''org_id'' (json_value (entry_payload vs)) = JUndef"
    by (simp add: entry_payload_def ENTRY_FIELDS_def or_else_def)
  then show ?thesis by (simp add: participation_body_def)
qed

definition sport_counts :: "js \<Rightarrow> (string \<Rightarrow> int) \<Rightarrow> bool" where
  "sport_counts sport n \<longleftrightarrow> (\<forall>k \<in> set COUNT_FIELDS. js_get k sport = JInt (n k))"

lemma survey_counts:
  assumes "sport_counts sport n"
  shows "counts_body (bn_post_body org ev sport) = Some (map (\<lambda>k. (k, Some (n k))) PARTICIPATION_COUNTS)"
proof -
  have "js_get k (bn_post_body org ev sport) = JInt (n k)" if "k \<in> set PARTICIPATION_COUNTS" for k
    using that assms by (auto simp: PARTICIPATION_COUNTS_def bn_post_body_def COUNT_FIELDS_def sport_counts_def or_else_def)
  then have "count_body (js_get k (bn_post_body org ev sport)) = Some (Some (n k))" if "k \<in> set PARTICIPATION_COUNTS" for k
    using that by simp
  then show ?thesis by (simp add: counts_body_def list_all_iff)
qed

lemma survey_read:
  assumes "js_get ''sport_id'' sport = JInt i" and "sport_counts sport n"
  shows "participation_body (bn_post_body (JInt g) (JInt e) sport) =
    Some \<lparr> pi_org_id = g, pi_events_id = e, pi_sports_id = i, pi_organization_id = g,
           pi_counts = map (\<lambda>k. (k, Some (n k))) PARTICIPATION_COUNTS \<rparr>"
  using assms(1) by (simp add: participation_body_def survey_counts[OF assms(2)]) (simp add: bn_post_body_def or_else_def)

lemma entry_rejected:
  "create_participation_per_sport limited find_event insert_row u (json_value (entry_payload vs)) = Inl (422, ''Validation error'')"
  by (simp add: create_participation_per_sport_def entry_not_read)

text \<open>C36. An organization cannot add a participation with the form on its page: whatever was typed, a submit sends
  nothing while a required number is missing and otherwise sends a body the route does not read, so that the form stays
  open with what was typed. The by-number survey posts to the same route what it reads: an organization's own row of
  counts is stored with exactly the numbers of the survey while the phase is open, and another organization's is refused.\<close>

theorem participation_entry:
  assumes "\<forall>body raw. srv (body_req ''post'' ep_participation body) = Inr raw \<longrightarrow>
      create_participation_per_sport limited find_event insert_row u body = Inr raw"
    and "bu_role u = ORGANIZATION" and "bu_organization_id u = Some own"
    and "js_get ''sport_id'' sport = JInt i" and "sport_counts sport n"
    and "limited = None" and "find_event e = Some True"
  shows "(case entry_step parse srv ev s of (s', sent) \<Rightarrow>
      en_open s' = en_open s \<and> (ev = En_submit \<longrightarrow> en_values s' = en_values s) \<and>
      (\<forall>body. sent = Some body \<longrightarrow>
         entry_missing (en_values s) = [] \<and>
         create_participation_per_sport limited find_event insert_row u body = Inl (422, ''Validation error''))) \<and>
    create_participation_per_sport limited find_event insert_row u (bn_post_body (JInt g) (JInt e) sport) =
      (if g = own
       then insert_row \<lparr> pi_org_id = own, pi_events_id = e, pi_sports_id = i, pi_organization_id = own,
                         pi_counts = map (\<lambda>k. (k, Some (n k))) PARTICIPATION_COUNTS \<rparr>
       else Inl (403, ''Access denied: you can only access your own organization's data.''))"
proof
  have f: "\<exists>err. participation_create parse srv (json_value (entry_payload vs)) = Inl err" for vs
  proof (cases "participation_create parse srv (json_value (entry_payload vs))")
    case (Inr w)
    then obtain raw where "srv (body_req ''post'' ep_participation (json_value (entry_payload vs))) = Inr raw"
      by (auto simp: participation_create_def parsed_call_Inr)
    with assms(1) have "create_participation_per_sport limited find_event insert_row u (json_value (entry_payload vs)) = Inr raw"
      by blast
    then show ?thesis by (simp add: entry_rejected)
  qed blast
  show "case entry_step parse srv ev s of (s', sent) \<Rightarrow>
      en_open s' = en_open s \<and> (ev = En_submit \<longrightarrow> en_values s' = en_values s) \<and>
      (\<forall>body. sent = Some body \<longrightarrow>
         entry_missing (en_values s) = [] \<and>
         create_participation_per_sport limited find_event insert_row u body = Inl (422, ''Validation error''))"
    using f[of "en_values s"] by (cases ev) (auto simp: entry_rejected split: sum.splits)
  have own: "enforce_org_access u own = Inr own"
    using assms(2,3) by (simp add: enforce_org_access_def org_policy.enforce_iff)
  have foreign: "enforce_org_access u g = Inl (403, ''Access denied: you can only access your own organization's data.'')" if "g \<noteq> own"
    using that org_policy.enforce_foreign[OF assms(2,3)] by (simp add: enforce_org_access_def)
  show "create_participation_per_sport limited find_event insert_row u (bn_post_body (JInt g) (JInt e) sport) =
      (if g = own
       then insert_row \<lparr> pi_org_id = own, pi_events_id = e, pi_sports_id = i, pi_organization_id = own,
                         pi_counts = map (\<lambda>k. (k, Some (n k))) PARTICIPATION_COUNTS \<rparr>
       else Inl (403, ''Access denied: you can only access your own organization's data.''))"
    using own foreign by (simp add: create_participation_per_sport_def survey_read[OF assms(4,5)] assms(6,7))
qed

definition entry_user :: be_user where
  "entry_user = \<lparr> bu_id = ''u'', bu_role = ORGANIZATION, bu_organization_id = Some 5, bu_sport_id = None \<rparr>"

definition entry_sport :: js where
  "entry_sport = JObj ((''sport_id'', JInt 3) # map (\<lambda>k. (k, JInt 2)) COUNT_FIELDS)"

theorem participation_entry_witness:
  "create_participation_per_sport None (\<lambda>_. Some True) (\<lambda>p. Inr (JInt (pi_sports_id p))) entry_user
     (bn_post_body (JInt 5) (JInt 1) entry_sport) = Inr (JInt 3) \<and>
   en_open (fst (entry_step zparse (\<lambda>_. Inl (OtherError [])) En_submit
     (entry_start\<lparr>en_values := (\<lambda>_. ''7'')\<rparr>)))"
proof -
  have h: "\<forall>body raw. (\<lambda>_. Inl (OtherError []) :: (js_error, js) result) (body_req ''post'' ep_participation body) = Inr raw \<longrightarrow>
      create_participation_per_sport None (\<lambda>_. Some True) (\<lambda>p. Inr (JInt (pi_sports_id p))) entry_user body = Inr raw"
    by simp
  have u: "bu_role entry_user = ORGANIZATION" "bu_organization_id entry_user = Some 5" by (simp_all add: entry_user_def)
  have sp: "js_get ''sport_id'' entry_sport = JInt 3" "sport_counts entry_sport (\<lambda>_. 2)"
    by (simp_all add: entry_sport_def sport_counts_def COUNT_FIELDS_def or_else_def)
  note t = participation_entry[where parse = zparse and srv = "\<lambda>_. Inl (OtherError [])" and ev = En_submit
      and s = "entry_start\<lparr>en_values := (\<lambda>_. ''7'')\<rparr>" and g = 5 and e = 1, OF h u sp refl refl]
  have "en_open (fst (entry_step zparse (\<lambda>_. Inl (OtherError [])) En_submit (entry_start\<lparr>en_values := (\<lambda>_. ''7'')\<rparr>)))
      = en_open (entry_start\<lparr>en_values := (\<lambda>_. ''7'')\<rparr>)"
    using t[THEN conjunct1] by (simp only: split_beta)
  moreover have "\<dots>" by (simp add: entry_start_def)
  moreover note t[THEN conjunct2]
  ultimately show ?thesis by simp
qed

end
