(* ===== verification/Survey_Board.thy ===== *)
theory Survey_Board
  imports Access_Policy
begin

text \<open>
  The survey status board of an event: the backend's query
  (src/backend/src/services/events_service.py, get_event_survey_status, behind its admin gate) and
  the two tables the event page draws from it (modules/events, SurveyStatusBoard.tsx). The lemmas
  say what the badges of the board can mean.
\<close>

section \<open>The tables the query reads\<close>

record board_org =
  bo_id :: int
  bo_name_kh :: string
  bo_name_en :: "string option"

record board_link =
  bl_id :: int
  bl_event :: int
  bl_org :: int

text \<open>A submission refers to the link of event, sport and organization, or to none any more.\<close>

record board_submission =
  bs_link :: "int option"
  bs_status :: string

record board_db =
  bd_event_name :: "int \<Rightarrow> string option option"
  bd_orgs :: "board_org list"
  bd_links :: "board_link list"
  bd_submissions :: "board_submission list"
  bd_sports :: "(int \<times> string) list"
  bd_event_sports :: "(int \<times> int) list"
  bd_categories :: "(int \<times> int) list"

definition org_links :: "board_db \<Rightarrow> int \<Rightarrow> int \<Rightarrow> board_link list" where
  "org_links db event_id org_id = filter (\<lambda>l. bl_event l = event_id \<and> bl_org l = org_id) (bd_links db)"

definition org_submission_statuses :: "board_db \<Rightarrow> int \<Rightarrow> int \<Rightarrow> string list" where
  "org_submission_statuses db event_id org_id =
     map bs_status (filter (\<lambda>p. \<exists>l \<in> set (org_links db event_id org_id). bs_link p = Some (bl_id l)) (bd_submissions db))"

text \<open>The organizations come from an inner join with the links, so only those with one are listed.\<close>

definition board_orgs :: "(string \<Rightarrow> nat) \<Rightarrow> board_db \<Rightarrow> int \<Rightarrow> board_org list" where
  "board_orgs collation db event_id =
     sort_key (\<lambda>g. collation (bo_name_kh g)) (remdups (filter (\<lambda>g. org_links db event_id (bo_id g) \<noteq> []) (bd_orgs db)))"

text \<open>Which row a query limited to one without an order returns is not determined; it is a parameter.\<close>

definition org_status_json :: "(string list \<Rightarrow> string option) \<Rightarrow> board_db \<Rightarrow> int \<Rightarrow> board_org \<Rightarrow> js" where
  "org_status_json any_row db event_id g =
     JObj [(''org_id'', JInt (bo_id g)), (''org_name_kh'', JStr (bo_name_kh g)),
           (''org_name_en'', case bo_name_en g of Some t \<Rightarrow> JStr t | None \<Rightarrow> JNull),
           (''survey_sport_submitted'', JBool (0 < length (org_links db event_id (bo_id g)))),
           (''survey_number_status'',
              case any_row (org_submission_statuses db event_id (bo_id g)) of Some t \<Rightarrow> JStr t | None \<Rightarrow> JNull)]"

text \<open>The rows of a sport: one for each of its entries in the event with each of its categories there.\<close>

definition category_count :: "board_db \<Rightarrow> int \<Rightarrow> int \<Rightarrow> nat" where
  "category_count db event_id sport =
     length (filter (\<lambda>x. x = (event_id, sport)) (bd_event_sports db)) *
     length (filter (\<lambda>x. x = (event_id, sport)) (bd_categories db))"

definition board_sports :: "(string \<Rightarrow> nat) \<Rightarrow> board_db \<Rightarrow> int \<Rightarrow> (int \<times> string) list" where
  "board_sports collation db event_id =
     sort_key (\<lambda>s. collation (snd s)) (remdups (filter (\<lambda>s. (event_id, fst s) \<in> set (bd_event_sports db)) (bd_sports db)))"

definition sport_status_json :: "board_db \<Rightarrow> int \<Rightarrow> int \<times> string \<Rightarrow> js" where
  "sport_status_json db event_id s =
     JObj [(''sport_id'', JInt (fst s)), (''sport_name_kh'', JStr (snd s)),
           (''category_count'', JInt (int (category_count db event_id (fst s))))]"

definition get_event_survey_status ::
  "(string \<Rightarrow> nat) \<Rightarrow> (string list \<Rightarrow> string option) \<Rightarrow> board_db \<Rightarrow> be_user \<Rightarrow> int \<Rightarrow> (http_exception, js) result" where
  "get_event_survey_status collation any_row db u event_id =
     bind_r (require_admin u) (\<lambda>_.
       case bd_event_name db event_id of
         None \<Rightarrow> Inl (404, ''Event not found'')
       | Some name \<Rightarrow>
           Inr (JObj [(''event_id'', JInt event_id), (''event_name_kh'', JStr (or_else name [])),
                      (''organizations'', JArr (map (org_status_json any_row db event_id) (board_orgs collation db event_id))),
                      (''federation_sports'', JArr (map (sport_status_json db event_id) (board_sports collation db event_id)))]))"

section \<open>The board\<close>

datatype board_badge = Badge_submitted | Badge_notSubmitted | Badge_done | Badge_pending

datatype board_view =
    Bv_hidden
  | Bv_loading
  | Bv_failed
  | Bv_tables "(js \<times> board_badge \<times> board_badge) list" "(js \<times> js) list"

definition org_row :: "js \<Rightarrow> js \<times> board_badge \<times> board_badge" where
  "org_row g =
     (js_or (js_get ''org_name_kh'' g) (js_get ''org_name_en'' g),
      if truthy (js_get ''survey_sport_submitted'' g) then Badge_submitted else Badge_notSubmitted,
      if truthy (js_get ''survey_number_status'' g) then Badge_done else Badge_pending)"

definition survey_board :: "user_role option \<Rightarrow> bool \<Rightarrow> bool \<Rightarrow> js \<Rightarrow> board_view" where
  "survey_board role isLoading isError data =
     (if \<not> can_cap role CROSS_ORG_ADMIN then Bv_hidden
      else if isLoading then Bv_loading
      else if isError \<or> \<not> truthy data then Bv_failed
      else Bv_tables (map org_row (js_list (js_get ''organizations'' data)))
             (map (\<lambda>s. (js_get ''sport_name_kh'' s, js_get ''category_count'' s)) (js_list (js_get ''federation_sports'' data))))"

section \<open>What the badges mean\<close>

definition picks_a_row :: "(string list \<Rightarrow> string option) \<Rightarrow> bool" where
  "picks_a_row any_row \<longleftrightarrow> (\<forall>xs. case any_row xs of Some x \<Rightarrow> x \<in> set xs | None \<Rightarrow> xs = [])"

lemma picked:
  assumes "picks_a_row any_row"
  shows "any_row xs = None \<Longrightarrow> xs = []" "any_row xs = Some x \<Longrightarrow> x \<in> set xs"
  using assms[unfolded picks_a_row_def, rule_format, of xs] by simp_all

lemma number_badge:
  assumes "picks_a_row any_row" and "\<forall>p \<in> set (bd_submissions db). bs_status p \<noteq> []"
  shows "truthy (js_get ''survey_number_status'' (org_status_json any_row db e g)) \<longleftrightarrow> org_submission_statuses db e (bo_id g) \<noteq> []"
proof (cases "any_row (org_submission_statuses db e (bo_id g))")
  case None
  then have "org_submission_statuses db e (bo_id g) = []"
    by (rule picked(1)[OF assms(1)])
  then show ?thesis using None by (simp add: org_status_json_def or_else_def)
next
  case (Some x)
  then have "x \<in> set (org_submission_statuses db e (bo_id g))"
    by (rule picked(2)[OF assms(1)])
  moreover from this have "x \<noteq> []" using assms(2) by (auto simp: org_submission_statuses_def)
  ultimately show ?thesis using Some by (auto simp: org_status_json_def or_else_def)
qed

lemma org_row_of:
  assumes "picks_a_row any_row" and "\<forall>p \<in> set (bd_submissions db). bs_status p \<noteq> []" and "g \<in> set (board_orgs collation db e)"
  shows "org_row (org_status_json any_row db e g) =
    (js_or (JStr (bo_name_kh g)) (case bo_name_en g of Some t \<Rightarrow> JStr t | None \<Rightarrow> JNull), Badge_submitted,
     if org_submission_statuses db e (bo_id g) = [] then Badge_pending else Badge_done)"
proof -
  have "org_links db e (bo_id g) \<noteq> []" using assms(3) by (simp add: board_orgs_def)
  then have "truthy (js_get ''survey_sport_submitted'' (org_status_json any_row db e g))"
    by (simp add: org_status_json_def or_else_def)
  then show ?thesis
    using number_badge[OF assms(1,2), of e g] by (simp add: org_row_def) (simp add: org_status_json_def or_else_def)
qed

lemma count_distinct: "distinct xs \<Longrightarrow> length (filter (\<lambda>y. y = x) xs) = (if x \<in> set xs then 1 else 0)"
  by (induction xs) auto

lemma sport_count:
  assumes "distinct (bd_event_sports db)" and "s \<in> set (board_sports collation db e)"
  shows "category_count db e (fst s) = length (filter (\<lambda>x. x = (e, fst s)) (bd_categories db))"
  using assms by (simp add: category_count_def count_distinct board_sports_def)

text \<open>C37. The board of an event, as an administrator sees it, lists every organization linked to the event and no other,
  each once; every one of them is marked as having submitted its sports, and as done with its numbers exactly when it has
  a submission of any status, rejected ones too; the sports are those of the event, each with its number of categories.\<close>

theorem survey_board_rows:
  assumes "bu_role u \<in> {SUPER_ADMIN, ADMIN}" and "bd_event_name db e = Some name" and "picks_a_row any_row"
    and "\<forall>p \<in> set (bd_submissions db). bs_status p \<noteq> []" and "distinct (bd_event_sports db)"
  shows "\<exists>raw orgs sports. get_event_survey_status collation any_row db u e = Inr raw \<and>
    survey_board (Some (bu_role u)) False False raw =
      Bv_tables
        (map (\<lambda>g. (js_or (JStr (bo_name_kh g)) (case bo_name_en g of Some t \<Rightarrow> JStr t | None \<Rightarrow> JNull), Badge_submitted,
                   if org_submission_statuses db e (bo_id g) = [] then Badge_pending else Badge_done)) orgs)
        (map (\<lambda>s. (JStr (snd s), JInt (int (length (filter (\<lambda>x. x = (e, fst s)) (bd_categories db)))))) sports) \<and>
    distinct orgs \<and> set orgs = {g \<in> set (bd_orgs db). \<exists>l \<in> set (bd_links db). bl_event l = e \<and> bl_org l = bo_id g} \<and>
    distinct sports \<and> set sports = {s \<in> set (bd_sports db). (e, fst s) \<in> set (bd_event_sports db)}"
proof -
  let ?orgs = "board_orgs collation db e" and ?sports = "board_sports collation db e"
  let ?raw = "JObj [(''event_id'', JInt e), (''event_name_kh'', JStr (or_else name [])),
      (''organizations'', JArr (map (org_status_json any_row db e) ?orgs)),
      (''federation_sports'', JArr (map (sport_status_json db e) ?sports))]"
  have "require_admin u = Inr u" using assms(1) by (auto simp: gate_roles)
  then have r: "get_event_survey_status collation any_row db u e = Inr ?raw"
    using assms(2) by (simp add: get_event_survey_status_def)
  have "survey_board (Some (bu_role u)) False False ?raw =
      Bv_tables (map org_row (map (org_status_json any_row db e) ?orgs))
        (map (\<lambda>s. (js_get ''sport_name_kh'' s, js_get ''category_count'' s)) (map (sport_status_json db e) ?sports))"
    using assms(1) by (auto simp: survey_board_def can_cap_def or_else_def)
  also have "map org_row (map (org_status_json any_row db e) ?orgs) =
      map (\<lambda>g. (js_or (JStr (bo_name_kh g)) (case bo_name_en g of Some t \<Rightarrow> JStr t | None \<Rightarrow> JNull), Badge_submitted,
                   if org_submission_statuses db e (bo_id g) = [] then Badge_pending else Badge_done)) ?orgs"
    using org_row_of[OF assms(3,4)] by simp
  also have "map (\<lambda>s. (js_get ''sport_name_kh'' s, js_get ''category_count'' s)) (map (sport_status_json db e) ?sports) =
      map (\<lambda>s. (JStr (snd s), JInt (int (length (filter (\<lambda>x. x = (e, fst s)) (bd_categories db)))))) ?sports"
    using sport_count[OF assms(5)] by (simp add: sport_status_json_def or_else_def)
  finally have v: "survey_board (Some (bu_role u)) False False ?raw =
      Bv_tables
        (map (\<lambda>g. (js_or (JStr (bo_name_kh g)) (case bo_name_en g of Some t \<Rightarrow> JStr t | None \<Rightarrow> JNull), Badge_submitted,
                   if org_submission_statuses db e (bo_id g) = [] then Badge_pending else Badge_done)) ?orgs)
        (map (\<lambda>s. (JStr (snd s), JInt (int (length (filter (\<lambda>x. x = (e, fst s)) (bd_categories db)))))) ?sports)" .
  have "distinct ?orgs \<and> set ?orgs = {g \<in> set (bd_orgs db). \<exists>l \<in> set (bd_links db). bl_event l = e \<and> bl_org l = bo_id g}"
    by (auto simp: board_orgs_def org_links_def filter_empty_conv)
  moreover have "distinct ?sports \<and> set ?sports = {s \<in> set (bd_sports db). (e, fst s) \<in> set (bd_event_sports db)}"
    by (auto simp: board_sports_def)
  ultimately show ?thesis using r v by blast
qed

definition sample_board :: board_db where
  "sample_board =
     \<lparr> bd_event_name = (\<lambda>e. if e = 1 then Some (Some ''E'') else None),
       bd_orgs = [\<lparr> bo_id = 5, bo_name_kh = ''P'', bo_name_en = None \<rparr>, \<lparr> bo_id = 6, bo_name_kh = ''Q'', bo_name_en = None \<rparr>],
       bd_links = [\<lparr> bl_id = 10, bl_event = 1, bl_org = 5 \<rparr>],
       bd_submissions = [\<lparr> bs_link = Some 10, bs_status = ''REJECTED'' \<rparr>],
       bd_sports = [(3, ''S'')], bd_event_sports = [(1, 3)], bd_categories = [(1, 3), (1, 3)] \<rparr>"

definition board_admin :: be_user where
  "board_admin = \<lparr> bu_id = ''a'', bu_role = ADMIN, bu_organization_id = None, bu_sport_id = None \<rparr>"

definition head_row :: "string list \<Rightarrow> string option" where
  "head_row xs = (case xs of [] \<Rightarrow> None | x # _ \<Rightarrow> Some x)"

theorem survey_board_rows_witness:
  "\<exists>raw rows sports. get_event_survey_status (\<lambda>_. 0) head_row sample_board board_admin 1 = Inr raw \<and>
     survey_board (Some ADMIN) False False raw = Bv_tables rows sports \<and>
     (JStr ''P'', Badge_submitted, Badge_done) \<in> set rows"
proof -
  have p: "picks_a_row head_row" by (auto simp: picks_a_row_def head_row_def split: list.splits)
  have h: "bu_role board_admin \<in> {SUPER_ADMIN, ADMIN}" "bd_event_name sample_board 1 = Some (Some ''E'')"
    "\<forall>p \<in> set (bd_submissions sample_board). bs_status p \<noteq> []" "distinct (bd_event_sports sample_board)"
    by (simp_all add: board_admin_def sample_board_def)
  obtain raw orgs sports where t: "get_event_survey_status (\<lambda>_. 0) head_row sample_board board_admin 1 = Inr raw"
    "survey_board (Some (bu_role board_admin)) False False raw =
      Bv_tables
        (map (\<lambda>g. (js_or (JStr (bo_name_kh g)) (case bo_name_en g of Some t \<Rightarrow> JStr t | None \<Rightarrow> JNull), Badge_submitted,
                   if org_submission_statuses sample_board 1 (bo_id g) = [] then Badge_pending else Badge_done)) orgs)
        (map (\<lambda>s. (JStr (snd s), JInt (int (length (filter (\<lambda>x. x = (1, fst s)) (bd_categories sample_board)))))) sports)"
    "set orgs = {g \<in> set (bd_orgs sample_board). \<exists>l \<in> set (bd_links sample_board). bl_event l = 1 \<and> bl_org l = bo_id g}"
    using survey_board_rows[OF h(1,2) p h(3,4), of "\<lambda>_. 0"] by blast
  let ?g = "\<lparr> bo_id = 5, bo_name_kh = ''P'', bo_name_en = None \<rparr>"
  have "?g \<in> set orgs" unfolding t(3) by (simp add: sample_board_def)
  moreover have "org_submission_statuses sample_board 1 5 \<noteq> []"
    by (simp add: org_submission_statuses_def org_links_def sample_board_def)
  ultimately have "(JStr ''P'', Badge_submitted, Badge_done) \<in>
      set (map (\<lambda>g. (js_or (JStr (bo_name_kh g)) (case bo_name_en g of Some t \<Rightarrow> JStr t | None \<Rightarrow> JNull), Badge_submitted,
                   if org_submission_statuses sample_board 1 (bo_id g) = [] then Badge_pending else Badge_done)) orgs)"
    by (force simp: js_or_def)
  then show ?thesis using t(1,2) by (auto simp: board_admin_def)
qed

text \<open>Everyone else sees nothing of the board, and the route refuses them.\<close>

lemma survey_board_hidden:
  assumes "bu_role u \<notin> {SUPER_ADMIN, ADMIN}"
  shows "survey_board (Some (bu_role u)) loading failed data = Bv_hidden"
    and "\<nexists>raw. get_event_survey_status collation any_row db u e = Inr raw"
  using assms by (auto simp: survey_board_def can_cap_def get_event_survey_status_def bind_r_eq_Inr gate_roles)

end
