(* ===== verification/Registration_Views.thy ===== *)
theory Registration_Views
  imports Participants Registration_Wizard Sport_Catalog Organizations
begin

text \<open>
  What the screens around a registration show: the inputs of the personal step and their messages,
  the review before a submit, the roster of a team, the participants of a category and the roster of
  an organization's sport. A view is a value with the texts, marks and buttons of the screen;
  translated texts come from a function of the key. The lemmas compare the views with what is
  validated and sent.
\<close>

section \<open>The personal step\<close>

datatype control_kind = Ck_text | Ck_date | Ck_tel | Ck_area | Ck_toggle "string list"

record personal_control =
  pc_name :: string
  pc_kind :: control_kind
  pc_mark :: bool
  pc_message :: bool

definition input_row :: "string \<Rightarrow> control_kind \<Rightarrow> bool \<Rightarrow> bool \<Rightarrow> personal_control" where
  "input_row n k mark message = \<lparr> pc_name = n, pc_kind = k, pc_mark = mark, pc_message = message \<rparr>"

definition personal_controls :: "personal_control list" where
  "personal_controls =
     [input_row ''khFamilyName'' Ck_text True True, input_row ''khGivenName'' Ck_text True True,
      input_row ''enFamilyName'' Ck_text True True, input_row ''enGivenName'' Ck_text True True,
      input_row ''gender'' (Ck_toggle EDIT_GENDER_OPTIONS) True True,
      input_row ''dateOfBirth'' Ck_date True True, input_row ''phone'' Ck_tel True True,
      input_row ''nationality'' Ck_text True True, input_row ''idDocumentType'' Ck_text False False,
      input_row ''address'' Ck_area False False]"

text \<open>The messages under the inputs: the same word whatever is wrong.\<close>

definition personal_messages :: "string list \<Rightarrow> (string \<times> string) list" where
  "personal_messages errors =
     map (\<lambda>c. (pc_name c, ''required'')) (filter (\<lambda>c. pc_message c \<and> pc_name c \<in> set errors) personal_controls)"

section \<open>The review\<close>

text \<open>A child of a row as text; a row without one shows a dash.\<close>

fun child_text :: "js \<Rightarrow> string" where
  "child_text (JStr s) = s"
| "child_text (JNum n) = js_string (JNum n)"
| "child_text _ = []"

definition row_text :: "js \<Rightarrow> string" where
  "row_text child = child_text (js_or child em_dash)"

definition middle_dot :: string where "middle_dot = utf8 [194, 183]"

definition find_id :: "js \<Rightarrow> js list \<Rightarrow> js" where
  "find_id i xs = or_else (find (\<lambda>x. js_string (js_get ''id'' x) = js_string i) xs) JUndef"

definition name_words :: "js list \<Rightarrow> string" where
  "name_words vs = join_with '' '' (map js_string (filter truthy vs))"

definition role_label :: "(string \<Rightarrow> string) \<Rightarrow> bool \<Rightarrow> js \<Rightarrow> string" where
  "role_label tr isLeader f =
     (if isLeader \<or> js_get ''role'' f = JStr ''leader''
      then tr ''leader'' @ '' '' @ middle_dot @ '' '' @ js_string (js_or (js_get ''leaderRole'' f) (JStr []))
      else if js_get ''gender'' f = JStr ''MALE'' then tr ''athleteMale''
      else if js_get ''gender'' f = JStr ''FEMALE'' then tr ''athleteFemale''
      else tr ''athlete'')"

record review_lists =
  rl_events :: "js list"
  rl_organizations :: "js list"
  rl_sports :: "js list"
  rl_categories :: "js list"

definition kh_or_en :: "js \<Rightarrow> js" where
  "kh_or_en x = js_or (js_get ''name_kh'' x) (js_get ''name_en'' x)"

definition review_event_rows :: "bool \<Rightarrow> bool \<Rightarrow> review_lists \<Rightarrow> js \<Rightarrow> (string \<times> string) list" where
  "review_event_rows isAdmin isLeader ls f =
     [(''fields.event'', row_text (js_or (kh_or_en (find_id (js_get ''eventId'' f) (rl_events ls))) em_dash))] @
     (if isAdmin
      then [(''fields.organization'', row_text (js_or (kh_or_en (find_id (js_get ''organizationId'' f) (rl_organizations ls))) em_dash))]
      else []) @
     (if \<not> isLeader
      then [(''fields.category'', row_text (js_or (js_get ''category'' (find_id (js_get ''categoryId'' f) (rl_categories ls))) em_dash))]
      else []) @
     [(''fields.sport'',
       let sport = find_id (js_get ''sportId'' f) (rl_sports ls)
       in if truthy sport then child_text (kh_or_en sport) else child_text em_dash)]"

definition review_personal_rows :: "(string \<Rightarrow> string) \<Rightarrow> bool \<Rightarrow> js \<Rightarrow> (string \<times> string) list" where
  "review_personal_rows tr isLeader f =
     [(''fields.fullNameKhmer'', row_text (JStr (name_words [js_get ''khFamilyName'' f, js_get ''khGivenName'' f]))),
      (''fields.fullNameEnglish'', row_text (JStr (to_upper (name_words [js_get ''enFamilyName'' f, js_get ''enGivenName'' f])))),
      (''fields.gender'', child_text (js_get ''gender'' f) @
         (if truthy (js_get ''dateOfBirth'' f)
          then ''  '' @ middle_dot @ ''  '' @ js_string (js_get ''dateOfBirth'' f) else [])),
      (''fields.phone'', row_text (js_get ''phone'' f)),
      (''fields.nationality'', row_text (js_get ''nationality'' f)),
      (''fields.role'', row_text (JStr (role_label tr isLeader f)))]"

definition review_documents :: "js \<Rightarrow> (string \<times> bool) list" where
  "review_documents f =
     [(''fields.profilePhoto'', truthy (js_get ''photoPath'' f)), (''fields.idDocument'', truthy (js_get ''nationalIdPath'' f)),
      (''fields.birthCertificate'', truthy (js_get ''birthCertificatePath'' f))]"

record review_screen =
  rvw_event :: "(string \<times> string) list"
  rvw_personal :: "(string \<times> string) list"
  rvw_documents :: "(string \<times> bool) list"
  rvw_edit :: "string list"
  rvw_consent :: bool

definition review_screen_of ::
  "(string \<Rightarrow> string) \<Rightarrow> bool \<Rightarrow> bool \<Rightarrow> bool \<Rightarrow> bool \<Rightarrow> review_lists \<Rightarrow> js \<Rightarrow> review_screen" where
  "review_screen_of tr isAdmin isLeader can_edit consent ls f =
     \<lparr> rvw_event = review_event_rows isAdmin isLeader ls f, rvw_personal = review_personal_rows tr isLeader f,
       rvw_documents = review_documents f, rvw_edit = (if can_edit then [''event'', ''personal'', ''documents''] else []),
       rvw_consent = consent \<rparr>"

section \<open>The roster of a team\<close>

record member_row =
  mr_photo :: "js + string"
  mr_kh :: string
  mr_en :: string
  mr_badge :: "(string \<times> string) option"
  mr_edit :: bool

definition member_row_of :: "bool \<Rightarrow> js \<Rightarrow> member_row" where
  "member_row_of can_edit m =
     \<lparr> mr_photo = (if truthy (js_get ''photo_url'' m) then Inl (js_get ''photo_url'' m)
                   else Inr (take 1 (child_text (js_get ''kh_given_name'' m)))),
       mr_kh = child_text (js_get ''kh_family_name'' m) @ '' '' @ child_text (js_get ''kh_given_name'' m),
       mr_en = child_text (js_get ''en_family_name'' m) @ '' '' @ child_text (js_get ''en_given_name'' m),
       mr_badge = (if truthy (js_get ''status'' m)
                   then Some (if js_get ''status'' m = JStr ''complete'' then ''success'' else ''error'',
                              ''team.status.'' @ js_string (js_get ''status'' m))
                   else None),
       mr_edit = can_edit \<rparr>"

record roster_screen =
  rs_title :: string
  rs_counter :: "js \<times> js option \<times> js option"
  rs_warning :: "js option"
  rs_members :: "member_row list"
  rs_add :: bool

datatype roster_view = Ro_loading | Ro_nothing | Ro_team roster_screen

definition TeamRosterStep :: "bool \<Rightarrow> bool \<Rightarrow> js option \<Rightarrow> js \<Rightarrow> js \<Rightarrow> roster_view" where
  "TeamRosterStep can_edit isLoading team teamSizeMin teamSizeMax =
     (if isLoading then Ro_loading
      else case team of
             None \<Rightarrow> Ro_nothing
           | Some t \<Rightarrow>
               let count = js_get ''member_count'' t; canSubmit = roster_canSubmit teamSizeMin count in
               Ro_team \<lparr> rs_title = child_text (js_get ''name'' t),
                 rs_counter = (count, if is_nullish teamSizeMin then None else Some teamSizeMin,
                               if is_nullish teamSizeMax then None else Some teamSizeMax),
                 rs_warning = (if \<not> canSubmit then Some teamSizeMin else None),
                 rs_members = map (member_row_of can_edit) (js_list (js_get ''members'' t)),
                 rs_add = (\<not> roster_isFull teamSizeMax count) \<rparr>)"

text \<open>Removing a member: when the request succeeds the team is read again; a failure is thrown.\<close>

definition roster_remove :: "backend \<Rightarrow> int \<Rightarrow> int \<Rightarrow> request list \<times> js_error option" where
  "roster_remove srv teamId enroll_id =
     (case srv (team_removeMember teamId enroll_id) of
        Inl e \<Rightarrow> ([team_removeMember teamId enroll_id], Some e)
      | Inr _ \<Rightarrow> ([team_removeMember teamId enroll_id, team_getById teamId], None))"

section \<open>The participants of a category\<close>

record participant_cells =
  pa_tint :: string
  pa_name :: string
  pa_phone :: phone_cell
  pa_role :: "string \<times> string"
  pa_age :: string
  pa_gender :: "string option"
  pa_organization :: string
  pa_event :: string
  pa_detail :: string
  pa_opens :: bool

definition dash :: string where "dash = child_text em_dash"

definition participant_cells_of ::
  "(string \<Rightarrow> string) \<Rightarrow> calendar \<Rightarrow> int \<times> int \<times> int \<Rightarrow> user_role option \<Rightarrow> (js \<Rightarrow> js) \<Rightarrow> bool \<Rightarrow> reveal_state \<Rightarrow> js \<Rightarrow>
    participant_cells" where
  "participant_cells_of tr ymd today role eventName clickable phone p =
     \<lparr> pa_tint = (case genderKind (js_get ''gender'' p) of
                    Some k \<Rightarrow> if k = ''male'' then ''blue'' else if k = ''female'' then ''pink'' else ''muted'' | None \<Rightarrow> ''muted''),
       pa_name = child_text (participant_name p),
       pa_phone = RevealablePhone role phone,
       pa_role = (if js_get ''role'' p = JStr ''athlete'' then (''info'', tr ''athlete'') else (''secondary'', tr ''leader'')),
       pa_age = (case ageFromDob ymd today (js_get ''date_of_birth'' p) of
                   Some a \<Rightarrow> show_int a @ '' '' @ tr ''yearsUnit'' | None \<Rightarrow> dash),
       pa_gender = map_option tr (genderKind (js_get ''gender'' p)),
       pa_organization = child_text (js_or (js_get ''name'' (js_get ''organization'' p)) em_dash),
       pa_event = child_text (js_or (eventName (js_get ''event_id'' p)) em_dash),
       pa_detail = (if js_get ''role'' p = JStr ''athlete'' then child_text (js_or (js_get ''name'' (js_get ''category'' p)) em_dash)
                    else if truthy (js_get ''leader_role'' p) then role_text (js_str (js_get ''leader_role'' p)) else dash),
       pa_opens = clickable \<rparr>"

datatype participant_table =
    Pt_skeleton nat
  | Pt_empty string string bool
  | Pt_rows "participant_cells list"

definition CategoryParticipantTable ::
  "(string \<Rightarrow> string) \<Rightarrow> calendar \<Rightarrow> int \<times> int \<times> int \<Rightarrow> user_role option \<Rightarrow> (js \<Rightarrow> js) \<Rightarrow> bool \<Rightarrow> (js \<Rightarrow> reveal_state) \<Rightarrow>
    bool \<Rightarrow> bool \<Rightarrow> js list \<Rightarrow> participant_table" where
  "CategoryParticipantTable tr ymd today role eventName clickable phones isLoading someFilter rows =
     (if isLoading then Pt_skeleton 5
      else if rows = [] then
        (if someFilter then Pt_empty (tr ''filteredEmptyTitle'') (tr ''filteredEmptyHint'') True
         else Pt_empty (tr ''emptyTitle'') (tr ''emptyHint'') False)
      else Pt_rows (map (\<lambda>p. participant_cells_of tr ymd today role eventName clickable (phones p) p) rows))"

text \<open>A click or the keys enter and space open a row where it can be opened.\<close>

datatype row_input = Ri_click | Ri_key string

definition row_opens :: "bool \<Rightarrow> row_input \<Rightarrow> bool" where
  "row_opens clickable i \<longleftrightarrow> clickable \<and> (case i of Ri_click \<Rightarrow> True | Ri_key k \<Rightarrow> k = ''Enter'' \<or> k = '' '')"

section \<open>The roster of an organization's sport\<close>

text \<open>The phone in this table shows a dash to those who may not ask for it.\<close>

record roster_cells =
  ro_name :: string
  ro_phone :: phone_cell
  ro_badge :: "string \<times> string"
  ro_role :: string

definition roster_cells_of :: "(string \<Rightarrow> string) \<Rightarrow> user_role option \<Rightarrow> reveal_state \<Rightarrow> js \<Rightarrow> roster_cells" where
  "roster_cells_of tr role phone r =
     \<lparr> ro_name = roster_name r, ro_phone = RevealablePhone role phone,
       ro_badge = (if js_get ''role'' r = JStr ''athlete'' then (''info'', tr ''athlete'') else (''secondary'', tr ''leader'')),
       ro_role = (if js_get ''role'' r = JStr ''athlete'' then dash
                  else child_text (js_or
                    (case js_get ''leader_role'' r of
                       JStr s \<Rightarrow> JStr (map (\<lambda>c. if c = CHR ''_'' then CHR '' '' else c) s) | v \<Rightarrow> v) em_dash)) \<rparr>"

record roster_modal =
  ra_title :: string
  ra_description :: string
  ra_options :: "(string \<times> string) list"
  ra_rows :: "(string \<times> roster_cells) list"

definition OrgRosterModal ::
  "(string \<Rightarrow> string) \<Rightarrow> (nat \<Rightarrow> string) \<Rightarrow> user_role option \<Rightarrow> (js \<Rightarrow> reveal_state) \<Rightarrow> js \<Rightarrow> string \<Rightarrow> js list \<Rightarrow> roster_modal" where
  "OrgRosterModal tr nRegistered role phones target chosen allRows =
     (let (n, athletes, leaders) = roster_counts allRows in
      \<lparr> ra_title = child_text (js_get ''sportName'' target),
        ra_description = child_text (js_get ''eventName'' target) @ '' '' @ middle_dot @ '' '' @ nRegistered n,
        ra_options = [(''all'', tr ''all'' @ '' '' @ middle_dot @ '' '' @ show_nat n),
                      (''athlete'', tr ''athlete'' @ '' '' @ middle_dot @ '' '' @ show_nat athletes),
                      (''leader'', tr ''leader'' @ '' '' @ middle_dot @ '' '' @ show_nat leaders)],
        ra_rows = map (\<lambda>r. (js_string (js_get ''role'' r) @ ''-'' @ js_string (js_get ''id'' r),
                            roster_cells_of tr role (phones r) r)) (roster_rows chosen allRows) \<rparr>)"

section \<open>The messages of the personal step\<close>

text \<open>What the step validates and what it can say: the document type, the role and the leader's role are checked, and a
  problem with one of them keeps the user on the step without any message.\<close>

lemma personal_checked_and_told:
  "set (map fst (personal_messages errors)) = set errors \<inter> set (map pc_name (filter pc_message personal_controls))"
  "map pc_name (filter pc_message personal_controls) =
     [''khFamilyName'', ''khGivenName'', ''enFamilyName'', ''enGivenName'', ''gender'', ''dateOfBirth'', ''phone'', ''nationality'']"
proof -
  show "set (map fst (personal_messages errors)) = set errors \<inter> set (map pc_name (filter pc_message personal_controls))"
    unfolding personal_messages_def by auto
qed (simp add: personal_controls_def input_row_def)

lemma personal_silent:
  "filter (\<lambda>k. personal_messages [k] = []) (step_fields S_personal f) =
     [''idDocumentType'', ''role''] @ (if getValue ''role'' f = JStr ''leader'' then [''leaderRole''] else [])"
  by (simp add: step_fields_def personal_messages_def personal_controls_def input_row_def)

text \<open>The document type is typed by hand, and any text but the five names is refused.\<close>

lemma typed_document_type:
  assumes "zod_parser parse"
  shows "(\<exists>w. parse (upper_enum [''IDCARD'', ''BIRTHCERTIFICATE'', ''PASSPORT'', ''FAMILYBOOK'', ''OTHER'']) (JStr s) = Inr w) \<longleftrightarrow>
    to_upper s \<in> {''IDCARD'', ''BIRTHCERTIFICATE'', ''PASSPORT'', ''FAMILYBOOK'', ''OTHER''}"
  by (auto simp: upper_enum_def zod_parser.accepts[OF assms])

lemma personal_controls_inputs: "map pc_name personal_controls = personal_inputs"
  by (simp add: personal_controls_def personal_inputs_def input_row_def)

section \<open>The review shows what is sent\<close>

context zod_parser
begin

lemma parse_trimmed_raw:
  "parse (ZString [Trim, MinLen 1]) v = Inr w \<Longrightarrow> \<exists>s. v = JStr s \<and> w = JStr (trim s) \<and> trim s \<noteq> []"
  by (auto simp: p_string split: if_splits)

lemma accepted_names:
  assumes "parse (registerSchema date_ms now) f = Inr d"
    and "k \<in> {''khFamilyName'', ''khGivenName'', ''enFamilyName'', ''enGivenName''}"
  shows "\<exists>s. js_get k f = JStr s \<and> js_get k d = JStr (trim s) \<and> trim s \<noteq> []"
proof -
  have o1: "parse (ZObject False (register_fields date_ms now)) f = Inr d"
    using assms(1) by (auto simp: registerSchema_def parse_refinements)
  note g = register_field[OF o1, unfolded register_fields_def]
  have "parse (ZString [Trim, MinLen 1]) (js_get ''khFamilyName'' f) = Inr (js_get ''khFamilyName'' d)"
    "parse (ZString [Trim, MinLen 1]) (js_get ''khGivenName'' f) = Inr (js_get ''khGivenName'' d)"
    "parse (ZString [Trim, MinLen 1]) (js_get ''enFamilyName'' f) = Inr (js_get ''enFamilyName'' d)"
    "parse (ZString [Trim, MinLen 1]) (js_get ''enGivenName'' f) = Inr (js_get ''enGivenName'' d)"
    by (rule g; simp)+
  then show ?thesis using assms(2) parse_trimmed_raw by blast
qed

lemma accepted_texts:
  assumes "parse (registerSchema date_ms now) f = Inr d"
  shows "\<exists>s. js_get ''phone'' f = JStr s \<and> js_get ''phone'' d = JStr (trim s) \<and> trim s \<noteq> []"
    and "\<exists>s. js_get ''gender'' f = JStr s \<and> js_get ''gender'' d = JStr (to_upper s)"
    and "\<exists>s. js_get ''dateOfBirth'' f = JStr s \<and> js_get ''dateOfBirth'' d = JStr s"
    and "js_get ''eventId'' d = js_get ''eventId'' f" "js_get ''sportId'' d = js_get ''sportId'' f"
    and "js_get ''photoPath'' d = js_get ''photoPath'' f" "js_get ''nationalIdPath'' d = js_get ''nationalIdPath'' f"
    and "js_get ''birthCertificatePath'' d = js_get ''birthCertificatePath'' f"
proof -
  have o1: "parse (ZObject False (register_fields date_ms now)) f = Inr d"
    using assms(1) by (auto simp: registerSchema_def parse_refinements)
  note g = register_field[OF o1, unfolded register_fields_def]
  have phone: "parse (ZString [Trim, Matches phoneRegex]) (js_get ''phone'' f) = Inr (js_get ''phone'' d)"
    and gender: "parse (upper_enum [''MALE'', ''FEMALE'', ''OTHER'']) (js_get ''gender'' f) = Inr (js_get ''gender'' d)"
    and dob: "parse (pastDateSchema date_ms now) (js_get ''dateOfBirth'' f) = Inr (js_get ''dateOfBirth'' d)"
    and ids: "parse (ZNullable (ZNumber [NMin 1])) (js_get ''eventId'' f) = Inr (js_get ''eventId'' d)"
      "parse (ZNullable (ZNumber [NMin 1])) (js_get ''sportId'' f) = Inr (js_get ''sportId'' d)"
    and photo: "parse (ZNullable (ZString [MinLen 1])) (js_get ''photoPath'' f) = Inr (js_get ''photoPath'' d)"
    and docs: "parse (zoptional_nullable zstr) (js_get ''nationalIdPath'' f) = Inr (js_get ''nationalIdPath'' d)"
      "parse (zoptional_nullable zstr) (js_get ''birthCertificatePath'' f) = Inr (js_get ''birthCertificatePath'' d)"
    by (rule g; simp)+
  show "\<exists>s. js_get ''phone'' f = JStr s \<and> js_get ''phone'' d = JStr (trim s) \<and> trim s \<noteq> []"
    using phone by (auto simp: p_string phoneRegex_def split: if_splits)
  show "\<exists>s. js_get ''gender'' f = JStr s \<and> js_get ''gender'' d = JStr (to_upper s)"
    using gender by (auto simp: upper_enum_def p_pipe p_enum p_string)
  show "\<exists>s. js_get ''dateOfBirth'' f = JStr s \<and> js_get ''dateOfBirth'' d = JStr s"
    using dob by (auto simp: pastDateSchema_def p_refine1 p_string)
  show "js_get ''eventId'' d = js_get ''eventId'' f" "js_get ''sportId'' d = js_get ''sportId'' f"
    using ids by (auto simp: p_nullable p_number split: if_splits)
  show "js_get ''photoPath'' d = js_get ''photoPath'' f"
    using photo by (auto simp: p_nullable p_string split: if_splits)
  show "js_get ''nationalIdPath'' d = js_get ''nationalIdPath'' f" "js_get ''birthCertificatePath'' d = js_get ''birthCertificatePath'' f"
    using docs by (auto simp: p_nullable p_optional p_string split: if_splits)
qed

end

lemma trim_nonempty: "trim s \<noteq> [] \<Longrightarrow> s \<noteq> []"
  by auto

lemma two_words: "a \<noteq> [] \<Longrightarrow> b \<noteq> [] \<Longrightarrow> name_words [JStr a, JStr b] = a @ '' '' @ b"
  by (simp add: name_words_def)

lemma row_text_JStr: "s \<noteq> [] \<Longrightarrow> row_text (JStr s) = s"
  by (simp add: row_text_def js_or_def)

lemma truthy_or_nullish: "truthy (or_nullish v JNull) = truthy v"
  by (cases v) (simp_all add: or_nullish.simps)

lemma review_views:
  "rvw_personal (review_screen_of tr isAdmin isLeader can_edit consent ls f) = review_personal_rows tr isLeader f"
  "rvw_event (review_screen_of tr isAdmin isLeader can_edit consent ls f) = review_event_rows isAdmin isLeader ls f"
  "rvw_documents (review_screen_of tr isAdmin isLeader can_edit consent ls f) = review_documents f"
  by (simp_all add: review_screen_of_def)

text \<open>The texts of an accepted form, the rows of the review they make and the fields of the request they become.\<close>

lemma accepted_review:
  assumes "zod_parser parse" and "parse (registerSchema date_ms now) f = Inr d" and "date_ms [] = None"
  obtains kf kg ef eg ph g b where
    "js_get ''lastNameKhmer'' (formDataToPayload d u) = JStr (trim kf)" "js_get ''firstNameKhmer'' (formDataToPayload d u) = JStr (trim kg)"
    "js_get ''lastNameLatin'' (formDataToPayload d u) = JStr (trim ef)" "js_get ''firstNameLatin'' (formDataToPayload d u) = JStr (trim eg)"
    "js_get ''phone'' (formDataToPayload d u) = JStr (trim ph)" "js_get ''gender'' (formDataToPayload d u) = JStr (to_upper g)"
    "js_get ''dateOfBirth'' (formDataToPayload d u) = JStr b"
    "review_personal_rows tr isLeader f =
      [(''fields.fullNameKhmer'', kf @ '' '' @ kg), (''fields.fullNameEnglish'', to_upper (ef @ '' '' @ eg)),
       (''fields.gender'', g @ ''  '' @ middle_dot @ ''  '' @ b), (''fields.phone'', ph),
       (''fields.nationality'', row_text (js_get ''nationality'' f)), (''fields.role'', row_text (JStr (role_label tr isLeader f)))]"
proof -
  note n = zod_parser.accepted_names[OF assms(1,2)] and t = zod_parser.accepted_texts[OF assms(1,2)]
  obtain kf kg ef eg where names:
    "js_get ''khFamilyName'' f = JStr kf" "js_get ''khFamilyName'' d = JStr (trim kf)" "trim kf \<noteq> []"
    "js_get ''khGivenName'' f = JStr kg" "js_get ''khGivenName'' d = JStr (trim kg)" "trim kg \<noteq> []"
    "js_get ''enFamilyName'' f = JStr ef" "js_get ''enFamilyName'' d = JStr (trim ef)" "trim ef \<noteq> []"
    "js_get ''enGivenName'' f = JStr eg" "js_get ''enGivenName'' d = JStr (trim eg)" "trim eg \<noteq> []"
    using n[of "''khFamilyName''"] n[of "''khGivenName''"] n[of "''enFamilyName''"] n[of "''enGivenName''"] by auto
  obtain ph where ph: "js_get ''phone'' f = JStr ph" "js_get ''phone'' d = JStr (trim ph)" "trim ph \<noteq> []" using t(1) by blast
  obtain g where g: "js_get ''gender'' f = JStr g" "js_get ''gender'' d = JStr (to_upper g)" using t(2) by blast
  obtain b where b: "js_get ''dateOfBirth'' f = JStr b" "js_get ''dateOfBirth'' d = JStr b" using t(3) by blast
  have "\<exists>s m. js_get ''dateOfBirth'' d = JStr s \<and> date_ms s = Some m"
    using zod_parser.register_accepted[OF assms(1,2)] unfolding valid_registration_def by blast
  then have "b \<noteq> []" using b(2) assms(3) by auto
  have ne: "kf \<noteq> []" "kg \<noteq> []" "ef \<noteq> []" "eg \<noteq> []" "ph \<noteq> []"
    using trim_nonempty[OF names(3)] trim_nonempty[OF names(6)] trim_nonempty[OF names(9)] trim_nonempty[OF names(12)]
      trim_nonempty[OF ph(3)] .
  have up: "to_upper (ef @ '' '' @ eg) \<noteq> []" using ne(3) by (simp add: to_upper_def)
  have p: "js_get ''lastNameKhmer'' (formDataToPayload d u) = JStr (trim kf)" "js_get ''firstNameKhmer'' (formDataToPayload d u) = JStr (trim kg)"
    "js_get ''lastNameLatin'' (formDataToPayload d u) = JStr (trim ef)" "js_get ''firstNameLatin'' (formDataToPayload d u) = JStr (trim eg)"
    "js_get ''phone'' (formDataToPayload d u) = JStr (trim ph)" "js_get ''gender'' (formDataToPayload d u) = JStr (to_upper g)"
    "js_get ''dateOfBirth'' (formDataToPayload d u) = JStr b"
    using names ph g b by (simp_all add: formDataToPayload_def)
  have rows: "review_personal_rows tr isLeader f =
      [(''fields.fullNameKhmer'', kf @ '' '' @ kg), (''fields.fullNameEnglish'', to_upper (ef @ '' '' @ eg)),
       (''fields.gender'', g @ ''  '' @ middle_dot @ ''  '' @ b), (''fields.phone'', ph),
       (''fields.nationality'', row_text (js_get ''nationality'' f)), (''fields.role'', row_text (JStr (role_label tr isLeader f)))]"
    unfolding review_personal_rows_def names(1,4,7,10) ph(1) g(1) b(1)
    using ne up \<open>b \<noteq> []\<close> by (simp add: two_words row_text_JStr)
  show ?thesis by (rule that[OF p rows])
qed

lemma accepted_ids:
  assumes "zod_parser parse" and "parse (registerSchema date_ms now) f = Inr d"
  shows "truthy (js_get ''photoUrl'' (formDataToPayload d u)) = truthy (js_get ''photoPath'' f)"
    and "truthy (js_get ''nationalIdUrl'' (formDataToPayload d u)) = truthy (js_get ''nationalIdPath'' f)"
    and "truthy (js_get ''birthCertificateUrl'' (formDataToPayload d u)) = truthy (js_get ''birthCertificatePath'' f)"
    and "js_get ''eventId'' (formDataToPayload d u) = js_get ''eventId'' f"
    and "js_get ''sportId'' (formDataToPayload d u) = js_get ''sportId'' f"
  using zod_parser.accepted_texts(4-8)[OF assms] by (simp_all add: formDataToPayload_def truthy_or_nullish)

text \<open>C39. The review before a submit shows what the submit sends: for every form the schema accepts, the two names, the phone,
  the gender with the birth date, the event and the sport of the review are those of the request, up to the blanks the
  schema trims and the capital letters of the Latin name and the gender; and the marks of the three documents say which
  of their addresses the request carries.\<close>

theorem review_shows_what_is_sent:
  assumes "zod_parser parse" and "parse (registerSchema date_ms now) f = Inr d" and "date_ms [] = None"
  shows "\<exists>kf kg ef eg ph g b. (let s = review_screen_of tr isAdmin isLeader can_edit consent ls f; p = formDataToPayload d u in
    map_of (rvw_personal s) ''fields.fullNameKhmer'' = Some (kf @ '' '' @ kg) \<and>
      js_get ''lastNameKhmer'' p = JStr (trim kf) \<and> js_get ''firstNameKhmer'' p = JStr (trim kg) \<and>
    map_of (rvw_personal s) ''fields.fullNameEnglish'' = Some (to_upper (ef @ '' '' @ eg)) \<and>
      js_get ''lastNameLatin'' p = JStr (trim ef) \<and> js_get ''firstNameLatin'' p = JStr (trim eg) \<and>
    map_of (rvw_personal s) ''fields.phone'' = Some ph \<and> js_get ''phone'' p = JStr (trim ph) \<and>
    map_of (rvw_personal s) ''fields.gender'' = Some (g @ ''  '' @ middle_dot @ ''  '' @ b) \<and>
      js_get ''gender'' p = JStr (to_upper g) \<and> js_get ''dateOfBirth'' p = JStr b \<and>
    map_of (rvw_event s) ''fields.event'' = Some (row_text (js_or (kh_or_en (find_id (js_get ''eventId'' p) (rl_events ls))) em_dash)) \<and>
    map_of (rvw_event s) ''fields.sport'' =
      Some (let sport = find_id (js_get ''sportId'' p) (rl_sports ls) in if truthy sport then child_text (kh_or_en sport) else child_text em_dash) \<and>
    map snd (rvw_documents s) =
      [truthy (js_get ''photoUrl'' p), truthy (js_get ''nationalIdUrl'' p), truthy (js_get ''birthCertificateUrl'' p)])"
proof -
  obtain kf kg ef eg ph g b where p:
    "js_get ''lastNameKhmer'' (formDataToPayload d u) = JStr (trim kf)" "js_get ''firstNameKhmer'' (formDataToPayload d u) = JStr (trim kg)"
    "js_get ''lastNameLatin'' (formDataToPayload d u) = JStr (trim ef)" "js_get ''firstNameLatin'' (formDataToPayload d u) = JStr (trim eg)"
    "js_get ''phone'' (formDataToPayload d u) = JStr (trim ph)" "js_get ''gender'' (formDataToPayload d u) = JStr (to_upper g)"
    "js_get ''dateOfBirth'' (formDataToPayload d u) = JStr b"
    and rows: "review_personal_rows tr isLeader f =
      [(''fields.fullNameKhmer'', kf @ '' '' @ kg), (''fields.fullNameEnglish'', to_upper (ef @ '' '' @ eg)),
       (''fields.gender'', g @ ''  '' @ middle_dot @ ''  '' @ b), (''fields.phone'', ph),
       (''fields.nationality'', row_text (js_get ''nationality'' f)), (''fields.role'', row_text (JStr (role_label tr isLeader f)))]"
    by (rule accepted_review[OF assms])
  note i = accepted_ids[OF assms(1,2)]
  let ?s = "review_screen_of tr isAdmin isLeader can_edit consent ls f" and ?p = "formDataToPayload d u"
  have v1: "map_of (rvw_personal ?s) ''fields.fullNameKhmer'' = Some (kf @ '' '' @ kg)"
    "map_of (rvw_personal ?s) ''fields.fullNameEnglish'' = Some (to_upper (ef @ '' '' @ eg))"
    "map_of (rvw_personal ?s) ''fields.phone'' = Some ph"
    "map_of (rvw_personal ?s) ''fields.gender'' = Some (g @ ''  '' @ middle_dot @ ''  '' @ b)"
    unfolding review_views rows by simp_all
  have v2: "map_of (rvw_event ?s) ''fields.event'' =
      Some (row_text (js_or (kh_or_en (find_id (js_get ''eventId'' ?p) (rl_events ls))) em_dash))"
    "map_of (rvw_event ?s) ''fields.sport'' =
      Some (if truthy (find_id (js_get ''sportId'' ?p) (rl_sports ls))
            then child_text (kh_or_en (find_id (js_get ''sportId'' ?p) (rl_sports ls))) else child_text em_dash)"
    unfolding review_views i(4,5) review_event_rows_def Let_def by simp_all
  have v3: "map snd (rvw_documents ?s) =
      [truthy (js_get ''photoUrl'' ?p), truthy (js_get ''nationalIdUrl'' ?p), truthy (js_get ''birthCertificateUrl'' ?p)]"
    unfolding review_views i(1-3) review_documents_def by simp
  show ?thesis
    unfolding Let_def
    by (rule exI[of _ kf], rule exI[of _ kg], rule exI[of _ ef], rule exI[of _ eg], rule exI[of _ ph], rule exI[of _ g],
        rule exI[of _ b], intro conjI; rule v1 v2 v3 p)
qed

definition sample_dates :: "string \<Rightarrow> rat option" where
  "sample_dates s = (if s = [] then None else Some 0)"

lemma sample_form_dated: "\<exists>d. zparse (registerSchema sample_dates 1) sample_form = Inr d"
proof -
  have "\<not> Option.is_none (case zparse (registerSchema sample_dates 1) sample_form of Inr d \<Rightarrow> Some d | Inl e \<Rightarrow> None)"
    by code_simp
  then show ?thesis by (cases "zparse (registerSchema sample_dates 1) sample_form") auto
qed

theorem review_shows_what_is_sent_witness:
  "\<exists>d ph. zparse (registerSchema sample_dates 1) sample_form = Inr d \<and>
     map_of (rvw_personal (review_screen_of id False False True False \<lparr> rl_events = [], rl_organizations = [], rl_sports = [], rl_categories = [] \<rparr> sample_form)) ''fields.phone'' = Some ph \<and>
     js_get ''phone'' (formDataToPayload d ''u1'') = JStr (trim ph)"
proof -
  obtain d where d: "zparse (registerSchema sample_dates 1) sample_form = Inr d" using sample_form_dated by blast
  have e: "sample_dates [] = None" by (simp add: sample_dates_def)
  show ?thesis
    using review_shows_what_is_sent[OF zp.zod_parser_axioms d e, where tr = id and isAdmin = False and isLeader = False and can_edit = True
        and consent = False and ls = "\<lparr> rl_events = [], rl_organizations = [], rl_sports = [], rl_categories = [] \<rparr>" and u = "''u1''"] d
    unfolding Let_def by blast
qed

section \<open>What the views leave out, and the tables\<close>

text \<open>The review shows nothing of the document type, the address, the passport or the team: forms that differ there alone look alike.\<close>

lemma review_leaves_out:
  assumes "\<forall>k \<in> {''eventId'', ''organizationId'', ''sportId'', ''categoryId'', ''khFamilyName'', ''khGivenName'', ''enFamilyName'',
      ''enGivenName'', ''gender'', ''dateOfBirth'', ''phone'', ''nationality'', ''role'', ''leaderRole'', ''photoPath'',
      ''nationalIdPath'', ''birthCertificatePath''}. js_get k f = js_get k f'"
  shows "review_screen_of tr isAdmin isLeader can_edit consent ls f = review_screen_of tr isAdmin isLeader can_edit consent ls f'"
  using assms by (simp add: review_screen_of_def review_event_rows_def review_personal_rows_def review_documents_def role_label_def)

text \<open>A full team offers no place, and a team below the minimum says so; both limits may be absent.\<close>

lemma roster_limits:
  assumes "js_get ''member_count'' t = JInt n"
  shows "TeamRosterStep can_edit False (Some t) (JInt lo) (JInt hi) = Ro_team s \<Longrightarrow>
      (rs_add s \<longleftrightarrow> n < hi) \<and> (rs_warning s = (if n < lo then Some (JInt lo) else None))"
    and "TeamRosterStep can_edit False (Some t) JNull JNull = Ro_team s \<Longrightarrow> rs_add s \<and> rs_warning s = None"
  using assms by (auto simp: TeamRosterStep_def roster_canSubmit_def roster_isFull_def Let_def js_ge_def)

text \<open>A removed member is read back from the server; after a failure nothing is read again.\<close>

lemma roster_remove_rereads:
  "snd (roster_remove srv t e) = None \<longleftrightarrow> team_getById t \<in> set (fst (roster_remove srv t e))"
  by (auto simp: roster_remove_def team_getById_def team_removeMember_def get_req_def body_req_def split: sum.splits)

text \<open>The tables show no phone to a user without the capability, whatever was revealed before.\<close>

lemma tables_hide_phones:
  assumes "\<not> can_cap role REVEAL_PII"
  shows "pa_phone (participant_cells_of tr ymd today role eventName clickable phone p) = NoPhone"
    and "ro_phone (roster_cells_of tr role phone r) = NoPhone"
  using assms by (simp_all add: participant_cells_of_def roster_cells_of_def RevealablePhone_def)

text \<open>The roster's choice narrows the rows to the number its button says.\<close>

lemma roster_modal_counts:
  assumes "chosen \<in> {''all'', ''athlete'', ''leader''}"
  shows "\<exists>label. (chosen, label @ '' '' @ middle_dot @ '' '' @ show_nat (length (ra_rows (OrgRosterModal tr nr role phones target chosen rows)))) \<in>
    set (ra_options (OrgRosterModal tr nr role phones target chosen rows))"
  using assms by (auto simp: OrgRosterModal_def roster_counts_def roster_rows_def)

end
