(* ===== verification/Registration_Rules.thy ===== *)
theory Registration_Rules
  imports Registration_Selection
begin

text \<open>
  What the service refuses a registration for (src/backend/app/application/participants/validation.py
  and errors.py), up to what the wizard shows of it. The tables the rules query are lists of rows; the day,
  the settings and the rows are parameters. An error is a status and a detail. The lemmas say which error
  each rule gives, and the property follows it through the form of the wizard.
\<close>

section \<open>Rows and requests\<close>

datatype age_mode = BIRTH_YEAR | EXACT_AGE

datatype phase_status = PH_AUTO | PH_OPEN | PH_CLOSED

record be_event =
  ev_registration_status :: "phase_status option"
  ev_registration_open_date :: "ymd option"
  ev_registration_close_date :: "ymd option"
  ev_cap :: "int option"
  ev_age_mode :: "age_mode option"
  ev_age_min :: "int option"
  ev_age_max :: "int option"
  ev_start :: "ymd option"

record be_category =
  ct_event :: int
  ct_sport :: int
  ct_size_max :: "int option"

record be_team =
  bt_event :: int
  bt_sport :: int
  bt_org :: int
  bt_category :: "int option"

text \<open>A participation with the enrolment it belongs to.\<close>

record be_participation =
  bp_event :: int
  bp_sport :: int
  bp_org :: int
  bp_team :: "int option"
  bp_family :: string
  bp_given :: string
  bp_dob :: ymd

record rules_db =
  db_events :: "(int \<times> be_event) list"
  db_sport_orgs :: "(int \<times> int \<times> int) list"
  db_sport_events :: "((int \<times> int) \<times> int option) list"
  db_categories :: "(int \<times> be_category) list"
  db_teams :: "(int \<times> be_team) list"
  db_athletes :: "be_participation list"
  db_leaders :: "be_participation list"

record registration_request =
  rr_eventId :: int
  rr_organizationId :: int
  rr_sportId :: int
  rr_categoryId :: "int option"
  rr_teamId :: "int option"
  rr_family :: string
  rr_given :: string
  rr_dob :: ymd
  rr_birthCertificate :: "string option"
  rr_nationalId :: "string option"
  rr_passport :: "string option"
  rr_role :: string
  rr_force :: bool
  rr_guardianConsent :: bool
  rr_guardianName :: "string option"
  rr_guardianRelationship :: "string option"

record rules_settings =
  st_consent_enforced :: bool
  st_minor_age :: int

type_synonym http_error = "int \<times> js"

text \<open>Whether a phase of an event is open on a day; dates compare as their year, month and day.\<close>

definition phase_is_open :: "ymd \<Rightarrow> phase_status option \<Rightarrow> ymd option \<Rightarrow> ymd option \<Rightarrow> bool" where
  "phase_is_open today status_of_phase open_date close_date =
     (if status_of_phase = Some PH_OPEN then True
      else if status_of_phase = Some PH_CLOSED then False
      else (case (open_date, close_date) of
              (Some opens, Some closes) \<Rightarrow> opens \<le> today \<and> today \<le> closes
            | _ \<Rightarrow> False))"

definition registration_is_open :: "ymd \<Rightarrow> be_event \<Rightarrow> bool" where
  "registration_is_open today event =
     phase_is_open today (ev_registration_status event) (ev_registration_open_date event) (ev_registration_close_date event)"

section \<open>Errors and ages\<close>

definition raise_localized :: "int \<Rightarrow> string \<Rightarrow> string \<Rightarrow> (string \<times> js) list \<Rightarrow> http_error" where
  "raise_localized status_code code message params =
     (status_code, JObj ([(''code'', JStr code), (''message'', JStr message)] @
        (if params \<noteq> [] then [(''params'', JObj params)] else [])))"

definition age_on :: "ymd \<Rightarrow> ymd \<Rightarrow> int" where
  "age_on dob on_date =
     (case (dob, on_date) of ((y, m, d), (ty, tm, td)) \<Rightarrow>
        ty - y - (if tm < m \<or> tm = m \<and> td < d then 1 else 0))"

text \<open>A query for at most one row; several are an error the use case answers itself.\<close>

definition one_or_none :: "'a list \<Rightarrow> (http_error, 'a option) result" where
  "one_or_none xs =
     (case xs of
        [] \<Rightarrow> Inr None
      | [x] \<Rightarrow> Inr (Some x)
      | _ \<Rightarrow> Inl (500, JStr ''Registration failed due to a server error''))"

definition refuse_if :: "bool \<Rightarrow> http_error \<Rightarrow> (http_error, unit) result" where
  "refuse_if c e = (if c then Inl e else Inr ())"

section \<open>The rules\<close>

definition validate_age :: "be_event \<Rightarrow> ymd \<Rightarrow> (http_error, unit) result" where
  "validate_age event dob =
     (case (ev_age_mode event, ev_age_min event, ev_age_max event) of
        (Some mode, Some lo, Some hi) \<Rightarrow>
          (case mode of
             BIRTH_YEAR \<Rightarrow>
               (let birth_year = fst dob
                in refuse_if (\<not> (lo \<le> birth_year \<and> birth_year \<le> hi))
                     (raise_localized 422 ''AGE_OUT_OF_RANGE'' ''Birth year is outside the allowed range.''
                        [(''mode'', JStr ''BIRTH_YEAR''), (''min'', JInt lo), (''max'', JInt hi), (''value'', JInt birth_year)]))
           | EXACT_AGE \<Rightarrow>
               (case ev_start event of
                  None \<Rightarrow> Inr ()
                | Some start \<Rightarrow>
                    (let age = age_on dob start
                     in refuse_if (\<not> (lo \<le> age \<and> age \<le> hi))
                          (raise_localized 422 ''AGE_OUT_OF_RANGE'' ''Age at the event start date is outside the allowed range.''
                             [(''mode'', JStr ''EXACT_AGE''), (''min'', JInt lo), (''max'', JInt hi), (''value'', JInt age)]))))
      | _ \<Rightarrow> Inr ())"

definition given :: "string option \<Rightarrow> bool" where
  "given v \<longleftrightarrow> v \<noteq> None \<and> v \<noteq> Some []"

definition age_basis :: "ymd \<Rightarrow> be_event \<Rightarrow> ymd" where
  "age_basis today event = (case ev_start event of Some d \<Rightarrow> d | None \<Rightarrow> today)"

definition validate_documents :: "ymd \<Rightarrow> be_event \<Rightarrow> registration_request \<Rightarrow> (http_error, unit) result" where
  "validate_documents today event data =
     (let age = age_on (rr_dob data) (age_basis today event)
      in if age < 18
         then refuse_if (\<not> given (rr_birthCertificate data))
           (raise_localized 422 ''DOCUMENT_REQUIRED'' ''A birth certificate is required for participants under 18.''
              [(''requires'', JStr ''birth_certificate''), (''age'', JInt age)])
         else refuse_if (\<not> (given (rr_nationalId data) \<or> given (rr_passport data)))
           (raise_localized 422 ''DOCUMENT_REQUIRED''
              ''A national ID or passport is required for participants 18 and older.''
              [(''requires'', JStr ''national_id_or_passport''), (''age'', JInt age)]))"

definition validate_minor_consent :: "rules_settings \<Rightarrow> ymd \<Rightarrow> be_event \<Rightarrow> registration_request \<Rightarrow> (http_error, unit) result" where
  "validate_minor_consent settings today event data =
     (if \<not> st_consent_enforced settings then Inr ()
      else
        let age = age_on (rr_dob data) (age_basis today event)
        in if age \<ge> st_minor_age settings then Inr ()
           else refuse_if
             (\<not> (rr_guardianConsent data \<and> trim (or_else (rr_guardianName data) []) \<noteq> [] \<and>
                 trim (or_else (rr_guardianRelationship data) []) \<noteq> []))
             (raise_localized 422 ''GUARDIAN_CONSENT_REQUIRED''
                ''A parent or guardian's recorded consent is required to register a participant under 18.''
                [(''age'', JInt age), (''threshold'', JInt (st_minor_age settings))]))"

definition same_person :: "registration_request \<Rightarrow> be_participation \<Rightarrow> bool" where
  "same_person data p \<longleftrightarrow> bp_event p = rr_eventId data \<and> bp_family p = rr_family data \<and>
     bp_given p = rr_given data \<and> bp_dob p = rr_dob data"

definition check_duplicate :: "rules_db \<Rightarrow> registration_request \<Rightarrow> (http_error, unit) result" where
  "check_duplicate db data =
     refuse_if (list_ex (same_person data) (db_athletes db) \<or> list_ex (same_person data) (db_leaders db))
       (409, JObj [(''code'', JStr ''DUPLICATE_SUSPECT''),
          (''message'', JStr ''A participant with the same name and date of birth is already registered for this event.''),
          (''duplicate_suspect'', JBool True)])"

definition rows_where :: "('a \<Rightarrow> bool) \<Rightarrow> 'a list \<Rightarrow> int" where
  "rows_where P xs = int (length (filter P xs))"

definition validate_cap :: "rules_db \<Rightarrow> be_event \<Rightarrow> registration_request \<Rightarrow> (http_error, unit) result" where
  "validate_cap db event data =
     (case ev_cap event of
        None \<Rightarrow> Inr ()
      | Some cap \<Rightarrow>
          (let used_total = rows_where (\<lambda>p. bp_event p = rr_eventId data) (db_athletes db) +
                 rows_where (\<lambda>p. bp_event p = rr_eventId data) (db_leaders db)
           in refuse_if (used_total \<ge> cap)
                (raise_localized 409 ''PARTICIPANT_CAP_REACHED'' ''The event has reached its maximum participant capacity.''
                   [(''used'', JInt used_total), (''cap'', JInt cap)])))"

definition validate_eligibility :: "rules_db \<Rightarrow> registration_request \<Rightarrow> (http_error, unit) result" where
  "validate_eligibility db data =
     bind_r (one_or_none (filter (\<lambda>e. e = (rr_eventId data, rr_sportId data, rr_organizationId data)) (db_sport_orgs db)))
       (\<lambda>row. refuse_if (row = None)
          (raise_localized 403 ''SPORT_NOT_ELIGIBLE''
             ''This sport is not in your organization's survey selections for this event.'' []))"

definition validate_category :: "rules_db \<Rightarrow> registration_request \<Rightarrow> (http_error, unit) result" where
  "validate_category db data =
     (case rr_categoryId data of
        None \<Rightarrow> Inl (raise_localized 422 ''CATEGORY_INVALID'' ''An athlete must be assigned a category.'' [])
      | Some c \<Rightarrow>
          refuse_if (\<not> (case map_of (db_categories db) c of
                          None \<Rightarrow> False
                        | Some k \<Rightarrow> ct_event k = rr_eventId data \<and> ct_sport k = rr_sportId data))
            (raise_localized 422 ''CATEGORY_INVALID''
               ''The selected category does not exist for this sport in this event.'' []))"

definition validate_quota :: "rules_db \<Rightarrow> int option option \<Rightarrow> registration_request \<Rightarrow> (http_error, unit) result" where
  "validate_quota db config data =
     (case config of
        Some (Some q) \<Rightarrow>
          (let used = rows_where (\<lambda>p. bp_event p = rr_eventId data \<and> bp_sport p = rr_sportId data \<and>
                                    bp_org p = rr_organizationId data) (db_athletes db)
           in refuse_if (used \<ge> q)
                (raise_localized 409 ''QUOTA_FULL'' ''The athlete quota for this sport is full.''
                   [(''used'', JInt used), (''quota'', JInt q)]))
      | _ \<Rightarrow> Inr ())"

definition validate_team :: "rules_db \<Rightarrow> registration_request \<Rightarrow> (http_error, unit) result" where
  "validate_team db data =
     (case rr_teamId data of
        None \<Rightarrow> Inr ()
      | Some t \<Rightarrow>
          (case (case rr_categoryId data of
                   None \<Rightarrow> None
                 | Some c \<Rightarrow> (case map_of (db_categories db) c of None \<Rightarrow> None | Some k \<Rightarrow> ct_size_max k)) of
             None \<Rightarrow> Inl (raise_localized 422 ''TEAM_MODE_DISALLOWED'' ''This category does not allow team registration.'' [])
           | Some cat_max \<Rightarrow>
               if cat_max \<le> 1
               then Inl (raise_localized 422 ''TEAM_MODE_DISALLOWED'' ''This category does not allow team registration.'' [])
               else
                 (case map_of (db_teams db) t of
                    None \<Rightarrow> Inl (raise_localized 404 ''TEAM_NOT_FOUND'' ''Team not found.'' [])
                  | Some team \<Rightarrow>
                      if bt_event team \<noteq> rr_eventId data \<or> bt_sport team \<noteq> rr_sportId data
                      then Inl (raise_localized 422 ''TEAM_MISMATCH'' ''Team does not match the event/sport.'' [])
                      else if bt_org team \<noteq> rr_organizationId data
                      then Inl (raise_localized 422 ''TEAM_ORG_MISMATCH'' ''Team does not belong to your organization.'' [])
                      else if bt_category team \<noteq> rr_categoryId data
                      then Inl (raise_localized 422 ''TEAM_CATEGORY_MISMATCH''
                             ''The team belongs to a different category than this registration.'' [])
                      else refuse_if (rows_where (\<lambda>p. bp_team p = Some t) (db_athletes db) \<ge> cat_max)
                             (raise_localized 409 ''TEAM_FULL'' ''The team has reached its maximum size.''
                                [(''max'', JInt cat_max)]))))"

definition validate_athlete :: "rules_db \<Rightarrow> be_event \<Rightarrow> int option option \<Rightarrow> registration_request \<Rightarrow> (http_error, unit) result" where
  "validate_athlete db event config data =
     bind_r (validate_category db data) (\<lambda>_.
     bind_r (validate_age event (rr_dob data)) (\<lambda>_.
     bind_r (validate_quota db config data) (\<lambda>_. validate_team db data)))"

definition validate_registration ::
  "rules_settings \<Rightarrow> ymd \<Rightarrow> rules_db \<Rightarrow> registration_request \<Rightarrow> (http_error, unit) result" where
  "validate_registration settings today db data =
     (case map_of (db_events db) (rr_eventId data) of
        None \<Rightarrow> Inl (raise_localized 404 ''EVENT_NOT_FOUND'' ''Event not found.'' [])
      | Some event \<Rightarrow>
          bind_r (refuse_if (\<not> registration_is_open today event)
            (raise_localized 403 ''REGISTRATION_CLOSED'' ''Registration is not open for this event.'' [])) (\<lambda>_.
          bind_r (validate_cap db event data) (\<lambda>_.
          bind_r (validate_eligibility db data) (\<lambda>_.
          bind_r (one_or_none (map snd (filter (\<lambda>e. fst e = (rr_eventId data, rr_sportId data)) (db_sport_events db)))) (\<lambda>config.
          bind_r (if to_lower (rr_role data) = ''athlete'' then validate_athlete db event config data else Inr ()) (\<lambda>_.
          bind_r (validate_documents today event data) (\<lambda>_.
          bind_r (validate_minor_consent settings today event data) (\<lambda>_.
          if \<not> rr_force data then check_duplicate db data else Inr ()))))))))"


section \<open>What a refusal tells\<close>

text \<open>The reason a localized message gives, read off the request and the rows of the tables.\<close>

definition reason_holds :: "ymd \<Rightarrow> rules_db \<Rightarrow> registration_request \<Rightarrow> string \<Rightarrow> js \<Rightarrow> bool" where
  "reason_holds today db data c ps \<longleftrightarrow>
     (\<exists>event. map_of (db_events db) (rr_eventId data) = Some event \<and>
        (if c = ''REGISTRATION_CLOSED'' then \<not> registration_is_open today event
         else if c = ''SPORT_NOT_ELIGIBLE''
         then (rr_eventId data, rr_sportId data, rr_organizationId data) \<notin> set (db_sport_orgs db)
         else if c = ''CATEGORY_INVALID''
         then \<not> (\<exists>cid k. rr_categoryId data = Some cid \<and> map_of (db_categories db) cid = Some k \<and>
                      ct_event k = rr_eventId data \<and> ct_sport k = rr_sportId data)
         else if c = ''AGE_OUT_OF_RANGE''
         then (\<exists>lo hi v. ev_age_min event = Some lo \<and> ev_age_max event = Some hi \<and>
                 js_get ''min'' ps = JInt lo \<and> js_get ''max'' ps = JInt hi \<and> (v < lo \<or> hi < v) \<and>
                 (js_get ''mode'' ps = JStr ''BIRTH_YEAR'' \<and> v = fst (rr_dob data) \<or>
                  js_get ''mode'' ps = JStr ''EXACT_AGE'' \<and>
                    (\<exists>start. ev_start event = Some start \<and> v = age_on (rr_dob data) start)))
         else if c = ''DOCUMENT_REQUIRED''
         then js_get ''requires'' ps = JStr ''birth_certificate'' \<and> \<not> given (rr_birthCertificate data) \<or>
              js_get ''requires'' ps = JStr ''national_id_or_passport'' \<and>
                \<not> given (rr_nationalId data) \<and> \<not> given (rr_passport data)
         else c = ''QUOTA_FULL'' \<and>
              (\<exists>quota used. js_get ''used'' ps = JInt used \<and> js_get ''quota'' ps = JInt quota \<and> quota \<le> used \<and>
                 used = rows_where (\<lambda>p. bp_event p = rr_eventId data \<and> bp_sport p = rr_sportId data \<and>
                                      bp_org p = rr_organizationId data) (db_athletes db))))"

text \<open>A refusal no confirmation changes: one message, localized with its reason or the backend's text.\<close>

definition told :: "ymd \<Rightarrow> rules_db \<Rightarrow> registration_request \<Rightarrow> http_error \<Rightarrow> bool" where
  "told today db data err \<longleftrightarrow> fst err \<noteq> 401 \<and>
     (\<exists>e. register_on_error True (JObj [(''detail'', snd err)]) = Inr [e] \<and>
        (case e of
           LocalizedRoot c ps \<Rightarrow> c \<in> set LOCALIZED_CODES \<and> reason_holds today db data c ps
         | RootError m \<Rightarrow> (\<exists>t. m = JStr t \<and> t \<noteq> [])
         | _ \<Rightarrow> False))"

lemma localized_effect:
  "register_on_error True (JObj [(''detail'', snd (raise_localized s c m ps))]) =
     Inr [if c \<in> set LOCALIZED_CODES then LocalizedRoot c (JObj ps) else RootError (JStr m)]"
  by (cases ps) (simp_all add: register_on_error_def parseApiError_def raise_localized_def)

lemma told_localized:
  assumes "s \<noteq> 401" "c \<in> set LOCALIZED_CODES \<Longrightarrow> reason_holds today db data c (JObj ps)" "m \<noteq> []"
  shows "told today db data (raise_localized s c m ps)"
  using assms localized_effect[of s c m ps]
  by (cases "c \<in> set LOCALIZED_CODES") (auto simp: told_def raise_localized_def)

lemma told_server: "told today db data (500, JStr (a # t))"
  by (simp add: told_def register_on_error_def parseApiError_def plain_error_def)

lemma refuse_if_Inl [result_simps]: "refuse_if c e = Inl x \<longleftrightarrow> c \<and> x = e"
  by (auto simp: refuse_if_def)

lemma refuse_if_Inr [result_simps]: "refuse_if c e = Inr u \<longleftrightarrow> \<not> c"
  by (simp add: refuse_if_def)

lemma one_or_none_Inl: "one_or_none xs = Inl e \<Longrightarrow> told today db data e"
  by (auto simp: one_or_none_def told_server split: list.splits)

lemma one_or_none_None: "one_or_none xs = Inr None \<longleftrightarrow> xs = []"
  by (auto simp: one_or_none_def split: list.splits)

named_theorems rule_told \<open>each rule's refusal is told\<close>

lemma told_age [rule_told]:
  assumes "map_of (db_events db) (rr_eventId data) = Some event" "validate_age event (rr_dob data) = Inl e"
  shows "told today db data e"
  using assms
  by (auto simp: validate_age_def Let_def result_simps reason_holds_def intro!: told_localized
      split: option.splits age_mode.splits)

lemma told_documents [rule_told]:
  assumes "map_of (db_events db) (rr_eventId data) = Some event" "validate_documents today event data = Inl e"
  shows "told today db data e"
  using assms
  by (auto simp: validate_documents_def Let_def result_simps reason_holds_def intro!: told_localized split: if_splits)

lemma told_consent [rule_told]: "validate_minor_consent settings today event data = Inl e \<Longrightarrow> told today db data e"
  by (auto simp: validate_minor_consent_def Let_def result_simps LOCALIZED_CODES_def intro!: told_localized
      split: if_splits)

lemma told_cap [rule_told]: "validate_cap db event data = Inl e \<Longrightarrow> told today db data e"
  by (auto simp: validate_cap_def Let_def result_simps LOCALIZED_CODES_def intro!: told_localized
      split: option.splits)

lemma told_eligibility [rule_told]:
  assumes "map_of (db_events db) (rr_eventId data) = Some event" "validate_eligibility db data = Inl e"
  shows "told today db data e"
  using assms
  by (auto simp: validate_eligibility_def result_simps reason_holds_def one_or_none_None filter_empty_conv
      dest: one_or_none_Inl intro!: told_localized)

lemma told_category [rule_told]:
  assumes "map_of (db_events db) (rr_eventId data) = Some event" "validate_category db data = Inl e"
  shows "told today db data e"
  using assms
  by (auto simp: validate_category_def result_simps reason_holds_def intro!: told_localized split: option.splits)

lemma told_quota [rule_told]:
  assumes "map_of (db_events db) (rr_eventId data) = Some event" "validate_quota db config data = Inl e"
  shows "told today db data e"
  using assms
  by (auto simp: validate_quota_def Let_def result_simps reason_holds_def intro!: told_localized split: option.splits)

lemma told_team [rule_told]: "validate_team db data = Inl e \<Longrightarrow> told today db data e"
  by (auto simp: validate_team_def result_simps LOCALIZED_CODES_def intro!: told_localized
      split: option.splits if_splits)

lemma told_athlete [rule_told]:
  "map_of (db_events db) (rr_eventId data) = Some event \<Longrightarrow> validate_athlete db event config data = Inl e \<Longrightarrow>
     told today db data e"
  by (auto simp: validate_athlete_def result_simps dest: rule_told)

text \<open>Every rule but the last ignores the confirmation, so a confirmed request only skips the duplicates.\<close>

lemma force_category [simp]: "validate_category db (data\<lparr>rr_force := b\<rparr>) = validate_category db data"
  by (simp add: validate_category_def split: option.split)

lemma force_quota [simp]: "validate_quota db config (data\<lparr>rr_force := b\<rparr>) = validate_quota db config data"
  by (simp add: validate_quota_def split: option.split)

lemma force_team [simp]: "validate_team db (data\<lparr>rr_force := b\<rparr>) = validate_team db data"
  by (simp add: validate_team_def split: option.split)

lemma rules_ignore_force [simp]:
  "validate_cap db event (data\<lparr>rr_force := b\<rparr>) = validate_cap db event data"
  "validate_eligibility db (data\<lparr>rr_force := b\<rparr>) = validate_eligibility db data"
  "validate_athlete db event config (data\<lparr>rr_force := b\<rparr>) = validate_athlete db event config data"
  "validate_documents today event (data\<lparr>rr_force := b\<rparr>) = validate_documents today event data"
  "validate_minor_consent settings today event (data\<lparr>rr_force := b\<rparr>) = validate_minor_consent settings today event data"
  by (simp_all add: validate_cap_def validate_eligibility_def validate_athlete_def
      validate_documents_def validate_minor_consent_def cong: if_cong split: option.split)

lemma bind_r_assoc: "bind_r (bind_r m f) g = bind_r m (\<lambda>a. bind_r (f a) g)"
  by (cases m) simp_all

lemma validate_unforced:
  "validate_registration settings today db data =
     bind_r (validate_registration settings today db (data\<lparr>rr_force := True\<rparr>))
       (\<lambda>_. if \<not> rr_force data then check_duplicate db data else Inr ())"
  by (simp add: validate_registration_def bind_r_assoc cong: if_cong split: option.split)

lemma told_forced:
  assumes "validate_registration settings today db (data\<lparr>rr_force := True\<rparr>) = Inl e"
  shows "told today db data e"
proof (cases "map_of (db_events db) (rr_eventId data)")
  case None
  then show ?thesis using assms
    by (auto simp: validate_registration_def LOCALIZED_CODES_def intro!: told_localized)
next
  case (Some event)
  then show ?thesis using assms
    by (auto simp: validate_registration_def result_simps reason_holds_def intro!: told_localized
        dest: one_or_none_Inl rule_told split: if_splits)
qed

lemma duplicate_asks: "check_duplicate db data = Inl e \<Longrightarrow>
    fst e \<noteq> 401 \<and> register_on_error True (JObj [(''detail'', snd e)]) = Inr [AskDuplicate]"
  by (auto simp: check_duplicate_def result_simps register_on_error_def parseApiError_def)

lemma told_not_asked: "told today db data e \<Longrightarrow> register_on_error True (JObj [(''detail'', snd e)]) \<noteq> Inr [AskDuplicate]"
  by (auto simp: told_def)


section \<open>The dates of the two sides\<close>

text \<open>The wizard asks for the documents of the age today, the backend for those of the age on the first day of
  the event: they agree for an event without a start, and differ for who turns 18 in between.\<close>

lemma age_on_18: "age_on (y, m, d) day < 18 \<longleftrightarrow> day < (y + 18, m, d)"
  by (cases day) (auto simp: age_on_def)

theorem same_documents_without_start:
  assumes "we_ymd env (js_string v) = Some (y, m, d)" "truthy v" "ev_start event = None"
  shows "isUnder18 env v \<longleftrightarrow> age_on (y, m, d) (age_basis (we_today env) event) < 18"
  using assms by (simp add: isUnder18_calendar age_on_18 age_basis_def)

text \<open>Seventeen today with only a birth certificate: complete for the wizard, refused by the backend.\<close>

lemma documents_differ_by_event_day:
  fixes data :: registration_request
  assumes "rr_dob data = (2008, 6, 1)" "ev_start event = Some (2026, 7, 1)" "\<not> given (rr_nationalId data)"
    "\<not> given (rr_passport data)"
  shows "age_on (rr_dob data) (2026, 3, 1) < 18"
    "validate_documents (2026, 3, 1) event data = Inl (raise_localized 422 ''DOCUMENT_REQUIRED''
       ''A national ID or passport is required for participants 18 and older.''
       [(''requires'', JStr ''national_id_or_passport''), (''age'', JInt 18)])"
  using assms by (simp_all add: validate_documents_def age_basis_def age_on_def refuse_if_def)

section \<open>What the wizard shows of a refusal\<close>

lemma field_errors_marked:
  assumes "register_on_error b (JObj [(''detail'', JArr es)]) = Inr effs"
  shows "(\<forall>e \<in> set effs. \<exists>k m. e = FieldError k m) \<and>
    (\<forall>k. (\<exists>m. FieldError k m \<in> set effs) \<longleftrightarrow> (\<exists>x \<in> set es. err_loc x = Inr k))"
proof -
  obtain m where m: "field_map es [] = Inr m" "effs = map (\<lambda>(k, v). FieldError k v) m"
    using assms by (auto simp: register_on_error_def parseApiError_def plain_error_def result_simps)
  have "(\<exists>v. FieldError k v \<in> set effs) \<longleftrightarrow> k \<in> fst ` set m" for k
    unfolding m(2) by force
  then show ?thesis using field_map_keys[OF m(1)] m(2) by auto
qed

text \<open>C14. A registration the backend's rules refuse reaches the form as exactly one effect, for every
  request, every state of the tables and every day. The duplicate question is asked exactly when the name
  and birth date clash is all that stands in the way: the request was not yet confirmed, and the same
  request with force set passes every rule. Any other refusal would meet the confirmed request
  unchanged, and shows one message: a localized code with its placeholders, where the reason the text
  gives really holds of the request (the event is closed; the sport not selected; the category not one of
  the event's; the birth year or the age on the event's first day outside the bounds shown; the document
  named not given; the count shown, that of the organization's athletes, at the quota shown), or else the
  backend's own non-empty text. No refusal has the status 401 that would start a token refresh. A
  list of field errors marks exactly the fields it locates.\<close>

theorem register_error_effects:
  assumes "validate_registration settings today db data = Inl (status_code, d)"
  shows "status_code \<noteq> 401 \<and>
    (\<exists>e. register_on_error True (JObj [(''detail'', d)]) = Inr [e] \<and>
       (case e of
          AskDuplicate \<Rightarrow> \<not> rr_force data \<and>
            validate_registration settings today db (data\<lparr>rr_force := True\<rparr>) = Inr ()
        | LocalizedRoot c ps \<Rightarrow> c \<in> set LOCALIZED_CODES \<and> reason_holds today db data c ps \<and>
            validate_registration settings today db (data\<lparr>rr_force := True\<rparr>) = Inl (status_code, d)
        | RootError m \<Rightarrow> (\<exists>t. m = JStr t \<and> t \<noteq> []) \<and>
            validate_registration settings today db (data\<lparr>rr_force := True\<rparr>) = Inl (status_code, d)
        | FieldError k m \<Rightarrow> False)) \<and>
    (\<forall>es effs. register_on_error True (JObj [(''detail'', JArr es)]) = Inr effs \<longrightarrow>
       (\<forall>e \<in> set effs. \<exists>k m. e = FieldError k m) \<and>
       (\<forall>k. (\<exists>m. FieldError k m \<in> set effs) \<longleftrightarrow> (\<exists>x \<in> set es. err_loc x = Inr k)))"
proof -
  let ?forced = "validate_registration settings today db (data\<lparr>rr_force := True\<rparr>)"
  consider "?forced = Inl (status_code, d)" | "?forced = Inr ()" "\<not> rr_force data" "check_duplicate db data = Inl (status_code, d)"
    using assms validate_unforced[of settings today db data] by (cases ?forced) (auto split: if_splits)
  then have "status_code \<noteq> 401 \<and>
    (\<exists>e. register_on_error True (JObj [(''detail'', d)]) = Inr [e] \<and>
       (case e of
          AskDuplicate \<Rightarrow> \<not> rr_force data \<and> ?forced = Inr ()
        | LocalizedRoot c ps \<Rightarrow> c \<in> set LOCALIZED_CODES \<and> reason_holds today db data c ps \<and> ?forced = Inl (status_code, d)
        | RootError m \<Rightarrow> (\<exists>t. m = JStr t \<and> t \<noteq> []) \<and> ?forced = Inl (status_code, d)
        | FieldError k m \<Rightarrow> False))"
  proof cases
    case 1
    from told_forced[OF 1] obtain e where e: "status_code \<noteq> 401" "register_on_error True (JObj [(''detail'', d)]) = Inr [e]"
      "case e of LocalizedRoot c ps \<Rightarrow> c \<in> set LOCALIZED_CODES \<and> reason_holds today db data c ps
         | RootError m \<Rightarrow> (\<exists>t. m = JStr t \<and> t \<noteq> []) | _ \<Rightarrow> False"
      by (auto simp: told_def)
    then show ?thesis by (cases e) (simp_all add: 1)
  next
    case 2
    with duplicate_asks[OF 2(3)] show ?thesis by simp
  qed
  then show ?thesis using field_errors_marked[of True] by blast
qed

text \<open>An event whose one enrolled athlete is entered again, first without a document, then with it, then by
  someone else of the wrong age.\<close>

definition example_db :: rules_db where
  "example_db = \<lparr> db_events = [(1, \<lparr> ev_registration_status = Some PH_AUTO, ev_registration_open_date = Some (2026, 2, 1),
       ev_registration_close_date = Some (2026, 4, 30), ev_cap = Some 10, ev_age_mode = Some EXACT_AGE, ev_age_min = Some 18,
       ev_age_max = Some 25, ev_start = Some (2026, 7, 1) \<rparr>)],
     db_sport_orgs = [(1, 2, 3)], db_sport_events = [((1, 2), Some 5)],
     db_categories = [(4, \<lparr> ct_event = 1, ct_sport = 2, ct_size_max = None \<rparr>)], db_teams = [],
     db_athletes = [\<lparr> bp_event = 1, bp_sport = 2, bp_org = 3, bp_team = None, bp_family = ''Sok'', bp_given = ''Dara'',
       bp_dob = (2004, 5, 6) \<rparr>], db_leaders = [] \<rparr>"

definition example_request :: registration_request where
  "example_request = \<lparr> rr_eventId = 1, rr_organizationId = 3, rr_sportId = 2, rr_categoryId = Some 4, rr_teamId = None,
     rr_family = ''Sok'', rr_given = ''Dara'', rr_dob = (2004, 5, 6), rr_birthCertificate = None, rr_nationalId = Some ''id'',
     rr_passport = None, rr_role = ''athlete'', rr_force = False, rr_guardianConsent = False, rr_guardianName = None,
     rr_guardianRelationship = None \<rparr>"

definition example_settings :: rules_settings where
  "example_settings = \<lparr> st_consent_enforced = True, st_minor_age = 18 \<rparr>"

definition refusal :: "registration_request \<Rightarrow> http_error" where
  "refusal data = (case validate_registration example_settings (2026, 3, 1) example_db data of
     Inl e \<Rightarrow> e | Inr _ \<Rightarrow> (0, JUndef))"

lemma example_refused:
  "validate_registration example_settings (2026, 3, 1) example_db example_request = Inl (refusal example_request)"
  "validate_registration example_settings (2026, 3, 1) example_db (example_request\<lparr>rr_nationalId := None\<rparr>) =
     Inl (refusal (example_request\<lparr>rr_nationalId := None\<rparr>))"
  "validate_registration example_settings (2026, 3, 1) example_db (example_request\<lparr>rr_dob := (1990, 1, 2)\<rparr>) =
     Inl (refusal (example_request\<lparr>rr_dob := (1990, 1, 2)\<rparr>))"
  by code_simp+


theorem register_error_effects_witness:
  "validate_registration example_settings (2026, 3, 1) example_db (example_request\<lparr>rr_force := True\<rparr>) = Inr () \<and>
   register_on_error True (JObj [(''detail'', snd (refusal example_request))]) = Inr [AskDuplicate] \<and>
   (\<exists>ps. register_on_error True (JObj [(''detail'', snd (refusal (example_request\<lparr>rr_nationalId := None\<rparr>)))]) =
       Inr [LocalizedRoot ''DOCUMENT_REQUIRED'' ps] \<and>
     reason_holds (2026, 3, 1) example_db (example_request\<lparr>rr_nationalId := None\<rparr>) ''DOCUMENT_REQUIRED'' ps) \<and>
   (\<exists>ps. register_on_error True (JObj [(''detail'', snd (refusal (example_request\<lparr>rr_dob := (1990, 1, 2)\<rparr>)))]) =
       Inr [LocalizedRoot ''AGE_OUT_OF_RANGE'' ps] \<and>
     reason_holds (2026, 3, 1) example_db (example_request\<lparr>rr_dob := (1990, 1, 2)\<rparr>) ''AGE_OUT_OF_RANGE'' ps)"
proof (intro conjI)
  have asked: "register_on_error True (JObj [(''detail'', snd (refusal example_request))]) = Inr [AskDuplicate]"
    and docs: "\<exists>ps. register_on_error True (JObj [(''detail'', snd (refusal (example_request\<lparr>rr_nationalId := None\<rparr>)))]) =
      Inr [LocalizedRoot ''DOCUMENT_REQUIRED'' ps]"
    and age: "\<exists>ps. register_on_error True (JObj [(''detail'', snd (refusal (example_request\<lparr>rr_dob := (1990, 1, 2)\<rparr>)))]) =
      Inr [LocalizedRoot ''AGE_OUT_OF_RANGE'' ps]"
    by (rule exI[where x = "JObj [(''requires'', JStr ''national_id_or_passport''), (''age'', JInt 22)]"]
        exI[where x = "JObj [(''mode'', JStr ''EXACT_AGE''), (''min'', JInt 18), (''max'', JInt 25), (''value'', JInt 36)]"] | code_simp)+
  have split: "x = Inl e \<Longrightarrow> x = Inl (fst e, snd e)" for x :: "(http_error, unit) result" and e by simp
  note use = register_error_effects[OF split[OF example_refused(1)]]
    register_error_effects[OF split[OF example_refused(2)]] register_error_effects[OF split[OF example_refused(3)]]
  show "register_on_error True (JObj [(''detail'', snd (refusal example_request))]) = Inr [AskDuplicate]" by (rule asked)
  show "validate_registration example_settings (2026, 3, 1) example_db (example_request\<lparr>rr_force := True\<rparr>) = Inr ()"
    using use(1) asked by auto
  show "\<exists>ps. register_on_error True (JObj [(''detail'', snd (refusal (example_request\<lparr>rr_nationalId := None\<rparr>)))]) =
       Inr [LocalizedRoot ''DOCUMENT_REQUIRED'' ps] \<and>
     reason_holds (2026, 3, 1) example_db (example_request\<lparr>rr_nationalId := None\<rparr>) ''DOCUMENT_REQUIRED'' ps"
    using use(2) docs by auto
  show "\<exists>ps. register_on_error True (JObj [(''detail'', snd (refusal (example_request\<lparr>rr_dob := (1990, 1, 2)\<rparr>)))]) =
       Inr [LocalizedRoot ''AGE_OUT_OF_RANGE'' ps] \<and>
     reason_holds (2026, 3, 1) example_db (example_request\<lparr>rr_dob := (1990, 1, 2)\<rparr>) ''AGE_OUT_OF_RANGE'' ps"
    using use(3) age by auto
qed

end
