(* ===== verification/Spec2Isabelle.thy ===== *)
theory Spec2Isabelle
  imports Js_Prelude Js_Array Access_Control Web_Storage Token_Expiry Request_Headers Api_Client
    Js_Error Auth_Session Login_Flow Login_Page Zod Http Query_Cache Registration
    Form Step_Wizard Registration_Wizard Registration_Selection
    Open_Survey_Fields Open_Survey Ttl_Cache Survey_Steps Survey_By_Number Survey_By_Sport Survey_By_Category Review_Groups Review_Detail
    Event_Catalog Event_Pages Masks File_Upload Shared_Controls User_Admin Sport_Catalog Organizations
    Organizer_Registration Athlete_Import Portal_Shell Reports Participants Dashboard
    Access_Policy Site_Headers Identity_Cards Participation_Entry Survey_Board Registration_Views
    Registration_Rules
begin

text \<open>
  A model of the web front end of a national sports registration platform: the
  TypeScript program under frontend/src, which administrators, federations and
  organizations use to survey who takes part in an event, to register participants,
  and to review what was submitted. The program runs in a browser against a
  backend over HTTP. The backend, the browser's storage and clock and the npm packages are
  parameters; everything else below is translated from the source.

  Parts and their interaction.
  Every request leaves through one client (core/api), whose interceptors add
  headers, refresh the access token before it expires and after a 401, and announce the end of the
  session. The session (core/auth) is a reducer driven by the client's answers and that announcement;
  guards, sidebar and edge proxy read the role it holds. The pages call adapters, which
  send a request and parse the answer with a schema; schemas also validate the forms. Wizards
  collect a form step by step and hand it to an adapter. Query keys
  tie what a page shows to what a mutation makes stale.

  Theories and sources (paths below frontend/src).
  \<^item> Js_Prelude, Js_Array: the JavaScript values, strings, numbers, stable sort and list moves the
    source uses. Values of unknown type are the datatype js; an object is an association list.
  \<^item> Js_Error: errors as values, property reads that throw, spreading and string conversion.
  \<^item> Access_Control: roles, FEATURE_ACCESS, capabilities, guards, sidebar, proxy (core/auth, proxy.ts,
    modules/common, app/(portal)). A guard is a function of the session to what it renders
    or where it redirects; each page file says whether it has none, only redirects, or also holds its content back.
  \<^item> Web_Storage, Token_Expiry: localStorage with its failures, core/auth/tokenExpiry.ts.
  \<^item> Request_Headers, Api_Client: core/api/headers.ts, core/lib/logger, core/api/client.ts. The client is a
    step relation over concurrent requests, an interceptor that throws included; api_call is its sequential reading, and
    every settled run of a lone request in the same environment gives its result.
  \<^item> Auth_Session, Login_Flow, Login_Page: core/auth/context, services and mfa, useLogin and LoginForm with the steps of its page.
  \<^item> Zod: the schema language of the parser package as a datatype; its documented behaviour is the
    locale zod_parser, satisfied by the executable zparse.
  \<^item> Form, Step_Wizard, Survey_Steps: what the form library is asked to do, and the navigation of the
    wizards with the bounds on the step and on the furthest step reached.
  \<^item> Http, Query_Cache, Ttl_Cache: endpoints, backend and validated answers, query keys, the global
    mutation policy, and the five-minute cache of the survey adapters.
  \<^item> Registration, Registration_Wizard, Registration_Selection: modules/registration. The wizard has its dialogs, late
    answers and the confirmation of a duplicate as actions; the categories of a sport are answered once per chosen sport, and
    a lemma says what a late list changes. Registration_Rules: what the backend refuses a registration for
    (backend/app/application/participants/validation.py, errors.py), over tables as lists.
  \<^item> Open_Survey_Fields, Open_Survey: modules/opensurvey, the field builder and the fill form.
  \<^item> Survey_By_Number, Survey_By_Sport, Survey_By_Category: modules/bynumber, survey, bycategory.
  \<^item> Review_Groups, Review_Detail: modules/sportreview, categoryreview, participation.
  \<^item> Event_Catalog, Event_Pages: modules/events, the schemas, form, adapter and mutations, then the list, the
    page of an event and its panels of sports and organizations.
  \<^item> Sport_Catalog, Organizations, User_Admin: modules/sports, organizations and users, each with its
    schemas, mapper, adapter, mutations and pages.
  \<^item> Organizer_Registration, Athlete_Import: modules/organizers with the document check of the backend's
    organizer service, and modules/import.
  \<^item> Reports, Participants, Dashboard: modules/reports, the list, page and edit form of participants in
    modules/registration, and modules/dashboard, each with the backend code that answers it (report route, projection and update of a
    participant, dashboard queries over tables as lists), so that what a page shows is related to what is stored.
  \<^item> Access_Policy: the backend's policy engine with its rules (backend/app/domain/policies) and the gates of its routes
    (backend/src/database/deps.py). Site_Headers: the response headers and the rewrite of frontend/next.config.ts.
  \<^item> Identity_Cards, Participation_Entry, Survey_Board: modules/cards, the form of modules/participation that adds a
    participation, and the survey status board of modules/events, each with the backend route that answers it.
  \<^item> Registration_Views: the personal, review and roster screens of a registration and the tables of participants, as values.
  \<^item> Portal_Shell: modules/search, modules/notifications and shared/layout/TopBar.tsx.
  \<^item> Masks, File_Upload, Shared_Controls: shared/utils, core/lib/upload with shared/ui/file-upload.tsx, and
    the controls of shared/ui and shared/form that hold a state or take a decision.

  State and operations. A component's hooks and refs are the fields of a record, its handlers are
  functions to the next state, and what it sends is returned beside it. A page is a function from a user
  event or a late answer to the next state, with the controls disabled as the page disables them; runs
  over lists of such events are what the invariants quantify over. Asynchronous answers
  that the code does not cancel are events of their own and may come at any time.

  What the lemmas show. For the client: one refresh in flight, no request lost, sound session ends. For the
  session: a consistent state, restoring fails closed, sessions end only on a rejection. For access: unknown
  roles are locked out, the sidebar shows what the pages' guards do not redirect, the proxy sends anonymous visitors of
  the listed portal routes to the login page and does not loop. For the wizards: the last step is reached
  only with validated answers, selections belong together, payloads carry what was accepted, a refused registration is explained by a reason that holds,
  and a user posts only for its
  own organization or sport. For the open survey: the builder and the fill form agree on types, options and order. For the
  caches: freshness, rollback, prefix invalidation. For the reviews: groups partition the rows, and what is sent suits the row shown (with the one stale case
  of the by-category page).
  For the catalogue: what a form saved is what it shows when opened again, paging reaches every event, the counts and totals
  shown add up. For organizers and the import: requests are complete and name what was chosen, and why no organizer
  request is accepted. For reports, participants and the dashboard: what becomes of a report's request, that the edit form saves
  what it shows, and which part of the dashboard is an organization's own. For the backend's access policy: the engine is the
  role table, and its gates admit the users the frontend's capabilities name. For the site: what is never cached. For cards, participations and
  the board: which requests the routes can read, what they answer and what the page makes of it. For the
  registration screens: the review shows what is sent. For the shell and controls: the palette opens what it shows, the breadcrumb names what the cache has, uploads leave only
  valid addresses in a field, a confirmation is answered once.
  Each property is stated after a block with its number; its witness applies it to concrete data. The locales
  are the interfaces between components (comparator, storage_slot, zod_parser, key_filter, form_trigger, step_wizard, nav_wizard, status_counter,
  review_page, route_matcher, org_scoped_reads), each interpreted on the definitions that provide it.

  Bounds. The models run without fuel: loops of the source are structural recursions over lists. Ids and
  counts are integers and rationals; the source's doubles are exact for the ids and counts it handles, so rounding is not
  modelled. Paths of the edge proxy are ASCII, and the number texts are decimal literals without exponents.

  Not modelled. Markup, styling, translated texts and focus handling; the npm packages beyond the laws stated as
  interfaces; the backend, but for the parts named above; and modules/home, whose pages are static.
\<close>

end
